(* ===== verification/Prelude.thy ===== *)
theory Prelude
  imports Main
begin

text \<open>
  The prelude of the development: Python's exception classes with their inheritance, the
  result type of code that may raise, the state-and-exception monad of the code with effects,
  and the operations of Python's \<^verbatim>\<open>str\<close> the program uses.

  A Python string is a \<open>string\<close>: each \<open>char\<close> is one code point, so the model covers text
  whose code points are below 256 (this includes every C0 and C1 control character); a byte
  string is a \<open>string\<close> whose characters are the bytes.  Where the code has to work on all of
  Unicode (terminal output, the ANSI guard of the SSH channel) the theory concerned uses lists
  of natural numbers as code points instead.
\<close>

named_theorems effect_simps \<open>evaluation of the effect monad under \<open>post\<close>\<close>

named_theorems text_simps \<open>facts about Python strings\<close>

section \<open>Exceptions\<close>

datatype exc_class =
    BaseException | KeyboardInterrupt | Exception | ValueError | UnicodeDecodeError
  | UnicodeEncodeError | JSONDecodeError | OverflowError | RecursionError | RuntimeError
  | TypeError | KeyError | AttributeError | StopIteration | EOFError | OSError | FileNotFoundError
  | IsADirectoryError | TimeoutError | ConnectionError | SSLError | SSLCertVerificationError
  | URLError | HTTPError | InvalidSignature | UnsupportedAlgorithm | ExtensionNotFound
  | DuplicateExtension | VerificationError | SSHException | NetmikoAuthenticationException
  | NetmikoTimeoutException | ReadException
  | SecureFileError | LifecycleLockError | LifecycleLockBusy | LifecycleLockReleaseError
  | OPNsenseAPIError | DuplicateJSONKeyError | SSHOutputLimitError | SSHBannerLimitError
  | SSHBinaryPacketLimitError | CSRGenerationError | CertificateInstallationAttemptError
  | RenewalPreflightError | PendingCSRPreflightError | CSRGenerationPreAttemptError
  | CSRSigningError | CertificatePreInstallationError | LiveHTTPSVerificationError
  | ReleaseTagValidationError | PolicyError | SignatureError | InvalidReportError
  | CandidateError | SubprocessError | TimeoutExpired | TarError

text \<open>
  \<open>mro c\<close> lists a class and all its base classes, as \<^verbatim>\<open>isinstance\<close> and \<^verbatim>\<open>except\<close> see
  them.  Netmiko's two exceptions derive from Paramiko's \<^verbatim>\<open>SSHException\<close>, which is a plain
  \<^verbatim>\<open>Exception\<close>: neither a \<^verbatim>\<open>ValueError\<close> nor an \<^verbatim>\<open>OSError\<close>.
\<close>

fun mro :: "exc_class \<Rightarrow> exc_class list" where
  "mro BaseException = [BaseException]"
| "mro KeyboardInterrupt = [KeyboardInterrupt, BaseException]"
| "mro Exception = [Exception, BaseException]"
| "mro ValueError = [ValueError, Exception, BaseException]"
| "mro OSError = [OSError, Exception, BaseException]"
| "mro OverflowError = [OverflowError, Exception, BaseException]"
| "mro RuntimeError = [RuntimeError, Exception, BaseException]"
| "mro RecursionError = [RecursionError, RuntimeError, Exception, BaseException]"
| "mro TypeError = [TypeError, Exception, BaseException]"
| "mro KeyError = [KeyError, Exception, BaseException]"
| "mro AttributeError = [AttributeError, Exception, BaseException]"
| "mro StopIteration = [StopIteration, Exception, BaseException]"
| "mro EOFError = [EOFError, Exception, BaseException]"
| "mro FileNotFoundError = [FileNotFoundError, OSError, Exception, BaseException]"
| "mro IsADirectoryError = [IsADirectoryError, OSError, Exception, BaseException]"
| "mro TimeoutError = [TimeoutError, OSError, Exception, BaseException]"
| "mro ConnectionError = [ConnectionError, OSError, Exception, BaseException]"
| "mro SSLError = [SSLError, OSError, Exception, BaseException]"
| "mro SSLCertVerificationError =
     [SSLCertVerificationError, SSLError, OSError, ValueError, Exception, BaseException]"
| "mro URLError = [URLError, OSError, Exception, BaseException]"
| "mro HTTPError = [HTTPError, URLError, OSError, Exception, BaseException]"
| "mro InvalidSignature = [InvalidSignature, Exception, BaseException]"
| "mro UnsupportedAlgorithm = [UnsupportedAlgorithm, Exception, BaseException]"
| "mro ExtensionNotFound = [ExtensionNotFound, Exception, BaseException]"
| "mro DuplicateExtension = [DuplicateExtension, Exception, BaseException]"
| "mro VerificationError = [VerificationError, Exception, BaseException]"
| "mro SSHException = [SSHException, Exception, BaseException]"
| "mro TarError = [TarError, Exception, BaseException]"
| "mro SubprocessError = [SubprocessError, Exception, BaseException]"
| "mro TimeoutExpired = [TimeoutExpired, SubprocessError, Exception, BaseException]"
| "mro NetmikoAuthenticationException =
     [NetmikoAuthenticationException, SSHException, Exception, BaseException]"
| "mro NetmikoTimeoutException =
     [NetmikoTimeoutException, SSHException, Exception, BaseException]"
| "mro ReadException = [ReadException, Exception, BaseException]"
| "mro LifecycleLockBusy =
     [LifecycleLockBusy, LifecycleLockError, ValueError, Exception, BaseException]"
| "mro LifecycleLockReleaseError =
     [LifecycleLockReleaseError, LifecycleLockError, ValueError, Exception, BaseException]"
| "mro PendingCSRPreflightError =
     [PendingCSRPreflightError, RenewalPreflightError, ValueError, Exception, BaseException]"
| "mro c = [c, ValueError, Exception, BaseException]"

text \<open>An exception object: its class, its text (\<^verbatim>\<open>str(error)\<close>) and its \<^verbatim>\<open>errno\<close>, if any.\<close>

datatype exn = Exn (exn_class: exc_class) (exn_text: string) (exn_errno: "int option")

abbreviation new_exn :: "exc_class \<Rightarrow> string \<Rightarrow> exn" where
  "new_exn c t \<equiv> Exn c t None"

definition isinstance :: "exn \<Rightarrow> exc_class \<Rightarrow> bool" where
  "isinstance e c = (c \<in> set (mro (exn_class e)))"

lemma isinstance_Exn [simp]: "isinstance (Exn c t n) d = (d \<in> set (mro c))"
  by (simp add: isinstance_def)

text \<open>\<^verbatim>\<open>except (A, B)\<close>: the exception is an instance of one of the classes.\<close>

definition isinstance_any :: "exn \<Rightarrow> exc_class list \<Rightarrow> bool" where
  "isinstance_any e cs = list_ex (isinstance e) cs"

lemma isinstance_any_simps [simp]:
  "isinstance_any e [] = False"
  "isinstance_any e (c # cs) = (isinstance e c \<or> isinstance_any e cs)"
  by (simp_all add: isinstance_any_def)

text \<open>The program's own errors that no other class derives from.\<close>

lemma mro_leaf [simp]:
  "CSRGenerationError \<in> set (mro c) \<longleftrightarrow> c = CSRGenerationError"
  "CertificateInstallationAttemptError \<in> set (mro c) \<longleftrightarrow> c = CertificateInstallationAttemptError"
  "PendingCSRPreflightError \<in> set (mro c) \<longleftrightarrow> c = PendingCSRPreflightError"
  "CSRGenerationPreAttemptError \<in> set (mro c) \<longleftrightarrow> c = CSRGenerationPreAttemptError"
  "CSRSigningError \<in> set (mro c) \<longleftrightarrow> c = CSRSigningError"
  "CertificatePreInstallationError \<in> set (mro c) \<longleftrightarrow> c = CertificatePreInstallationError"
  "LiveHTTPSVerificationError \<in> set (mro c) \<longleftrightarrow> c = LiveHTTPSVerificationError"
  by (cases c; simp)+

lemma mro_ValueError_Exception:
  "ValueError \<in> set (mro c) \<Longrightarrow> Exception \<in> set (mro c)"
  by (cases c) simp_all

lemma isinstance_ValueErrorD: "isinstance e ValueError \<Longrightarrow> isinstance e Exception"
  by (simp add: isinstance_def mro_ValueError_Exception)

lemma mro_OSError_Exception: "OSError \<in> set (mro c) \<Longrightarrow> Exception \<in> set (mro c)"
  by (cases c) simp_all

lemma isinstance_OSErrorD: "isinstance e OSError \<Longrightarrow> isinstance e Exception"
  by (simp add: isinstance_def mro_OSError_Exception)

text \<open>Code that may raise and has no other effect.\<close>

type_synonym 'a res = "exn + 'a"

abbreviation value_error :: "string \<Rightarrow> 'a res" where
  "value_error t \<equiv> Inl (new_exn ValueError t)"

definition res_bind :: "'a res \<Rightarrow> ('a \<Rightarrow> 'b res) \<Rightarrow> 'b res" where
  "res_bind m f = (case m of Inl e \<Rightarrow> Inl e | Inr x \<Rightarrow> f x)"

lemma res_bind_simps [simp]:
  "res_bind (Inl e) f = Inl e"
  "res_bind (Inr x) f = f x"
  by (simp_all add: res_bind_def)

lemma res_bind_Inr_iff:
  "res_bind m f = Inr y \<longleftrightarrow> (\<exists>x. m = Inr x \<and> f x = Inr y)"
  by (cases m) simp_all

lemma res_bind_Inl_iff:
  "res_bind m f = Inl e \<longleftrightarrow> m = Inl e \<or> (\<exists>x. m = Inr x \<and> f x = Inl e)"
  by (cases m) simp_all

text \<open>\<^verbatim>\<open>if condition: raise error\<close> followed by the rest of the function.\<close>

definition raise_if :: "bool \<Rightarrow> exn \<Rightarrow> 'a res \<Rightarrow> 'a res" where
  "raise_if b e k = (if b then Inl e else k)"

lemma raise_if_Inr_iff [simp]: "raise_if b e k = Inr y \<longleftrightarrow> \<not> b \<and> k = Inr y"
  by (simp add: raise_if_def)

lemma raise_if_Inl_iff:
  "raise_if b e k = Inl x \<longleftrightarrow> (b \<and> x = e) \<or> (\<not> b \<and> k = Inl x)"
  by (auto simp: raise_if_def)

fun res_map :: "('a \<Rightarrow> 'b res) \<Rightarrow> 'a list \<Rightarrow> 'b list res" where
  "res_map f [] = Inr []"
| "res_map f (x # xs) =
     res_bind (f x) (\<lambda>y. res_bind (res_map f xs) (\<lambda>ys. Inr (y # ys)))"

lemma res_map_Inr_iff: "res_map f xs = Inr ys \<longleftrightarrow> list_all2 (\<lambda>x y. f x = Inr y) xs ys"
  by (induction xs arbitrary: ys) (auto simp: res_bind_Inr_iff list_all2_Cons1)

lemma res_map_member:
  "res_map f xs = Inr ys \<Longrightarrow> y \<in> set ys \<Longrightarrow> \<exists>x\<in>set xs. f x = Inr y"
  by (induction xs arbitrary: ys) (auto simp: res_bind_Inr_iff)

section \<open>Effects: state passing with exceptions\<close>

type_synonym ('s, 'a) eff = "'s \<Rightarrow> 'a res \<times> 's"

definition ret :: "'a \<Rightarrow> ('s, 'a) eff" where
  "ret x = (\<lambda>s. (Inr x, s))"

definition raise :: "exn \<Rightarrow> ('s, 'a) eff" where
  "raise e = (\<lambda>s. (Inl e, s))"

definition lift :: "'a res \<Rightarrow> ('s, 'a) eff" where
  "lift r = (\<lambda>s. (r, s))"

definition bind :: "('s, 'a) eff \<Rightarrow> ('a \<Rightarrow> ('s, 'b) eff) \<Rightarrow> ('s, 'b) eff" where
  "bind m f = (\<lambda>s. case m s of (Inl e, s') \<Rightarrow> (Inl e, s') | (Inr x, s') \<Rightarrow> f x s')"

definition seq :: "('s, unit) eff \<Rightarrow> ('s, 'b) eff \<Rightarrow> ('s, 'b) eff" where
  "seq m k = bind m (\<lambda>_. k)"

definition check :: "bool \<Rightarrow> exn \<Rightarrow> ('s, unit) eff" where
  "check b e = (if b then raise e else ret ())"

text \<open>
  \<^verbatim>\<open>try: m / except ... as error: h error\<close>: the handler is given every exception, and
  re-raises those its \<^verbatim>\<open>except\<close> clauses do not name.
\<close>

definition try_except :: "('s, 'a) eff \<Rightarrow> (exn \<Rightarrow> ('s, 'a) eff) \<Rightarrow> ('s, 'a) eff" where
  "try_except m h = (\<lambda>s. case m s of (Inl e, s') \<Rightarrow> h e s' | (Inr x, s') \<Rightarrow> (Inr x, s'))"

text \<open>
  \<^verbatim>\<open>try: m / finally: f\<close>: \<open>f\<close> runs in both cases and sees how the body ended; when \<open>f\<close>
  raises, its exception replaces the outcome.
\<close>

definition try_finally :: "('s, 'a) eff \<Rightarrow> (bool \<Rightarrow> ('s, unit) eff) \<Rightarrow> ('s, 'a) eff" where
  "try_finally m f = (\<lambda>s. case m s of (r, s') \<Rightarrow>
     (case f (case r of Inl e \<Rightarrow> True | Inr x \<Rightarrow> False) s' of
        (Inl e', s'') \<Rightarrow> (Inl e', s'') | (Inr _, s'') \<Rightarrow> (r, s'')))"

definition gets :: "('s \<Rightarrow> 'a) \<Rightarrow> ('s, 'a) eff" where
  "gets f = (\<lambda>s. (Inr (f s), s))"

definition modify :: "('s \<Rightarrow> 's) \<Rightarrow> ('s, unit) eff" where
  "modify f = (\<lambda>s. (Inr (), f s))"

text \<open>The outcome and final state of a run satisfy \<open>Q\<close>; it computes under \<open>effect_simps\<close>.\<close>

definition post :: "('s, 'a) eff \<Rightarrow> 's \<Rightarrow> ('a res \<Rightarrow> 's \<Rightarrow> bool) \<Rightarrow> bool" where
  "post m s Q = (case m s of (r, s') \<Rightarrow> Q r s')"

lemma post_run: "post m s Q \<Longrightarrow> m s = (r, s') \<Longrightarrow> Q r s'"
  by (simp add: post_def)

lemma postI: "(\<And>r s'. m s = (r, s') \<Longrightarrow> Q r s') \<Longrightarrow> post m s Q"
  by (simp add: post_def split: prod.split)

lemma post_mono: "post m s P \<Longrightarrow> (\<And>r s'. P r s' \<Longrightarrow> Q r s') \<Longrightarrow> post m s Q"
  by (auto simp: post_def)

lemma post_conj: "post m s P \<Longrightarrow> post m s Q \<Longrightarrow> post m s (\<lambda>r s'. P r s' \<and> Q r s')"
  by (auto simp: post_def)

lemma post_ret [effect_simps]: "post (ret x) s Q = Q (Inr x) s"
  by (simp add: post_def ret_def)

lemma post_raise [effect_simps]: "post (raise e) s Q = Q (Inl e) s"
  by (simp add: post_def raise_def)

lemma post_lift [effect_simps]: "post (lift r) s Q = Q r s"
  by (simp add: post_def lift_def)

lemma post_bind [effect_simps]:
  "post (bind m f) s Q =
     post m s (\<lambda>r s'. case r of Inl e \<Rightarrow> Q (Inl e) s' | Inr x \<Rightarrow> post (f x) s' Q)"
  by (simp add: post_def bind_def split: prod.split sum.split)

lemma post_seq [effect_simps]:
  "post (seq m k) s Q =
     post m s (\<lambda>r s'. case r of Inl e \<Rightarrow> Q (Inl e) s' | Inr x \<Rightarrow> post k s' Q)"
  by (simp add: seq_def post_bind)

lemma post_check [effect_simps]:
  "post (check b e) s Q = (if b then Q (Inl e) s else Q (Inr ()) s)"
  by (simp add: check_def post_raise post_ret)

lemma post_try_except [effect_simps]:
  "post (try_except m h) s Q =
     post m s (\<lambda>r s'. case r of Inl e \<Rightarrow> post (h e) s' Q | Inr x \<Rightarrow> Q (Inr x) s')"
  by (simp add: post_def try_except_def split: prod.split sum.split)

lemma post_try_finally [effect_simps]:
  "post (try_finally m f) s Q =
     post m s (\<lambda>r s'. post (f (case r of Inl e \<Rightarrow> True | Inr x \<Rightarrow> False)) s'
       (\<lambda>r' s''. case r' of Inl e' \<Rightarrow> Q (Inl e') s'' | Inr _ \<Rightarrow> Q r s''))"
  by (simp add: post_def try_finally_def split: prod.split sum.split)

lemma post_gets [effect_simps]: "post (gets f) s Q = Q (Inr (f s)) s"
  by (simp add: post_def gets_def)

lemma post_modify [effect_simps]: "post (modify f) s Q = Q (Inr ()) (f s)"
  by (simp add: post_def modify_def)

lemma post_if: "post (if b then m else k) s Q = (if b then post m s Q else post k s Q)"
  by simp

section \<open>Python strings\<close>

definition code :: "char \<Rightarrow> nat" where
  "code c = of_char c"

definition in_range :: "char \<Rightarrow> char \<Rightarrow> char \<Rightarrow> bool" where
  "in_range lo hi c = (code lo \<le> code c \<and> code c \<le> code hi)"

definition is_digit :: "char \<Rightarrow> bool" where
  "is_digit c = in_range CHR ''0'' CHR ''9'' c"

definition is_upper :: "char \<Rightarrow> bool" where
  "is_upper c = in_range CHR ''A'' CHR ''Z'' c"

definition is_lower :: "char \<Rightarrow> bool" where
  "is_lower c = in_range CHR ''a'' CHR ''z'' c"

definition is_alnum :: "char \<Rightarrow> bool" where
  "is_alnum c = (is_upper c \<or> is_lower c \<or> is_digit c)"

definition is_lower_hex :: "char \<Rightarrow> bool" where
  "is_lower_hex c = (is_digit c \<or> in_range CHR ''a'' CHR ''f'' c)"

text \<open>\<^verbatim>\<open>str.isspace\<close> and the regular expression class \<^verbatim>\<open>\s\<close>, below code point 256.\<close>

definition isspace :: "char \<Rightarrow> bool" where
  "isspace c = ((9 \<le> code c \<and> code c \<le> 13) \<or> (28 \<le> code c \<and> code c \<le> 32)
     \<or> code c = 133 \<or> code c = 160)"

definition newline :: char where
  "newline = CHR 0x0A"

definition carriage_return :: char where
  "carriage_return = CHR 0x0D"

definition nul :: char where
  "nul = CHR 0x00"

definition is_ascii_char :: "char \<Rightarrow> bool" where
  "is_ascii_char c = (code c < 128)"

definition isascii :: "string \<Rightarrow> bool" where
  "isascii s = list_all is_ascii_char s"

text \<open>A C0 control character or DEL, as the code's safe-text checks have it.\<close>

definition is_control :: "char \<Rightarrow> bool" where
  "is_control c = (code c < 32 \<or> code c = 127)"

definition lower_char :: "char \<Rightarrow> char" where
  "lower_char c = (if is_upper c then char_of (code c + 32) else c)"

text \<open>
  \<^verbatim>\<open>str.casefold\<close> below code point 256: the letters of ASCII and of Latin-1 (all but the
  multiplication sign), and the sharp s, which folds to two letters.  The micro sign folds to a
  Greek letter outside the model's range; it is left as it is, which keeps equality of folded
  strings, the only use the program makes of folding.
\<close>

definition casefold_char :: "char \<Rightarrow> string" where
  "casefold_char c =
     (if is_upper c then [char_of (code c + 32)]
      else if 192 \<le> code c \<and> code c \<le> 222 \<and> code c \<noteq> 215 then [char_of (code c + 32)]
      else if code c = 223 then ''ss''
      else [c])"

definition casefold :: "string \<Rightarrow> string" where
  "casefold s = concat (map casefold_char s)"

definition lower :: "string \<Rightarrow> string" where
  "lower s = map lower_char s"

definition lstrip :: "string \<Rightarrow> string" where
  "lstrip s = dropWhile isspace s"

definition rstrip :: "string \<Rightarrow> string" where
  "rstrip s = rev (dropWhile isspace (rev s))"

definition strip :: "string \<Rightarrow> string" where
  "strip s = rstrip (lstrip s)"

fun startswith :: "string \<Rightarrow> string \<Rightarrow> bool" where
  "startswith s [] = True"
| "startswith [] (p # ps) = False"
| "startswith (c # s) (p # ps) = (c = p \<and> startswith s ps)"

definition endswith :: "string \<Rightarrow> string \<Rightarrow> bool" where
  "endswith s p = startswith (rev s) (rev p)"

text \<open>\<^verbatim>\<open>s.split(sep)\<close> for a separator of one character: never the empty list.\<close>

fun split_on :: "'a \<Rightarrow> 'a list \<Rightarrow> 'a list list" where
  "split_on sep [] = [[]]"
| "split_on sep (c # s) =
     (if c = sep then [] # split_on sep s
      else (case split_on sep s of [] \<Rightarrow> [[c]] | p # ps \<Rightarrow> (c # p) # ps))"

text \<open>\<^verbatim>\<open>sep.join(parts)\<close>\<close>

fun join :: "'a list \<Rightarrow> 'a list list \<Rightarrow> 'a list" where
  "join sep [] = []"
| "join sep [p] = p"
| "join sep (p # ps) = p @ sep @ join sep ps"

text \<open>The length of the UTF-8 encoding, \<^verbatim>\<open>len(s.encode("utf-8"))\<close>.\<close>

definition utf8_len :: "string \<Rightarrow> nat" where
  "utf8_len s = sum_list (map (\<lambda>c. if is_ascii_char c then 1 else 2) s)"

text \<open>Decimal digits of a number, \<^verbatim>\<open>str(n)\<close>.\<close>

definition digit_char :: "nat \<Rightarrow> char" where
  "digit_char d = char_of (48 + d)"

fun str_nat :: "nat \<Rightarrow> string" where
  "str_nat n = (if n < 10 then [digit_char n] else str_nat (n div 10) @ [digit_char (n mod 10)])"

declare str_nat.simps [simp del]

definition str_int :: "int \<Rightarrow> string" where
  "str_int i = (if i < 0 then CHR ''-'' # str_nat (nat (- i)) else str_nat (nat i))"

lemma startswith_iff: "startswith s p \<longleftrightarrow> (\<exists>t. s = p @ t)"
  by (induction s p rule: startswith.induct) auto

lemma endswith_iff: "endswith s p \<longleftrightarrow> (\<exists>t. s = t @ p)"
proof -
  have "endswith s p \<longleftrightarrow> (\<exists>t. rev s = rev p @ t)"
    by (simp add: endswith_def startswith_iff)
  also have "\<dots> \<longleftrightarrow> (\<exists>t. s = t @ p)"
    by (metis rev_append rev_rev_ident)
  finally show ?thesis .
qed

lemma split_on_nonempty [simp]: "split_on sep s \<noteq> []"
  by (cases s) (auto split: list.splits)

lemma join_split_on: "join [sep] (split_on sep s) = s"
proof (induction s)
  case Nil
  then show ?case by simp
next
  case (Cons c s)
  show ?case
  proof (cases "c = sep")
    case True
    then show ?thesis
      using Cons by (cases "split_on sep s") simp_all
  next
    case False
    obtain p ps where "split_on sep s = p # ps"
      by (cases "split_on sep s") auto
    with Cons False show ?thesis by (cases ps) simp_all
  qed
qed

lemma split_on_no_sep: "p \<in> set (split_on sep s) \<Longrightarrow> sep \<notin> set p"
proof (induction s arbitrary: p)
  case Nil
  then show ?case by simp
next
  case (Cons c s)
  then show ?case by (cases "split_on sep s") (auto split: if_splits)
qed

lemma split_on_join:
  "ps \<noteq> [] \<Longrightarrow> (\<And>p. p \<in> set ps \<Longrightarrow> sep \<notin> set p) \<Longrightarrow> split_on sep (join [sep] ps) = ps"
proof (induction ps)
  case Nil
  then show ?case by simp
next
  case (Cons p ps)
  have one: "sep \<notin> set q \<Longrightarrow> split_on sep q = [q]" for q
    by (induction q) auto
  have app: "sep \<notin> set q \<Longrightarrow> split_on sep (q @ sep # t) = q # split_on sep t" for q t
    by (induction q) auto
  show ?case
    using Cons one app by (cases ps) simp_all
qed

lemma utf8_len_ascii: "isascii s \<Longrightarrow> utf8_len s = length s"
  by (induction s) (auto simp: isascii_def utf8_len_def)

lemma utf8_len_bounds: "length s \<le> utf8_len s \<and> utf8_len s \<le> 2 * length s"
  by (induction s) (auto simp: utf8_len_def)

lemma casefold_ascii_lower: "isascii s \<Longrightarrow> casefold s = lower s"
  by (induction s)
     (auto simp: isascii_def casefold_def lower_def casefold_char_def lower_char_def
        is_ascii_char_def)

section \<open>Texts and the values they denote\<close>

text \<open>
  The contract between a reader and a writer of one kind of value: the reader only returns
  values that are well formed, and reads back whatever the writer prints.  Its clients
  canonicalise a text by reading it and writing the result.
\<close>

locale text_form =
  fixes parse :: "string \<Rightarrow> 'a option"
    and unparse :: "'a \<Rightarrow> string"
    and good :: "'a \<Rightarrow> bool"
  assumes parse_wf: "parse s = Some x \<Longrightarrow> good x"
    and parse_unparse: "good x \<Longrightarrow> parse (unparse x) = Some x"
begin

lemma canonical_text_fixed:
  "parse s = Some x \<Longrightarrow> parse (unparse x) = Some x"
  using parse_wf parse_unparse by blast

lemma unparse_injective: "good x \<Longrightarrow> good y \<Longrightarrow> unparse x = unparse y \<Longrightarrow> x = y"
  by (metis option.inject parse_unparse)

lemma same_text_iff:
  "parse s = Some x \<Longrightarrow> parse t = Some y \<Longrightarrow> unparse x = unparse y \<longleftrightarrow> x = y"
  using parse_wf unparse_injective by blast

end

end
