(* ===== verification/Json.thy ===== *)
theory Json
  imports Prelude
begin

text \<open>
  JSON documents as Python sees them after \<^verbatim>\<open>json.loads\<close>, Python's equality on them, the
  duplicate-key hooks every parser of the program installs (\<^verbatim>\<open>object_pairs_hook\<close>), and
  \<^verbatim>\<open>json.dumps\<close> with \<^verbatim>\<open>ensure_ascii\<close>.  The text scanner of \<^verbatim>\<open>json.loads\<close> is the
  interpreter's: the definitions that parse text take it as an argument.
\<close>

text \<open>
  A finite float is \<open>JFloat m e\<close>, the IEEE value \<open>m\<close> times 2 to the power \<open>e\<close>; an object is the
  list of its pairs in document order.
\<close>

datatype json =
    JNull
  | JBool bool
  | JInt int
  | JFloat int int
  | JInf bool
  | JNaN
  | JStr string
  | JList "json list"
  | JObj "(string \<times> json) list"

fun is_str :: "json \<Rightarrow> bool" where
  "is_str (JStr s) = True"
| "is_str _ = False"

fun is_dict :: "json \<Rightarrow> bool" where
  "is_dict (JObj ps) = True"
| "is_dict _ = False"

fun is_list :: "json \<Rightarrow> bool" where
  "is_list (JList xs) = True"
| "is_list _ = False"

text \<open>\<^verbatim>\<open>d.get(key)\<close>, and \<^verbatim>\<open>d.get(key, default)\<close>, on an object.\<close>

definition dict_get :: "(string \<times> json) list \<Rightarrow> string \<Rightarrow> json" where
  "dict_get ps k = (case map_of ps k of None \<Rightarrow> JNull | Some v \<Rightarrow> v)"

definition dict_get_default :: "(string \<times> json) list \<Rightarrow> string \<Rightarrow> json \<Rightarrow> json" where
  "dict_get_default ps k d = (case map_of ps k of None \<Rightarrow> d | Some v \<Rightarrow> v)"

definition keys :: "(string \<times> json) list \<Rightarrow> string set" where
  "keys ps = set (map fst ps)"

text \<open>\<^verbatim>\<open>bool(value)\<close>\<close>

fun truthy :: "json \<Rightarrow> bool" where
  "truthy JNull = False"
| "truthy (JBool b) = b"
| "truthy (JInt i) = (i \<noteq> 0)"
| "truthy (JFloat m e) = (m \<noteq> 0)"
| "truthy (JInf s) = True"
| "truthy JNaN = True"
| "truthy (JStr s) = (s \<noteq> [])"
| "truthy (JList xs) = (xs \<noteq> [])"
| "truthy (JObj ps) = (ps \<noteq> [])"

text \<open>
  Python's \<^verbatim>\<open>==\<close>: booleans are the integers 0 and 1, an integer equals a float of the same
  value, NaN equals nothing, lists compare element by element, and dictionaries have the same
  keys with equal values.
\<close>

definition scaled_eq :: "int \<Rightarrow> int \<Rightarrow> int \<Rightarrow> int \<Rightarrow> bool" where
  "scaled_eq m e n f = (let k = min e f in m * 2 ^ nat (e - k) = n * 2 ^ nat (f - k))"

fun as_number :: "json \<Rightarrow> (int \<times> int) option" where
  "as_number (JBool b) = Some (if b then 1 else 0, 0)"
| "as_number (JInt i) = Some (i, 0)"
| "as_number (JFloat m e) = Some (m, e)"
| "as_number _ = None"

definition num_eq :: "int \<Rightarrow> int \<Rightarrow> json \<Rightarrow> bool" where
  "num_eq m e y = (case as_number y of None \<Rightarrow> False | Some (n, f) \<Rightarrow> scaled_eq m e n f)"

fun py_eq :: "json \<Rightarrow> json \<Rightarrow> bool"
and list_eq :: "json list \<Rightarrow> json list \<Rightarrow> bool"
and pairs_eq :: "(string \<times> json) list \<Rightarrow> (string \<times> json) list \<Rightarrow> bool" where
  "py_eq JNull y = (y = JNull)"
| "py_eq (JBool b) y = num_eq (if b then 1 else 0) 0 y"
| "py_eq (JInt i) y = num_eq i 0 y"
| "py_eq (JFloat m e) y = num_eq m e y"
| "py_eq (JInf s) y = (y = JInf s)"
| "py_eq JNaN y = False"
| "py_eq (JStr a) y = (y = JStr a)"
| "py_eq (JList xs) y = (case y of JList ys \<Rightarrow> list_eq xs ys | _ \<Rightarrow> False)"
| "py_eq (JObj ps) y =
     (case y of JObj qs \<Rightarrow> length ps = length qs \<and> pairs_eq ps qs | _ \<Rightarrow> False)"
| "list_eq [] ys = (ys = [])"
| "list_eq (x # xs) ys = (case ys of [] \<Rightarrow> False | y # ys' \<Rightarrow> py_eq x y \<and> list_eq xs ys')"
| "pairs_eq [] qs = True"
| "pairs_eq ((k, v) # ps) qs =
     ((case map_of qs k of None \<Rightarrow> False | Some w \<Rightarrow> py_eq v w) \<and> pairs_eq ps qs)"

lemma py_eq_JStr_iff [simp]: "py_eq x (JStr b) \<longleftrightarrow> x = JStr b"
  by (cases x) (auto simp: num_eq_def)

section \<open>Duplicate keys\<close>

text \<open>
  \<open>reject_duplicates e\<close> is the effect of an \<^verbatim>\<open>object_pairs_hook\<close> that raises \<open>e\<close> at a repeated
  key: the scanner calls it for every object of the document.
\<close>

fun unique_keys :: "json \<Rightarrow> bool" where
  "unique_keys (JList xs) = list_all unique_keys xs"
| "unique_keys (JObj ps) = (distinct (map fst ps) \<and> list_all (\<lambda>p. unique_keys (snd p)) ps)"
| "unique_keys _ = True"

text \<open>The hook itself, as the loop over the pairs of one object has it.\<close>

fun object_from_pairs ::
  "exn \<Rightarrow> (string \<times> json) list \<Rightarrow> (string \<times> json) list \<Rightarrow> (string \<times> json) list res" where
  "object_from_pairs e result [] = Inr result"
| "object_from_pairs e result ((key, val) # pairs) =
     (if key \<in> keys result then Inl e else object_from_pairs e (result @ [(key, val)]) pairs)"

lemma object_from_pairs_iff:
  "distinct (map fst result) \<Longrightarrow>
     object_from_pairs e result pairs =
       (if distinct (map fst (result @ pairs)) then Inr (result @ pairs) else Inl e)"
proof (induction pairs arbitrary: result)
  case Nil
  then show ?case by simp
next
  case (Cons p pairs)
  obtain k v where p: "p = (k, v)" by (cases p)
  show ?case
  proof (cases "k \<in> keys result")
    case True
    then show ?thesis by (auto simp: p keys_def)
  next
    case False
    with Cons.prems have "distinct (map fst (result @ [(k, v)]))"
      by (auto simp: keys_def)
    from Cons.IH [OF this] False show ?thesis by (simp add: p)
  qed
qed

fun reject_duplicates :: "exn \<Rightarrow> json \<Rightarrow> json res"
and reject_in_list :: "exn \<Rightarrow> json list \<Rightarrow> json list res"
and reject_in_pairs :: "exn \<Rightarrow> (string \<times> json) list \<Rightarrow> (string \<times> json) list res" where
  "reject_duplicates e JNull = Inr JNull"
| "reject_duplicates e (JBool b) = Inr (JBool b)"
| "reject_duplicates e (JInt i) = Inr (JInt i)"
| "reject_duplicates e (JFloat m x) = Inr (JFloat m x)"
| "reject_duplicates e (JInf s) = Inr (JInf s)"
| "reject_duplicates e JNaN = Inr JNaN"
| "reject_duplicates e (JStr s) = Inr (JStr s)"
| "reject_duplicates e (JList xs) =
     res_bind (reject_in_list e xs) (\<lambda>ys. Inr (JList ys))"
| "reject_duplicates e (JObj ps) =
     res_bind (reject_in_pairs e ps) (\<lambda>qs.
     res_bind (object_from_pairs e [] qs) (\<lambda>ds. Inr (JObj ds)))"
| "reject_in_list e [] = Inr []"
| "reject_in_list e (x # xs) =
     res_bind (reject_duplicates e x) (\<lambda>y.
     res_bind (reject_in_list e xs) (\<lambda>ys. Inr (y # ys)))"
| "reject_in_pairs e [] = Inr []"
| "reject_in_pairs e ((k, v) # ps) =
     res_bind (reject_duplicates e v) (\<lambda>w.
     res_bind (reject_in_pairs e ps) (\<lambda>qs. Inr ((k, w) # qs)))"

text \<open>The hook accepts exactly the documents without a repeated key, and changes nothing.\<close>

lemma reject_duplicates_iff:
  "reject_duplicates e j = (if unique_keys j then Inr j else Inl e)"
  "reject_in_list e xs = (if list_all unique_keys xs then Inr xs else Inl e)"
  "reject_in_pairs e ps = (if list_all (\<lambda>p. unique_keys (snd p)) ps then Inr ps else Inl e)"
  by (induction e j and e xs and e ps
        rule: reject_duplicates_reject_in_list_reject_in_pairs.induct)
     (simp_all add: object_from_pairs_iff)

section \<open>Serialisation\<close>

definition hex_digit :: "nat \<Rightarrow> char" where
  "hex_digit d = (if d < 10 then char_of (48 + d) else char_of (87 + d))"

text \<open>One character of a string under \<^verbatim>\<open>ensure_ascii\<close>.\<close>

definition escape_char :: "char \<Rightarrow> string" where
  "escape_char c =
     (if c = CHR 0x22 then [CHR 0x5C, CHR 0x22]
      else if c = CHR 0x5C then [CHR 0x5C, CHR 0x5C]
      else if code c = 10 then [CHR 0x5C, CHR ''n'']
      else if code c = 13 then [CHR 0x5C, CHR ''r'']
      else if code c = 9 then [CHR 0x5C, CHR ''t'']
      else if code c = 8 then [CHR 0x5C, CHR ''b'']
      else if code c = 12 then [CHR 0x5C, CHR ''f'']
      else if code c < 32 \<or> 126 < code c then
        [CHR 0x5C, CHR ''u'', CHR ''0'', CHR ''0'',
         hex_digit (code c div 16), hex_digit (code c mod 16)]
      else [c])"

definition quoted :: "string \<Rightarrow> string" where
  "quoted s = CHR 0x22 # concat (map escape_char s) @ [CHR 0x22]"

text \<open>
  \<^verbatim>\<open>json.dumps\<close> of a document without floats, with the item and key separators given.  The
  program serialises no float; one is written as an empty string here.
\<close>

fun dumps :: "string \<Rightarrow> string \<Rightarrow> json \<Rightarrow> string"
and dumps_list :: "string \<Rightarrow> string \<Rightarrow> json list \<Rightarrow> string list"
and dumps_pairs :: "string \<Rightarrow> string \<Rightarrow> (string \<times> json) list \<Rightarrow> string list" where
  "dumps sep ksep JNull = ''null''"
| "dumps sep ksep (JBool b) = (if b then ''true'' else ''false'')"
| "dumps sep ksep (JInt i) = str_int i"
| "dumps sep ksep (JStr s) = quoted s"
| "dumps sep ksep (JList xs) = ''['' @ join sep (dumps_list sep ksep xs) @ '']''"
| "dumps sep ksep (JObj ps) = ''{'' @ join sep (dumps_pairs sep ksep ps) @ ''}''"
| "dumps sep ksep _ = []"
| "dumps_list sep ksep [] = []"
| "dumps_list sep ksep (x # xs) = dumps sep ksep x # dumps_list sep ksep xs"
| "dumps_pairs sep ksep [] = []"
| "dumps_pairs sep ksep ((k, v) # ps) =
     (quoted k @ ksep @ dumps sep ksep v) # dumps_pairs sep ksep ps"

definition is_printable_ascii :: "char \<Rightarrow> bool" where
  "is_printable_ascii c = (32 \<le> code c \<and> code c \<le> 126)"

lemma code_char_of [simp]: "n < 256 \<Longrightarrow> code (char_of n) = n"
  by (simp add: code_def)

lemma code_less [simp]: "code c < 256"
  by (simp add: code_def)

lemma printable_hex_digit: "d < 16 \<Longrightarrow> is_printable_ascii (hex_digit d)"
  by (simp add: is_printable_ascii_def hex_digit_def)

lemma printable_escape_char: "list_all is_printable_ascii (escape_char c)"
proof -
  have "code c div 16 < 16" using code_less [of c] by arith
  then show ?thesis
    by (auto simp: escape_char_def printable_hex_digit)
       (auto simp: is_printable_ascii_def code_def)
qed

lemma printable_quoted: "list_all is_printable_ascii (quoted s)"
proof -
  have "list_all is_printable_ascii (concat (map escape_char s))"
    by (induction s) (simp_all add: printable_escape_char)
  then show ?thesis by (simp add: quoted_def) (simp add: is_printable_ascii_def code_def)
qed

lemma printable_str_nat: "list_all is_printable_ascii (str_nat n)"
proof (induction n rule: str_nat.induct)
  case (1 n)
  have digit: "d < 10 \<Longrightarrow> is_printable_ascii (digit_char d)" for d
    by (simp add: digit_char_def is_printable_ascii_def)
  show ?case
    using 1 digit [of n] digit [of "n mod 10"] by (subst str_nat.simps) simp
qed

lemma printable_join:
  "list_all is_printable_ascii sep \<Longrightarrow> list_all (list_all is_printable_ascii) xs \<Longrightarrow>
     list_all is_printable_ascii (join sep xs)"
  by (induction sep xs rule: join.induct) simp_all

text \<open>Serialised documents are one line of printable ASCII.\<close>

lemma printable_dumps:
  assumes "list_all is_printable_ascii sep" and "list_all is_printable_ascii ksep"
  shows "list_all is_printable_ascii (dumps sep ksep j)"
    and "list_all (list_all is_printable_ascii) (dumps_list sep ksep xs)"
    and "list_all (list_all is_printable_ascii) (dumps_pairs sep ksep ps)"
  using assms
  by (induction sep ksep j and sep ksep xs and sep ksep ps
        rule: dumps_dumps_list_dumps_pairs.induct)
     (simp_all add: printable_quoted printable_str_nat printable_join str_int_def
        is_printable_ascii_def [of "char.Char _ _ _ _ _ _ _ _"] code_def)

end
