(* ===== verification/ConnectionPolicy.thy ===== *)
theory ConnectionPolicy
  imports Json
begin

text \<open>
  The settings of the program's connections: the TLS context (\<^verbatim>\<open>src/tls_policy.py\<close>), the parameters of an SSH
  connection and the addresses the resolver process passes on (\<^verbatim>\<open>src/aruba_cert_renewer.py\<close>), and the timeout
  of a request (\<^verbatim>\<open>src/opnsense_client.py\<close>).  The default context of \<^verbatim>\<open>ssl\<close> and the answer of
  \<^verbatim>\<open>getaddrinfo\<close> are parameters.
\<close>

section \<open>TLS\<close>

datatype tls_version = TLSv1 | TLSv1_1 | TLSv1_2 | TLSv1_3

datatype verification = CERT_NONE | CERT_OPTIONAL | CERT_REQUIRED

record tls_settings =
  check_hostname :: bool
  verify_mode :: verification
  minimum_version :: tls_version

definition create_client_tls_context ::
  "(string option \<Rightarrow> tls_settings res) \<Rightarrow> string option \<Rightarrow> tls_settings res" where
  "create_client_tls_context create_default_context cadata =
     res_bind (create_default_context cadata) (\<lambda>default.
       let created = default\<lparr>minimum_version := TLSv1_2\<rparr> in
       raise_if (\<not> check_hostname created \<or> verify_mode created \<noteq> CERT_REQUIRED)
         (new_exn RuntimeError ''TLS client verification context is not securely configured'')
         (Inr created))"

text \<open>A context that is used checks the name and the chain of the peer, and has the protocol floor.\<close>

lemma created_context_verifies:
  "create_client_tls_context create_default_context cadata = Inr created \<Longrightarrow>
     check_hostname created \<and> verify_mode created = CERT_REQUIRED \<and> minimum_version created = TLSv1_2"
  by (auto simp: create_client_tls_context_def res_bind_Inr_iff Let_def)

section \<open>SSH\<close>

definition SSH_DISABLED_ALGORITHMS :: "(string \<times> string list) list" where
  "SSH_DISABLED_ALGORITHMS =
     [(''ciphers'', [''aes128-cbc'', ''aes192-cbc'', ''aes256-cbc'', ''3des-cbc'']),
      (''macs'', [''hmac-sha1'', ''hmac-sha1-96'', ''hmac-md5'', ''hmac-md5-96'']),
      (''kex'', [''diffie-hellman-group-exchange-sha1'', ''diffie-hellman-group14-sha1'',
        ''diffie-hellman-group1-sha1'']),
      (''keys'', [''ssh-rsa'']),
      (''pubkeys'', [''ssh-rsa''])]"

record device_parameters =
  device_type :: string
  device_host :: string
  device_username :: string
  device_password :: string
  conn_timeout :: int
  banner_timeout :: int
  auth_timeout :: int
  ssh_strict :: bool
  system_host_keys :: bool
  alt_host_keys :: bool
  alt_key_file :: string
  disabled_algorithms :: "(string \<times> string list) list"

definition get_device_parameters :: "string \<Rightarrow> string \<Rightarrow> string \<Rightarrow> string \<Rightarrow> device_parameters" where
  "get_device_parameters host username password snapshot =
     \<lparr>device_type = ''aruba_osswitch'', device_host = host, device_username = username, device_password = password,
      conn_timeout = 10, banner_timeout = 15, auth_timeout = 15, ssh_strict = True, system_host_keys = False,
      alt_host_keys = True, alt_key_file = snapshot, disabled_algorithms = SSH_DISABLED_ALGORITHMS\<rparr>"

text \<open>Every CBC cipher of the transport is disabled.\<close>

lemma weak_algorithms_disabled:
  "\<exists>algorithms. map_of (disabled_algorithms (get_device_parameters h u p s)) ''ciphers'' = Some algorithms \<and>
     {''aes128-cbc'', ''aes192-cbc'', ''aes256-cbc'', ''3des-cbc''} \<subseteq> set algorithms"
  by (simp add: get_device_parameters_def SSH_DISABLED_ALGORITHMS_def)

section \<open>Addresses of a host\<close>

datatype address_family = AF_INET | AF_INET6 | OtherFamily

record 'a address_info =
  family :: address_family
  is_stream :: bool
  sockaddr :: 'a

text \<open>The loop of \<^verbatim>\<open>_resolve_hostname_worker\<close>, with the addresses so far.\<close>

fun keep_addresses :: "(address_family \<times> 'a) list \<Rightarrow> 'a address_info list \<Rightarrow> (address_family \<times> 'a) list" where
  "keep_addresses addresses [] = addresses"
| "keep_addresses addresses (info # results) =
     (if family info \<in> {AF_INET, AF_INET6} \<and> is_stream info then
        (let extended = addresses @ [(family info, sockaddr info)] in
         if length extended = 16 then extended else keep_addresses extended results)
      else keep_addresses addresses results)"

definition resolve_hostname_worker ::
  "'a address_info list res \<Rightarrow> ((address_family \<times> 'a) list \<Rightarrow> unit res) \<Rightarrow> unit res" where
  "resolve_hostname_worker results send =
     (case res_bind results (\<lambda>infos. send (keep_addresses [] infos)) of
        Inl e \<Rightarrow> if isinstance_any e [OSError, OverflowError] then send [] else Inl e
      | Inr u \<Rightarrow> Inr u)"

definition usable :: "'a address_info \<Rightarrow> bool" where
  "usable info = (family info \<in> {AF_INET, AF_INET6} \<and> is_stream info)"

text \<open>The first sixteen usable addresses are passed on.\<close>

lemma keep_addresses_take:
  "length addresses < 16 \<Longrightarrow> keep_addresses addresses results =
     take 16 (addresses @ map (\<lambda>info. (family info, sockaddr info)) (filter usable results))"
  by (induction addresses results rule: keep_addresses.induct) (auto simp: usable_def Let_def)

section \<open>The timeout of a request\<close>

text \<open>
  \<^verbatim>\<open>math.isfinite\<close> converts an integer to a float: one that rounds to \<open>2 ^ 1024\<close> or beyond overflows.
\<close>

definition fits_float :: "int \<Rightarrow> bool" where
  "fits_float i = (\<bar>i\<bar> < 2 ^ 1024 - 2 ^ 970)"

definition validate_timeout :: "json \<Rightarrow> json res" where
  "validate_timeout timeout =
     (let valid = (case timeout of
          JInt i \<Rightarrow> fits_float i \<and> i > 0
        | JFloat m x \<Rightarrow> m > 0
        | _ \<Rightarrow> False)
      in if valid then Inr timeout else value_error ''OPNsense timeout must be a positive finite number'')"

lemma default_timeout_valid: "validate_timeout (JInt 30) = Inr (JInt 30)"
proof -
  have "(30::int) < 2 ^ 970" by (rule less_le_trans [of _ "2 ^ 5"], simp, rule power_increasing, simp, simp)
  moreover have "(2::int) ^ 970 + 2 ^ 970 \<le> 2 ^ 1024"
    by (subst mult_2 [symmetric], subst power_Suc [symmetric]) (rule power_increasing, simp_all del: power_numeral)
  ultimately show ?thesis by (simp add: validate_timeout_def fits_float_def del: power_numeral)
qed

end
