(* ===== verification/RunResult.thy ===== *)
theory RunResult
  imports Json
begin

text \<open>
  \<^verbatim>\<open>src/run_result.py\<close>: the version 1 structured result of one invocation.  A \<open>switch_result\<close>
  is the report on one switch, a \<open>run_result\<close> the aggregate; \<open>finish\<close> folds the former into the
  latter, \<open>run_as_dict\<close> and \<open>to_json\<close> render it.
\<close>

datatype outcome =
    SUCCESS_CHANGED | SUCCESS_NO_CHANGE | SUCCESS_PREPARED | ATTENTION_DUE
  | FAILURE_PRE_ATTEMPT | FAILURE_PARTIAL | FAILURE_AMBIGUOUS

datatype stage =
    STARTUP | CONFIGURATION | LOCK | INSPECTION | DECISION | PREFLIGHT | CSR_GENERATION
  | CSR_RETRIEVAL | SIGNING | ISSUED_VALIDATION | INSTALLATION | ACTIVATION
  | LIVE_VERIFICATION | FINALIZATION | COMPLETED

datatype milestone = NOT_ATTEMPTED | CONFIRMED | FAILED | UNCERTAIN | NOT_APPLICABLE

datatype change = NO_CHANGE | CHANGE_CONFIRMED | CHANGE_POSSIBLE

datatype reason =
    CONFIG_INVALID | LOCK_BUSY | LOCK_FAILED | PENDING_STATE | INSPECTION_FAILED | CSR_FAILED
  | SIGNING_FAILED | VALIDATION_FAILED | INSTALLATION_FAILED | VERIFICATION_FAILED
  | RECOVERY_REQUIRED | UNEXPECTED_FAILURE

text \<open>The string values of the \<^verbatim>\<open>StrEnum\<close> classes.\<close>

fun outcome_value :: "outcome \<Rightarrow> string" where
  "outcome_value SUCCESS_CHANGED = ''success_changed''"
| "outcome_value SUCCESS_NO_CHANGE = ''success_no_change''"
| "outcome_value SUCCESS_PREPARED = ''success_prepared''"
| "outcome_value ATTENTION_DUE = ''attention_due''"
| "outcome_value FAILURE_PRE_ATTEMPT = ''failure_pre_attempt''"
| "outcome_value FAILURE_PARTIAL = ''failure_partial''"
| "outcome_value FAILURE_AMBIGUOUS = ''failure_ambiguous''"

fun stage_value :: "stage \<Rightarrow> string" where
  "stage_value STARTUP = ''startup''"
| "stage_value CONFIGURATION = ''configuration''"
| "stage_value LOCK = ''lock''"
| "stage_value INSPECTION = ''inspection''"
| "stage_value DECISION = ''decision''"
| "stage_value PREFLIGHT = ''preflight''"
| "stage_value CSR_GENERATION = ''csr_generation''"
| "stage_value CSR_RETRIEVAL = ''csr_retrieval''"
| "stage_value SIGNING = ''signing''"
| "stage_value ISSUED_VALIDATION = ''issued_validation''"
| "stage_value INSTALLATION = ''installation''"
| "stage_value ACTIVATION = ''activation''"
| "stage_value LIVE_VERIFICATION = ''live_verification''"
| "stage_value FINALIZATION = ''finalization''"
| "stage_value COMPLETED = ''completed''"

fun milestone_value :: "milestone \<Rightarrow> string" where
  "milestone_value NOT_ATTEMPTED = ''not_attempted''"
| "milestone_value CONFIRMED = ''confirmed''"
| "milestone_value FAILED = ''failed''"
| "milestone_value UNCERTAIN = ''uncertain''"
| "milestone_value NOT_APPLICABLE = ''not_applicable''"

fun change_value :: "change \<Rightarrow> string" where
  "change_value NO_CHANGE = ''none''"
| "change_value CHANGE_CONFIRMED = ''confirmed''"
| "change_value CHANGE_POSSIBLE = ''possible''"

fun reason_value :: "reason \<Rightarrow> string" where
  "reason_value CONFIG_INVALID = ''config_invalid''"
| "reason_value LOCK_BUSY = ''lock_busy''"
| "reason_value LOCK_FAILED = ''lock_failed''"
| "reason_value PENDING_STATE = ''pending_state''"
| "reason_value INSPECTION_FAILED = ''inspection_failed''"
| "reason_value CSR_FAILED = ''csr_failed''"
| "reason_value SIGNING_FAILED = ''signing_failed''"
| "reason_value VALIDATION_FAILED = ''validation_failed''"
| "reason_value INSTALLATION_FAILED = ''installation_failed''"
| "reason_value VERIFICATION_FAILED = ''verification_failed''"
| "reason_value RECOVERY_REQUIRED = ''recovery_required''"
| "reason_value UNEXPECTED_FAILURE = ''unexpected_failure''"

text \<open>\<^verbatim>\<open>MILESTONE_NAMES\<close>: the keys of every milestone dictionary, in insertion order.\<close>

datatype milestone_name = Csr | Issuance | Installation | Activation | LiveTls

definition milestone_names :: "milestone_name list" where
  "milestone_names = [Csr, Issuance, Installation, Activation, LiveTls]"

fun milestone_key :: "milestone_name \<Rightarrow> string" where
  "milestone_key Csr = ''csr''"
| "milestone_key Issuance = ''issuance''"
| "milestone_key Installation = ''installation''"
| "milestone_key Activation = ''activation''"
| "milestone_key LiveTls = ''live_tls''"

fun severity :: "outcome \<Rightarrow> nat" where
  "severity SUCCESS_NO_CHANGE = 0"
| "severity SUCCESS_PREPARED = 1"
| "severity SUCCESS_CHANGED = 2"
| "severity ATTENTION_DUE = 3"
| "severity FAILURE_PRE_ATTEMPT = 4"
| "severity FAILURE_PARTIAL = 5"
| "severity FAILURE_AMBIGUOUS = 6"

text \<open>The public summary of a certificate: fingerprint and expiry date.\<close>

record certificate_summary =
  fingerprint_sha256 :: string
  expiry_date :: string

record switch_result =
  item_target :: string
  item_outcome :: outcome
  item_stage :: stage
  item_renewal_due :: "bool option"
  item_change :: change
  item_manual_recovery_required :: bool
  item_reason_code :: "reason option"
  item_message :: string
  item_certificate :: "certificate_summary option"
  item_pending_csr_observed :: bool
  item_milestones :: "milestone_name \<Rightarrow> milestone"

text \<open>\<^verbatim>\<open>SwitchResult(target=...)\<close> with the defaults of the dataclass.\<close>

definition new_switch_result :: "string \<Rightarrow> switch_result" where
  "new_switch_result t =
     \<lparr>item_target = t, item_outcome = FAILURE_PRE_ATTEMPT, item_stage = STARTUP,
      item_renewal_due = None, item_change = NO_CHANGE,
      item_manual_recovery_required = False, item_reason_code = None,
      item_message = ''Operation has not completed.'', item_certificate = None,
      item_pending_csr_observed = False, item_milestones = (\<lambda>_. NOT_ATTEMPTED)\<rparr>"

record run_result =
  run_operation :: string
  run_attempt_id :: string
  run_started_at :: string
  run_finished_at :: "string option"
  run_outcome :: outcome
  run_stage :: stage
  run_manual_recovery_required :: bool
  run_reason_code :: "reason option"
  run_message :: string
  run_results :: "switch_result list"

text \<open>\<^verbatim>\<open>RunResult(operation=...)\<close>; the attempt identifier and the time are given.\<close>

definition new_run_result :: "string \<Rightarrow> string \<Rightarrow> string \<Rightarrow> run_result" where
  "new_run_result op uuid now =
     \<lparr>run_operation = op, run_attempt_id = uuid, run_started_at = now,
      run_finished_at = None, run_outcome = FAILURE_PRE_ATTEMPT, run_stage = STARTUP,
      run_manual_recovery_required = False, run_reason_code = None,
      run_message = ''Operation has not completed.'', run_results = []\<rparr>"

text \<open>Python's \<^verbatim>\<open>max(xs, key=f)\<close>: the first element with the largest key.\<close>

fun max_by :: "('a \<Rightarrow> nat) \<Rightarrow> 'a \<Rightarrow> 'a list \<Rightarrow> 'a" where
  "max_by f best [] = best"
| "max_by f best (x # xs) = max_by f (if f best < f x then x else best) xs"

definition finish :: "string \<Rightarrow> run_result \<Rightarrow> run_result" where
  "finish now run =
     (let run' =
        (case run_results run of
           [] \<Rightarrow> run
         | x # xs \<Rightarrow>
             let chosen = max_by (\<lambda>item. severity (item_outcome item)) x xs in
             run\<lparr>run_outcome := item_outcome chosen,
                 run_stage := (if severity ATTENTION_DUE \<le> severity (item_outcome chosen)
                               then item_stage chosen else COMPLETED),
                 run_reason_code := item_reason_code chosen,
                 run_message := item_message chosen,
                 run_manual_recovery_required :=
                   (run_manual_recovery_required run \<or>
                    list_ex item_manual_recovery_required (run_results run))\<rparr>)
      in run'\<lparr>run_finished_at := Some now\<rparr>)"

definition certificate_json :: "certificate_summary option \<Rightarrow> json" where
  "certificate_json c = (case c of None \<Rightarrow> JNull
     | Some s \<Rightarrow> JObj [(''fingerprint_sha256'', JStr (fingerprint_sha256 s)),
                       (''expiry_date'', JStr (expiry_date s))])"

definition item_as_dict :: "switch_result \<Rightarrow> json" where
  "item_as_dict item = JObj
     [(''target'', JStr (item_target item)),
      (''outcome'', JStr (outcome_value (item_outcome item))),
      (''stage'', JStr (stage_value (item_stage item))),
      (''renewal_due'', case item_renewal_due item of None \<Rightarrow> JNull | Some b \<Rightarrow> JBool b),
      (''change'', JStr (change_value (item_change item))),
      (''manual_recovery_required'', JBool (item_manual_recovery_required item)),
      (''reason_code'', case item_reason_code item of None \<Rightarrow> JNull
                        | Some r \<Rightarrow> JStr (reason_value r)),
      (''message'', JStr (item_message item)),
      (''certificate'', certificate_json (item_certificate item)),
      (''milestones'', JObj (map (\<lambda>n. (milestone_key n,
                         JStr (milestone_value (item_milestones item n)))) milestone_names))]"

definition run_as_dict :: "run_result \<Rightarrow> json" where
  "run_as_dict run = JObj
     [(''schema_version'', JInt 1),
      (''product'', JStr ''aruba''),
      (''operation'', JStr (run_operation run)),
      (''attempt_id'', JStr (run_attempt_id run)),
      (''started_at'', JStr (run_started_at run)),
      (''finished_at'', case run_finished_at run of None \<Rightarrow> JNull | Some t \<Rightarrow> JStr t),
      (''outcome'', JStr (outcome_value (run_outcome run))),
      (''stage'', JStr (stage_value (run_stage run))),
      (''manual_recovery_required'', JBool (run_manual_recovery_required run)),
      (''reason_code'', case run_reason_code run of None \<Rightarrow> JNull
                        | Some r \<Rightarrow> JStr (reason_value r)),
      (''message'', JStr (run_message run)),
      (''results'', JList (map item_as_dict (run_results run)))]"

definition to_json :: "run_result \<Rightarrow> string" where
  "to_json run = dumps '', '' '': '' (run_as_dict run)"

section \<open>The aggregate\<close>

lemma max_by_cases:
  "max_by f b xs = b \<and> (\<forall>x \<in> set xs. f x \<le> f b) \<or>
   (\<exists>ys zs. xs = ys @ max_by f b xs # zs \<and> f b < f (max_by f b xs) \<and>
      (\<forall>y \<in> set ys. f y < f (max_by f b xs)) \<and> (\<forall>z \<in> set zs. f z \<le> f (max_by f b xs)))"
proof (induction xs arbitrary: b)
  case Nil
  then show ?case by simp
next
  case (Cons x xs)
  show ?case
  proof (cases "f b < f x")
    case True
    let ?m = "max_by f x xs"
    from Cons.IH [of x] show ?thesis
    proof (elim disjE exE conjE)
      assume "?m = x" and "\<forall>y \<in> set xs. f y \<le> f x"
      with True show ?thesis by (intro disjI2 exI [of _ "[]"] exI [of _ xs]) simp
    next
      fix ys zs
      assume "xs = ys @ ?m # zs" "f x < f ?m" "\<forall>y \<in> set ys. f y < f ?m" "\<forall>z \<in> set zs. f z \<le> f ?m"
      with True show ?thesis
        by (intro disjI2 exI [of _ "x # ys"] exI [of _ zs]) simp
    qed
  next
    case False
    let ?m = "max_by f b xs"
    from Cons.IH [of b] show ?thesis
    proof (elim disjE exE conjE)
      assume "?m = b" and "\<forall>y \<in> set xs. f y \<le> f b"
      with False show ?thesis by (intro disjI1) simp
    next
      fix ys zs
      assume "xs = ys @ ?m # zs" "f b < f ?m" "\<forall>y \<in> set ys. f y < f ?m" "\<forall>z \<in> set zs. f z \<le> f ?m"
      with False show ?thesis
        by (intro disjI2 exI [of _ "x # ys"] exI [of _ zs]) simp
    qed
  qed
qed

lemma max_by_first:
  "\<exists>ys zs. x # xs = ys @ max_by f x xs # zs \<and> (\<forall>y \<in> set ys. f y < f (max_by f x xs)) \<and>
     (\<forall>z \<in> set zs. f z \<le> f (max_by f x xs))"
  using max_by_cases [of f x xs]
proof (elim disjE exE conjE)
  assume "max_by f x xs = x" and "\<forall>y \<in> set xs. f y \<le> f x"
  then show ?thesis by (intro exI [of _ "[]"] exI [of _ xs]) simp
next
  fix ys zs
  assume "xs = ys @ max_by f x xs # zs" "f x < f (max_by f x xs)"
    "\<forall>y \<in> set ys. f y < f (max_by f x xs)" "\<forall>z \<in> set zs. f z \<le> f (max_by f x xs)"
  then show ?thesis by (intro exI [of _ "x # ys"] exI [of _ zs]) simp
qed

lemma finish_simps [simp]:
  "run_results (finish now run) = run_results run"
  "run_operation (finish now run) = run_operation run"
  "run_finished_at (finish now run) = Some now"
  by (simp_all add: finish_def Let_def split: list.split)

lemma finish_empty:
  "run_results run = [] \<Longrightarrow> finish now run = run\<lparr>run_finished_at := Some now\<rparr>"
  by (simp add: finish_def)

lemma finish_Cons:
  assumes run: "run_results run = x # xs"
    and c: "max_by (\<lambda>item. severity (item_outcome item)) x xs = c"
  shows "run_outcome (finish now run) = item_outcome c"
    and "run_reason_code (finish now run) = item_reason_code c"
    and "run_message (finish now run) = item_message c"
    and "run_stage (finish now run) =
      (if item_outcome c \<in> {SUCCESS_NO_CHANGE, SUCCESS_PREPARED, SUCCESS_CHANGED}
       then COMPLETED else item_stage c)"
    and "run_manual_recovery_required (finish now run) \<longleftrightarrow>
      run_manual_recovery_required run \<or>
      (\<exists>y \<in> set (run_results run). item_manual_recovery_required y)"
proof -
  have eq: "finish now run = run\<lparr>run_outcome := item_outcome c,
      run_stage := (if severity ATTENTION_DUE \<le> severity (item_outcome c)
                    then item_stage c else COMPLETED),
      run_reason_code := item_reason_code c, run_message := item_message c,
      run_manual_recovery_required := (run_manual_recovery_required run \<or>
        list_ex item_manual_recovery_required (run_results run)),
      run_finished_at := Some now\<rparr>"
    unfolding finish_def by (simp only: run list.case Let_def c)
  show "run_outcome (finish now run) = item_outcome c"
    "run_reason_code (finish now run) = item_reason_code c"
    "run_message (finish now run) = item_message c"
    unfolding eq by simp_all
  show "run_stage (finish now run) =
      (if item_outcome c \<in> {SUCCESS_NO_CHANGE, SUCCESS_PREPARED, SUCCESS_CHANGED}
       then COMPLETED else item_stage c)"
    unfolding eq by (cases "item_outcome c") simp_all
  show "run_manual_recovery_required (finish now run) \<longleftrightarrow>
      run_manual_recovery_required run \<or>
      (\<exists>y \<in> set (run_results run). item_manual_recovery_required y)"
    unfolding eq by (simp add: list_ex_iff)
qed

text \<open>
  The aggregate of a finished run with at least one switch is taken from the first switch
  of highest severity: every earlier switch is strictly less severe, no later one is more
  severe.  Outcome, reason and message are that switch's, the stage too unless the whole run
  succeeded, and the recovery flag is the disjunction over the run and all its switches.
\<close>

theorem finish_takes_first_most_severe:
  assumes "run_results run \<noteq> []"
  shows "\<exists>before chosen later. run_results run = before @ chosen # later \<and>
     (\<forall>x \<in> set before. severity (item_outcome x) < severity (item_outcome chosen)) \<and>
     (\<forall>x \<in> set later. severity (item_outcome x) \<le> severity (item_outcome chosen)) \<and>
     run_outcome (finish now run) = item_outcome chosen \<and>
     run_reason_code (finish now run) = item_reason_code chosen \<and>
     run_message (finish now run) = item_message chosen \<and>
     run_stage (finish now run) =
       (if item_outcome chosen \<in> {SUCCESS_NO_CHANGE, SUCCESS_PREPARED, SUCCESS_CHANGED}
        then COMPLETED else item_stage chosen) \<and>
     (run_manual_recovery_required (finish now run) \<longleftrightarrow>
        run_manual_recovery_required run \<or>
        (\<exists>x \<in> set (run_results run). item_manual_recovery_required x))"
proof -
  obtain x xs where run: "run_results run = x # xs"
    using assms by (cases "run_results run") auto
  let ?f = "\<lambda>item. severity (item_outcome item)"
  obtain ys zs where split: "x # xs = ys @ max_by ?f x xs # zs"
      "\<forall>y \<in> set ys. ?f y < ?f (max_by ?f x xs)" "\<forall>z \<in> set zs. ?f z \<le> ?f (max_by ?f x xs)"
    using max_by_first [of x xs ?f] by blast
  note facts = finish_Cons [OF run refl, of now]
  show ?thesis
    by (rule exI [of _ ys], rule exI [of _ "max_by ?f x xs"], rule exI [of _ zs])
       (intro conjI facts split(2,3) trans [OF run split(1)])
qed

theorem finish_takes_first_most_severe_witness:
  "\<exists>before chosen later.
     [new_switch_result ''a'', (new_switch_result ''b'')\<lparr>item_outcome := FAILURE_PARTIAL\<rparr>] =
       before @ chosen # later \<and>
     run_outcome (finish ''t'' ((new_run_result ''inspect'' ''u'' ''s'')\<lparr>run_results :=
       [new_switch_result ''a'',
        (new_switch_result ''b'')\<lparr>item_outcome := FAILURE_PARTIAL\<rparr>]\<rparr>)) = item_outcome chosen"
  using finish_takes_first_most_severe
    [of "(new_run_result ''inspect'' ''u'' ''s'')\<lparr>run_results :=
       [new_switch_result ''a'',
        (new_switch_result ''b'')\<lparr>item_outcome := FAILURE_PARTIAL\<rparr>]\<rparr>" "''t''"]
  by fastforce

text \<open>
  The rendered result is printable ASCII on one line, whatever the configured switch names,
  messages and certificate texts contain: control characters cannot reach the output.
\<close>

theorem to_json_printable: "list_all is_printable_ascii (to_json run)"
  unfolding to_json_def
  by (rule printable_dumps) (simp_all add: is_printable_ascii_def code_def)

end
