(* ===== verification/JsonReport.thy ===== *)
theory JsonReport
  imports RunResult
begin

text \<open>
  The reporting functions of \<^verbatim>\<open>src/aruba_cert_renewer.py\<close> that turn the events and errors of an
  operation into a \<open>switch_result\<close>: \<^verbatim>\<open>_json_progress\<close>, \<^verbatim>\<open>_json_failure_outcome\<close>,
  \<^verbatim>\<open>_json_failure\<close>, and the exit code of a run.
\<close>

datatype progress_event =
    PreflightConfirmed | PendingCsrObserved | CsrRetrievalStarted | CsrRetrieved
  | SigningPreparation | CsrConfirmed | IssuanceDispatched | IssuanceConfirmed
  | CertificateRetrieved | IssuedValidationStarted | IssuedValidated | InstallationPrepared
  | InstallationConfirmed certificate_summary | LiveTlsConfirmed

definition set_milestone :: "milestone_name \<Rightarrow> milestone \<Rightarrow> switch_result \<Rightarrow> switch_result" where
  "set_milestone n m item = item\<lparr>item_milestones := (item_milestones item)(n := m)\<rparr>"

fun json_progress :: "switch_result \<Rightarrow> progress_event \<Rightarrow> switch_result" where
  "json_progress item PreflightConfirmed = item\<lparr>item_stage := PREFLIGHT\<rparr>"
| "json_progress item PendingCsrObserved = item\<lparr>item_pending_csr_observed := True\<rparr>"
| "json_progress item CsrRetrievalStarted =
     (let item = item\<lparr>item_stage := CSR_RETRIEVAL\<rparr> in
      if item_milestones item Csr = NOT_ATTEMPTED then set_milestone Csr FAILED item else item)"
| "json_progress item CsrRetrieved = set_milestone Csr CONFIRMED item"
| "json_progress item SigningPreparation = item\<lparr>item_stage := SIGNING\<rparr>"
| "json_progress item CsrConfirmed =
     (set_milestone Csr CONFIRMED item)
       \<lparr>item_stage := CSR_GENERATION, item_change := CHANGE_CONFIRMED\<rparr>"
| "json_progress item IssuanceDispatched =
     (set_milestone Issuance UNCERTAIN item)
       \<lparr>item_stage := SIGNING, item_change := CHANGE_POSSIBLE\<rparr>"
| "json_progress item IssuanceConfirmed =
     (set_milestone Issuance CONFIRMED item)\<lparr>item_change := CHANGE_CONFIRMED\<rparr>"
| "json_progress item CertificateRetrieved = item\<lparr>item_stage := ISSUED_VALIDATION\<rparr>"
| "json_progress item IssuedValidationStarted = item\<lparr>item_stage := ISSUED_VALIDATION\<rparr>"
| "json_progress item IssuedValidated = item\<lparr>item_stage := ISSUED_VALIDATION\<rparr>"
| "json_progress item InstallationPrepared = item\<lparr>item_stage := INSTALLATION\<rparr>"
| "json_progress item (InstallationConfirmed summary) =
     (set_milestone Activation CONFIRMED (set_milestone Installation CONFIRMED item))
       \<lparr>item_stage := ACTIVATION, item_change := CHANGE_CONFIRMED,
        item_certificate := Some summary\<rparr>"
| "json_progress item LiveTlsConfirmed =
     (set_milestone LiveTls CONFIRMED item)\<lparr>item_stage := LIVE_VERIFICATION\<rparr>"

definition json_failure_outcome :: "switch_result \<Rightarrow> outcome" where
  "json_failure_outcome item =
     (if item_change item = CHANGE_POSSIBLE \<or>
         list_ex (\<lambda>n. item_milestones item n = UNCERTAIN) [Csr, Issuance, Installation]
      then FAILURE_AMBIGUOUS
      else if item_change item = CHANGE_CONFIRMED \<or>
         list_ex (\<lambda>n. item_milestones item n = CONFIRMED) [Issuance, Installation, Activation]
      then FAILURE_PARTIAL
      else FAILURE_PRE_ATTEMPT)"

definition json_failure :: "switch_result \<Rightarrow> exn \<Rightarrow> switch_result" where
  "json_failure item0 error =
     (let item = item0\<lparr>item_manual_recovery_required := False\<rparr> in
      if isinstance error PendingCSRPreflightError then
        item\<lparr>item_outcome := FAILURE_PRE_ATTEMPT, item_stage := PREFLIGHT,
             item_reason_code := Some PENDING_STATE,
             item_message := ''A pending CSR requires manual investigation.'',
             item_manual_recovery_required := True\<rparr>
      else if isinstance error RenewalPreflightError then
        item\<lparr>item_outcome := FAILURE_PRE_ATTEMPT, item_stage := PREFLIGHT,
             item_reason_code := Some INSPECTION_FAILED,
             item_message := ''Renewal preflight failed.''\<rparr>
      else if isinstance error CSRGenerationPreAttemptError then
        item\<lparr>item_outcome := FAILURE_PRE_ATTEMPT, item_stage := CSR_GENERATION,
             item_reason_code := Some CSR_FAILED,
             item_message := ''CSR creation was not attempted.''\<rparr>
      else if isinstance error CSRGenerationError then
        (set_milestone Csr UNCERTAIN item)
          \<lparr>item_outcome := FAILURE_AMBIGUOUS, item_stage := CSR_GENERATION,
           item_reason_code := Some CSR_FAILED,
           item_message := ''CSR creation was attempted; inspect switch state.'',
           item_change := CHANGE_POSSIBLE,
           item_manual_recovery_required := True\<rparr>
      else if isinstance error CSRSigningError then
        (let item = item\<lparr>item_outcome := json_failure_outcome item\<rparr>;
             item = item\<lparr>item_reason_code :=
               Some (if item_stage item = ISSUED_VALIDATION then VALIDATION_FAILED
                     else if item_stage item = CSR_RETRIEVAL then CSR_FAILED
                     else SIGNING_FAILED)\<rparr>
         in item\<lparr>item_message :=
                   ''Signing or issued-certificate validation failed; inspect state.'',
                 item_manual_recovery_required :=
                   (item_outcome item \<noteq> FAILURE_PRE_ATTEMPT \<or>
                    item_milestones item Csr = CONFIRMED \<or>
                    item_pending_csr_observed item)\<rparr>)
      else if isinstance error CertificatePreInstallationError then
        item\<lparr>item_outcome := json_failure_outcome item, item_stage := INSTALLATION,
             item_reason_code := Some VALIDATION_FAILED,
             item_message := ''Installation did not begin; inspect pending state.'',
             item_manual_recovery_required := True\<rparr>
      else if isinstance error CertificateInstallationAttemptError then
        (set_milestone Installation UNCERTAIN item)
          \<lparr>item_outcome := FAILURE_AMBIGUOUS, item_stage := INSTALLATION,
           item_reason_code := Some INSTALLATION_FAILED,
           item_message := ''Installation was attempted; inspect switch state.'',
           item_change := CHANGE_POSSIBLE,
           item_manual_recovery_required := True\<rparr>
      else if isinstance error LiveHTTPSVerificationError then
        (set_milestone LiveTls FAILED (item\<lparr>item_outcome := json_failure_outcome item\<rparr>))
          \<lparr>item_stage := LIVE_VERIFICATION,
           item_reason_code := Some VERIFICATION_FAILED,
           item_message := ''Installed state was confirmed; live HTTPS failed.'',
           item_manual_recovery_required := True\<rparr>
      else
        (let item = item\<lparr>item_outcome := json_failure_outcome item\<rparr>
         in item\<lparr>item_reason_code := Some UNEXPECTED_FAILURE,
                 item_message := ''Operation failed; inspect state before retrying.'',
                 item_manual_recovery_required :=
                   (item_outcome item \<noteq> FAILURE_PRE_ATTEMPT \<or>
                    item_milestones item Csr = CONFIRMED \<or>
                    item_pending_csr_observed item)\<rparr>))"

text \<open>\<^verbatim>\<open>EXIT_OK\<close>, \<^verbatim>\<open>EXIT_WARNING\<close>, \<^verbatim>\<open>EXIT_ERROR\<close>\<close>

definition EXIT_OK :: int where "EXIT_OK = 0"

definition EXIT_WARNING :: int where "EXIT_WARNING = 1"

definition EXIT_ERROR :: int where "EXIT_ERROR = 2"

fun is_failure :: "outcome \<Rightarrow> bool" where
  "is_failure FAILURE_PRE_ATTEMPT = True"
| "is_failure FAILURE_PARTIAL = True"
| "is_failure FAILURE_AMBIGUOUS = True"
| "is_failure _ = False"

text \<open>The exit code of \<^verbatim>\<open>_run_json\<close>, once every switch has its result.\<close>

definition json_exit_code :: "run_result \<Rightarrow> int" where
  "json_exit_code run =
     (if list_ex (\<lambda>item. is_failure (item_outcome item)) (run_results run) then EXIT_ERROR
      else if run_operation run = ''inspect'' \<and>
        list_ex (\<lambda>item. item_outcome item = ATTENTION_DUE) (run_results run) then EXIT_WARNING
      else EXIT_OK)"

section \<open>Progress\<close>

lemma set_milestone_simps [simp]:
  "item_milestones (set_milestone n m item) = (item_milestones item)(n := m)"
  "item_change (set_milestone n m item) = item_change item"
  "item_outcome (set_milestone n m item) = item_outcome item"
  "item_stage (set_milestone n m item) = item_stage item"
  "item_target (set_milestone n m item) = item_target item"
  "item_reason_code (set_milestone n m item) = item_reason_code item"
  "item_message (set_milestone n m item) = item_message item"
  "item_certificate (set_milestone n m item) = item_certificate item"
  "item_renewal_due (set_milestone n m item) = item_renewal_due item"
  "item_manual_recovery_required (set_milestone n m item) = item_manual_recovery_required item"
  "item_pending_csr_observed (set_milestone n m item) = item_pending_csr_observed item"
  by (simp_all add: set_milestone_def)

lemma json_progress_frame [simp]:
  "item_target (json_progress item ev) = item_target item"
  "item_outcome (json_progress item ev) = item_outcome item"
  "item_reason_code (json_progress item ev) = item_reason_code item"
  "item_message (json_progress item ev) = item_message item"
  "item_renewal_due (json_progress item ev) = item_renewal_due item"
  "item_manual_recovery_required (json_progress item ev) = item_manual_recovery_required item"
  by (cases ev; simp add: Let_def)+

text \<open>
  Evidence and change agree: whenever issuance, installation or activation is confirmed, or
  issuance is uncertain, the item reports a change; live TLS is confirmed only after
  installation; activation and installation are confirmed together, with the certificate.
\<close>

definition evidence_inv :: "switch_result \<Rightarrow> bool" where
  "evidence_inv item \<longleftrightarrow>
     ((\<exists>n \<in> {Issuance, Installation, Activation}. item_milestones item n \<noteq> NOT_ATTEMPTED) \<longrightarrow>
        item_change item \<noteq> NO_CHANGE) \<and>
     item_milestones item Installation \<in> {NOT_ATTEMPTED, CONFIRMED} \<and>
     item_milestones item Activation = item_milestones item Installation \<and>
     (item_milestones item Installation = CONFIRMED \<longleftrightarrow> item_certificate item \<noteq> None) \<and>
     item_milestones item Csr \<noteq> UNCERTAIN"

lemma evidence_inv_new: "evidence_inv (new_switch_result t)"
  by (simp add: evidence_inv_def new_switch_result_def)

lemma evidence_inv_progress: "evidence_inv item \<Longrightarrow> evidence_inv (json_progress item ev)"
  by (cases ev) (auto simp: evidence_inv_def Let_def)

section \<open>Failures\<close>

lemma json_failure_outcome_cases:
  "is_failure (json_failure_outcome item)"
  "json_failure_outcome item = FAILURE_PRE_ATTEMPT \<longleftrightarrow>
     item_change item = NO_CHANGE \<and>
     item_milestones item Csr \<noteq> UNCERTAIN \<and> item_milestones item Issuance \<noteq> UNCERTAIN \<and>
     item_milestones item Installation \<noteq> UNCERTAIN \<and>
     item_milestones item Issuance \<noteq> CONFIRMED \<and>
     item_milestones item Installation \<noteq> CONFIRMED \<and>
     item_milestones item Activation \<noteq> CONFIRMED"
  by (cases "item_change item"; simp add: json_failure_outcome_def)+

lemma json_failure_outcome_frame [simp]:
  "json_failure_outcome (item\<lparr>item_manual_recovery_required := b\<rparr>) = json_failure_outcome item"
  by (simp add: json_failure_outcome_def)

lemma json_failure_target [simp]: "item_target (json_failure item error) = item_target item"
  by (simp add: json_failure_def Let_def)

text \<open>
  Every error is reported as a failure with a reason code, and every failure that is not
  known to precede all changes asks for manual recovery.
\<close>

theorem json_failure_reports_failure:
  "is_failure (item_outcome (json_failure item error)) \<and>
   item_reason_code (json_failure item error) \<noteq> None \<and>
   (item_outcome (json_failure item error) = FAILURE_PRE_ATTEMPT \<or>
    item_manual_recovery_required (json_failure item error))"
  using json_failure_outcome_cases(1) [of item] by (simp add: json_failure_def Let_def)

text \<open>An effect the report cannot resolve: a possible change, or an uncertain milestone.\<close>

definition unresolved_effect :: "switch_result \<Rightarrow> bool" where
  "unresolved_effect item \<longleftrightarrow> item_change item = CHANGE_POSSIBLE \<or>
     list_ex (\<lambda>n. item_milestones item n = UNCERTAIN) [Csr, Issuance, Installation]"

lemma json_failure_outcome_ambiguous:
  "json_failure_outcome item = FAILURE_AMBIGUOUS \<longleftrightarrow> unresolved_effect item"
  by (simp add: json_failure_outcome_def unresolved_effect_def)

text \<open>
  A failure is ambiguous exactly when the report holds an unresolved effect.  The preflight
  and pre-attempt errors are raised before any effect; for them the report must not carry an
  unresolved effect already.
\<close>

theorem json_failure_ambiguous_iff:
  assumes "\<not> unresolved_effect item \<or>
     \<not> isinstance_any error [RenewalPreflightError, CSRGenerationPreAttemptError]"
  shows "item_outcome (json_failure item error) = FAILURE_AMBIGUOUS \<longleftrightarrow>
     unresolved_effect (json_failure item error)"
proof -
  have pending: "isinstance error PendingCSRPreflightError \<Longrightarrow> isinstance error RenewalPreflightError"
    by (cases "exn_class error") (simp_all add: isinstance_def)
  have frame: "unresolved_effect (json_failure item error) = unresolved_effect item"
    if "\<not> isinstance_any error [CSRGenerationError, CertificateInstallationAttemptError]"
    using that by (simp add: json_failure_def Let_def unresolved_effect_def)
  show ?thesis
  proof (cases "isinstance_any error [CSRGenerationError, CertificateInstallationAttemptError]")
    case True
    then show ?thesis
      using assms pending
      by (cases "exn_class error")
         (simp_all add: json_failure_def Let_def unresolved_effect_def isinstance_def)
  next
    case False
    have "item_outcome (json_failure item error) = FAILURE_AMBIGUOUS \<longleftrightarrow> unresolved_effect item"
      using False assms pending json_failure_outcome_ambiguous [of item]
      by (auto simp: json_failure_def Let_def)
    with frame [OF False] show ?thesis by simp
  qed
qed

theorem json_failure_ambiguous_iff_witness:
  "item_outcome (json_failure (new_switch_result ''sw'') (new_exn CSRGenerationError ''x'')) =
     FAILURE_AMBIGUOUS \<and>
   item_outcome (json_failure (new_switch_result ''sw'') (new_exn CSRSigningError ''x'')) \<noteq>
     FAILURE_AMBIGUOUS"
  using json_failure_ambiguous_iff [of "new_switch_result ''sw''" "new_exn CSRGenerationError ''x''"]
    json_failure_ambiguous_iff [of "new_switch_result ''sw''" "new_exn CSRSigningError ''x''"]
  by (simp add: new_switch_result_def unresolved_effect_def json_failure_def Let_def)

section \<open>Exit codes\<close>

lemma severity_failure: "is_failure x \<longleftrightarrow> severity FAILURE_PRE_ATTEMPT \<le> severity x"
  by (cases x) simp_all

lemma severity_attention: "x = ATTENTION_DUE \<longleftrightarrow> severity x = severity ATTENTION_DUE"
  by (cases x) simp_all

lemma most_severe_failure:
  assumes "c \<in> set xs" and "\<And>x. x \<in> set xs \<Longrightarrow> severity (item_outcome x) \<le> severity (item_outcome c)"
  shows "(\<exists>x \<in> set xs. is_failure (item_outcome x)) \<longleftrightarrow> is_failure (item_outcome c)"
  unfolding severity_failure using assms le_trans by blast

lemma most_severe_attention:
  assumes "c \<in> set xs" and "\<And>x. x \<in> set xs \<Longrightarrow> severity (item_outcome x) \<le> severity (item_outcome c)"
    and "\<not> is_failure (item_outcome c)"
  shows "(\<exists>x \<in> set xs. item_outcome x = ATTENTION_DUE) \<longleftrightarrow> item_outcome c = ATTENTION_DUE"
  using assms by (cases "item_outcome c") fastforce+

lemma finish_outcome_most_severe:
  assumes "run_results run \<noteq> []"
  obtains c where "c \<in> set (run_results run)"
    and "\<And>x. x \<in> set (run_results run) \<Longrightarrow> severity (item_outcome x) \<le> severity (item_outcome c)"
    and "run_outcome (finish now run) = item_outcome c"
proof -
  let ?f = "\<lambda>item. severity (item_outcome item)"
  obtain x xs where run: "run_results run = x # xs"
    using assms by (cases "run_results run") auto
  obtain ys zs where split: "x # xs = ys @ max_by ?f x xs # zs"
      "\<forall>y \<in> set ys. ?f y < ?f (max_by ?f x xs)" "\<forall>z \<in> set zs. ?f z \<le> ?f (max_by ?f x xs)"
    using max_by_first [of x xs ?f] by blast
  have mem: "set (run_results run) = set (ys @ max_by ?f x xs # zs)"
    by (metis run split(1))
  show ?thesis
    using split(2,3) by (intro that [OF _ _ finish_Cons(1) [OF run refl]]) (auto simp: mem)
qed

text \<open>
  The exit code and the aggregate outcome of the published result never disagree: a run
  with at least one switch exits with the error code exactly when its aggregate outcome is a
  failure, and with the warning code exactly when it was an inspection whose aggregate outcome
  is renewal attention.
\<close>

theorem exit_code_matches_aggregate:
  assumes "run_results run \<noteq> []"
  shows "(json_exit_code run = EXIT_ERROR \<longleftrightarrow> is_failure (run_outcome (finish now run))) \<and>
     (json_exit_code run = EXIT_WARNING \<longleftrightarrow>
        run_operation run = ''inspect'' \<and> run_outcome (finish now run) = ATTENTION_DUE)"
proof -
  obtain c where c: "c \<in> set (run_results run)"
      "\<And>x. x \<in> set (run_results run) \<Longrightarrow> severity (item_outcome x) \<le> severity (item_outcome c)"
    and out: "run_outcome (finish now run) = item_outcome c"
    using finish_outcome_most_severe [OF assms, of now] by blast
  show ?thesis
    using most_severe_failure [OF c] most_severe_attention [OF c]
    by (auto simp: json_exit_code_def out list_ex_iff EXIT_ERROR_def EXIT_WARNING_def EXIT_OK_def)
qed

theorem exit_code_matches_aggregate_witness:
  "json_exit_code ((new_run_result ''renew_due'' ''u'' ''s'')\<lparr>run_results :=
     [new_switch_result ''a'']\<rparr>) = EXIT_ERROR"
  using exit_code_matches_aggregate
    [of "(new_run_result ''renew_due'' ''u'' ''s'')\<lparr>run_results := [new_switch_result ''a'']\<rparr>" "''t''"]
  by (simp add: finish_def new_switch_result_def)

end
