(* ===== verification/Calendar.thy ===== *)
theory Calendar
  imports Prelude
begin

text \<open>
  The part of \<^verbatim>\<open>datetime.date\<close> the program uses: calendar dates, \<^verbatim>\<open>toordinal\<close> (so that a
  difference of dates is a number of days), reading \<^verbatim>\<open>%Y/%m/%d\<close> and ISO dates, and writing
  them.  Instants (\<^verbatim>\<open>datetime\<close> in UTC) are integers, in microseconds, elsewhere.
\<close>

datatype date = Date (year: int) (month: nat) (day: nat)

definition is_leap :: "int \<Rightarrow> bool" where
  "is_leap y = (4 dvd y \<and> (\<not> 100 dvd y \<or> 400 dvd y))"

definition days_in_month :: "int \<Rightarrow> nat \<Rightarrow> nat" where
  "days_in_month y m =
     (if m = 2 then (if is_leap y then 29 else 28)
      else if m \<in> {4, 6, 9, 11} then 30 else 31)"

text \<open>The dates \<^verbatim>\<open>datetime.date(y, m, d)\<close> accepts.\<close>

definition valid_date :: "date \<Rightarrow> bool" where
  "valid_date d = (1 \<le> year d \<and> year d \<le> 9999 \<and> 1 \<le> month d \<and> month d \<le> 12 \<and>
     1 \<le> day d \<and> day d \<le> days_in_month (year d) (month d))"

definition days_before_year :: "int \<Rightarrow> int" where
  "days_before_year y = (y - 1) * 365 + (y - 1) div 4 - (y - 1) div 100 + (y - 1) div 400"

fun days_before_month :: "int \<Rightarrow> nat \<Rightarrow> nat" where
  "days_before_month y 0 = 0"
| "days_before_month y (Suc 0) = 0"
| "days_before_month y (Suc (Suc m)) = days_before_month y (Suc m) + days_in_month y (Suc m)"

definition toordinal :: "date \<Rightarrow> int" where
  "toordinal d = days_before_year (year d) + int (days_before_month (year d) (month d)) + int (day d)"

definition date_less :: "date \<Rightarrow> date \<Rightarrow> bool" where
  "date_less a b = (year a < year b \<or> (year a = year b \<and>
     (month a < month b \<or> (month a = month b \<and> day a < day b))))"

text \<open>Decimal value of a string of ASCII digits, \<^verbatim>\<open>int(s)\<close>.\<close>

definition digit_value :: "char \<Rightarrow> nat" where
  "digit_value c = code c - 48"

definition int_of_digits :: "string \<Rightarrow> nat" where
  "int_of_digits s = foldl (\<lambda>n c. 10 * n + digit_value c) 0 s"

text \<open>
  \<open>read_date sep s\<close>: a date written as four, two and two digits separated by \<open>sep\<close>, if the
  calendar has it.
\<close>

definition read_date :: "char \<Rightarrow> string \<Rightarrow> date option" where
  "read_date sep s =
     (if length s = 10 \<and> s ! 4 = sep \<and> s ! 7 = sep \<and>
         list_all is_digit (take 4 s @ take 2 (drop 5 s) @ drop 8 s)
      then (let d = Date (int (int_of_digits (take 4 s))) (int_of_digits (take 2 (drop 5 s)))
                      (int_of_digits (drop 8 s))
            in if valid_date d then Some d else None)
      else None)"

text \<open>Zero-padded decimal, the format codes \<^verbatim>\<open>02d\<close> and \<^verbatim>\<open>04d\<close>.\<close>

definition pad :: "nat \<Rightarrow> nat \<Rightarrow> string" where
  "pad width n = (let s = str_nat n in replicate (width - length s) CHR ''0'' @ s)"

definition write_date :: "string \<Rightarrow> date \<Rightarrow> string" where
  "write_date sep d = pad 4 (nat (year d)) @ sep @ pad 2 (month d) @ sep @ pad 2 (day d)"

lemma read_date_valid: "read_date sep s = Some d \<Longrightarrow> valid_date d"
  by (auto simp: read_date_def Let_def split: if_splits)

section \<open>Ordinals order dates\<close>

lemma days_before_month_mono:
  "m < n \<Longrightarrow> 1 \<le> m \<Longrightarrow>
     days_before_month y m + days_in_month y m \<le> days_before_month y n"
proof (induction n)
  case 0
  then show ?case by simp
next
  case (Suc n)
  show ?case
  proof (cases "m = n")
    case True
    with Suc.prems show ?thesis by (cases n) simp_all
  next
    case False
    with Suc have "days_before_month y m + days_in_month y m \<le> days_before_month y n" by simp
    also have "\<dots> \<le> days_before_month y (Suc n)" by (cases n) simp_all
    finally show ?thesis .
  qed
qed

lemma days_in_year:
  "days_before_month y 12 + days_in_month y 12 = (if is_leap y then 366 else 365)"
proof -
  have "days_before_month y 12 = 306 + days_in_month y 2"
    by (simp add: numeral_eq_Suc days_in_month_def)
  then show ?thesis by (simp add: days_in_month_def)
qed

lemma days_before_year_Suc:
  "days_before_year (y + 1) = days_before_year y + (if is_leap y then 366 else 365)"
proof -
  have step: "y div n = (y - 1) div n + (if n dvd y then 1 else 0)" if "0 < n" for n :: int
  proof -
    define q r where "q = (y - 1) div n" and "r = (y - 1) mod n"
    have y: "y = n * q + (r + 1)" and r: "0 \<le> r" "r < n"
      using that by (simp_all add: q_def r_def)
    show ?thesis
    proof (cases "r + 1 = n")
      case True
      then have "y = n * (q + 1)" using y by (simp add: algebra_simps)
      then have "y div n = q + 1" and "n dvd y" using that by simp_all
      then show ?thesis by (simp add: q_def)
    next
      case False
      then have "y div n = q" and "y mod n = r + 1"
        using y r by (simp_all add: div_pos_pos_trivial mod_pos_pos_trivial)
      then show ?thesis using r by (simp add: q_def [symmetric] dvd_eq_mod_eq_0)
    qed
  qed
  have dvd: "100 dvd y \<Longrightarrow> 4 dvd y" "400 dvd y \<Longrightarrow> 100 dvd y"
    by presburger+
  have "days_before_year (y + 1) = y * 365 + y div 4 - y div 100 + y div 400"
    by (simp add: days_before_year_def)
  also have "\<dots> = days_before_year y + 365 + (if 4 dvd y then 1 else 0)
      - (if 100 dvd y then 1 else 0) + (if 400 dvd y then 1 else 0)"
    unfolding days_before_year_def step [of 4, simplified] step [of 100, simplified]
      step [of 400, simplified] by simp
  also have "\<dots> = days_before_year y + (if is_leap y then 366 else 365)"
    using dvd by (cases "4 dvd y"; cases "100 dvd y"; cases "400 dvd y") (simp_all add: is_leap_def)
  finally show ?thesis .
qed

lemma days_before_year_mono:
  "y < z \<Longrightarrow> days_before_year y + (if is_leap y then 366 else 365) \<le> days_before_year z"
proof (induction "nat (z - y)" arbitrary: z)
  case 0
  then show ?case by simp
next
  case (Suc n)
  show ?case
  proof (cases "z = y + 1")
    case True
    then show ?thesis by (simp add: days_before_year_Suc)
  next
    case False
    with Suc have "days_before_year y + (if is_leap y then 366 else 365) \<le> days_before_year (z - 1)"
      by simp
    also have "\<dots> \<le> days_before_year z"
      using days_before_year_Suc [of "z - 1"] by simp
    finally show ?thesis .
  qed
qed

lemma ordinal_within_year:
  assumes "valid_date d"
  shows "days_before_year (year d) < toordinal d"
    and "toordinal d \<le> days_before_year (year d) + (if is_leap (year d) then 366 else 365)"
proof -
  show "days_before_year (year d) < toordinal d"
    using assms by (simp add: toordinal_def valid_date_def)
  have "days_before_month (year d) (month d) + day d \<le>
      days_before_month (year d) 12 + days_in_month (year d) 12"
  proof (cases "month d = 12")
    case True
    with assms show ?thesis by (simp add: valid_date_def)
  next
    case False
    with assms have "days_before_month (year d) (month d) + days_in_month (year d) (month d)
        \<le> days_before_month (year d) 12"
      by (intro days_before_month_mono) (auto simp: valid_date_def)
    with assms show ?thesis by (simp add: valid_date_def)
  qed
  then show "toordinal d \<le> days_before_year (year d) + (if is_leap (year d) then 366 else 365)"
    unfolding toordinal_def days_in_year by (cases "is_leap (year d)") simp_all
qed

lemma date_less_ordinal:
  assumes "valid_date a" and "valid_date b" and "date_less a b"
  shows "toordinal a < toordinal b"
proof (cases "year a < year b")
  case True
  then show ?thesis
    using ordinal_within_year(2) [OF assms(1)] days_before_year_mono [OF True]
      ordinal_within_year(1) [OF assms(2)] by simp
next
  case False
  with assms(3) have y: "year a = year b"
    and md: "month a < month b \<or> month a = month b \<and> day a < day b"
    by (auto simp: date_less_def)
  show ?thesis
  proof (cases "month a < month b")
    case True
    then have "days_before_month (year b) (month a) + days_in_month (year b) (month a)
        \<le> days_before_month (year b) (month b)"
      using assms(1) by (intro days_before_month_mono) (auto simp: valid_date_def)
    with assms(1,2) y show ?thesis by (simp add: toordinal_def valid_date_def)
  next
    case False
    with md y show ?thesis by (simp add: toordinal_def)
  qed
qed

lemma date_less_linear: "date_less a b \<or> a = b \<or> date_less b a"
  by (cases a; cases b) (auto simp: date_less_def)

text \<open>The number of days between two dates is negative exactly when the first is earlier.\<close>

lemma ordinal_less_iff:
  assumes "valid_date a" and "valid_date b"
  shows "toordinal a < toordinal b \<longleftrightarrow> date_less a b"
  using date_less_ordinal [OF assms] date_less_ordinal [OF assms(2,1)] date_less_linear [of a b]
  by fastforce

end
