(* ===== verification/IpAddress.thy ===== *)
theory IpAddress
  imports Calendar
begin

text \<open>
  The part of Python's \<^verbatim>\<open>ipaddress\<close> module that \<^verbatim>\<open>src/aruba_cert_renewer.py\<close> and
  \<^verbatim>\<open>src/opnsense_client.py\<close> rely on: reading an address (dotted quads without leading zeros,
  compressed and dotted IPv6 texts, scope identifiers) and printing its canonical text.  The
  32-bit value of an IPv4 address is the list of its four octets, the 128-bit value of an IPv6
  address the list of its eight 16-bit groups.
\<close>

section \<open>Lists of texts\<close>

fun read_each :: "(string \<Rightarrow> 'a option) \<Rightarrow> string list \<Rightarrow> 'a list option" where
  "read_each f [] = Some []"
| "read_each f (s # ss) =
     (case f s of None \<Rightarrow> None
      | Some x \<Rightarrow> (case read_each f ss of None \<Rightarrow> None | Some xs \<Rightarrow> Some (x # xs)))"

lemma read_each_map:
  "(\<And>x. x \<in> set xs \<Longrightarrow> f (g x) = Some x) \<Longrightarrow> read_each f (map g xs) = Some xs"
  by (induction xs) auto

lemma read_each_length: "read_each f ss = Some xs \<Longrightarrow> length xs = length ss"
  by (induction ss arbitrary: xs) (auto split: option.splits)

lemma read_each_all:
  "read_each f ss = Some xs \<Longrightarrow> (\<And>s x. f s = Some x \<Longrightarrow> P x) \<Longrightarrow> list_all P xs"
  by (induction ss arbitrary: xs) (auto split: option.splits)

lemma read_each_dom:
  "read_each f ss = Some xs \<Longrightarrow> (\<And>s x. f s = Some x \<Longrightarrow> P s) \<Longrightarrow> list_all P ss"
  by (induction ss arbitrary: xs) (auto split: option.splits)

lemma before_separator:
  "p \<notin> set t \<Longrightarrow> takeWhile (\<lambda>c. c \<noteq> p) (t @ p # z) = t \<and> dropWhile (\<lambda>c. c \<noteq> p) (t @ p # z) = p # z"
  by (induction t) auto

lemma no_separator:
  "p \<notin> set t \<Longrightarrow> takeWhile (\<lambda>c. c \<noteq> p) t = t \<and> dropWhile (\<lambda>c. c \<noteq> p) t = []"
  by (induction t) auto

section \<open>IPv4\<close>

definition read_octet :: "string \<Rightarrow> nat option" where
  "read_octet s =
     (if s \<noteq> [] \<and> list_all is_digit s \<and> length s \<le> 3 \<and> \<not> (s \<noteq> ''0'' \<and> hd s = CHR ''0'') \<and>
         int_of_digits s \<le> 255
      then Some (int_of_digits s) else None)"

definition read_ipv4 :: "string \<Rightarrow> nat list option" where
  "read_ipv4 s =
     (let octets = split_on CHR ''.'' s
      in if CHR ''/'' \<notin> set s \<and> length octets = 4 then read_each read_octet octets else None)"

definition write_ipv4 :: "nat list \<Rightarrow> string" where
  "write_ipv4 octets = join ''.'' (map str_nat octets)"

definition valid_ipv4 :: "nat list \<Rightarrow> bool" where
  "valid_ipv4 octets = (length octets = 4 \<and> list_all (\<lambda>n. n \<le> 255) octets)"

section \<open>IPv6\<close>

definition is_hex :: "char \<Rightarrow> bool" where
  "is_hex c = (is_lower_hex c \<or> in_range CHR ''A'' CHR ''F'' c)"

definition hex_value :: "char \<Rightarrow> nat" where
  "hex_value c = (if is_digit c then code c - 48 else code (lower_char c) - 87)"

definition int_of_hex :: "string \<Rightarrow> nat" where
  "int_of_hex s = foldl (\<lambda>n c. 16 * n + hex_value c) 0 s"

definition hex_char :: "nat \<Rightarrow> char" where
  "hex_char d = char_of (if d < 10 then 48 + d else 87 + d)"

text \<open>\<^verbatim>\<open>'%x' % n\<close>\<close>

fun hex_str :: "nat \<Rightarrow> string" where
  "hex_str n = (if n < 16 then [hex_char n] else hex_str (n div 16) @ [hex_char (n mod 16)])"

declare hex_str.simps [simp del]

definition read_hextet :: "string \<Rightarrow> nat option" where
  "read_hextet s =
     (if s \<noteq> [] \<and> list_all is_hex s \<and> length s \<le> 4 then Some (int_of_hex s) else None)"

text \<open>A dotted quad as last part stands for two groups.\<close>

definition expand_dotted :: "string list \<Rightarrow> string list option" where
  "expand_dotted parts =
     (if CHR ''.'' \<in> set (last parts) then
        (case read_ipv4 (last parts) of
           None \<Rightarrow> None
         | Some v \<Rightarrow> Some (butlast parts @
             [hex_str (v ! 0 * 256 + v ! 1), hex_str (v ! 2 * 256 + v ! 3)]))
      else Some parts)"

text \<open>
  The parts between colons, as \<^verbatim>\<open>_ip_int_from_string\<close> reads them: at most one empty part away
  from the ends stands for the run of zero groups.
\<close>

definition read_groups :: "string list \<Rightarrow> nat list option" where
  "read_groups parts =
     (case filter (\<lambda>i. parts ! i = []) [1..<length parts - 1] of
        [] \<Rightarrow>
          (if length parts = 8 \<and> hd parts \<noteq> [] \<and> last parts \<noteq> []
           then read_each read_hextet parts else None)
      | [k] \<Rightarrow>
          (let hi = (if hd parts = [] then [] else take k parts);
               lo = (if last parts = [] then [] else drop (Suc k) parts)
           in if hd parts = [] \<and> k \<noteq> 1 then None
              else if last parts = [] \<and> length parts - k - 1 \<noteq> 1 then None
              else if 8 < Suc (length hi + length lo) then None
              else (case read_each read_hextet hi of None \<Rightarrow> None | Some h \<Rightarrow>
                     (case read_each read_hextet lo of None \<Rightarrow> None | Some l \<Rightarrow>
                       Some (h @ replicate (8 - (length hi + length lo)) 0 @ l))))
      | _ \<Rightarrow> None)"

definition read_ipv6_groups :: "string \<Rightarrow> nat list option" where
  "read_ipv6_groups s =
     (let parts = split_on CHR '':'' s
      in if length parts < 3 then None
         else (case expand_dotted parts of
             None \<Rightarrow> None
           | Some parts' \<Rightarrow> if 9 < length parts' then None else read_groups parts'))"

datatype ip = Ip4 "nat list" | Ip6 "nat list" "string option"

definition read_ipv6 :: "string \<Rightarrow> ip option" where
  "read_ipv6 s =
     (let addr = takeWhile (\<lambda>c. c \<noteq> CHR ''%'') s; rest = dropWhile (\<lambda>c. c \<noteq> CHR ''%'') s
      in if CHR ''/'' \<in> set s then None
         else if rest = ''%'' \<or> CHR ''%'' \<in> set (tl rest) then None
         else (case read_ipv6_groups addr of
             None \<Rightarrow> None
           | Some groups \<Rightarrow> Some (Ip6 groups (if rest = [] then None else Some (tl rest)))))"

text \<open>\<^verbatim>\<open>ipaddress.ip_address(value)\<close> for a string: IPv4 is tried first.\<close>

definition ip_address :: "string \<Rightarrow> ip option" where
  "ip_address s = (case read_ipv4 s of Some v \<Rightarrow> Some (Ip4 v) | None \<Rightarrow> read_ipv6 s)"

section \<open>The canonical text\<close>

text \<open>
  The longest run of zero groups, the first one when there are several: the loop of
  \<^verbatim>\<open>_compress_hextets\<close>, with the best run and the current run.
\<close>

fun longest_zeros :: "nat \<Rightarrow> nat \<times> nat \<Rightarrow> nat \<times> nat \<Rightarrow> nat list \<Rightarrow> nat \<times> nat" where
  "longest_zeros i best cur [] = best"
| "longest_zeros i (bs, bl) (cs, cl) (g # gs) =
     (if g = 0 then
        (let cl' = Suc cl; cs' = (if cl = 0 then i else cs);
             best' = (if bl < cl' then (cs', cl') else (bs, bl))
         in longest_zeros (Suc i) best' (cs', cl') gs)
      else longest_zeros (Suc i) (bs, bl) (0, 0) gs)"

definition compress_groups :: "nat list \<Rightarrow> string list" where
  "compress_groups gs =
     (let (start, len) = longest_zeros 0 (0, 0) (0, 0) gs
      in if 1 < len then
           (if start = 0 then [[]] else []) @ map hex_str (take start gs) @ [[]] @
           map hex_str (drop (start + len) gs) @ (if start + len = length gs then [[]] else [])
         else map hex_str gs)"

definition is_mapped :: "nat list \<Rightarrow> bool" where
  "is_mapped gs = (take 6 gs = [0, 0, 0, 0, 0, 65535])"

definition write_groups :: "nat list \<Rightarrow> string" where
  "write_groups gs =
     (if is_mapped gs then
        ''::ffff:'' @ write_ipv4 [gs ! 6 div 256, gs ! 6 mod 256, gs ! 7 div 256, gs ! 7 mod 256]
      else join '':'' (compress_groups gs))"

fun str_ip :: "ip \<Rightarrow> string" where
  "str_ip (Ip4 v) = write_ipv4 v"
| "str_ip (Ip6 gs None) = write_groups gs"
| "str_ip (Ip6 gs (Some scope)) = write_groups gs @ CHR ''%'' # scope"

definition valid_groups :: "nat list \<Rightarrow> bool" where
  "valid_groups gs = (length gs = 8 \<and> list_all (\<lambda>g. g < 65536) gs)"

fun valid_ip :: "ip \<Rightarrow> bool" where
  "valid_ip (Ip4 v) = valid_ipv4 v"
| "valid_ip (Ip6 gs scope) = (valid_groups gs \<and>
     (case scope of None \<Rightarrow> True
      | Some z \<Rightarrow> z \<noteq> [] \<and> CHR ''%'' \<notin> set z \<and> CHR ''/'' \<notin> set z))"

section \<open>Numerals\<close>

lemma int_of_digits_snoc: "int_of_digits (s @ [c]) = 10 * int_of_digits s + digit_value c"
  by (simp add: int_of_digits_def)

lemma int_of_digits_str_nat [simp]: "int_of_digits (str_nat n) = n"
proof (induction n rule: str_nat.induct)
  case (1 n)
  have val: "d < 10 \<Longrightarrow> digit_value (digit_char d) = d" for d
    by (simp add: digit_value_def digit_char_def code_def)
  show ?case
  proof (cases "n < 10")
    case True
    then show ?thesis
      by (subst str_nat.simps) (simp add: val int_of_digits_def)
  next
    case False
    then show ?thesis
      using 1 by (subst str_nat.simps) (simp add: int_of_digits_snoc val)
  qed
qed

lemma str_nat_nonempty [simp]: "str_nat n \<noteq> []"
  by (subst str_nat.simps) simp

lemma str_nat_all_digits: "list_all is_digit (str_nat n)"
proof (induction n rule: str_nat.induct)
  case (1 n)
  have "d < 10 \<Longrightarrow> is_digit (digit_char d)" for d
    by (simp add: is_digit_def in_range_def digit_char_def code_def)
  with 1 show ?case by (subst str_nat.simps) simp
qed

lemma str_nat_length: "n < 10 ^ k \<Longrightarrow> 0 < k \<Longrightarrow> length (str_nat n) \<le> k"
proof (induction k arbitrary: n)
  case (Suc k)
  show ?case
  proof (cases "n < 10")
    case True
    then show ?thesis by (subst str_nat.simps) simp
  next
    case False
    with Suc.prems have "n div 10 < 10 ^ k" "0 < k"
      by (auto intro: Nat.gr0I)
    from Suc.IH [OF this] False show ?thesis by (subst str_nat.simps) simp
  qed
qed simp

lemma str_nat_leading: "n \<noteq> 0 \<Longrightarrow> hd (str_nat n) \<noteq> CHR ''0''"
proof (induction n rule: str_nat.induct)
  case (1 n)
  show ?case
  proof (cases "n < 10")
    case True
    with 1(2) have "code (digit_char n) \<noteq> code CHR ''0''"
      by (simp add: digit_char_def code_def)
    with True show ?thesis by (subst str_nat.simps) auto
  next
    case False
    with 1(1) show ?thesis by (subst str_nat.simps) simp
  qed
qed

lemma read_octet_str_nat: "n \<le> 255 \<Longrightarrow> read_octet (str_nat n) = Some n"
proof -
  assume n: "n \<le> 255"
  then have "length (str_nat n) \<le> 3" by (intro str_nat_length) simp_all
  moreover have "str_nat 0 = ''0''" by code_simp
  ultimately show ?thesis
    using n str_nat_leading [of n] by (auto simp: read_octet_def str_nat_all_digits)
qed

lemma digits_free: "list_all is_digit s \<Longrightarrow> \<not> is_digit c \<Longrightarrow> c \<notin> set s"
  by (auto simp: list_all_iff)

lemma not_digit [simp]: "\<not> is_digit CHR ''.''" "\<not> is_digit CHR ''/''" "\<not> is_digit CHR '':''"
    "\<not> is_digit CHR ''%''"
  by (simp_all add: is_digit_def in_range_def code_def)

lemma in_set_join: "c \<in> set (join sep ps) \<Longrightarrow> c \<in> set sep \<or> (\<exists>p\<in>set ps. c \<in> set p)"
  by (induction sep ps rule: join.induct) auto

lemma read_ipv4_write:
  assumes "valid_ipv4 v"
  shows "read_ipv4 (write_ipv4 v) = Some v"
proof -
  have len: "length v = 4" and octets: "\<And>n. n \<in> set v \<Longrightarrow> n \<le> 255"
    using assms by (auto simp: valid_ipv4_def list_all_iff)
  have free: "CHR ''.'' \<notin> set p" "CHR ''/'' \<notin> set p" if "p \<in> set (map str_nat v)" for p
    using that digits_free [OF str_nat_all_digits] by auto
  have split: "split_on CHR ''.'' (write_ipv4 v) = map str_nat v"
    unfolding write_ipv4_def using len free by (intro split_on_join) auto
  have "CHR ''/'' \<notin> set (write_ipv4 v)"
    using in_set_join [of "CHR ''/''" "''.''" "map str_nat v"] free by (auto simp: write_ipv4_def)
  then show ?thesis
    using len by (simp add: read_ipv4_def split read_each_map octets read_octet_str_nat)
qed

lemma read_ipv4_valid: "read_ipv4 s = Some v \<Longrightarrow> valid_ipv4 v"
  by (auto simp: read_ipv4_def valid_ipv4_def Let_def read_octet_def read_each_length
        split: if_splits elim!: read_each_all)

interpretation ipv4: text_form read_ipv4 write_ipv4 valid_ipv4
  by unfold_locales (auto simp: read_ipv4_valid read_ipv4_write)

section \<open>Hexadecimal groups\<close>

lemma hex_char_hex: "d < 16 \<Longrightarrow> is_hex (hex_char d) \<and> hex_value (hex_char d) = d"
  by (auto simp: is_hex_def is_lower_hex_def is_digit_def in_range_def hex_char_def hex_value_def
        lower_char_def is_upper_def code_def)

lemma int_of_hex_snoc: "int_of_hex (s @ [c]) = 16 * int_of_hex s + hex_value c"
  by (simp add: int_of_hex_def)

lemma int_of_hex_hex_str [simp]: "int_of_hex (hex_str n) = n"
proof (induction n rule: hex_str.induct)
  case (1 n)
  show ?case
  proof (cases "n < 16")
    case True
    then show ?thesis
      using hex_char_hex [of n] by (subst hex_str.simps) (simp add: int_of_hex_def)
  next
    case False
    then show ?thesis
      using 1 hex_char_hex [of "n mod 16"] by (subst hex_str.simps) (simp add: int_of_hex_snoc)
  qed
qed

lemma hex_str_nonempty [simp]: "hex_str n \<noteq> []"
  by (subst hex_str.simps) simp

lemma hex_str_all_hex: "list_all is_hex (hex_str n)"
proof (induction n rule: hex_str.induct)
  case (1 n)
  then show ?case
    using hex_char_hex [of n] hex_char_hex [of "n mod 16"] by (subst hex_str.simps) simp
qed

lemma hex_str_length: "n < 16 ^ k \<Longrightarrow> 0 < k \<Longrightarrow> length (hex_str n) \<le> k"
proof (induction k arbitrary: n)
  case (Suc k)
  show ?case
  proof (cases "n < 16")
    case True
    then show ?thesis by (subst hex_str.simps) simp
  next
    case False
    with Suc.prems have "n div 16 < 16 ^ k" "0 < k"
      by (auto intro: Nat.gr0I)
    from Suc.IH [OF this] False show ?thesis by (subst hex_str.simps) simp
  qed
qed simp

lemma not_hex [simp]: "\<not> is_hex CHR '':''" "\<not> is_hex CHR ''.''" "\<not> is_hex CHR ''%''"
    "\<not> is_hex CHR ''/''"
  by (simp_all add: is_hex_def is_lower_hex_def is_digit_def in_range_def code_def)

lemma hex_free: "\<not> is_hex c \<Longrightarrow> c \<notin> set (hex_str n)"
  using hex_str_all_hex [of n] by (auto simp: list_all_iff)

lemma read_hextet_hex_str: "g < 65536 \<Longrightarrow> read_hextet (hex_str g) = Some g"
  using hex_str_length [of g 4] by (simp add: read_hextet_def hex_str_all_hex)

lemma int_of_hex_bound: "list_all is_hex s \<Longrightarrow> int_of_hex s < 16 ^ length s"
proof (induction s rule: rev_induct)
  case Nil
  then show ?case by (simp add: int_of_hex_def)
next
  case (snoc c s)
  then have "is_hex c" "int_of_hex s < 16 ^ length s" by simp_all
  moreover from \<open>is_hex c\<close> have "hex_value c < 16"
    by (auto simp: is_hex_def is_lower_hex_def is_digit_def in_range_def hex_value_def
          lower_char_def is_upper_def code_def)
  ultimately show ?case by (simp add: int_of_hex_snoc)
qed

lemma read_hextet_bound: "read_hextet s = Some g \<Longrightarrow> g < 65536"
proof -
  assume r: "read_hextet s = Some g"
  then have s: "list_all is_hex s" "length s \<le> 4" "g = int_of_hex s"
    by (auto simp: read_hextet_def split: if_splits)
  have "(16::nat) ^ length s \<le> 16 ^ 4" using s(2) by (intro power_increasing) simp_all
  with int_of_hex_bound [OF s(1)] s(3) show ?thesis by simp
qed

section \<open>Reading back the canonical text\<close>

lemma filter_upt_single:
  assumes "a \<le> k" and "k < b" and "\<And>i. a \<le> i \<Longrightarrow> i < b \<Longrightarrow> P i \<longleftrightarrow> i = k"
  shows "filter P [a..<b] = [k]"
proof -
  have "[a..<b] = [a..<k] @ k # [Suc k..<b]"
    using assms(1,2) by (metis le_add_diff_inverse less_imp_le_nat upt_add_eq_append upt_conv_Cons)
  moreover have "filter P [a..<k] = []" "filter P [Suc k..<b] = []"
    using assms by (auto simp: filter_empty_conv)
  ultimately show ?thesis using assms by simp
qed

lemma read_groups_gap:
  assumes "length h + length l < 8" and "list_all (\<lambda>g. g < 65536) h" and "list_all (\<lambda>g. g < 65536) l"
  shows "read_groups ((if h = [] then [[]] else []) @ map hex_str h @ [[]] @ map hex_str l @
           (if l = [] then [[]] else [])) = Some (h @ replicate (8 - (length h + length l)) 0 @ l)"
    (is "read_groups ?p = _")
proof -
  define k where "k = (if h = [] then 1 else length h)"
  have len: "length ?p = k + Suc (if l = [] then 1 else length l)" by (auto simp: k_def)
  have gap: "filter (\<lambda>i. ?p ! i = []) [1..<length ?p - 1] = [k]"
  proof (rule filter_upt_single)
    show "1 \<le> k" by (cases h) (auto simp: k_def)
    show "k < length ?p - 1" unfolding len by (cases l) auto
    show "?p ! i = [] \<longleftrightarrow> i = k" if "1 \<le> i" "i < length ?p - 1" for i
      using that by (cases "h = []"; cases "l = []") (auto simp: k_def nth_append nth_Cons split: nat.splits)
  qed
  have hs: "read_each read_hextet (map hex_str h) = Some h"
    and ls: "read_each read_hextet (map hex_str l) = Some l"
    using assms(2,3) by (auto intro!: read_each_map read_hextet_hex_str simp: list_all_iff)
  have hi: "(if hd ?p = [] then [] else take k ?p) = map hex_str h"
    by (cases h) (auto simp: k_def)
  have lo: "(if last ?p = [] then [] else drop (Suc k) ?p) = map hex_str l"
    by (cases h; cases l rule: rev_cases) (auto simp: k_def)
  have ends: "hd ?p = [] \<longleftrightarrow> h = []" "last ?p = [] \<longleftrightarrow> l = []"
    by (cases h; simp) (cases l rule: rev_cases; simp)
  show ?thesis
    unfolding read_groups_def gap list.case hi lo Let_def hs ls option.case length_map
    using assms(1) by (auto simp: len ends k_def hd_map last_map)
qed

definition zero_run :: "nat list \<Rightarrow> nat \<Rightarrow> nat \<Rightarrow> bool" where
  "zero_run gs start len = (start + len \<le> length gs \<and> (\<forall>i<len. gs ! (start + i) = 0))"

lemma zero_run_longest:
  "zero_run (pre @ gs) bs bl \<Longrightarrow> zero_run (pre @ gs) cs cl \<Longrightarrow> cl = 0 \<or> cs + cl = length pre \<Longrightarrow>
     longest_zeros (length pre) (bs, bl) (cs, cl) gs = (start, len) \<Longrightarrow>
     zero_run (pre @ gs) start len"
proof (induction gs arbitrary: pre bs bl cs cl)
  case Nil
  then show ?case by simp
next
  case (Cons g gs)
  show ?case
  proof (cases "g = 0")
    case False
    have "zero_run ((pre @ [g]) @ gs) 0 0" by (simp add: zero_run_def)
    from Cons.IH [OF _ this] Cons.prems False show ?thesis by simp
  next
    case True
    define cs' where "cs' = (if cl = 0 then length pre else cs)"
    have run: "zero_run ((pre @ [g]) @ gs) cs' (Suc cl)"
    proof -
      have "(pre @ g # gs) ! (cs' + i) = 0" if "i < Suc cl" for i
      proof (cases "i < cl")
        case True
        then show ?thesis using Cons.prems(2) by (auto simp: zero_run_def cs'_def)
      next
        case False
        with that have "i = cl" by simp
        with Cons.prems(3) have "cs' + i = length pre" by (auto simp: cs'_def)
        with \<open>g = 0\<close> show ?thesis by simp
      qed
      moreover have "cs' + Suc cl \<le> length (pre @ g # gs)"
        using Cons.prems(3) by (auto simp: cs'_def)
      ultimately show ?thesis by (simp add: zero_run_def)
    qed
    have ends: "Suc cl = 0 \<or> cs' + Suc cl = length (pre @ [g])"
      using Cons.prems(3) by (auto simp: cs'_def)
    show ?thesis
      using Cons.prems(4) True Cons.IH [OF run run ends] Cons.IH [OF _ run ends, of bs bl] Cons.prems(1)
      by (simp add: Let_def cs'_def [symmetric] split: if_splits)
  qed
qed

lemma zero_run_split:
  assumes "zero_run gs start len"
  shows "gs = take start gs @ replicate len 0 @ drop (start + len) gs"
proof -
  have "take len (drop start gs) = replicate len 0"
    using assms by (intro nth_equalityI) (auto simp: zero_run_def)
  then have "drop start gs = replicate len 0 @ drop (start + len) gs"
    using append_take_drop_id [of len "drop start gs"] by (simp add: add.commute)
  then show ?thesis using append_take_drop_id [of start gs] by simp
qed

lemma read_groups_hex:
  assumes "length gs = 8" and "list_all (\<lambda>g. g < 65536) gs"
  shows "read_groups (map hex_str gs) = Some gs"
proof -
  have none: "filter (\<lambda>i. map hex_str gs ! i = []) [1..<length (map hex_str gs) - 1] = []"
    using assms(1) by (auto simp: filter_empty_conv)
  have "gs \<noteq> []" using assms(1) by auto
  then show ?thesis
    unfolding read_groups_def none list.case
    using assms
    by (auto simp: hd_map last_map list_all_iff intro!: read_each_map read_hextet_hex_str)
qed

lemma compress_groups_facts:
  assumes "valid_groups gs"
  shows "read_groups (compress_groups gs) = Some gs \<and> 3 \<le> length (compress_groups gs) \<and>
     length (compress_groups gs) \<le> 9 \<and> (\<forall>p\<in>set (compress_groups gs). p = [] \<or> list_all is_hex p)"
proof -
  have len8: "length gs = 8" and small: "list_all (\<lambda>g. g < 65536) gs"
    using assms by (auto simp: valid_groups_def)
  obtain start len where run: "longest_zeros 0 (0, 0) (0, 0) gs = (start, len)"
    by (cases "longest_zeros 0 (0, 0) (0, 0) gs")
  have zero: "zero_run gs start len"
    using zero_run_longest [of "[]" gs 0 0 0 0 start len] run by (simp add: zero_run_def)
  show ?thesis
  proof (cases "1 < len")
    case False
    then show ?thesis
      by (simp add: compress_groups_def run read_groups_hex [OF len8 small] len8 hex_str_all_hex)
  next
    case True
    define h l where "h = take start gs" and "l = drop (start + len) gs"
    have bound: "start + len \<le> 8" using zero len8 by (simp add: zero_run_def)
    have lens: "length h = start" "length l = 8 - (start + len)"
      using bound len8 by (simp_all add: h_def l_def)
    have shape: "compress_groups gs = (if h = [] then [[]] else []) @ map hex_str h @ [[]] @
        map hex_str l @ (if l = [] then [[]] else [])"
      using True bound len8 by (auto simp: compress_groups_def run h_def l_def)
    have "length h + length l < 8" using True bound lens by simp
    moreover have "list_all (\<lambda>g. g < 65536) h" "list_all (\<lambda>g. g < 65536) l"
      using small by (auto simp: list_all_iff h_def l_def dest: in_set_takeD in_set_dropD)
    ultimately have "read_groups (compress_groups gs) =
        Some (h @ replicate (8 - (length h + length l)) 0 @ l)"
      unfolding shape by (rule read_groups_gap)
    moreover have "8 - (length h + length l) = len" using bound lens by simp
    ultimately have "read_groups (compress_groups gs) = Some gs"
      using zero_run_split [OF zero] by (simp add: h_def l_def)
    moreover have "3 \<le> length (compress_groups gs) \<and> length (compress_groups gs) \<le> 9"
      unfolding shape using True bound lens by (cases h; cases l) auto
    ultimately show ?thesis unfolding shape by (auto simp: hex_str_all_hex)
  qed
qed

lemma hex_part_free: "p = [] \<or> list_all is_hex p \<Longrightarrow> \<not> is_hex c \<Longrightarrow> c \<notin> set p"
  by (auto simp: list_all_iff)

lemma read_ipv6_groups_write:
  assumes "valid_groups gs"
  shows "read_ipv6_groups (write_groups gs) = Some gs"
proof (cases "is_mapped gs")
  case False
  let ?p = "compress_groups gs"
  note facts = compress_groups_facts [OF assms]
  then have ne: "?p \<noteq> []" by auto
  have split: "split_on CHR '':'' (join '':'' ?p) = ?p"
    using facts hex_part_free [of _ "CHR '':''"] by (intro split_on_join ne) auto
  have "CHR ''.'' \<notin> set (last ?p)"
    using facts last_in_set [OF ne] hex_part_free [of "last ?p" "CHR ''.''"] by auto
  then show ?thesis
    using facts False by (simp add: read_ipv6_groups_def write_groups_def split expand_dotted_def)
next
  case True
  have len8: "length gs = 8" and small: "\<And>g. g \<in> set gs \<Longrightarrow> g < 65536"
    using assms by (auto simp: valid_groups_def list_all_iff)
  define a b where "a = gs ! 6" and "b = gs ! 7"
  have ab: "a < 65536" "b < 65536" using len8 small by (auto simp: a_def b_def)
  have gs: "gs = [0, 0, 0, 0, 0, 65535, a, b]"
  proof -
    have "drop 6 gs = [a, b]"
      using len8 by (intro nth_equalityI) (auto simp: a_def b_def nth_Cons less_Suc_eq split: nat.splits)
    then show ?thesis using True append_take_drop_id [of 6 gs] by (simp add: is_mapped_def)
  qed
  let ?v = "[a div 256, a mod 256, b div 256, b mod 256]" and ?d = "write_ipv4 [a div 256, a mod 256, b div 256, b mod 256]"
  have "a div 256 < 256" "b div 256 < 256" using ab by (auto intro: less_mult_imp_div_less)
  then have v: "valid_ipv4 ?v" by (auto simp: valid_ipv4_def less_Suc_eq_le [symmetric])
  have colon: "CHR '':'' \<notin> set ?d"
    using in_set_join [of "CHR '':''" "''.''" "map str_nat ?v"] digits_free [OF str_nat_all_digits]
    by (auto simp: write_ipv4_def)
  have dot: "CHR ''.'' \<in> set ?d" by (simp add: write_ipv4_def)
  let ?p = "[[], [], ''ffff'', ?d]"
  have "write_groups gs = join '':'' ?p"
    using True by (simp add: write_groups_def a_def b_def)
  moreover have "split_on CHR '':'' (join '':'' ?p) = ?p"
    using colon by (intro split_on_join) auto
  moreover have "expand_dotted ?p = Some [[], [], ''ffff'', hex_str a, hex_str b]"
    using dot by (simp add: expand_dotted_def read_ipv4_write [OF v])
  moreover have "hex_char 15 = CHR ''f''" by code_simp
  then have "hex_str 65535 = ''ffff''"
    by (simp add: hex_str.simps [of 65535] hex_str.simps [of 4095] hex_str.simps [of 255]
          hex_str.simps [of 15])
  moreover have "read_groups [[], [], hex_str 65535, hex_str a, hex_str b] = Some gs"
  proof -
    have "replicate 5 (0::nat) = [0, 0, 0, 0, 0]" by code_simp
    then show ?thesis
      using read_groups_gap [of "[]" "[65535, a, b]"] ab by (simp add: gs)
  qed
  ultimately show ?thesis by (simp add: read_ipv6_groups_def Let_def)
qed

section \<open>Well-formed addresses\<close>

lemma read_hextets_valid:
  "read_each read_hextet ps = Some gs \<Longrightarrow> list_all (\<lambda>g. g < 65536) gs \<and> length gs = length ps"
  using read_each_all [of read_hextet ps gs "\<lambda>g. g < 65536"] read_hextet_bound
  by (auto simp: read_each_length)

lemma read_groups_valid: "read_groups ps = Some gs \<Longrightarrow> valid_groups gs"
  by (auto simp: read_groups_def valid_groups_def Let_def dest!: read_hextets_valid
        simp: list_all_iff split: list.splits if_splits option.splits)

lemma read_ipv6_groups_valid: "read_ipv6_groups s = Some gs \<Longrightarrow> valid_groups gs"
  by (auto simp: read_ipv6_groups_def Let_def dest: read_groups_valid split: if_splits option.splits)

lemma hd_dropWhile_eq: "dropWhile P s = x # xs \<Longrightarrow> \<not> P x"
  by (induction s) (auto split: if_splits)

lemma ip_address_valid:
  assumes "ip_address s = Some a"
  shows "valid_ip a"
proof (cases "read_ipv4 s")
  case (Some v)
  with assms show ?thesis by (auto simp: ip_address_def dest: read_ipv4_valid)
next
  case None
  with assms have r: "read_ipv6 s = Some a" by (simp add: ip_address_def)
  obtain rest where rest: "dropWhile (\<lambda>c. c \<noteq> CHR ''%'') s = rest" by simp
  then have sub: "set rest \<subseteq> set s" by (auto dest: set_dropWhileD)
  have head: "rest = x # xs \<Longrightarrow> x = CHR ''%''" for x xs
    using hd_dropWhile_eq rest by fastforce
  show ?thesis
    using r sub head by (cases rest)
      (auto simp: read_ipv6_def rest Let_def dest: read_ipv6_groups_valid
        split: if_splits option.splits)
qed

lemma write_groups_chars:
  assumes "valid_groups gs" and "c \<in> set (write_groups gs)"
  shows "is_hex c \<or> c = CHR '':'' \<or> c = CHR ''.''"
proof -
  have digit_hex: "is_digit d \<Longrightarrow> is_hex d" for d by (simp add: is_hex_def is_lower_hex_def)
  have quads: "c \<in> set (write_ipv4 v) \<Longrightarrow> is_hex c \<or> c = CHR ''.''" for v
    using in_set_join [of c "''.''" "map str_nat v"] str_nat_all_digits digit_hex
    by (auto simp: write_ipv4_def list_all_iff)
  have "is_hex CHR ''f''" by (simp add: is_hex_def is_lower_hex_def in_range_def code_def)
  moreover have "c \<in> set (join '':'' (compress_groups gs)) \<Longrightarrow> is_hex c \<or> c = CHR '':''"
    using in_set_join [of c "'':''" "compress_groups gs"] compress_groups_facts [OF assms(1)]
    by (auto simp: list_all_iff)
  ultimately show ?thesis
    using assms(2) quads by (auto simp: write_groups_def split: if_splits)
qed

lemma write_groups_colon: "valid_groups gs \<Longrightarrow> CHR '':'' \<in> set (write_groups gs)"
proof -
  assume v: "valid_groups gs"
  have "length (split_on CHR '':'' (write_groups gs)) \<noteq> 1"
    using read_ipv6_groups_write [OF v] by (auto simp: read_ipv6_groups_def Let_def)
  moreover have "sep \<notin> set q \<Longrightarrow> split_on sep q = [q]" for sep :: char and q
    by (induction q) auto
  ultimately show ?thesis by fastforce
qed

lemma read_ipv4_no_colon: "CHR '':'' \<in> set s \<Longrightarrow> read_ipv4 s = None"
proof (rule ccontr)
  assume colon: "CHR '':'' \<in> set s" and "read_ipv4 s \<noteq> None"
  then obtain v where "read_each read_octet (split_on CHR ''.'' s) = Some v"
    by (auto simp: read_ipv4_def Let_def split: if_splits)
  then have "list_all (list_all is_digit) (split_on CHR ''.'' s)"
    by (rule read_each_dom) (auto simp: read_octet_def split: if_splits)
  then show False
    using colon in_set_join [of "CHR '':''" "''.''" "split_on CHR ''.'' s"] digits_free [of _ "CHR '':''"]
    by (auto simp: join_split_on list_all_iff)
qed

lemma ip_address_str_ip:
  assumes "valid_ip a"
  shows "ip_address (str_ip a) = Some a"
proof (cases a)
  case (Ip4 v)
  with assms show ?thesis by (simp add: ip_address_def read_ipv4_write)
next
  case (Ip6 gs scope)
  with assms have v: "valid_groups gs" by simp
  let ?t = "write_groups gs"
  have free: "CHR ''%'' \<notin> set ?t" "CHR ''/'' \<notin> set ?t"
    using write_groups_chars [OF v] by fastforce+
  have v4: "read_ipv4 (?t @ z) = None" for z
    using write_groups_colon [OF v] by (simp add: read_ipv4_no_colon)
  note all = no_separator [OF free(1)] and upto = before_separator [OF free(1)]
  show ?thesis
  proof (cases scope)
    case None
    then show ?thesis
      using v4 [of "[]"] free
      by (simp add: Ip6 ip_address_def read_ipv6_def all read_ipv6_groups_write [OF v])
  next
    case (Some z)
    then show ?thesis
      using v4 [of "CHR ''%'' # z"] free assms
      by (simp add: Ip6 ip_address_def read_ipv6_def upto read_ipv6_groups_write [OF v])
  qed
qed

interpretation ip: text_form ip_address str_ip valid_ip
  by unfold_locales (auto simp: ip_address_valid ip_address_str_ip)

end
