(* ===== verification/Regex.thy ===== *)
theory Regex
  imports Prelude
begin

text \<open>
  The fragment of Python's \<^verbatim>\<open>re\<close> module the program uses: character classes, sequence,
  alternation, greedy and lazy repetition, named groups, and the anchors (with and without
  \<^verbatim>\<open>re.MULTILINE\<close>).  \<open>match_ends\<close> lists the ways a pattern matches from a position, in the
  order in which the backtracking matcher tries them; \<^verbatim>\<open>search\<close> and \<^verbatim>\<open>finditer\<close> take the
  first.  For patterns without anchors \<open>fullmatch\<close> is membership in the regular language
  (\<open>fullmatch_lang\<close>), from which the shape of each accepted string is derived.
\<close>

datatype re =
    Eps
  | Cls "char \<Rightarrow> bool"
  | Cat re re
  | Alt re re
  | Star re
  | LazyStar re
  | Grp string re
  | TextStart
  | TextEnd
  | DollarEnd
  | LineStart
  | LineEnd
  | WordBoundary

text \<open>A match state: the text before the position (reversed), the text after it, the groups.\<close>

type_synonym mstate = "string \<times> string \<times> (string \<times> string) list"

definition at_line_start :: "string \<Rightarrow> bool" where
  "at_line_start b = (case b of [] \<Rightarrow> True | c # _ \<Rightarrow> c = newline)"

definition at_line_end :: "string \<Rightarrow> bool" where
  "at_line_end a = (case a of [] \<Rightarrow> True | c # _ \<Rightarrow> c = newline)"

text \<open>\<^verbatim>\<open>\w\<close> below code point 256: the alphanumeric characters and the underscore.\<close>

definition is_word_char :: "char \<Rightarrow> bool" where
  "is_word_char c = (is_alnum c \<or> c = CHR ''_''
     \<or> code c \<in> {170, 178, 179, 181, 185, 186, 188, 189, 190}
     \<or> (192 \<le> code c \<and> code c \<noteq> 215 \<and> code c \<noteq> 247))"

definition word_at :: "string \<Rightarrow> bool" where
  "word_at s = (case s of [] \<Rightarrow> False | c # _ \<Rightarrow> is_word_char c)"

abbreviation after :: "mstate \<Rightarrow> string" where
  "after st \<equiv> fst (snd st)"

function match_ends :: "re \<Rightarrow> mstate \<Rightarrow> mstate list" where
  "match_ends Eps st = [st]"
| "match_ends (Cls p) st =
     (case st of (b, a, g) \<Rightarrow>
        (case a of [] \<Rightarrow> [] | c # cs \<Rightarrow> if p c then [(c # b, cs, g)] else []))"
| "match_ends (Cat r q) st = concat (map (match_ends q) (match_ends r st))"
| "match_ends (Alt r q) st = match_ends r st @ match_ends q st"
| "match_ends (Star r) st =
     concat (map (\<lambda>st'. if length (after st') < length (after st)
                        then match_ends (Star r) st' else []) (match_ends r st)) @ [st]"
| "match_ends (LazyStar r) st =
     st # concat (map (\<lambda>st'. if length (after st') < length (after st)
                        then match_ends (LazyStar r) st' else []) (match_ends r st))"
| "match_ends (Grp n r) st =
     map (\<lambda>(b', a', g'). (b', a', (n, take (length (after st) - length a') (after st)) # g'))
       (match_ends r st)"
| "match_ends TextStart st = (if fst st = [] then [st] else [])"
| "match_ends TextEnd st = (if after st = [] then [st] else [])"
| "match_ends DollarEnd st = (if after st = [] \<or> after st = [newline] then [st] else [])"
| "match_ends LineStart st = (if at_line_start (fst st) then [st] else [])"
| "match_ends LineEnd st = (if at_line_end (after st) then [st] else [])"
| "match_ends WordBoundary st = (if word_at (fst st) \<noteq> word_at (after st) then [st] else [])"
  by pat_completeness auto
termination
  by (relation "measures [\<lambda>(r, st). size r, \<lambda>(r, st). length (after st)]") auto

lemmas match_ends_star = match_ends.simps(5) match_ends.simps(6)

declare match_ends.simps(5) [simp del]

declare match_ends.simps(6) [simp del]

lemma mem_match_ends_Star:
  "st' \<in> set (match_ends (Star r) st) \<longleftrightarrow> st' = st \<or>
     (\<exists>m \<in> set (match_ends r st). length (after m) < length (after st) \<and>
        st' \<in> set (match_ends (Star r) m))"
  by (subst match_ends_star) auto

lemma mem_match_ends_LazyStar:
  "st' \<in> set (match_ends (LazyStar r) st) \<longleftrightarrow> st' = st \<or>
     (\<exists>m \<in> set (match_ends r st). length (after m) < length (after st) \<and>
        st' \<in> set (match_ends (LazyStar r) m))"
  by (subst match_ends_star) auto

lemma match_ends_here:
  "st \<in> set (match_ends (Star r) st)" "st \<in> set (match_ends (LazyStar r) st)"
  by (subst match_ends_star, simp)+

definition group :: "string \<Rightarrow> mstate \<Rightarrow> string" where
  "group n st = (case map_of (snd (snd st)) n of None \<Rightarrow> [] | Some s \<Rightarrow> s)"

definition fullmatch :: "re \<Rightarrow> string \<Rightarrow> bool" where
  "fullmatch r s = list_ex (\<lambda>st. after st = []) (match_ends r ([], s, []))"

text \<open>
  \<open>search_from r b a\<close> is the leftmost match at or after the position: the matched text and
  the end state.
\<close>

fun search_from :: "re \<Rightarrow> string \<Rightarrow> string \<Rightarrow> (string \<times> mstate) option" where
  "search_from r b a =
     (case match_ends r (b, a, []) of
        st # _ \<Rightarrow> Some (take (length a - length (after st)) a, st)
      | [] \<Rightarrow> (case a of [] \<Rightarrow> None | c # cs \<Rightarrow> search_from r (c # b) cs))"

declare search_from.simps [simp del]

definition search :: "re \<Rightarrow> string \<Rightarrow> (string \<times> mstate) option" where
  "search r s = search_from r [] s"

text \<open>
  \<^verbatim>\<open>finditer\<close>: the non-overlapping matches from the left, each search going on where the last
  match ended.  Every pattern the program iterates consumes text, which the guard makes
  explicit.
\<close>

function finditer_from :: "re \<Rightarrow> string \<Rightarrow> string \<Rightarrow> mstate list" where
  "finditer_from r b a =
     (case search_from r b a of
        None \<Rightarrow> []
      | Some (_, st) \<Rightarrow>
          st # (if length (after st) < length a then finditer_from r (fst st) (after st) else []))"
  by pat_completeness auto
termination
  by (relation "measure (\<lambda>(r, b, a). length a)") auto

declare finditer_from.simps [simp del]

definition finditer :: "re \<Rightarrow> string \<Rightarrow> mstate list" where
  "finditer r s = finditer_from r [] s"

section \<open>Derived patterns\<close>

fun lit :: "string \<Rightarrow> re" where
  "lit [] = Eps"
| "lit [c] = Cls (\<lambda>x. x = c)"
| "lit (c # s) = Cat (Cls (\<lambda>x. x = c)) (lit s)"

text \<open>A literal under \<^verbatim>\<open>re.IGNORECASE\<close> (the program's literals are ASCII).\<close>

fun lit_i :: "string \<Rightarrow> re" where
  "lit_i [] = Eps"
| "lit_i (c # s) = Cat (Cls (\<lambda>x. lower_char x = lower_char c)) (lit_i s)"

definition Plus :: "re \<Rightarrow> re" where
  "Plus r = Cat r (Star r)"

definition Opt :: "re \<Rightarrow> re" where
  "Opt r = Alt r Eps"

fun rep :: "nat \<Rightarrow> re \<Rightarrow> re" where
  "rep 0 r = Eps"
| "rep (Suc n) r = Cat r (rep n r)"

text \<open>\<^verbatim>\<open>r{0,n}\<close>\<close>

fun upto_rep :: "nat \<Rightarrow> re \<Rightarrow> re" where
  "upto_rep 0 r = Eps"
| "upto_rep (Suc n) r = Alt (Cat r (upto_rep n r)) Eps"

fun cats :: "re list \<Rightarrow> re" where
  "cats [] = Eps"
| "cats [r] = r"
| "cats (r # rs) = Cat r (cats rs)"

definition any_of :: "string \<Rightarrow> char \<Rightarrow> bool" where
  "any_of cs c = (c \<in> set cs)"

abbreviation spaces0 :: re where
  "spaces0 \<equiv> Star (Cls isspace)"

abbreviation spaces1 :: re where
  "spaces1 \<equiv> Plus (Cls isspace)"

section \<open>The language of a pattern\<close>

inductive_set star_lang :: "string set \<Rightarrow> string set" for A where
  star_nil: "[] \<in> star_lang A"
| star_step: "u \<in> A \<Longrightarrow> v \<in> star_lang A \<Longrightarrow> u @ v \<in> star_lang A"

fun lang :: "re \<Rightarrow> string set" where
  "lang Eps = {[]}"
| "lang (Cls p) = {[c] | c. p c}"
| "lang (Cat r q) = {u @ v | u v. u \<in> lang r \<and> v \<in> lang q}"
| "lang (Alt r q) = lang r \<union> lang q"
| "lang (Star r) = star_lang (lang r)"
| "lang (LazyStar r) = star_lang (lang r)"
| "lang (Grp n r) = lang r"
| "lang _ = {}"

fun anchor_free :: "re \<Rightarrow> bool" where
  "anchor_free Eps = True"
| "anchor_free (Cls p) = True"
| "anchor_free (Cat r q) = (anchor_free r \<and> anchor_free q)"
| "anchor_free (Alt r q) = (anchor_free r \<and> anchor_free q)"
| "anchor_free (Star r) = anchor_free r"
| "anchor_free (LazyStar r) = anchor_free r"
| "anchor_free (Grp n r) = anchor_free r"
| "anchor_free _ = False"

text \<open>\<open>reaches r a a'\<close>: some way of matching \<open>r\<close> at \<open>a\<close> leaves \<open>a'\<close>.\<close>

definition reaches :: "re \<Rightarrow> mstate \<Rightarrow> string \<Rightarrow> bool" where
  "reaches r st a' = (\<exists>b' g'. (b', a', g') \<in> set (match_ends r st))"

lemma match_ends_suffix:
  "anchor_free r \<Longrightarrow> st' \<in> set (match_ends r st) \<Longrightarrow>
     \<exists>u. after st = u @ after st' \<and> u \<in> lang r"
proof (induction r st arbitrary: st' rule: match_ends.induct)
  case (2 p st)
  then show ?case
    by (cases st) (auto split: list.splits if_splits)
next
  case (3 r q st)
  then obtain m where m: "m \<in> set (match_ends r st)" "st' \<in> set (match_ends q m)"
    by auto
  from "3.IH"(1) [OF _ m(1)] "3.prems"(1)
  obtain u where u: "after st = u @ after m" "u \<in> lang r" by auto
  from "3.IH"(2) [OF m(1) _ m(2)] "3.prems"(1)
  obtain v where v: "after m = v @ after st'" "v \<in> lang q" by auto
  from u v have "after st = (u @ v) @ after st'" "u @ v \<in> lang (Cat r q)" by auto
  then show ?case by blast
next
  case (4 r q st)
  then show ?case by simp blast
next
  case (5 r st)
  show ?case
  proof (cases "st' = st")
    case True
    then show ?thesis by (auto intro: star_nil)
  next
    case False
    with "5.prems"(2) mem_match_ends_Star [of st' r st] obtain m where m: "m \<in> set (match_ends r st)"
        "length (after m) < length (after st)" "st' \<in> set (match_ends (Star r) m)"
      by blast
    from "5.IH"(1) [OF _ m(1)] "5.prems"(1)
    obtain u where u: "after st = u @ after m" "u \<in> lang r" by auto
    from "5.IH"(2) [OF m(1,2) _ m(3)] "5.prems"(1)
    obtain v where v: "after m = v @ after st'" "v \<in> lang (Star r)" by auto
    from u v have "after st = (u @ v) @ after st'" "u @ v \<in> lang (Star r)"
      by (auto intro: star_step)
    then show ?thesis by blast
  qed
next
  case (6 r st)
  show ?case
  proof (cases "st' = st")
    case True
    then show ?thesis by (auto intro: star_nil)
  next
    case False
    with "6.prems"(2) mem_match_ends_LazyStar [of st' r st] obtain m where m: "m \<in> set (match_ends r st)"
        "length (after m) < length (after st)" "st' \<in> set (match_ends (LazyStar r) m)"
      by blast
    from "6.IH"(1) [OF _ m(1)] "6.prems"(1)
    obtain u where u: "after st = u @ after m" "u \<in> lang r" by auto
    from "6.IH"(2) [OF m(1,2) _ m(3)] "6.prems"(1)
    obtain v where v: "after m = v @ after st'" "v \<in> lang (LazyStar r)" by auto
    from u v have "after st = (u @ v) @ after st'" "u @ v \<in> lang (LazyStar r)"
      by (auto intro: star_step)
    then show ?thesis by blast
  qed
next
  case (7 n r st)
  then obtain m where m: "m \<in> set (match_ends r st)" "after st' = after m" by auto
  with "7.IH" [OF _ m(1)] "7.prems"(1) show ?case by auto
qed auto

lemma match_ends_complete:
  "anchor_free r \<Longrightarrow> u \<in> lang r \<Longrightarrow> after st = u @ a' \<Longrightarrow>
     \<exists>st' \<in> set (match_ends r st). after st' = a'"
proof (induction r arbitrary: u st a')
  case (Cls p)
  then show ?case by (cases st) auto
next
  case (Cat r q)
  then obtain v w where "u = v @ w" "v \<in> lang r" "w \<in> lang q" by auto
  with Cat.prems Cat.IH(1) [of v st "w @ a'"]
  obtain m where "m \<in> set (match_ends r st)" "after m = w @ a'" by auto
  with Cat.IH(2) [of w m a'] Cat.prems \<open>w \<in> lang q\<close> show ?case by auto
next
  case (Alt r q)
  then show ?case by (auto dest: Alt.IH)
next
  case (Star r)
  from Star.prems(2) have "u \<in> star_lang (lang r)" by simp
  then show ?case
    using Star.prems(1,3)
  proof (induction u arbitrary: st rule: star_lang.induct)
    case star_nil
    then show ?case by (intro bexI [of _ st]) (simp_all add: match_ends_here)
  next
    case (star_step v w)
    show ?case
    proof (cases "v = []")
      case True
      with star_step show ?thesis by auto
    next
      case False
      with star_step.prems star_step.hyps(1) Star.IH [of v st "w @ a'"]
      obtain m where m: "m \<in> set (match_ends r st)" "after m = w @ a'" by auto
      with star_step.IH [of m] star_step.prems obtain st' where
        st': "st' \<in> set (match_ends (Star r) m)" "after st' = a'" by auto
      moreover have "length (after m) < length (after st)"
        using m False star_step.prems by simp
      ultimately show ?thesis
        using m st' mem_match_ends_Star [of st' r st] by blast
    qed
  qed
next
  case (LazyStar r)
  from LazyStar.prems(2) have "u \<in> star_lang (lang r)" by simp
  then show ?case
    using LazyStar.prems(1,3)
  proof (induction u arbitrary: st rule: star_lang.induct)
    case star_nil
    then show ?case by (intro bexI [of _ st]) (simp_all add: match_ends_here)
  next
    case (star_step v w)
    show ?case
    proof (cases "v = []")
      case True
      with star_step show ?thesis by auto
    next
      case False
      with star_step.prems star_step.hyps(1) LazyStar.IH [of v st "w @ a'"]
      obtain m where m: "m \<in> set (match_ends r st)" "after m = w @ a'" by auto
      with star_step.IH [of m] star_step.prems obtain st' where
        st': "st' \<in> set (match_ends (LazyStar r) m)" "after st' = a'" by auto
      moreover have "length (after m) < length (after st)"
        using m False star_step.prems by simp
      ultimately show ?thesis
        using m st' mem_match_ends_LazyStar [of st' r st] by blast
    qed
  qed
next
  case (Grp n r)
  then have "anchor_free r" "u \<in> lang r" by simp_all
  from Grp.IH [OF this Grp.prems(3)] obtain m where m: "m \<in> set (match_ends r st)" "after m = a'"
    by blast
  obtain b a g where "m = (b, a, g)" by (rule prod_cases3)
  with m show ?case by (simp add: image_iff split: prod.split) force
qed auto

text \<open>The matcher decides the language: the anchored match reaches the end of the text.\<close>

theorem fullmatch_lang: "anchor_free r \<Longrightarrow> fullmatch r s \<longleftrightarrow> s \<in> lang r"
proof
  assume free: "anchor_free r" and "fullmatch r s"
  then obtain st where "st \<in> set (match_ends r ([], s, []))" "after st = []"
    by (auto simp: fullmatch_def list_ex_iff)
  with match_ends_suffix [OF free this(1)] show "s \<in> lang r" by simp
next
  assume "anchor_free r" and "s \<in> lang r"
  then show "fullmatch r s"
    using match_ends_complete [of r s "([], s, [])" "[]"]
    by (auto simp: fullmatch_def list_ex_iff)
qed

section \<open>The languages of the derived patterns\<close>

lemma star_lang_chars: "star_lang {[c] | c. p c} = {s. list_all p s}"
proof
  show "star_lang {[c] | c. p c} \<subseteq> {s. list_all p s}"
  proof
    fix s assume "s \<in> star_lang {[c] | c. p c}"
    then show "s \<in> {s. list_all p s}" by induction auto
  qed
next
  show "{s. list_all p s} \<subseteq> star_lang {[c] | c. p c}"
  proof
    fix s assume "s \<in> {s. list_all p s}"
    then show "s \<in> star_lang {[c] | c. p c}"
    proof (induction s)
      case Nil
      then show ?case by (simp add: star_nil)
    next
      case (Cons c s)
      then show ?case
        using star_step [of "[c]" "{[c] | c. p c}" s] by auto
    qed
  qed
qed

lemma lang_Cat_Cls: "s \<in> lang (Cat (Cls p) r) \<longleftrightarrow> (\<exists>c t. s = c # t \<and> p c \<and> t \<in> lang r)"
proof
  assume "s \<in> lang (Cat (Cls p) r)"
  then show "\<exists>c t. s = c # t \<and> p c \<and> t \<in> lang r" by auto
next
  assume "\<exists>c t. s = c # t \<and> p c \<and> t \<in> lang r"
  then obtain c t where "s = [c] @ t" "p c" "t \<in> lang r" by auto
  then show "s \<in> lang (Cat (Cls p) r)"
    unfolding lang.simps mem_Collect_eq by blast
qed

lemma lang_Star_Cls [simp]: "lang (Star (Cls p)) = {s. list_all p s}"
  by (simp add: star_lang_chars)

lemma lang_Plus_Cls [simp]: "lang (Plus (Cls p)) = {s. s \<noteq> [] \<and> list_all p s}"
proof -
  have "s \<in> lang (Plus (Cls p)) \<longleftrightarrow> s \<noteq> [] \<and> list_all p s" for s
    unfolding Plus_def lang_Cat_Cls by (cases s) (auto simp: star_lang_chars)
  then show ?thesis by blast
qed

lemma lang_Opt [simp]: "lang (Opt r) = insert [] (lang r)"
  by (auto simp: Opt_def)

lemma lang_lit [simp]: "lang (lit s) = {s}"
  by (induction s rule: lit.induct) auto

lemma lang_rep_Cls: "lang (rep n (Cls p)) = {s. length s = n \<and> list_all p s}"
proof (induction n)
  case (Suc n)
  have "s \<in> lang (rep (Suc n) (Cls p)) \<longleftrightarrow> length s = Suc n \<and> list_all p s" for s
    unfolding rep.simps lang_Cat_Cls Suc by (cases s) auto
  then show ?case by blast
qed auto

lemma lang_upto_rep_Cls: "lang (upto_rep n (Cls p)) = {s. length s \<le> n \<and> list_all p s}"
proof (induction n)
  case (Suc n)
  have "s \<in> lang (upto_rep (Suc n) (Cls p)) \<longleftrightarrow> length s \<le> Suc n \<and> list_all p s" for s
    unfolding upto_rep.simps lang.simps(4) Un_iff lang_Cat_Cls Suc by (cases s) auto
  then show ?case by blast
qed auto

lemma anchor_free_lit [simp]: "anchor_free (lit s)"
  by (induction s rule: lit.induct) auto

lemma anchor_free_rep [simp]: "anchor_free r \<Longrightarrow> anchor_free (rep n r)"
  by (induction n) auto

lemma anchor_free_upto_rep [simp]: "anchor_free r \<Longrightarrow> anchor_free (upto_rep n r)"
  by (induction n) auto

lemma anchor_free_derived [simp]:
  "anchor_free (Plus r) = anchor_free r" "anchor_free (Opt r) = anchor_free r"
  by (simp_all add: Plus_def Opt_def)

lemma fullmatch_rep_Cls: "fullmatch (rep n (Cls p)) s \<longleftrightarrow> length s = n \<and> list_all p s"
  by (simp add: fullmatch_lang lang_rep_Cls)

lemma fullmatch_Plus_Cls: "fullmatch (Plus (Cls p)) s \<longleftrightarrow> s \<noteq> [] \<and> list_all p s"
  by (simp add: fullmatch_lang)

lemma fullmatch_Cls_Star:
  "fullmatch (Cat (Cls p) (Star (Cls q))) s \<longleftrightarrow> (\<exists>c t. s = c # t \<and> p c \<and> list_all q t)"
  by (subst fullmatch_lang, simp) (simp only: lang_Cat_Cls lang_Star_Cls mem_Collect_eq)

section \<open>Matches, positions and groups\<close>

text \<open>Every end state of a match is a later position of the same text.\<close>

lemma match_ends_position:
  "st' \<in> set (match_ends r st) \<Longrightarrow>
     \<exists>u. after st = u @ after st' \<and> fst st' = rev u @ fst st"
proof (induction r st arbitrary: st' rule: match_ends.induct)
  case (2 p st)
  then show ?case by (cases st) (auto split: list.splits if_splits)
next
  case (3 r q st)
  then obtain m where m: "m \<in> set (match_ends r st)" "st' \<in> set (match_ends q m)"
    by auto
  from "3.IH"(1) [OF m(1)] "3.IH"(2) [OF m] show ?case by fastforce
next
  case (4 r q st)
  from "4.prems" have "st' \<in> set (match_ends r st) \<or> st' \<in> set (match_ends q st)" by simp
  with "4.IH" show ?case by blast
next
  case (5 r st)
  from "5.prems" mem_match_ends_Star [of st' r st] consider "st' = st"
    | m where "m \<in> set (match_ends r st)" "length (after m) < length (after st)"
        "st' \<in> set (match_ends (Star r) m)" by blast
  then show ?case
  proof cases
    case 2
    from "5.IH"(1) [OF 2(1)] "5.IH"(2) [OF 2] show ?thesis by fastforce
  qed simp
next
  case (6 r st)
  from "6.prems" mem_match_ends_LazyStar [of st' r st] consider "st' = st"
    | m where "m \<in> set (match_ends r st)" "length (after m) < length (after st)"
        "st' \<in> set (match_ends (LazyStar r) m)" by blast
  then show ?case
  proof cases
    case 2
    from "6.IH"(1) [OF 2(1)] "6.IH"(2) [OF 2] show ?thesis by fastforce
  qed simp
next
  case (7 n r st)
  then obtain m where m: "m \<in> set (match_ends r st)" "after st' = after m" "fst st' = fst m"
    by auto
  with "7.IH" [OF m(1)] show ?case by auto
qed (auto split: if_splits)

fun group_names :: "re \<Rightarrow> string set" where
  "group_names (Cat r q) = group_names r \<union> group_names q"
| "group_names (Alt r q) = group_names r \<union> group_names q"
| "group_names (Star r) = group_names r"
| "group_names (LazyStar r) = group_names r"
| "group_names (Grp n r) = insert n (group_names r)"
| "group_names _ = {}"

lemma match_ends_groups:
  "st' \<in> set (match_ends r st) \<Longrightarrow> n \<notin> group_names r \<Longrightarrow>
     map_of (snd (snd st')) n = map_of (snd (snd st)) n"
proof (induction r st arbitrary: st' rule: match_ends.induct)
  case (2 p st)
  then show ?case by (cases st) (auto split: list.splits if_splits)
next
  case (3 r q st)
  then obtain m where m: "m \<in> set (match_ends r st)" "st' \<in> set (match_ends q m)"
    by auto
  from "3.IH"(1) [OF m(1)] "3.IH"(2) [OF m] "3.prems"(2) show ?case by simp
next
  case (4 r q st)
  from "4.prems" have "st' \<in> set (match_ends r st) \<or> st' \<in> set (match_ends q st)"
    "n \<notin> group_names r" "n \<notin> group_names q" by simp_all
  with "4.IH" show ?case by blast
next
  case (5 r st)
  from "5.prems"(1) mem_match_ends_Star [of st' r st] consider "st' = st"
    | m where "m \<in> set (match_ends r st)" "length (after m) < length (after st)"
        "st' \<in> set (match_ends (Star r) m)" by blast
  then show ?case
  proof cases
    case 2
    from "5.IH"(1) [OF 2(1)] "5.IH"(2) [OF 2] "5.prems"(2) show ?thesis by simp
  qed simp
next
  case (6 r st)
  from "6.prems"(1) mem_match_ends_LazyStar [of st' r st] consider "st' = st"
    | m where "m \<in> set (match_ends r st)" "length (after m) < length (after st)"
        "st' \<in> set (match_ends (LazyStar r) m)" by blast
  then show ?case
  proof cases
    case 2
    from "6.IH"(1) [OF 2(1)] "6.IH"(2) [OF 2] "6.prems"(2) show ?thesis by simp
  qed simp
next
  case (7 k r st)
  then obtain m where m: "m \<in> set (match_ends r st)"
      "snd (snd st') = (k, take (length (after st) - length (after m)) (after st)) # snd (snd m)"
    by auto
  with "7.IH" [OF m(1)] "7.prems"(2) show ?case by simp
qed (auto split: if_splits)

text \<open>The group a pattern \<open>A (?P<n>r) B\<close> captures is a string of the language of \<open>r\<close>.\<close>

lemma match_ends_Grp:
  assumes "st' \<in> set (match_ends (Grp n r) st)" and "anchor_free r"
  shows "group n st' \<in> lang r"
proof -
  from assms(1) obtain m where m: "m \<in> set (match_ends r st)"
      "snd (snd st') = (n, take (length (after st) - length (after m)) (after st)) # snd (snd m)"
    by auto
  from match_ends_suffix [OF assms(2) m(1)] m(2) show ?thesis by (auto simp: group_def)
qed

lemma group_keep:
  "st' \<in> set (match_ends r st) \<Longrightarrow> n \<notin> group_names r \<Longrightarrow> group n st' = group n st"
  by (simp add: group_def match_ends_groups)

lemma match_ends_cats_group:
  assumes "st' \<in> set (match_ends (cats (before @ Grp n r # later)) st)"
    and "anchor_free r" and "n \<notin> group_names (cats later)"
  shows "group n st' \<in> lang r"
  using assms(1)
proof (induction before arbitrary: st)
  case Nil
  show ?case
  proof (cases later)
    case Nil
    with \<open>st' \<in> set (match_ends (cats ([] @ Grp n r # later)) st)\<close> assms(2) show ?thesis
      by (intro match_ends_Grp) auto
  next
    case (Cons q qs)
    with Nil.prems obtain m where m: "m \<in> set (match_ends (Grp n r) st)"
        "st' \<in> set (match_ends (cats later) m)"
      by (auto simp del: match_ends.simps(7))
    from match_ends_Grp [OF m(1) assms(2)] group_keep [OF m(2) assms(3)] show ?thesis by simp
  qed
next
  case (Cons q qs)
  then obtain m where "st' \<in> set (match_ends (cats (qs @ Grp n r # later)) m)"
    by (cases qs) (auto simp del: match_ends.simps(7))
  then show ?case by (rule Cons.IH)
qed

lemma match_ends_cats_nth:
  assumes "st' \<in> set (match_ends (cats rs) st)" and "i < length rs" and "rs ! i = Grp n r"
    and "anchor_free r" and "n \<notin> group_names (cats (drop (Suc i) rs))"
  shows "group n st' \<in> lang r"
proof (rule match_ends_cats_group [OF _ assms(4,5)])
  show "st' \<in> set (match_ends (cats (take i rs @ Grp n r # drop (Suc i) rs)) st)"
    using assms(1) id_take_nth_drop [OF assms(2)] assms(3) by simp
qed

text \<open>What \<open>search\<close> and \<open>finditer\<close> return are matches at positions of the text.\<close>

lemma search_from_sound:
  "search_from r b a = Some (t, st) \<Longrightarrow>
     \<exists>u v. a = u @ t @ v \<and> after st = v \<and> st \<in> set (match_ends r (rev u @ b, t @ v, []))"
proof (induction r b a rule: search_from.induct)
  case (1 r b a)
  show ?case
  proof (cases "match_ends r (b, a, [])")
    case Nil
    with 1 obtain c cs where a: "a = c # cs" and rest: "search_from r (c # b) cs = Some (t, st)"
      by (auto simp: search_from.simps [of r b a] split: list.splits)
    from "1.IH" [OF Nil a rest] obtain u v where
      "cs = u @ t @ v" "after st = v" "st \<in> set (match_ends r (rev u @ c # b, t @ v, []))" by auto
    with a show ?thesis by (intro exI [of _ "c # u"] exI [of _ v]) simp
  next
    case (Cons m ms)
    with 1 have st: "st = m" "t = take (length a - length (after m)) a"
      by (auto simp: search_from.simps [of r b a])
    with Cons match_ends_position [of m r "(b, a, [])"] obtain u where u: "a = u @ after m"
      by auto
    have "t = u"
      unfolding st(2) by (subst (1 2) u) simp
    then have a: "t @ after st = a" using u st(1) by simp
    have "st \<in> set (match_ends r (rev [] @ b, t @ after st, []))"
      unfolding a using Cons st(1) by simp
    with a show ?thesis by (intro exI [of _ "[]"] exI [of _ "after st"]) simp
  qed
qed

lemma finditer_from_sound:
  "m \<in> set (finditer_from r b a) \<Longrightarrow> \<exists>b' a'. m \<in> set (match_ends r (b', a', []))"
proof (induction r b a rule: finditer_from.induct)
  case (1 r b a)
  show ?case
  proof (cases "search_from r b a")
    case None
    with "1.prems" show ?thesis by (simp add: finditer_from.simps [of r b a])
  next
    case (Some p)
    then obtain t st where st: "search_from r b a = Some (t, st)" by (cases p) blast
    with "1.prems" consider "m = st"
      | "length (after st) < length a" "m \<in> set (finditer_from r (fst st) (after st))"
      by (auto simp: finditer_from.simps [of r b a] simp del: split_paired_All split: if_splits)
    then show ?thesis
    proof cases
      case 1
      with search_from_sound [OF st] show ?thesis by blast
    next
      case 2
      with "1.IH" [OF st refl 2(1) 2(2)] show ?thesis by blast
    qed
  qed
qed

lemma finditer_sound: "m \<in> set (finditer r s) \<Longrightarrow> \<exists>b a. m \<in> set (match_ends r (b, a, []))"
  unfolding finditer_def by (rule finditer_from_sound)

lemma search_sound:
  "search r s = Some (t, st) \<Longrightarrow> \<exists>u v. s = u @ t @ v \<and> after st = v \<and>
     st \<in> set (match_ends r (rev u, t @ v, []))"
  using search_from_sound [of r "[]" s t st] by (simp add: search_def)

lemma lang_lit_i: "lang (lit_i s) = {t. lower t = lower s}"
proof (induction s)
  case Nil
  then show ?case by (auto simp: lower_def)
next
  case (Cons c s)
  have "t \<in> lang (lit_i (c # s)) \<longleftrightarrow> lower t = lower (c # s)" for t
    unfolding lit_i.simps lang_Cat_Cls Cons by (cases t) (auto simp: lower_def)
  then show ?case by blast
qed

lemma anchor_free_lit_i [simp]: "anchor_free (lit_i s)"
  by (induction s) auto

lemma group_names_lit [simp]: "group_names (lit s) = {}" "group_names (lit_i s) = {}"
  by (induction s rule: lit.induct) auto

lemma group_names_derived [simp]:
  "group_names (Plus r) = group_names r" "group_names (Opt r) = group_names r"
  "group_names (rep k (Cls p)) = {}"
  by (simp_all add: Plus_def Opt_def) (induction k, auto)

end
