(* ===== verification/Identity.thy ===== *)
theory Identity
  imports Regex IpAddress
begin

text \<open>
  Host names and addresses as \<^verbatim>\<open>src/aruba_cert_renewer.py\<close> treats them: \<^verbatim>\<open>parse_identity\<close> gives
  every identity a kind, a canonical text and a key for comparison;
  \<^verbatim>\<open>get_certificate_identities\<close> collects the identities one certificate must carry.
\<close>

text \<open>A configured switch, as \<^verbatim>\<open>validate_config\<close> leaves it; absent keys are \<open>None\<close>.\<close>

record switch =
  sw_name :: string
  sw_host :: string
  sw_additional_sans :: "string list"
  sw_known_hosts_file :: "string option"
  sw_username :: "string option"
  sw_password_file :: "string option"

datatype identity_kind = Dns | Ipv4 | Ipv6

datatype identity_key = DnsKey string | IpKey ip

record identity =
  ident_kind :: identity_kind
  ident_value :: string
  ident_key :: identity_key

definition label_char :: "char \<Rightarrow> bool" where
  "label_char c = (is_alnum c \<or> c = CHR ''-'')"

text \<open>\<^verbatim>\<open>[A-Za-z0-9](?:[A-Za-z0-9-]{0,61}[A-Za-z0-9])?\<close>\<close>

definition dns_label_re :: re where
  "dns_label_re = Cat (Cls is_alnum)
     (Opt (Cat (upto_rep 61 (Cls label_char)) (Cls is_alnum)))"

definition dotted_number_re :: re where
  "dotted_number_re = Plus (Cls (\<lambda>c. is_digit c \<or> c = CHR ''.''))"

fun kind_of_ip :: "ip \<Rightarrow> identity_kind" where
  "kind_of_ip (Ip4 v) = Ipv4"
| "kind_of_ip (Ip6 gs z) = Ipv6"

definition parse_identity :: "string \<Rightarrow> string \<Rightarrow> identity res" where
  "parse_identity val field_name =
     (if val = [] \<or> 253 < length val \<or> list_ex (\<lambda>c. isspace c \<or> code c < 32) val then
        value_error (field_name @ '' contains unsupported characters'')
      else
        (case ip_address val of
           Some address \<Rightarrow>
             Inr \<lparr>ident_kind = kind_of_ip address, ident_value = str_ip address,
                  ident_key = IpKey address\<rparr>
         | None \<Rightarrow>
             if CHR '':'' \<in> set val \<or> fullmatch dotted_number_re val then
               value_error (field_name @ '' is not a valid IP address'')
             else if CHR ''*'' \<in> set val \<or>
                 list_ex (\<lambda>label. \<not> fullmatch dns_label_re label) (split_on CHR ''.'' val) then
               value_error (field_name @ '' is not a valid DNS hostname'')
             else
               Inr \<lparr>ident_kind = Dns, ident_value = lower val, ident_key = DnsKey (lower val)\<rparr>))"

record certificate_identities =
  common_name :: string
  dns_names :: "string list"
  ip_addresses :: "string list"

text \<open>The loop over the host and the additional names: the first of equal keys is kept.\<close>

fun collect_identities :: "identity_key list \<Rightarrow> string list \<Rightarrow> identity list res" where
  "collect_identities seen [] = Inr []"
| "collect_identities seen (val # vals) =
     res_bind (parse_identity val ''switch identity'') (\<lambda>ident.
       if ident_key ident \<in> set seen then collect_identities seen vals
       else res_bind (collect_identities (ident_key ident # seen) vals) (\<lambda>rest.
              Inr (ident # rest)))"

definition get_certificate_identities :: "switch \<Rightarrow> certificate_identities res" where
  "get_certificate_identities sw =
     res_bind (collect_identities [] (sw_host sw # sw_additional_sans sw)) (\<lambda>identities.
       Inr \<lparr>common_name = ident_value (hd identities),
            dns_names = map ident_value (filter (\<lambda>i. ident_kind i = Dns) identities),
            ip_addresses = map ident_value (filter (\<lambda>i. ident_kind i \<noteq> Dns) identities)\<rparr>)"

definition validate_switch_signing_identity :: "switch \<Rightarrow> certificate_identities res" where
  "validate_switch_signing_identity sw = get_certificate_identities sw"

section \<open>Host names\<close>

definition is_label :: "string \<Rightarrow> bool" where
  "is_label s = (s \<noteq> [] \<and> length s \<le> 63 \<and> is_alnum (hd s) \<and> is_alnum (last s) \<and>
     list_all label_char s)"

lemma fullmatch_dns_label: "fullmatch dns_label_re s \<longleftrightarrow> is_label s"
proof -
  have lang: "s \<in> lang dns_label_re \<longleftrightarrow>
      (\<exists>c t. s = c # t \<and> is_alnum c \<and>
         (t = [] \<or> (\<exists>u d. t = u @ [d] \<and> length u \<le> 61 \<and> list_all label_char u \<and> is_alnum d)))"
    unfolding dns_label_re_def lang_Cat_Cls lang_Opt
    by (simp add: lang_upto_rep_Cls) blast
  also have "\<dots> \<longleftrightarrow> is_label s"
  proof (cases s)
    case (Cons c t)
    then show ?thesis
      by (cases t rule: rev_cases) (auto simp: is_label_def label_char_def)
  qed (simp add: is_label_def)
  finally show ?thesis
    by (simp add: dns_label_re_def fullmatch_lang)
qed

lemma code_Char [simp]:
  "code (Char b0 b1 b2 b3 b4 b5 b6 b7) = of_char (Char b0 b1 b2 b3 b4 b5 b6 b7)"
  by (simp add: code_def)

lemma code_lower_char: "code (lower_char c) = (if is_upper c then code c + 32 else code c)"
  by (auto simp: lower_char_def is_upper_def in_range_def code_def)

lemma code_eq_iff: "code c = code d \<longleftrightarrow> c = d"
  by (simp add: code_def)

lemma lower_char_alnum [simp]: "is_alnum (lower_char c) = is_alnum c"
  by (auto simp: is_alnum_def is_upper_def is_lower_def is_digit_def in_range_def code_lower_char)

lemma lower_char_not_upper:
  "\<not> is_upper d \<Longrightarrow> \<not> is_lower d \<Longrightarrow> lower_char c = d \<longleftrightarrow> c = d"
  by (auto simp: lower_char_def is_lower_def is_upper_def in_range_def code_def)

lemma lower_char_label [simp]: "label_char (lower_char c) = label_char c"
proof -
  have "lower_char c = CHR ''-'' \<longleftrightarrow> c = CHR ''-''"
    by (rule lower_char_not_upper) (simp_all add: is_upper_def is_lower_def in_range_def code_def)
  then show ?thesis by (simp add: label_char_def)
qed

lemma lower_char_idem [simp]: "lower_char (lower_char c) = lower_char c"
  by (auto simp: lower_char_def is_upper_def in_range_def code_def)

lemma lower_idem [simp]: "lower (lower s) = lower s"
  by (simp add: lower_def)

lemma is_label_lower [simp]: "is_label (lower s) = is_label s"
  by (cases "s = []") (auto simp: is_label_def lower_def list_all_iff last_map hd_map)

lemma split_on_lower: "\<not> is_upper sep \<Longrightarrow> \<not> is_lower sep \<Longrightarrow>
    split_on sep (lower s) = map lower (split_on sep s)"
  by (induction s) (auto simp: lower_def lower_char_not_upper split: list.splits)

lemma in_set_lower: "\<not> is_upper c \<Longrightarrow> \<not> is_lower c \<Longrightarrow> c \<in> set (lower s) \<longleftrightarrow> c \<in> set s"
  by (force simp: lower_def lower_char_not_upper image_iff dest: lower_char_not_upper)

section \<open>Canonical identities\<close>

lemma parse_identity_cases:
  assumes "parse_identity s f = Inr i"
  obtains (ip) a where "ip_address s = Some a" "ident_kind i = kind_of_ip a"
      "ident_value i = str_ip a" "ident_key i = IpKey a"
  | (dns) "ip_address s = None" "CHR '':'' \<notin> set s" "\<not> fullmatch dotted_number_re s"
      "CHR ''*'' \<notin> set s" "list_all is_label (split_on CHR ''.'' s)"
      "ident_kind i = Dns" "ident_value i = lower s" "ident_key i = DnsKey (lower s)"
proof (cases "ip_address s")
  case None
  with assms dns show ?thesis
    by (auto simp: parse_identity_def fullmatch_dns_label list_all_iff list_ex_iff split: if_splits)
next
  case (Some a)
  with assms ip show ?thesis by (auto simp: parse_identity_def split: if_splits)
qed

lemma parse_identity_text:
  "parse_identity s f = Inr i \<Longrightarrow>
     s \<noteq> [] \<and> length s \<le> 253 \<and> list_all (\<lambda>c. \<not> isspace c \<and> 32 \<le> code c) s"
  by (auto simp: parse_identity_def list_ex_iff list_all_iff not_less split: if_splits)

lemma dotted_number_lower: "fullmatch dotted_number_re (lower s) = fullmatch dotted_number_re s"
proof -
  have "lower_char c = CHR ''.'' \<longleftrightarrow> c = CHR ''.''" for c
    by (rule lower_char_not_upper) (simp_all add: is_upper_def is_lower_def in_range_def code_def)
  moreover have "is_digit (lower_char c) = is_digit c" for c
    by (auto simp: is_digit_def in_range_def code_lower_char is_upper_def)
  ultimately show ?thesis
    by (simp add: dotted_number_re_def fullmatch_Plus_Cls lower_def list_all_iff)
qed

lemma ip_address_needs:
  assumes "ip_address s = Some a"
  shows "CHR '':'' \<in> set s \<or> fullmatch dotted_number_re s"
proof (cases "read_ipv4 s")
  case (Some v)
  then have "read_each read_octet (split_on CHR ''.'' s) = Some v" "length (split_on CHR ''.'' s) = 4"
    by (auto simp: read_ipv4_def Let_def split: if_splits)
  from this(1) have digits: "list_all (list_all is_digit) (split_on CHR ''.'' s)"
    by (rule read_each_dom) (auto simp: read_octet_def split: if_splits)
  have "list_all (\<lambda>c. is_digit c \<or> c = CHR ''.'') s"
    using digits in_set_join [of _ "''.''" "split_on CHR ''.'' s"]
    by (fastforce simp: join_split_on list_all_iff)
  moreover have "s \<noteq> []" using \<open>length (split_on _ s) = 4\<close> by auto
  ultimately show ?thesis by (simp add: dotted_number_re_def fullmatch_Plus_Cls)
next
  case None
  with assms obtain gs where
      "read_ipv6_groups (takeWhile (\<lambda>c. c \<noteq> CHR ''%'') s) = Some gs" (is "read_ipv6_groups ?t = _")
    by (auto simp: ip_address_def read_ipv6_def Let_def split: if_splits option.splits)
  then have "3 \<le> length (split_on CHR '':'' ?t)"
    by (auto simp: read_ipv6_groups_def Let_def split: if_splits)
  moreover have "sep \<notin> set q \<Longrightarrow> split_on sep q = [q]" for sep :: char and q
    by (induction q) auto
  ultimately have "CHR '':'' \<in> set ?t" by fastforce
  then show ?thesis by (auto dest: set_takeWhileD)
qed

lemma parse_identity_lower:
  assumes "parse_identity s f = Inr i" and "ident_kind i = Dns"
  shows "parse_identity (lower s) g = Inr i"
  using assms(1)
proof (cases rule: parse_identity_cases)
  case (ip a)
  with assms(2) show ?thesis by (cases a) simp_all
next
  case dns
  note shape = parse_identity_text [OF assms(1)]
  have colon: "CHR '':'' \<notin> set (lower s)" and star: "CHR ''*'' \<notin> set (lower s)"
    using dns(2,4) by (simp_all add: in_set_lower is_upper_def is_lower_def in_range_def code_def)
  have dotted: "\<not> fullmatch dotted_number_re (lower s)" using dns(3) by (simp add: dotted_number_lower)
  have labels: "split_on CHR ''.'' (lower s) = map lower (split_on CHR ''.'' s)"
    by (rule split_on_lower) (simp_all add: is_upper_def is_lower_def in_range_def code_def)
  have chars: "\<not> list_ex (\<lambda>c. isspace c \<or> code c < 32) (lower s)"
    using shape by (auto simp: lower_def list_ex_iff list_all_iff isspace_def code_lower_char
        is_upper_def in_range_def)
  have "ip_address (lower s) = None"
    using ip_address_needs colon dotted by (cases "ip_address (lower s)") auto
  moreover have "lower s \<noteq> []" "length (lower s) \<le> 253" using shape by (auto simp: lower_def)
  ultimately show ?thesis
    using colon star dotted chars dns(5-8)
    by (cases i) (simp add: parse_identity_def fullmatch_dns_label labels list_ex_iff list_all_iff)
qed

lemma ip_scope_chars:
  assumes "ip_address s = Some (Ip6 gs (Some z))"
  shows "set z \<subseteq> set s"
proof -
  from assms have "z = tl (dropWhile (\<lambda>c. c \<noteq> CHR ''%'') s)"
    by (auto simp: ip_address_def read_ipv6_def Let_def split: if_splits option.splits)
  moreover have "set (tl t) \<subseteq> set t" for t :: string by (cases t) auto
  moreover have "set (dropWhile (\<lambda>c. c \<noteq> CHR ''%'') s) \<subseteq> set s" by (auto dest: set_dropWhileD)
  ultimately show ?thesis by (metis subset_trans)
qed

lemma str_ip_text:
  assumes "parse_identity s f = Inr i" and "ip_address s = Some a"
  shows "str_ip a \<noteq> [] \<and> (\<forall>c\<in>set (str_ip a). \<not> isspace c \<and> 32 \<le> code c)"
proof -
  have good: "valid_ip a" by (rule ip_address_valid [OF assms(2)])
  have plain: "is_hex c \<or> c = CHR '':'' \<or> c = CHR ''.'' \<or> c = CHR ''%'' \<Longrightarrow> \<not> isspace c \<and> 32 \<le> code c" for c
    by (auto simp: is_hex_def is_lower_hex_def is_digit_def in_range_def isspace_def)
  have "str_ip a = [] \<Longrightarrow> False"
    using ip_address_str_ip [OF good] ip_address_needs [of "[]" a]
    by (simp add: dotted_number_re_def fullmatch_Plus_Cls)
  moreover have "\<forall>c\<in>set (str_ip a). is_hex c \<or> c = CHR '':'' \<or> c = CHR ''.'' \<or> c = CHR ''%'' \<or> c \<in> set s"
  proof (cases a)
    case (Ip4 v)
    have "is_digit d \<Longrightarrow> is_hex d" for d by (simp add: is_hex_def is_lower_hex_def)
    with Ip4 in_set_join [of _ "''.''" "map str_nat v"] str_nat_all_digits show ?thesis
      by (auto simp: write_ipv4_def list_all_iff)
  next
    case (Ip6 gs scope)
    with good have "valid_groups gs" by simp
    from write_groups_chars [OF this] Ip6 ip_scope_chars [of s gs] assms(2) show ?thesis
      by (cases scope) auto
  qed
  moreover have "\<forall>c\<in>set s. \<not> isspace c \<and> 32 \<le> code c"
    using parse_identity_text [OF assms(1)] by (auto simp: list_all_iff)
  ultimately show ?thesis using plain by blast
qed



lemma identity_text_key_iff:
  assumes "parse_identity s f = Inr i" and "parse_identity t g = Inr j"
  shows "ident_value i = ident_value j \<longleftrightarrow> ident_key i = ident_key j"
proof -
  have clash: "str_ip a \<noteq> lower u" if "ip_address v = Some a" "parse_identity u h = Inr k"
      "ident_kind k = Dns" for a u v h k
  proof
    assume eq: "str_ip a = lower u"
    have "ip_address (lower u) = Some a"
      using ip.canonical_text_fixed [OF that(1)] eq by simp
    moreover from parse_identity_lower [OF that(2,3), of h] that(3)
    have "ip_address (lower u) = None"
      by (cases "ip_address (lower u)") (auto simp: parse_identity_def split: if_splits elim!: kind_of_ip.elims)
    ultimately show False by simp
  qed
  show ?thesis
    using assms(1)
  proof (cases rule: parse_identity_cases)
    case A: (ip a)
    from assms(2) show ?thesis
    proof (cases rule: parse_identity_cases)
      case (ip b)
      with A ip.same_text_iff [OF A(1) ip(1)] show ?thesis by simp
    next
      case dns
      with A clash [OF A(1) assms(2)] show ?thesis by simp
    qed
  next
    case D: dns
    from assms(2) show ?thesis
    proof (cases rule: parse_identity_cases)
      case (ip b)
      with D clash [OF ip(1) assms(1)] show ?thesis by simp
    next
      case dns
      with D show ?thesis by simp
    qed
  qed
qed

text \<open>
  Two identities have the same canonical text exactly when they have the same key, so that
  removing duplicates by key and comparing certificates by text agree; a host name never
  collides with an address.
\<close>

theorem identity_text_is_key:
  assumes "parse_identity s f = Inr i" and "parse_identity t g = Inr j"
  shows "ident_value i = ident_value j \<longleftrightarrow> ident_key i = ident_key j"
  by (rule identity_text_key_iff [OF assms])

theorem identity_text_is_key_witness:
  "ident_key (projr (parse_identity ''SW1.example'' ''host'')) =
   ident_key (projr (parse_identity ''sw1.EXAMPLE'' ''host''))"
proof -
  have a: "parse_identity ''SW1.example'' ''host'' =
      Inr \<lparr>ident_kind = Dns, ident_value = ''sw1.example'', ident_key = DnsKey ''sw1.example''\<rparr>"
    and b: "parse_identity ''sw1.EXAMPLE'' ''host'' =
      Inr \<lparr>ident_kind = Dns, ident_value = ''sw1.example'', ident_key = DnsKey ''sw1.example''\<rparr>"
    by code_simp+
  from identity_text_is_key [OF a b] show ?thesis by (simp add: a b)
qed

section \<open>The identities of one certificate\<close>

lemma collect_identities_spec:
  "collect_identities seen vals = Inr idents \<Longrightarrow>
     distinct (map ident_key idents) \<and> set (map ident_key idents) \<inter> set seen = {} \<and>
     (\<forall>i\<in>set idents. \<exists>v\<in>set vals. parse_identity v ''switch identity'' = Inr i) \<and>
     (\<forall>v\<in>set vals. \<exists>i. parse_identity v ''switch identity'' = Inr i \<and>
        (ident_key i \<in> set seen \<or> ident_key i \<in> ident_key ` set idents))"
proof (induction seen vals arbitrary: idents rule: collect_identities.induct)
  case (1 seen)
  then show ?case by simp
next
  case (2 seen val vals)
  from 2(3) obtain i where i: "parse_identity val ''switch identity'' = Inr i"
    by (auto simp: res_bind_Inr_iff)
  show ?case
  proof (cases "ident_key i \<in> set seen")
    case True
    with 2(3) i have "collect_identities seen vals = Inr idents" by simp
    from 2(1) [OF True this] i True show ?thesis by simp
  next
    case False
    with 2(3) i obtain rest where rest: "collect_identities (ident_key i # seen) vals = Inr rest"
        "idents = i # rest"
      by (auto simp: res_bind_Inr_iff)
    note IH = 2(2) [OF False rest(1)]
    have "distinct (map ident_key idents)" "set (map ident_key idents) \<inter> set seen = {}"
      using IH False by (auto simp: rest(2))
    moreover have "\<forall>j\<in>set idents. \<exists>v\<in>set (val # vals). parse_identity v ''switch identity'' = Inr j"
      using IH i by (simp add: rest(2))
    moreover have "\<forall>v\<in>set (val # vals). \<exists>j. parse_identity v ''switch identity'' = Inr j \<and>
        (ident_key j \<in> set seen \<or> ident_key j \<in> ident_key ` set idents)"
    proof
      fix v
      assume "v \<in> set (val # vals)"
      then consider "v = val" | "v \<in> set vals" by auto
      then show "\<exists>j. parse_identity v ''switch identity'' = Inr j \<and>
          (ident_key j \<in> set seen \<or> ident_key j \<in> ident_key ` set idents)"
      proof cases
        case 1
        then show ?thesis using i by (simp add: rest(2))
      next
        case 2
        with IH obtain j where "parse_identity v ''switch identity'' = Inr j"
            "ident_key j \<in> set (ident_key i # seen) \<or> ident_key j \<in> ident_key ` set rest" by blast
        then show ?thesis by (auto simp: rest(2))
      qed
    qed
    ultimately show ?thesis by blast
  qed
qed

text \<open>The canonical texts of a switch: one for the host and each additional name.\<close>

definition canonical_texts :: "switch \<Rightarrow> string set" where
  "canonical_texts sw = (\<lambda>v. ident_value (projr (parse_identity v ''switch identity''))) `
     set (sw_host sw # sw_additional_sans sw)"

lemma filter_texts_distinct:
  assumes "distinct (map ident_key idents)"
    and "\<forall>i\<in>set idents. \<exists>v\<in>set vals. parse_identity v f = Inr i"
  shows "distinct (map ident_value idents)"
proof -
  have "inj_on ident_value (set idents)"
  proof (rule inj_onI)
    fix i j
    assume i: "i \<in> set idents" and j: "j \<in> set idents" and eq: "ident_value i = ident_value j"
    from i j assms(2) obtain v w where "parse_identity v f = Inr i" "parse_identity w f = Inr j"
      by blast
    with eq have "ident_key i = ident_key j" by (simp add: identity_text_key_iff)
    with assms(1) i j show "i = j" by (auto simp: distinct_map dest: inj_onD)
  qed
  with assms(1) show ?thesis by (simp add: distinct_map)
qed

text \<open>
  The identities of a certificate are exactly the canonical texts of the configured names,
  each once, host names and addresses apart; the common name is the canonical text of the host,
  and every configured name was a well-formed identity.
\<close>

theorem get_certificate_identities_exact:
  assumes "get_certificate_identities sw = Inr ids"
  shows "distinct (dns_names ids @ ip_addresses ids) \<and>
     set (dns_names ids) \<union> set (ip_addresses ids) = canonical_texts sw \<and>
     parse_identity (sw_host sw) ''switch identity'' =
       Inr (projr (parse_identity (sw_host sw) ''switch identity'')) \<and>
     common_name ids = ident_value (projr (parse_identity (sw_host sw) ''switch identity''))"
proof -
  from assms obtain idents where c: "collect_identities [] (sw_host sw # sw_additional_sans sw) = Inr idents"
    and ids: "ids = \<lparr>common_name = ident_value (hd idents),
        dns_names = map ident_value (filter (\<lambda>i. ident_kind i = Dns) idents),
        ip_addresses = map ident_value (filter (\<lambda>i. ident_kind i \<noteq> Dns) idents)\<rparr>"
    by (auto simp: get_certificate_identities_def res_bind_Inr_iff simp del: collect_identities.simps)
  note spec = collect_identities_spec [OF c]
  have dist: "distinct (map ident_value idents)"
    using spec filter_texts_distinct by blast
  have parsed: "\<And>v. v \<in> set (sw_host sw # sw_additional_sans sw) \<Longrightarrow>
      \<exists>i\<in>set idents. ident_value i = ident_value (projr (parse_identity v ''switch identity''))"
  proof -
    fix v
    assume "v \<in> set (sw_host sw # sw_additional_sans sw)"
    with spec obtain i where i: "parse_identity v ''switch identity'' = Inr i"
        "ident_key i \<in> ident_key ` set idents"
      by fastforce
    then obtain j where j: "j \<in> set idents" "ident_key j = ident_key i" by force
    with spec obtain w where "parse_identity w ''switch identity'' = Inr j" by blast
    with i j show "\<exists>i\<in>set idents. ident_value i = ident_value (projr (parse_identity v ''switch identity''))"
      by (metis identity_text_key_iff sum.sel(2))
  qed
  have texts: "ident_value ` set idents = canonical_texts sw"
  proof
    show "ident_value ` set idents \<subseteq> canonical_texts sw"
    proof
      fix t
      assume "t \<in> ident_value ` set idents"
      then obtain i where i: "i \<in> set idents" "t = ident_value i" by blast
      with spec obtain v where v: "v \<in> set (sw_host sw # sw_additional_sans sw)"
          "parse_identity v ''switch identity'' = Inr i"
        by blast
      show "t \<in> canonical_texts sw"
        unfolding canonical_texts_def by (rule image_eqI [OF _ v(1)]) (simp add: v(2) i(2))
    qed
    show "canonical_texts sw \<subseteq> ident_value ` set idents"
    proof
      fix t
      assume "t \<in> canonical_texts sw"
      then obtain v where "v \<in> set (sw_host sw # sw_additional_sans sw)"
          "t = ident_value (projr (parse_identity v ''switch identity''))"
        unfolding canonical_texts_def by blast
      with parsed [of v] show "t \<in> ident_value ` set idents" by (auto intro: rev_image_eqI)
    qed
  qed
  have parts: "set (dns_names ids) \<union> set (ip_addresses ids) = ident_value ` set idents"
    by (auto simp: ids)
  have inj: "inj_on ident_value (set idents)" "distinct idents"
    using dist by (simp_all add: distinct_map)
  then have "distinct (dns_names ids @ ip_addresses ids)"
    by (auto simp: ids distinct_map distinct_filter dest: inj_onD intro: inj_on_subset)
  moreover from c obtain i where "parse_identity (sw_host sw) ''switch identity'' = Inr i" "hd idents = i"
    by (auto simp: res_bind_Inr_iff)
  ultimately show ?thesis using texts parts by (simp add: ids)
qed

theorem get_certificate_identities_exact_witness:
  "canonical_texts \<lparr>sw_name = ''s'', sw_host = ''SW'', sw_additional_sans = [''sw'', ''10.0.0.1''],
     sw_known_hosts_file = None, sw_username = None, sw_password_file = None\<rparr> =
   {''sw'', ''10.0.0.1''}"
proof -
  have a: "parse_identity ''SW'' ''switch identity'' = Inr \<lparr>ident_kind = Dns,
      ident_value = ''sw'', ident_key = DnsKey ''sw''\<rparr>"
    and b: "parse_identity ''sw'' ''switch identity'' = Inr \<lparr>ident_kind = Dns,
      ident_value = ''sw'', ident_key = DnsKey ''sw''\<rparr>"
    and c: "parse_identity ''10.0.0.1'' ''switch identity'' = Inr \<lparr>ident_kind = Ipv4,
      ident_value = ''10.0.0.1'', ident_key = IpKey (Ip4 [10, 0, 0, 1])\<rparr>"
    by code_simp+
  have eq: "get_certificate_identities \<lparr>sw_name = ''s'', sw_host = ''SW'',
      sw_additional_sans = [''sw'', ''10.0.0.1''], sw_known_hosts_file = None,
      sw_username = None, sw_password_file = None\<rparr> =
    Inr \<lparr>common_name = ''sw'', dns_names = [''sw''], ip_addresses = [''10.0.0.1'']\<rparr>"
    by (simp add: get_certificate_identities_def a b c)
  from get_certificate_identities_exact [OF eq] show ?thesis
    by (simp only: certificate_identities.select_convs list.set Un_insert_left Un_empty_left)
qed

end
