(* ===== verification/SwitchCli.thy ===== *)
theory SwitchCli
  imports Regex Calendar
begin

text \<open>
  What \<^verbatim>\<open>src/aruba_cert_renewer.py\<close> reads from and writes to the switch command line: output
  size checks, the certificate summary table, the CSR block, prompts and CLI errors, the name
  of a renewal certificate.  The regular expressions are those of the source, run by the
  matcher of \<open>Regex\<close>.
\<close>

definition MAX_CERTIFICATE_SUMMARY_OUTPUT_BYTES :: nat where
  "MAX_CERTIFICATE_SUMMARY_OUTPUT_BYTES = 64 * 1024"

definition MAX_SHOW_VERSION_OUTPUT_BYTES :: nat where
  "MAX_SHOW_VERSION_OUTPUT_BYTES = 16 * 1024"

definition MAX_CSR_CREATE_OUTPUT_BYTES :: nat where
  "MAX_CSR_CREATE_OUTPUT_BYTES = 80 * 1024"

definition MAX_CSR_DETAIL_OUTPUT_BYTES :: nat where
  "MAX_CSR_DETAIL_OUTPUT_BYTES = 80 * 1024"

definition MAX_CSR_PEM_BYTES :: nat where
  "MAX_CSR_PEM_BYTES = 64 * 1024"

definition MAX_INSTALL_PROMPT_OUTPUT_BYTES :: nat where
  "MAX_INSTALL_PROMPT_OUTPUT_BYTES = 80 * 1024"

definition MAX_INSTALL_CONFIRM_OUTPUT_BYTES :: nat where
  "MAX_INSTALL_CONFIRM_OUTPUT_BYTES = 16 * 1024"

definition MAX_CERTIFICATE_DETAIL_OUTPUT_BYTES :: nat where
  "MAX_CERTIFICATE_DETAIL_OUTPUT_BYTES = 256 * 1024"

definition CERTIFICATE_PASTE_PROMPT :: string where
  "CERTIFICATE_PASTE_PROMPT = ''Paste the certificate here and enter:''"

definition CERTIFICATE_REPLACEMENT_PROMPT :: string where
  "CERTIFICATE_REPLACEMENT_PROMPT =
     ''This certificate will replace an existing local certificate. Continue (y/n)?''"

definition check_output_size :: "string \<Rightarrow> nat \<Rightarrow> string \<Rightarrow> string res" where
  "check_output_size output limit label =
     (if limit < utf8_len output
      then value_error (label @ '' output exceeds '' @ str_nat limit @ '' bytes'')
      else Inr output)"

definition check_summary_size :: "string \<Rightarrow> string res" where
  "check_summary_size output =
     check_output_size output MAX_CERTIFICATE_SUMMARY_OUTPUT_BYTES ''certificate summary''"

lemma check_output_size_short [simp]:
  "2 * length s \<le> limit \<Longrightarrow> check_output_size s limit label = Inr s"
  using utf8_len_bounds [of s] by (simp add: check_output_size_def)

lemma check_summary_size_short [simp]:
  "length s \<le> 32768 \<Longrightarrow> check_summary_size s = Inr s"
  by (simp add: check_summary_size_def MAX_CERTIFICATE_SUMMARY_OUTPUT_BYTES_def)

text \<open>\<^verbatim>\<open>[A-Za-z0-9][A-Za-z0-9_.-]*\<close>\<close>

definition identifier_re :: re where
  "identifier_re = Cat (Cls is_alnum) (Star (Cls (\<lambda>c. is_alnum c \<or> any_of ''_.-'' c)))"

definition validate_cli_identifier :: "string \<Rightarrow> string \<Rightarrow> string res" where
  "validate_cli_identifier val field_name =
     (if fullmatch identifier_re val then Inr val
      else value_error (field_name @ '' contains unsupported characters''))"

text \<open>\<^verbatim>\<open>\b[A-Z]{2}\.\d{2}\.\d{2}\.\d{4}\b\<close>\<close>

definition aos_version_re :: re where
  "aos_version_re = cats [WordBoundary, rep 2 (Cls is_upper), lit ''.'', rep 2 (Cls is_digit),
     lit ''.'', rep 2 (Cls is_digit), lit ''.'', rep 4 (Cls is_digit), WordBoundary]"

definition parse_aos_version :: "string \<Rightarrow> string res" where
  "parse_aos_version output =
     res_bind (check_output_size output MAX_SHOW_VERSION_OUTPUT_BYTES ''show version'') (\<lambda>_.
       case search aos_version_re output of
         Some (text, _) \<Rightarrow> Inr text
       | None \<Rightarrow> Inr ''Unknown'')"

section \<open>The certificate summary\<close>

text \<open>The date or the word \<^verbatim>\<open>CSR\<close> of the expiration column.\<close>

definition slash_date_re :: re where
  "slash_date_re = cats [rep 4 (Cls is_digit), lit ''/'', rep 2 (Cls is_digit), lit ''/'',
     rep 2 (Cls is_digit)]"

abbreviation not_space :: "char \<Rightarrow> bool" where
  "not_space c \<equiv> \<not> isspace c"

definition web_certificate_re :: re where
  "web_certificate_re = cats
     [LineStart, spaces0,
      Grp ''name'' (Plus (Cls not_space)), spaces1,
      Grp ''usage'' (lit ''Web''), spaces1,
      Grp ''expiration'' (Alt slash_date_re (lit ''CSR'')), spaces1,
      Grp ''profile'' (Plus (Cls not_space)), spaces0, LineEnd]"

record web_certificate =
  cert_name :: string
  cert_expiration :: "date option"
  cert_profile :: string
  cert_pending :: bool

definition web_certificate_of_match :: "mstate \<Rightarrow> web_certificate res" where
  "web_certificate_of_match m =
     (let expiration_text = group ''expiration'' m;
          pending = (expiration_text = ''CSR'')
      in if pending then
           Inr \<lparr>cert_name = group ''name'' m, cert_expiration = None,
                cert_profile = group ''profile'' m, cert_pending = pending\<rparr>
         else
           (case read_date CHR ''/'' expiration_text of
              None \<Rightarrow> value_error (''time data '' @ expiration_text @ '' does not match format'')
            | Some d \<Rightarrow>
                Inr \<lparr>cert_name = group ''name'' m, cert_expiration = Some d,
                     cert_profile = group ''profile'' m, cert_pending = pending\<rparr>))"

definition parse_web_certificates :: "string \<Rightarrow> web_certificate list res" where
  "parse_web_certificates output =
     res_bind (check_summary_size output) (\<lambda>_.
       res_map web_certificate_of_match (finditer web_certificate_re output))"

definition get_active_web_certificate :: "web_certificate list \<Rightarrow> web_certificate res" where
  "get_active_web_certificate certificates =
     (let pending = filter cert_pending certificates;
          installed = filter (\<lambda>c. \<not> cert_pending c) certificates
      in if pending \<noteq> [] then
           value_error (''Found pending Web CSR: '' @ join '', '' (map cert_name pending))
         else (case installed of
             [] \<Rightarrow> value_error ''Could not find an installed Web certificate''
           | [c] \<Rightarrow> Inr c
           | _ \<Rightarrow> value_error (''Found '' @ str_nat (length installed) @
                    '' installed Web certificates; expected 1'')))"

text \<open>\<^verbatim>\<open>^\s*NAME\s+\<close>, multi-line and ignoring case\<close>

definition name_line_re :: "string \<Rightarrow> re" where
  "name_line_re name = cats [LineStart, spaces0, lit_i name, spaces1]"

definition certificate_name_exists :: "string \<Rightarrow> string \<Rightarrow> bool res" where
  "certificate_name_exists summary_output certificate_name =
     res_bind (check_summary_size summary_output) (\<lambda>_.
     res_bind (validate_cli_identifier certificate_name ''certificate name'') (\<lambda>name.
       Inr (search (name_line_re name) summary_output \<noteq> None)))"

definition renewal_candidate :: "date \<Rightarrow> nat \<Rightarrow> string" where
  "renewal_candidate d sequence =
     ''webcert-'' @ pad 4 (nat (year d)) @ pad 2 (month d) @ pad 2 (day d) @ ''-'' @ pad 2 sequence"

text \<open>The loop \<^verbatim>\<open>for sequence in range(k, 100)\<close>; \<open>k\<close> starts at 1.\<close>

function choose_from :: "string \<Rightarrow> date \<Rightarrow> nat \<Rightarrow> string res" where
  "choose_from summary_output renewal_date k =
     (if 100 \<le> k then
        value_error (''All 99 renewal certificate names for '' @ write_date ''-'' renewal_date @
          '' already exist on the switch'')
      else
        res_bind (certificate_name_exists summary_output (renewal_candidate renewal_date k))
          (\<lambda>found. if found then choose_from summary_output renewal_date (Suc k)
             else validate_cli_identifier (renewal_candidate renewal_date k)
                    ''certificate name''))"
  by pat_completeness auto
termination
  by (relation "measure (\<lambda>(s, d, k). 100 - k)") auto

declare choose_from.simps [simp del]

text \<open>The date is the UTC date of the call, or the one the caller gives.\<close>

definition choose_renewal_certificate_name :: "string \<Rightarrow> date \<Rightarrow> string res" where
  "choose_renewal_certificate_name summary_output renewal_date =
     choose_from summary_output renewal_date 1"

record summary_entry =
  entry_name :: string
  entry_usage :: string
  entry_expiration :: string
  entry_profile :: string

definition summary_entry_re :: "string \<Rightarrow> re" where
  "summary_entry_re name = cats
     [LineStart, spaces0, Grp ''name'' (lit_i name), spaces1,
      Grp ''usage'' (Plus (Cls not_space)), spaces1,
      Grp ''expiration'' (Alt slash_date_re (lit_i ''CSR'')), spaces1,
      Grp ''profile'' (Plus (Cls not_space)), spaces0, LineEnd]"

definition get_certificate_summary_entry :: "string \<Rightarrow> string \<Rightarrow> summary_entry res" where
  "get_certificate_summary_entry summary_output certificate_name =
     res_bind (check_summary_size summary_output) (\<lambda>_.
     res_bind (validate_cli_identifier certificate_name ''certificate name'') (\<lambda>name.
       (case finditer (summary_entry_re name) summary_output of
          [] \<Rightarrow> value_error (''Certificate name not found on the switch: '' @ name)
        | [m] \<Rightarrow> Inr \<lparr>entry_name = group ''name'' m, entry_usage = group ''usage'' m,
                      entry_expiration = group ''expiration'' m,
                      entry_profile = group ''profile'' m\<rparr>
        | _ \<Rightarrow> value_error (''Certificate name is ambiguous: '' @ name))))"

definition require_pending_web_certificate :: "string \<Rightarrow> string \<Rightarrow> summary_entry res" where
  "require_pending_web_certificate summary_output certificate_name =
     res_bind (get_certificate_summary_entry summary_output certificate_name) (\<lambda>entry.
       if casefold (entry_usage entry) \<noteq> ''web'' then
         value_error (''Certificate '' @ certificate_name @ '' has usage '' @
           entry_usage entry @ ''; expected Web'')
       else if casefold (entry_expiration entry) \<noteq> ''csr'' then
         value_error (''Certificate '' @ certificate_name @
           '' is installed; expected a pending CSR'')
       else Inr entry)"

section \<open>Prompts, errors and the CSR block\<close>

text \<open>\<^verbatim>\<open>(?:^|\n)\s*(?:%\s*)?(?:invalid|unknown|error|failed)|not found\<close>, ignoring case\<close>

definition cli_error_re :: re where
  "cli_error_re = Alt
     (cats [Alt TextStart (lit [newline]), spaces0, Opt (Cat (lit ''%'') spaces0),
        Alt (lit_i ''invalid'') (Alt (lit_i ''unknown'') (Alt (lit_i ''error'') (lit_i ''failed'')))])
     (lit_i ''not found'')"

definition contains_obvious_cli_error :: "string \<Rightarrow> bool" where
  "contains_obvious_cli_error output = (search cli_error_re output \<noteq> None)"

definition ends_with_expected_prompt :: "string \<Rightarrow> string \<Rightarrow> bool" where
  "ends_with_expected_prompt output expected_prompt =
     (\<not> contains_obvious_cli_error output \<and> endswith (rstrip output) expected_prompt)"

definition certificate_detail_re :: re where
  "certificate_detail_re = cats [Alt TextStart (lit [newline]), spaces0,
     lit ''Certificate Detail:'', spaces0, Alt (lit [newline]) DollarEnd]"

definition CSR_BEGIN :: string where
  "CSR_BEGIN = ''-----BEGIN CERTIFICATE REQUEST-----''"

definition CSR_END :: string where
  "CSR_END = ''-----END CERTIFICATE REQUEST-----''"

definition csr_block_re :: re where
  "csr_block_re = cats [lit CSR_BEGIN, LazyStar (Cls (\<lambda>_. True)), lit CSR_END]"

definition extract_csr_pem :: "string \<Rightarrow> string res" where
  "extract_csr_pem output =
     (case search csr_block_re output of
        None \<Rightarrow> value_error ''Could not find a PEM certificate signing request''
      | Some (text, _) \<Rightarrow> Inr (strip text @ [newline]))"

section \<open>Identifiers and candidate names\<close>

definition is_identifier :: "string \<Rightarrow> bool" where
  "is_identifier s = (s \<noteq> [] \<and> is_alnum (hd s) \<and>
     list_all (\<lambda>c. is_alnum c \<or> c \<in> set ''_.-'') (tl s))"

lemma fullmatch_identifier: "fullmatch identifier_re s \<longleftrightarrow> is_identifier s"
  unfolding identifier_re_def fullmatch_Cls_Star is_identifier_def any_of_def
  by (cases s) auto

lemma validate_cli_identifier_Inr_iff:
  "validate_cli_identifier s field = Inr t \<longleftrightarrow> t = s \<and> is_identifier s"
  by (auto simp: validate_cli_identifier_def fullmatch_identifier)

lemma is_identifier_append:
  "is_identifier s \<Longrightarrow> list_all (\<lambda>c. is_alnum c \<or> c \<in> set ''_.-'') t \<Longrightarrow> is_identifier (s @ t)"
  by (cases s) (auto simp: is_identifier_def)

lemma digit_char_digit: "d < 10 \<Longrightarrow> is_digit (digit_char d)"
  by (simp add: is_digit_def in_range_def digit_char_def code_def)

lemma str_nat_digits: "list_all is_digit (str_nat n)"
proof (induction n rule: str_nat.induct)
  case (1 n)
  then show ?case
    using digit_char_digit [of n] digit_char_digit [of "n mod 10"]
    by (subst str_nat.simps) simp
qed

lemma pad_digits: "list_all is_digit (pad w n)"
proof -
  have "is_digit CHR ''0''" by (simp add: is_digit_def in_range_def code_def)
  then show ?thesis using str_nat_digits [of n] by (auto simp: pad_def Let_def list_all_iff)
qed

lemma digits_alnum: "list_all is_digit s \<Longrightarrow> list_all (\<lambda>c. is_alnum c \<or> c \<in> set ''_.-'') s"
  by (auto simp: list_all_iff is_alnum_def)

lemma renewal_candidate_identifier: "is_identifier (renewal_candidate d k)"
proof -
  have "is_identifier ''webcert-''"
    by (simp add: is_identifier_def is_alnum_def is_lower_def in_range_def code_def)
  then show ?thesis
    unfolding renewal_candidate_def
    by (intro is_identifier_append) (simp_all add: digits_alnum [OF pad_digits, simplified])
qed

lemma certificate_name_exists_candidate:
  "certificate_name_exists s (renewal_candidate d k) =
     res_bind (check_summary_size s) (\<lambda>_.
       Inr (search (name_line_re (renewal_candidate d k)) s \<noteq> None))"
  by (simp add: certificate_name_exists_def validate_cli_identifier_def fullmatch_identifier
        renewal_candidate_identifier)

text \<open>\<open>taken s d k\<close>: the summary lists the candidate name with that sequence number.\<close>

definition taken :: "string \<Rightarrow> date \<Rightarrow> nat \<Rightarrow> bool" where
  "taken s d k = (certificate_name_exists s (renewal_candidate d k) = Inr True)"

lemma choose_from_step:
  assumes "check_summary_size s = Inr u" and "k < 100"
  shows "choose_from s d k =
    (if taken s d k then choose_from s d (Suc k) else Inr (renewal_candidate d k))"
  using assms
  by (subst choose_from.simps)
     (auto simp: taken_def certificate_name_exists_candidate validate_cli_identifier_def
        fullmatch_identifier renewal_candidate_identifier)

lemma choose_from_spec:
  assumes "check_summary_size s = Inr u"
  shows "k \<le> 100 \<Longrightarrow>
     (case choose_from s d k of
        Inr name \<Rightarrow> \<exists>j. k \<le> j \<and> j < 100 \<and> name = renewal_candidate d j \<and> \<not> taken s d j \<and>
          (\<forall>i. k \<le> i \<and> i < j \<longrightarrow> taken s d i)
      | Inl e \<Rightarrow> exn_class e = ValueError \<and> (\<forall>i. k \<le> i \<and> i < 100 \<longrightarrow> taken s d i))"
proof (induction "100 - k" arbitrary: k)
  case 0
  then have "k = 100" by simp
  then show ?case by (subst choose_from.simps) auto
next
  case (Suc n)
  then have k: "k < 100" and IH: "n = 100 - Suc k" by simp_all
  show ?case
  proof (cases "taken s d k")
    case False
    then show ?thesis
      using k by (auto simp: choose_from_step [OF assms k] intro!: exI [of _ k])
  next
    case True
    then have taken_from: "(\<forall>i. k \<le> i \<and> i < m \<longrightarrow> taken s d i) = (\<forall>i. Suc k \<le> i \<and> i < m \<longrightarrow> taken s d i)"
      for m
      by (metis Suc_leD Suc_leI le_neq_implies_less)
    show ?thesis
      using Suc.hyps(1) [OF IH] k True
      by (auto simp: choose_from_step [OF assms k] taken_from split: sum.splits intro: Suc_leD)
  qed
qed

text \<open>
  On a summary of admissible size the renewal name is the first of the 99 dated candidates
  that the switch does not list: all lower sequence numbers are taken and the chosen one is not.
  The function fails only when all 99 names are taken.
\<close>

theorem choose_renewal_certificate_name_first_free:
  assumes "utf8_len s \<le> MAX_CERTIFICATE_SUMMARY_OUTPUT_BYTES"
  shows "case choose_renewal_certificate_name s d of
      Inr name \<Rightarrow> is_identifier name \<and>
        (\<exists>j. 1 \<le> j \<and> j \<le> 99 \<and> name = renewal_candidate d j \<and>
           certificate_name_exists s name = Inr False \<and> (\<forall>i. 1 \<le> i \<and> i < j \<longrightarrow> taken s d i))
    | Inl e \<Rightarrow> exn_class e = ValueError \<and> (\<forall>i. 1 \<le> i \<and> i \<le> 99 \<longrightarrow> taken s d i)"
proof -
  have ok: "check_summary_size s = Inr s"
    using assms by (simp add: check_summary_size_def check_output_size_def)
  have free: "certificate_name_exists s (renewal_candidate d j) = Inr (taken s d j)" for j
    by (auto simp: taken_def certificate_name_exists_candidate ok)
  note spec = choose_from_spec [OF ok, of 1 d]
  show ?thesis
  proof (cases "choose_renewal_certificate_name s d")
    case (Inl e)
    with spec show ?thesis by (simp add: choose_renewal_certificate_name_def less_Suc_eq_le)
  next
    case (Inr name)
    with spec obtain j where "1 \<le> j" "j < 100" "name = renewal_candidate d j" "\<not> taken s d j"
        "\<forall>i. 1 \<le> i \<and> i < j \<longrightarrow> taken s d i"
      by (auto simp: choose_renewal_certificate_name_def)
    then show ?thesis
      using Inr free [of j] renewal_candidate_identifier [of d j] by (auto intro: exI [of _ j])
  qed
qed

theorem choose_renewal_certificate_name_first_free_witness:
  "choose_renewal_certificate_name ''webcert-20260102-01 Web CSR p'' (Date 2026 1 2) =
     Inr ''webcert-20260102-02'' \<and> is_identifier ''webcert-20260102-02''"
proof -
  let ?s = "''webcert-20260102-01 Web CSR p''" and ?d = "Date 2026 1 2"
  have size: "utf8_len ?s \<le> MAX_CERTIFICATE_SUMMARY_OUTPUT_BYTES"
    using utf8_len_bounds [of ?s] by (simp add: MAX_CERTIFICATE_SUMMARY_OUTPUT_BYTES_def)
  have ok: "check_summary_size ?s = Inr ?s" by simp
  have found: "search (name_line_re (renewal_candidate ?d 1)) ?s \<noteq> None"
    and absent: "search (name_line_re (renewal_candidate ?d 2)) ?s = None"
    and name: "renewal_candidate ?d 2 = ''webcert-20260102-02''"
    by code_simp+
  from found have "taken ?s ?d 1" by (simp add: taken_def certificate_name_exists_candidate)
  moreover from absent have "\<not> taken ?s ?d 2"
    by (simp add: taken_def certificate_name_exists_candidate)
  ultimately have eq: "choose_renewal_certificate_name ?s ?d = Inr ''webcert-20260102-02''"
    using name by (simp add: choose_renewal_certificate_name_def choose_from_step [OF ok]
          numeral_2_eq_2 [symmetric])
  from choose_renewal_certificate_name_first_free [OF size, of ?d] show ?thesis
    by (simp only: eq sum.case simp_thms)
qed

section \<open>Certificates and entries\<close>

lemma get_active_web_certificate_iff:
  "get_active_web_certificate certs = Inr c \<longleftrightarrow> certs = [c] \<and> \<not> cert_pending c"
proof
  assume "get_active_web_certificate certs = Inr c"
  then have none: "filter cert_pending certs = []" and one: "filter (\<lambda>c. \<not> cert_pending c) certs = [c]"
    by (auto simp: get_active_web_certificate_def Let_def split: if_splits list.splits)
  from none have "filter (\<lambda>c. \<not> cert_pending c) certs = certs"
    by (simp add: filter_empty_conv)
  with one have "certs = [c]" by simp
  with none show "certs = [c] \<and> \<not> cert_pending c" by (simp split: if_splits)
next
  assume "certs = [c] \<and> \<not> cert_pending c"
  then show "get_active_web_certificate certs = Inr c"
    by (simp add: get_active_web_certificate_def)
qed

lemma lang_slash_date_free: "anchor_free slash_date_re"
  by (simp add: slash_date_re_def)

lemma summary_entry_name:
  assumes "m \<in> set (finditer (summary_entry_re name) s)"
  shows "lower (group ''name'' m) = lower name"
proof -
  from finditer_sound [OF assms] obtain b a where
    m: "m \<in> set (match_ends (summary_entry_re name) (b, a, []))" by blast
  have "group ''name'' m \<in> lang (lit_i name)"
    using m unfolding summary_entry_re_def
    by (rule match_ends_cats_nth [where i = 2]) (simp_all add: slash_date_re_def)
  then show ?thesis by (simp add: lang_lit_i)
qed

lemma get_certificate_summary_entry_Inr:
  assumes "get_certificate_summary_entry s name = Inr e"
  shows "lower (entry_name e) = lower name \<and> is_identifier name \<and>
     length (finditer (summary_entry_re name) s) = 1"
  using assms summary_entry_name [of _ name s]
  by (auto simp: get_certificate_summary_entry_def res_bind_Inr_iff validate_cli_identifier_Inr_iff
        split: list.splits)

text \<open>
  A certificate name accepted as pending is a safe identifier that the summary lists in
  exactly one row, under that name up to case, with usage Web and the expiration word CSR.
\<close>

theorem require_pending_web_certificate_sound:
  assumes "require_pending_web_certificate summary_output name = Inr entry"
  shows "is_identifier name \<and> lower (entry_name entry) = lower name \<and>
     casefold (entry_usage entry) = ''web'' \<and> casefold (entry_expiration entry) = ''csr'' \<and>
     length (finditer (summary_entry_re name) summary_output) = 1"
  using assms get_certificate_summary_entry_Inr [of summary_output name]
  by (auto simp: require_pending_web_certificate_def res_bind_Inr_iff split: if_splits)

theorem require_pending_web_certificate_sound_witness:
  "is_identifier ''n'' \<and> casefold ''Web'' = ''web'' \<and>
   require_pending_web_certificate ''  N Web CSR p'' ''n'' =
     Inr \<lparr>entry_name = ''N'', entry_usage = ''Web'', entry_expiration = ''CSR'',
          entry_profile = ''p''\<rparr>"
proof -
  let ?s = "''  N Web CSR p''"
  have "map (\<lambda>m. (group ''name'' m, group ''usage'' m, group ''expiration'' m, group ''profile'' m))
      (finditer (summary_entry_re ''n'') ?s) = [(''N'', ''Web'', ''CSR'', ''p'')]"
    by code_simp
  then obtain m where m: "finditer (summary_entry_re ''n'') ?s = [m]" "group ''name'' m = ''N''"
      "group ''usage'' m = ''Web''" "group ''expiration'' m = ''CSR''" "group ''profile'' m = ''p''"
    by auto
  have "validate_cli_identifier ''n'' ''certificate name'' = Inr ''n''"
    and fold: "casefold ''Web'' = ''web''" "casefold ''CSR'' = ''csr''"
    by code_simp+
  then have eq: "require_pending_web_certificate ?s ''n'' =
     Inr \<lparr>entry_name = ''N'', entry_usage = ''Web'', entry_expiration = ''CSR'',
          entry_profile = ''p''\<rparr>"
    by (simp add: require_pending_web_certificate_def get_certificate_summary_entry_def m)
  from require_pending_web_certificate_sound [OF eq] eq show ?thesis by simp
qed

lemma web_match_name:
  assumes "m \<in> set (finditer web_certificate_re s)"
  shows "group ''name'' m \<noteq> [] \<and> list_all not_space (group ''name'' m) \<and>
     group ''profile'' m \<noteq> [] \<and> list_all not_space (group ''profile'' m)"
proof -
  from finditer_sound [OF assms] obtain b a where
    m: "m \<in> set (match_ends web_certificate_re (b, a, []))" by blast
  have "group ''name'' m \<in> lang (Plus (Cls not_space))"
    using m unfolding web_certificate_re_def
    by (rule match_ends_cats_nth [where i = 2]) (simp_all add: slash_date_re_def)
  moreover have "group ''profile'' m \<in> lang (Plus (Cls not_space))"
    using m unfolding web_certificate_re_def
    by (rule match_ends_cats_nth [where i = 8]) (simp_all add: slash_date_re_def)
  ultimately show ?thesis by simp
qed

text \<open>
  Every Web certificate read from the summary has a name and a profile without white space;
  it is pending exactly when it has no expiration, and an expiration is a date of the calendar.
\<close>

theorem parse_web_certificates_sound:
  assumes "parse_web_certificates output = Inr certs" and "c \<in> set certs"
  shows "cert_name c \<noteq> [] \<and> list_all not_space (cert_name c) \<and>
     cert_profile c \<noteq> [] \<and> list_all not_space (cert_profile c) \<and>
     (cert_pending c \<longleftrightarrow> cert_expiration c = None) \<and>
     (case cert_expiration c of None \<Rightarrow> True | Some d \<Rightarrow> valid_date d)"
proof -
  from assms(1) have "res_map web_certificate_of_match (finditer web_certificate_re output) = Inr certs"
    by (auto simp: parse_web_certificates_def res_bind_Inr_iff)
  from res_map_member [OF this assms(2)] obtain m where
      m: "m \<in> set (finditer web_certificate_re output)" "web_certificate_of_match m = Inr c"
    by blast
  from m(2) web_match_name [OF m(1)] show ?thesis
    by (auto simp: web_certificate_of_match_def Let_def dest: read_date_valid
          split: if_splits option.splits)
qed

theorem parse_web_certificates_sound_witness:
  "cert_pending \<lparr>cert_name = ''a'', cert_expiration = None, cert_profile = ''p'',
     cert_pending = True\<rparr>"
proof -
  let ?s = "''a Web CSR p''"
  have "res_map web_certificate_of_match (finditer web_certificate_re ?s) =
      Inr [\<lparr>cert_name = ''a'', cert_expiration = None, cert_profile = ''p'', cert_pending = True\<rparr>]"
    by code_simp
  then have eq: "parse_web_certificates ?s =
      Inr [\<lparr>cert_name = ''a'', cert_expiration = None, cert_profile = ''p'', cert_pending = True\<rparr>]"
    by (simp add: parse_web_certificates_def)
  from parse_web_certificates_sound [OF eq] show ?thesis by simp
qed

end
