(* ===== verification/CsrRequest.thy ===== *)
theory CsrRequest
  imports Identity SwitchCli Json
begin

text \<open>
  The certificate signing request the switch is asked for: the \<^verbatim>\<open>[csr]\<close> settings and the command
  line \<^verbatim>\<open>crypto pki create-csr\<close> (\<^verbatim>\<open>validate_csr_settings\<close>, \<^verbatim>\<open>quote_cli_subject_value\<close>,
  \<^verbatim>\<open>build_csr_command\<close> of \<^verbatim>\<open>src/aruba_cert_renewer.py\<close>).
\<close>

text \<open>
  The settings table after validation.  The key size is kept as the value of the table, because
  Python's equality with 2048 also accepts the float of that value.
\<close>

record csr_settings =
  csr_organization :: string
  csr_organizational_unit :: string
  csr_locality :: string
  csr_state :: string
  csr_country :: string
  csr_key_size :: json

definition required_csr_fields :: "string list" where
  "required_csr_fields = [''organization'', ''organizational_unit'', ''locality'', ''state'',
     ''country'', ''key_type'', ''key_size'']"

definition apostrophe :: char where
  "apostrophe = CHR 0x27"

text \<open>\<^verbatim>\<open>[A-Za-z0-9][A-Za-z0-9 .,'()&/-]*\<close>\<close>

definition subject_char :: "char \<Rightarrow> bool" where
  "subject_char c = (is_alnum c \<or> c \<in> set '' .,()&/-'' \<or> c = apostrophe)"

definition subject_text_re :: re where
  "subject_text_re = Cat (Cls is_alnum) (Star (Cls subject_char))"

definition country_re :: re where
  "country_re = rep 2 (Cls is_upper)"

definition check_required :: "(string \<times> json) list \<Rightarrow> unit res" where
  "check_required settings =
     (case filter (\<lambda>field. field \<notin> keys settings) required_csr_fields of
        [] \<Rightarrow> Inr ()
      | field # _ \<Rightarrow> value_error (''csr.'' @ field @ '' must be configured''))"

definition csr_text_field :: "(string \<times> json) list \<Rightarrow> string \<Rightarrow> string res" where
  "csr_text_field settings field =
     (case dict_get settings field of
        JStr s \<Rightarrow>
          if strip s = [] then value_error (''csr.'' @ field @ '' must be a non-empty string'')
          else if \<not> fullmatch subject_text_re s then
            value_error (''csr.'' @ field @ '' contains unsupported characters'')
          else if 100 < length s then value_error (''csr.'' @ field @ '' exceeds 100 characters'')
          else Inr s
      | _ \<Rightarrow> value_error (''csr.'' @ field @ '' must be a non-empty string''))"

definition csr_country_field :: "(string \<times> json) list \<Rightarrow> string res" where
  "csr_country_field settings =
     (case dict_get settings ''country'' of
        JStr s \<Rightarrow>
          if fullmatch country_re s then Inr s
          else value_error ''csr.country must be a two-letter uppercase country code''
      | _ \<Rightarrow> value_error ''csr.country must be a two-letter uppercase country code'')"

definition validate_csr_settings :: "json \<Rightarrow> csr_settings res" where
  "validate_csr_settings settings =
     (case settings of
        JObj ps \<Rightarrow>
          res_bind (check_required ps) (\<lambda>_.
          res_bind (csr_text_field ps ''organization'') (\<lambda>organization.
          res_bind (csr_text_field ps ''organizational_unit'') (\<lambda>organizational_unit.
          res_bind (csr_text_field ps ''locality'') (\<lambda>locality.
          res_bind (csr_text_field ps ''state'') (\<lambda>state.
          res_bind (csr_country_field ps) (\<lambda>country.
            if dict_get ps ''key_type'' \<noteq> JStr ''rsa'' then
              value_error (''csr.key_type must currently be '' @ [apostrophe] @ ''rsa'' @ [apostrophe])
            else if \<not> py_eq (dict_get ps ''key_size'') (JInt 2048) then
              value_error ''csr.key_size must currently be 2048''
            else Inr \<lparr>csr_organization = organization,
                csr_organizational_unit = organizational_unit, csr_locality = locality,
                csr_state = state, csr_country = country,
                csr_key_size = dict_get ps ''key_size''\<rparr>))))))
      | _ \<Rightarrow> value_error ''CSR settings must be a table'')"

definition get_csr_settings :: "json \<Rightarrow> csr_settings res" where
  "get_csr_settings config =
     (case config of
        JObj ps \<Rightarrow>
          (case dict_get ps ''csr'' of
             JObj qs \<Rightarrow> validate_csr_settings (JObj qs)
           | _ \<Rightarrow> value_error ''A [csr] configuration section is required'')
      | _ \<Rightarrow> value_error ''A [csr] configuration section is required'')"

section \<open>The command line\<close>

definition dquote :: char where
  "dquote = CHR 0x22"

definition quote_cli_subject_value :: "string \<Rightarrow> string res" where
  "quote_cli_subject_value val =
     (if dquote \<in> set val \<or> carriage_return \<in> set val \<or> newline \<in> set val then
        value_error ''CSR subject value contains unsupported characters''
      else if CHR '' '' \<in> set val then Inr (dquote # val @ [dquote])
      else Inr val)"

definition validate_csr_common_name :: "string \<Rightarrow> unit res" where
  "validate_csr_common_name name =
     (if \<not> isascii name \<or> 90 < length name then
        value_error (''CSR common name exceeds Aruba'' @ [apostrophe] @ ''s 90-character ASCII limit'')
      else Inr ())"

text \<open>\<^verbatim>\<open>f"{key_size}"\<close>: validation leaves the integer 2048 and the float of that value.\<close>

definition key_size_text :: "json \<Rightarrow> string" where
  "key_size_text v = (case v of JInt i \<Rightarrow> str_int i | _ \<Rightarrow> ''2048.0'')"

definition build_csr_command :: "switch \<Rightarrow> string \<Rightarrow> string \<Rightarrow> json \<Rightarrow> string res" where
  "build_csr_command sw certificate_name ta_profile settings =
     res_bind (validate_csr_settings settings) (\<lambda>csr.
     res_bind (validate_cli_identifier certificate_name ''certificate name'') (\<lambda>name.
     res_bind (validate_cli_identifier ta_profile ''TA profile'') (\<lambda>profile.
     res_bind (get_certificate_identities sw) (\<lambda>identities.
     res_bind (validate_csr_common_name (common_name identities)) (\<lambda>_.
     res_bind (quote_cli_subject_value (csr_organization csr)) (\<lambda>organization.
     res_bind (quote_cli_subject_value (csr_organizational_unit csr)) (\<lambda>organizational_unit.
     res_bind (quote_cli_subject_value (csr_locality csr)) (\<lambda>locality.
     res_bind (quote_cli_subject_value (csr_state csr)) (\<lambda>state.
       Inr (join '' ''
         [''crypto pki create-csr'',
          ''certificate-name '' @ name,
          ''ta-profile '' @ profile,
          ''usage web'',
          ''key-type rsa'',
          ''key-size '' @ key_size_text (csr_key_size csr),
          ''subject'',
          ''common-name '' @ common_name identities,
          ''org '' @ organization,
          ''org-unit '' @ organizational_unit,
          ''locality '' @ locality,
          ''state '' @ state,
          ''country '' @ csr_country csr]))))))))))"

section \<open>How a command line is read\<close>

text \<open>
  The words of a line as the command interpreter sees them: separated by spaces, a double-quoted
  stretch belonging to one word.
\<close>

fun cli_words :: "bool \<Rightarrow> string option \<Rightarrow> string \<Rightarrow> string list" where
  "cli_words inside cur [] = (case cur of None \<Rightarrow> [] | Some w \<Rightarrow> [w])"
| "cli_words inside cur (c # s) =
     (if c = dquote then
        cli_words (\<not> inside) (Some (case cur of None \<Rightarrow> [] | Some w \<Rightarrow> w)) s
      else if c = CHR '' '' \<and> \<not> inside then
        (case cur of None \<Rightarrow> cli_words False None s | Some w \<Rightarrow> w # cli_words False None s)
      else cli_words inside (Some (case cur of None \<Rightarrow> [c] | Some w \<Rightarrow> w @ [c])) s)"

definition bare_word :: "string \<Rightarrow> bool" where
  "bare_word w = (w \<noteq> [] \<and> list_all (\<lambda>c. c \<noteq> dquote \<and> c \<noteq> CHR '' '') w)"

lemma space_not_dquote [simp]: "CHR '' '' \<noteq> dquote"
  by (simp add: dquote_def)

lemma cli_words_bare_from:
  "list_all (\<lambda>c. c \<noteq> dquote \<and> c \<noteq> CHR '' '') w \<Longrightarrow>
     cli_words False (Some u) (w @ s) = cli_words False (Some (u @ w)) s"
  by (induction w arbitrary: u) auto

lemma cli_words_bare_start:
  "bare_word w \<Longrightarrow> cli_words False None (w @ s) = cli_words False (Some w) s"
  by (cases w) (auto simp: bare_word_def cli_words_bare_from)

lemma cli_words_inside:
  "dquote \<notin> set w \<Longrightarrow> cli_words True (Some u) (w @ dquote # s) = cli_words False (Some (u @ w)) s"
  by (induction w arbitrary: u) auto

lemma cli_words_space [simp]:
  "cli_words False (Some w) (CHR '' '' # s) = w # cli_words False None s"
  by (simp add: dquote_def)

text \<open>A text that reads as exactly one word, the given one.\<close>

definition reads_as :: "string \<Rightarrow> string \<Rightarrow> bool" where
  "reads_as t w = (\<forall>s. cli_words False None (t @ s) = cli_words False (Some w) s)"

lemma reads_as_bare: "bare_word w \<Longrightarrow> reads_as w w"
  by (simp add: reads_as_def cli_words_bare_start)

lemma reads_as_quoted: "quote_cli_subject_value w = Inr t \<Longrightarrow> w \<noteq> [] \<Longrightarrow> reads_as t w"
  by (auto simp: quote_cli_subject_value_def reads_as_def cli_words_inside list_all_iff
        intro!: cli_words_bare_start [unfolded bare_word_def] split: if_splits)

lemma cli_words_join:
  "list_all2 reads_as ts ws \<Longrightarrow> cli_words False None (join '' '' ts) = ws"
proof (induction "'' ''" ts arbitrary: ws rule: join.induct)
  case 2
  then show ?case
    by (auto simp: list_all2_Cons1 reads_as_def dest!: spec [where x = "[]"])
qed (auto simp: list_all2_Cons1 reads_as_def)

lemma subject_text_chars:
  assumes "csr_text_field ps f = Inr s"
  shows "s \<noteq> [] \<and> list_all subject_char s \<and> length s \<le> 100"
proof -
  from assms have "fullmatch subject_text_re s" "length s \<le> 100"
    by (auto simp: csr_text_field_def split: json.splits if_splits)
  then show ?thesis
    by (auto simp: subject_text_re_def fullmatch_Cls_Star subject_char_def)
qed

lemma subject_char_plain: "subject_char c \<Longrightarrow> c \<noteq> dquote \<and> c \<noteq> newline \<and> c \<noteq> carriage_return"
  by (auto simp: subject_char_def is_alnum_def is_upper_def is_lower_def is_digit_def in_range_def
        dquote_def newline_def carriage_return_def apostrophe_def)

lemma quote_subject: "list_all subject_char s \<Longrightarrow> \<exists>t. quote_cli_subject_value s = Inr t"
  using subject_char_plain by (force simp: quote_cli_subject_value_def list_all_iff)

lemma identifier_bare: "is_identifier s \<Longrightarrow> bare_word s"
proof -
  have plain: "is_alnum c \<or> c \<in> set ''_.-'' \<Longrightarrow> c \<noteq> dquote \<and> c \<noteq> CHR '' ''" for c
    by (auto simp: is_alnum_def is_upper_def is_lower_def is_digit_def in_range_def dquote_def)
  assume "is_identifier s"
  with plain show ?thesis by (cases s) (auto simp: is_identifier_def bare_word_def list_all_iff)
qed

lemma identity_value_text:
  assumes "parse_identity s f = Inr i"
  shows "ident_value i \<noteq> [] \<and> (\<forall>c\<in>set (ident_value i). \<not> isspace c \<and> 32 \<le> code c)"
  using assms
proof (cases rule: parse_identity_cases)
  case (ip a)
  with str_ip_text [OF assms] show ?thesis by simp
next
  case dns
  have "isspace (lower_char c) = isspace c \<and> (32 \<le> code (lower_char c)) = (32 \<le> code c)" for c
    by (auto simp: isspace_def code_lower_char is_upper_def in_range_def)
  with parse_identity_text [OF assms] dns(7) show ?thesis
    by (auto simp: lower_def list_all_iff)
qed

lemma common_name_text:
  assumes "get_certificate_identities sw = Inr ids"
  shows "common_name ids \<noteq> [] \<and> (\<forall>c\<in>set (common_name ids). \<not> isspace c \<and> 32 \<le> code c)"
proof -
  from assms obtain i where "parse_identity (sw_host sw) ''switch identity'' = Inr i"
      "common_name ids = ident_value i"
    by (auto simp: get_certificate_identities_def res_bind_Inr_iff)
  with identity_value_text show ?thesis by simp
qed

lemma str_int_2048: "str_int 2048 = ''2048''"
  by (simp add: str_int_def str_nat.simps [of 2048] str_nat.simps [of 204] str_nat.simps [of 20]
        str_nat.simps [of 2]) code_simp

lemma key_size_text_cases: "py_eq v (JInt 2048) \<Longrightarrow> key_size_text v \<in> {''2048'', ''2048.0''}"
proof -
  assume eq: "py_eq v (JInt 2048)"
  have "scaled_eq i 0 2048 0 \<Longrightarrow> i = 2048" for i by (simp add: scaled_eq_def)
  then show ?thesis
    using eq str_int_2048 by (cases v) (auto simp: key_size_text_def num_eq_def)
qed

text \<open>The argument vector the command is meant to have.\<close>

definition csr_arguments :: "string \<Rightarrow> string \<Rightarrow> string \<Rightarrow> csr_settings \<Rightarrow> string list" where
  "csr_arguments name profile cn csr =
     [''crypto'', ''pki'', ''create-csr'', ''certificate-name'', name, ''ta-profile'', profile,
      ''usage'', ''web'', ''key-type'', ''rsa'', ''key-size'', key_size_text (csr_key_size csr),
      ''subject'', ''common-name'', cn, ''org'', csr_organization csr,
      ''org-unit'', csr_organizational_unit csr, ''locality'', csr_locality csr,
      ''state'', csr_state csr, ''country'', csr_country csr]"

lemma bare_literals:
  "list_all bare_word [''crypto'', ''pki'', ''create-csr'', ''certificate-name'', ''ta-profile'',
     ''usage'', ''web'', ''key-type'', ''rsa'', ''key-size'', ''2048'', ''2048.0'', ''subject'',
     ''common-name'', ''org'', ''org-unit'', ''locality'', ''state'', ''country'']"
  by (simp add: bare_word_def dquote_def)


definition sample_switch :: switch where
  "sample_switch = \<lparr>sw_name = ''s'', sw_host = ''sw'', sw_additional_sans = [],
     sw_known_hosts_file = Some ''kh'', sw_username = None, sw_password_file = None\<rparr>"

definition sample_csr :: json where
  "sample_csr = JObj [(''organization'', JStr ''A B''), (''organizational_unit'', JStr ''U''),
     (''locality'', JStr ''L''), (''state'', JStr ''S''), (''country'', JStr ''NL''),
     (''key_type'', JStr ''rsa''), (''key_size'', JInt 2048)]"

lemma sample_identities:
  "get_certificate_identities sample_switch =
     Inr \<lparr>common_name = ''sw'', dns_names = [''sw''], ip_addresses = []\<rparr>"
  by code_simp

lemma sample_settings:
  "validate_csr_settings sample_csr = Inr \<lparr>csr_organization = ''A B'',
     csr_organizational_unit = ''U'', csr_locality = ''L'', csr_state = ''S'',
     csr_country = ''NL'', csr_key_size = JInt 2048\<rparr>"
  by code_simp

lemma sample_command:
  "build_csr_command sample_switch ''n'' ''p'' sample_csr =
     Inr (''crypto pki create-csr certificate-name n ta-profile p usage web key-type rsa key-size '' @
       str_int 2048 @ '' subject common-name sw org '' @ dquote # ''A B'' @ dquote #
       '' org-unit U locality L state S country NL'')"
  by (simp add: build_csr_command_def sample_settings sample_identities validate_cli_identifier_def
        fullmatch_identifier is_identifier_def is_alnum_def is_lower_def in_range_def
        validate_csr_common_name_def isascii_def is_ascii_char_def quote_cli_subject_value_def
        dquote_def carriage_return_def newline_def key_size_text_def)


text \<open>The excluded case is real: an IPv6 scope identifier may contain a double quote.\<close>

definition scoped_switch :: switch where
  "scoped_switch = sample_switch\<lparr>sw_host := ''::1%'' @ [dquote]\<rparr>"

lemma scoped_identities:
  "get_certificate_identities scoped_switch =
     Inr \<lparr>common_name = ''::1%'' @ [dquote], dns_names = [], ip_addresses = [''::1%'' @ [dquote]]\<rparr>"
proof -
  let ?a = "Ip6 [0, 0, 0, 0, 0, 0, 0, 1] (Some [dquote])"
  have one: "hex_str 1 = ''1''" by code_simp
  have "compress_groups [0, 0, 0, 0, 0, 0, 0, 1] = [[], [], ''1'']"
    using one by (simp add: compress_groups_def Let_def numeral_eq_Suc)
  then have shown: "str_ip ?a = ''::1%'' @ [dquote]" by (simp add: write_groups_def is_mapped_def)
  have "valid_ip ?a" by (simp add: valid_groups_def dquote_def)
  then have "ip_address (''::1%'' @ [dquote]) = Some ?a"
    using ip_address_str_ip [of ?a] shown by simp
  with shown show ?thesis
    by (simp add: get_certificate_identities_def parse_identity_def scoped_switch_def
          sample_switch_def isspace_def dquote_def)
qed


end
