(* ===== verification/CertificatePolicy.thy ===== *)
theory CertificatePolicy
  imports CsrRequest
begin

text \<open>
  What \<^verbatim>\<open>src/aruba_cert_renewer.py\<close> demands of the CSR a switch returns (\<^verbatim>\<open>validate_csr_pem\<close>)
  and of the certificate the CA issues for it (\<^verbatim>\<open>validate_issued_certificate\<close>).  The ASN.1
  parsers, the signature check and the chain verifier belong to the \<^verbatim>\<open>cryptography\<close> package: they
  are the fields of \<open>crypto\<close>, an argument of the definitions.  Parsed objects are records of the
  attributes the code reads; an attribute whose access can raise has a result type.  Times are
  integers, microseconds of UTC.
\<close>

section \<open>Parsed objects\<close>

record public_key =
  key_is_rsa :: bool
  key_bits :: int
  key_der :: string

datatype general_name =
    DNSName string
  | IPAddressName ip
  | IPNetworkName string
  | UnsupportedName

text \<open>A name is a list of relative distinguished names, each a list of (oid, value) pairs.\<close>

type_synonym x509_name = "(string \<times> string) list list"

record csr_extension =
  ext_oid :: string
  ext_critical :: bool
  ext_names :: "general_name list"

record csr_object =
  req_key :: public_key
  req_signature_oid :: string
  req_signature :: string
  req_tbs :: string
  req_subject :: x509_name
  req_attributes :: "string list res"
  req_extensions :: "csr_extension list res"
  req_pem :: string

record key_usage =
  ku_digital_signature :: bool
  ku_content_commitment :: bool
  ku_key_encipherment :: bool
  ku_data_encipherment :: bool
  ku_key_agreement :: bool
  ku_key_cert_sign :: bool
  ku_crl_sign :: bool

record certificate_extensions =
  ce_san :: "general_name list option"
  ce_basic_ca :: "bool option"
  ce_extended_usage :: "string list option"
  ce_key_usage :: "key_usage option"

record certificate =
  x_key :: public_key
  x_subject :: x509_name
  x_extensions :: "certificate_extensions res"
  x_not_before :: int
  x_not_after :: int
  x_signature_hash :: "string option res"
  x_signature_oid :: string
  x_der :: string

record crypto =
  load_csr :: "string \<Rightarrow> csr_object res"
  load_certificates :: "string \<Rightarrow> certificate list res"
  verify_signature :: "public_key \<Rightarrow> string \<Rightarrow> string \<Rightarrow> string \<Rightarrow> unit res"
  verify_chain :: "certificate list \<Rightarrow> identity \<Rightarrow> certificate \<Rightarrow> unit res"

text \<open>Object identifiers.\<close>

definition OID_COMMON_NAME :: string where "OID_COMMON_NAME = ''2.5.4.3''"
definition OID_ORGANIZATION :: string where "OID_ORGANIZATION = ''2.5.4.10''"
definition OID_ORGANIZATIONAL_UNIT :: string where "OID_ORGANIZATIONAL_UNIT = ''2.5.4.11''"
definition OID_LOCALITY :: string where "OID_LOCALITY = ''2.5.4.7''"
definition OID_STATE :: string where "OID_STATE = ''2.5.4.8''"
definition OID_COUNTRY :: string where "OID_COUNTRY = ''2.5.4.6''"
definition OID_EXTENSION_REQUEST :: string where "OID_EXTENSION_REQUEST = ''1.2.840.113549.1.9.14''"
definition OID_SAN :: string where "OID_SAN = ''2.5.29.17''"
definition OID_RSA_SHA1 :: string where "OID_RSA_SHA1 = ''1.2.840.113549.1.1.5''"
definition OID_RSA_SHA256 :: string where "OID_RSA_SHA256 = ''1.2.840.113549.1.1.11''"
definition OID_RSA_SHA384 :: string where "OID_RSA_SHA384 = ''1.2.840.113549.1.1.12''"
definition OID_RSA_SHA512 :: string where "OID_RSA_SHA512 = ''1.2.840.113549.1.1.13''"
definition OID_ECDSA_SHA256 :: string where "OID_ECDSA_SHA256 = ''1.2.840.10045.4.3.2''"
definition OID_ECDSA_SHA384 :: string where "OID_ECDSA_SHA384 = ''1.2.840.10045.4.3.3''"
definition OID_ECDSA_SHA512 :: string where "OID_ECDSA_SHA512 = ''1.2.840.10045.4.3.4''"
definition OID_SERVER_AUTH :: string where "OID_SERVER_AUTH = ''1.3.6.1.5.5.7.3.1''"
definition OID_IPSEC_IKE :: string where "OID_IPSEC_IKE = ''1.3.6.1.5.5.8.2.2''"

section \<open>The CSR\<close>

definition attributes_for_oid :: "x509_name \<Rightarrow> string \<Rightarrow> string list" where
  "attributes_for_oid name oid = map snd (filter (\<lambda>a. fst a = oid) (concat name))"

definition get_subject_value :: "x509_name \<Rightarrow> string \<Rightarrow> string \<Rightarrow> string res" where
  "get_subject_value subject oid field_name =
     (case attributes_for_oid subject oid of
        [v] \<Rightarrow> Inr v
      | _ \<Rightarrow> value_error (''CSR must contain exactly one '' @ field_name))"

definition csr_signature_hash :: "string \<Rightarrow> string option" where
  "csr_signature_hash oid =
     (if oid = OID_RSA_SHA1 then Some ''sha1''
      else if oid = OID_RSA_SHA256 then Some ''sha256''
      else None)"

definition verify_csr_signature :: "crypto \<Rightarrow> csr_object \<Rightarrow> public_key \<Rightarrow> unit res" where
  "verify_csr_signature lib csr key =
     (case csr_signature_hash (req_signature_oid csr) of
        None \<Rightarrow> value_error (''Unsupported CSR signature algorithm: '' @ req_signature_oid csr)
      | Some name \<Rightarrow>
          (case verify_signature lib key (req_signature csr) (req_tbs csr) name of
             Inr _ \<Rightarrow> Inr ()
           | Inl e \<Rightarrow>
               if isinstance e InvalidSignature then value_error ''CSR signature is invalid''
               else if isinstance e UnsupportedAlgorithm then
                 value_error (''CSR signature algorithm is unavailable: '' @ name)
               else Inl e))"

definition quoted_value :: "string \<Rightarrow> string" where
  "quoted_value v = [apostrophe] @ v @ [apostrophe]"

definition check_subject_field ::
  "csr_object \<Rightarrow> string \<times> string \<times> string \<Rightarrow> unit res" where
  "check_subject_field csr field =
     (case field of (oid, field_name, expected_value) \<Rightarrow>
        res_bind (get_subject_value (req_subject csr) oid field_name) (\<lambda>actual_value.
        res_bind
          (if oid = OID_COMMON_NAME then validate_csr_common_name actual_value
           else if oid = OID_COUNTRY then
             (if fullmatch country_re actual_value then Inr ()
              else value_error ''CSR country must be two uppercase ASCII letters'')
           else if 100 < length actual_value then
             value_error (''CSR '' @ field_name @ '' exceeds 100 characters'')
           else Inr ()) (\<lambda>_.
          if actual_value \<noteq> expected_value then
            value_error (''CSR '' @ field_name @ '' is '' @ quoted_value actual_value @
              ''; expected '' @ quoted_value expected_value)
          else Inr ())))"

definition expected_subject :: "certificate_identities \<Rightarrow> csr_settings \<Rightarrow> (string \<times> string \<times> string) list" where
  "expected_subject identities csr =
     [(OID_COMMON_NAME, ''common name'', common_name identities),
      (OID_ORGANIZATION, ''organization'', csr_organization csr),
      (OID_ORGANIZATIONAL_UNIT, ''organizational unit'', csr_organizational_unit csr),
      (OID_LOCALITY, ''locality'', csr_locality csr),
      (OID_STATE, ''state'', csr_state csr),
      (OID_COUNTRY, ''country'', csr_country csr)]"

text \<open>The key of one requested name.\<close>

definition csr_san_key :: "general_name \<Rightarrow> identity_key res" where
  "csr_san_key name =
     (case name of
        DNSName v \<Rightarrow>
          res_bind (parse_identity v ''CSR SAN'') (\<lambda>ident.
            if ident_kind ident \<noteq> Dns then value_error ''CSR contains unsupported SAN identity''
            else Inr (ident_key ident))
      | IPAddressName a \<Rightarrow>
          res_bind (parse_identity (str_ip a) ''CSR SAN'') (\<lambda>ident. Inr (ident_key ident))
      | IPNetworkName t \<Rightarrow>
          res_bind (parse_identity t ''CSR SAN'') (\<lambda>ident. Inr (ident_key ident))
      | UnsupportedName \<Rightarrow> value_error ''CSR contains unsupported SAN identity'')"

fun check_csr_sans ::
  "identity_key list \<Rightarrow> identity_key list \<Rightarrow> general_name list \<Rightarrow> identity_key list res" where
  "check_csr_sans allowed seen [] = Inr seen"
| "check_csr_sans allowed seen (name # names) =
     res_bind (csr_san_key name) (\<lambda>key.
       if key \<in> set seen \<or> key \<notin> set allowed then
         value_error ''CSR SAN is duplicated or unconfigured''
       else check_csr_sans allowed (key # seen) names)"

definition identity_keys :: "string list \<Rightarrow> identity_key list res" where
  "identity_keys vals =
     res_map (\<lambda>v. res_bind (parse_identity v ''identity'') (\<lambda>ident. Inr (ident_key ident))) vals"

definition check_csr_extensions :: "switch \<Rightarrow> csr_object \<Rightarrow> unit res" where
  "check_csr_extensions sw csr =
     (case (req_attributes csr, req_extensions csr) of
        (Inr attributes, Inr extensions) \<Rightarrow>
          if 1 < length attributes \<or> list_ex (\<lambda>oid. oid \<noteq> OID_EXTENSION_REQUEST) attributes then
            value_error ''CSR contains unsupported or duplicate attributes''
          else if 1 < length extensions \<or> (extensions \<noteq> [] \<and> length attributes \<noteq> 1) then
            value_error ''CSR contains unsupported requested extensions''
          else
            (case extensions of
               [] \<Rightarrow> if attributes \<noteq> [] then
                       value_error ''CSR extension request contains no permitted SAN''
                     else Inr ()
             | extension # _ \<Rightarrow>
                 if ext_oid extension \<noteq> OID_SAN \<or> ext_critical extension then
                   value_error ''CSR contains unsupported requested extensions''
                 else if length (ext_names extension) = 0 \<or> 101 < length (ext_names extension) then
                   value_error ''CSR SAN count must be between 1 and 101''
                 else
                   res_bind (identity_keys (sw_host sw # sw_additional_sans sw)) (\<lambda>allowed.
                   res_bind (check_csr_sans allowed [] (ext_names extension)) (\<lambda>seen.
                   res_bind (parse_identity (sw_host sw) ''identity'') (\<lambda>host.
                     if ident_key host \<notin> set seen then
                       value_error ''CSR SAN omits the switch host''
                     else Inr ()))))
      | (a, x) \<Rightarrow>
          (let e = (case a of Inl e \<Rightarrow> e | Inr _ \<Rightarrow> projl x)
           in if isinstance_any e [ValueError, DuplicateExtension] then
                value_error ''CSR contains malformed attributes or extensions''
              else Inl e))"

text \<open>\<^verbatim>\<open>f(text.encode("ascii"))\<close> under \<^verbatim>\<open>except (ValueError, UnicodeEncodeError)\<close>.\<close>

definition load_ascii :: "(string \<Rightarrow> 'a res) \<Rightarrow> string \<Rightarrow> string \<Rightarrow> 'a res" where
  "load_ascii load pem message =
     (case (if isascii pem then load pem else Inl (new_exn UnicodeEncodeError ''ascii'')) of
        Inr x \<Rightarrow> Inr x
      | Inl e \<Rightarrow> if isinstance_any e [ValueError, UnicodeEncodeError] then value_error message
                 else Inl e)"

fun check_each :: "('a \<Rightarrow> unit res) \<Rightarrow> 'a list \<Rightarrow> unit res" where
  "check_each f [] = Inr ()"
| "check_each f (x # xs) = res_bind (f x) (\<lambda>_. check_each f xs)"

definition validate_csr_pem :: "crypto \<Rightarrow> string \<Rightarrow> switch \<Rightarrow> json \<Rightarrow> csr_object res" where
  "validate_csr_pem lib csr_pem sw settings =
     res_bind (validate_csr_settings settings) (\<lambda>csr_settings.
     res_bind (check_output_size csr_pem MAX_CSR_PEM_BYTES ''CSR PEM'') (\<lambda>_.
     res_bind (load_ascii (load_csr lib) csr_pem ''Returned CSR is not valid PEM'') (\<lambda>csr.
       if \<not> key_is_rsa (req_key csr) then value_error ''CSR does not contain an RSA public key''
       else if \<not> py_eq (csr_key_size csr_settings) (JInt (key_bits (req_key csr))) then
         value_error (''CSR RSA key size is '' @ str_int (key_bits (req_key csr)) @
           ''; expected '' @ key_size_text (csr_key_size csr_settings))
       else
         res_bind (verify_csr_signature lib csr (req_key csr)) (\<lambda>_.
         res_bind (get_certificate_identities sw) (\<lambda>identities.
         res_bind (validate_csr_common_name (common_name identities)) (\<lambda>_.
         res_bind (check_each (check_subject_field csr)
             (expected_subject identities csr_settings)) (\<lambda>_.
           if sum_list (map length (req_subject csr)) \<noteq>
               length (expected_subject identities csr_settings) then
             value_error ''CSR subject must contain exactly six expected attributes''
           else
             res_bind (check_csr_extensions sw csr) (\<lambda>_. Inr csr))))))))"

section \<open>The issued certificate\<close>

definition microseconds_per_day :: int where
  "microseconds_per_day = 86400000000"

definition ISSUANCE_FRESHNESS_WINDOW :: int where
  "ISSUANCE_FRESHNESS_WINDOW = 5 * 60 * 1000000"

definition ISSUED_EKU_OIDS :: "string list" where
  "ISSUED_EKU_OIDS = [OID_SERVER_AUTH, OID_IPSEC_IKE]"

definition issued_signature_oids :: "string \<Rightarrow> string list option" where
  "issued_signature_oids digest =
     (if digest = ''sha256'' then Some [OID_RSA_SHA256, OID_ECDSA_SHA256]
      else if digest = ''sha384'' then Some [OID_RSA_SHA384, OID_ECDSA_SHA384]
      else if digest = ''sha512'' then Some [OID_RSA_SHA512, OID_ECDSA_SHA512]
      else None)"

definition validate_issued_signature :: "certificate \<Rightarrow> string \<Rightarrow> unit res" where
  "validate_issued_signature cert digest =
     (case issued_signature_oids digest of
        None \<Rightarrow> value_error ''Configured issued certificate digest is unsupported''
      | Some allowed_oids \<Rightarrow>
          (case x_signature_hash cert of
             Inl e \<Rightarrow>
               if isinstance e UnsupportedAlgorithm then
                 value_error ''Issued certificate signature hash algorithm is unsupported''
               else Inl e
           | Inr signature_hash \<Rightarrow>
               if signature_hash \<noteq> Some digest \<or> x_signature_oid cert \<notin> set allowed_oids then
                 value_error ''Issued certificate signature does not match opnsense.digest''
               else Inr ()))"

definition require_current_certificate_validity :: "certificate \<Rightarrow> int \<Rightarrow> int option \<Rightarrow> unit res" where
  "require_current_certificate_validity cert now minimum_remaining_days =
     (if now < x_not_before cert then value_error ''Issued certificate is not yet valid''
      else if x_not_after cert \<le> now then value_error ''Issued certificate has expired''
      else (case minimum_remaining_days of
          None \<Rightarrow> Inr ()
        | Some days \<Rightarrow>
            if x_not_after cert \<le> now + days * microseconds_per_day then
              value_error (''Issued certificate does not have enough remaining validity '' @
                ''to leave the renewal warning window'')
            else Inr ()))"

definition require_extension :: "(certificate_extensions \<Rightarrow> 'a option) \<Rightarrow> certificate \<Rightarrow> string \<Rightarrow> 'a res" where
  "require_extension field cert name =
     res_bind (x_extensions cert) (\<lambda>extensions.
       case field extensions of
         Some v \<Rightarrow> Inr v
       | None \<Rightarrow> value_error (''Issued certificate is missing '' @ name))"

text \<open>Equality of names: the same sets of attributes, in order.\<close>

definition same_name :: "x509_name \<Rightarrow> x509_name \<Rightarrow> bool" where
  "same_name a b = list_all2 (\<lambda>r s. set r = set s) a b"

fun dns_name_values :: "general_name list \<Rightarrow> string list" where
  "dns_name_values [] = []"
| "dns_name_values (DNSName v # names) = v # dns_name_values names"
| "dns_name_values (_ # names) = dns_name_values names"

text \<open>The values of type \<^verbatim>\<open>IPAddress\<close>: an address, or a network (\<open>None\<close>, equal to no address).\<close>

fun ip_name_values :: "general_name list \<Rightarrow> ip option list" where
  "ip_name_values [] = []"
| "ip_name_values (IPAddressName a # names) = Some a # ip_name_values names"
| "ip_name_values (IPNetworkName t # names) = None # ip_name_values names"
| "ip_name_values (_ # names) = ip_name_values names"

definition check_issued_names :: "certificate_identities \<Rightarrow> general_name list \<Rightarrow> unit res" where
  "check_issued_names identities names =
     (let dns = dns_name_values names; ips = ip_name_values names;
          expected_dns = casefold ` set (dns_names identities);
          expected_ips = ip_address ` set (ip_addresses identities)
      in if UnsupportedName \<in> set names then
           value_error ''Issued certificate SAN contains an unsupported identity type''
         else if length dns \<noteq> card expected_dns \<or> casefold ` set dns \<noteq> expected_dns then
           value_error (''Issued certificate DNS SAN set does not exactly match configured '' @
             ''identities'')
         else if length ips \<noteq> card expected_ips \<or> set ips \<noteq> expected_ips then
           value_error ''Issued certificate IP SAN set does not exactly match configured identities''
         else Inr ())"

definition check_issued_usage :: "certificate \<Rightarrow> unit res" where
  "check_issued_usage cert =
     res_bind (require_extension ce_basic_ca cert ''Basic Constraints'') (\<lambda>ca.
       if ca then value_error ''Issued certificate Basic Constraints must set CA to FALSE''
       else
     res_bind (require_extension ce_extended_usage cert ''Extended Key Usage'') (\<lambda>eku.
       if length eku \<noteq> length ISSUED_EKU_OIDS \<or> set eku \<noteq> set ISSUED_EKU_OIDS then
         value_error (''Issued certificate Extended Key Usage must contain exactly '' @
           ''serverAuth and 1.3.6.1.5.5.8.2.2'')
       else
     res_bind (require_extension ce_key_usage cert ''Key Usage'') (\<lambda>ku.
       if \<not> (ku_digital_signature ku \<and> ku_key_encipherment ku \<and> \<not> ku_content_commitment ku \<and>
            \<not> ku_data_encipherment ku \<and> \<not> ku_key_agreement ku \<and> \<not> ku_key_cert_sign ku \<and>
            \<not> ku_crl_sign ku) then
         value_error ''Issued certificate Key Usage does not match server policy''
       else Inr ())))"

definition check_issued_lifetime ::
  "certificate \<Rightarrow> int \<Rightarrow> int \<Rightarrow> bool \<Rightarrow> int option \<Rightarrow> unit res" where
  "check_issued_lifetime cert now lifetime_days require_fresh_issuance minimum_remaining_days =
     (let not_before = x_not_before cert; not_after = x_not_after cert
      in if not_after \<le> not_before then
           value_error ''Issued certificate validity period is invalid''
         else
           res_bind (require_current_certificate_validity cert now minimum_remaining_days) (\<lambda>_.
             if require_fresh_issuance \<and> not_before < now - ISSUANCE_FRESHNESS_WINDOW then
               value_error ''Issued certificate is older than the issuance freshness window''
             else if not_after - not_before \<noteq> lifetime_days * microseconds_per_day then
               value_error (''Issued certificate validity period is inconsistent with '' @
                 ''opnsense.lifetime_days'')
             else Inr ()))"

text \<open>The time is the caller's or, where it gives none, the clock's; it is an argument here.\<close>

definition validate_issued_certificate ::
  "crypto \<Rightarrow> string \<Rightarrow> csr_object \<Rightarrow> switch \<Rightarrow> int \<Rightarrow> string \<Rightarrow> int \<Rightarrow> bool \<Rightarrow> int option \<Rightarrow>
     certificate res" where
  "validate_issued_certificate lib certificate_pem csr sw lifetime_days digest now
       require_fresh_issuance minimum_remaining_days =
     res_bind (load_ascii (load_certificates lib) certificate_pem
         ''Issued certificate is not valid PEM X.509'') (\<lambda>certificates.
       case certificates of
         [cert] \<Rightarrow>
           if \<not> key_is_rsa (x_key cert) then
             value_error ''Issued certificate does not contain an RSA public key''
           else if key_bits (x_key cert) \<noteq> 2048 then
             value_error (''Issued certificate RSA key size is '' @ str_int (key_bits (x_key cert)) @
               ''; expected 2048'')
           else if key_der (x_key cert) \<noteq> key_der (req_key csr) then
             value_error ''Issued certificate public key does not match the CSR''
           else
             res_bind (get_certificate_identities sw) (\<lambda>identities.
               if attributes_for_oid (x_subject cert) OID_COMMON_NAME \<noteq> [common_name identities] then
                 value_error (''Issued certificate CN must equal switch host '' @
                   quoted_value (common_name identities))
               else if \<not> same_name (x_subject cert) (req_subject csr) then
                 value_error ''Issued certificate subject does not match the CSR''
               else
                 res_bind (require_extension ce_san cert ''Subject Alternative Name'') (\<lambda>names.
                 res_bind (check_issued_names identities names) (\<lambda>_.
                 res_bind (check_issued_usage cert) (\<lambda>_.
                 res_bind (check_issued_lifetime cert now lifetime_days require_fresh_issuance
                     minimum_remaining_days) (\<lambda>_.
                 res_bind (validate_issued_signature cert digest) (\<lambda>_. Inr cert))))))
       | _ \<Rightarrow> value_error ''Issued certificate response must contain exactly one certificate'')"

text \<open>\<^verbatim>\<open>verify_issued_certificate_trust\<close>; the snapshot is the path and the bytes of the CA file.\<close>

record ca_snapshot =
  ca_path :: string
  ca_pem :: string

definition verify_issued_certificate_trust :: "crypto \<Rightarrow> certificate \<Rightarrow> switch \<Rightarrow> ca_snapshot \<Rightarrow> unit res" where
  "verify_issued_certificate_trust lib cert sw snapshot =
     res_bind (case load_certificates lib (ca_pem snapshot) of
         Inr certs \<Rightarrow> Inr certs
       | Inl e \<Rightarrow>
           if isinstance e ValueError then
             value_error (''verification.ca_file does not contain valid PEM certificates: '' @
               ca_path snapshot)
           else Inl e) (\<lambda>trusted_certificates.
       if trusted_certificates = [] then
         value_error (''verification.ca_file does not contain any trusted certificates: '' @
           ca_path snapshot)
       else
         res_bind (parse_identity (sw_host sw) ''switch host'') (\<lambda>host_identity.
           case verify_chain lib trusted_certificates host_identity cert of
             Inr _ \<Rightarrow> Inr ()
           | Inl e \<Rightarrow>
               if isinstance e VerificationError then
                 value_error (''Issued certificate failed pre-install trust verification against '' @
                   ''verification.ca_file ('' @ ca_path snapshot @ ''): '' @ exn_text e)
               else Inl e))"

section \<open>The policy for an issued certificate\<close>

text \<open>What an accepted certificate satisfies, as one predicate.\<close>

definition issued_names_ok :: "certificate_identities \<Rightarrow> general_name list \<Rightarrow> bool" where
  "issued_names_ok identities names =
     (UnsupportedName \<notin> set names \<and>
      length (dns_name_values names) = card (casefold ` set (dns_names identities)) \<and>
      casefold ` set (dns_name_values names) = casefold ` set (dns_names identities) \<and>
      length (ip_name_values names) = card (ip_address ` set (ip_addresses identities)) \<and>
      set (ip_name_values names) = ip_address ` set (ip_addresses identities))"

definition server_key_usage :: "key_usage \<Rightarrow> bool" where
  "server_key_usage ku = (ku = \<lparr>ku_digital_signature = True, ku_content_commitment = False,
     ku_key_encipherment = True, ku_data_encipherment = False, ku_key_agreement = False,
     ku_key_cert_sign = False, ku_crl_sign = False\<rparr>)"

definition server_eku :: "string list \<Rightarrow> bool" where
  "server_eku eku = (length eku = 2 \<and> set eku = {OID_SERVER_AUTH, OID_IPSEC_IKE})"

definition issued_policy ::
  "certificate \<Rightarrow> csr_object \<Rightarrow> certificate_identities \<Rightarrow> int \<Rightarrow> string \<Rightarrow> int \<Rightarrow> bool \<Rightarrow> int option \<Rightarrow> bool" where
  "issued_policy cert csr identities lifetime_days digest now fresh remaining =
     (key_is_rsa (x_key cert) \<and> key_bits (x_key cert) = 2048 \<and>
      key_der (x_key cert) = key_der (req_key csr) \<and>
      attributes_for_oid (x_subject cert) OID_COMMON_NAME = [common_name identities] \<and>
      same_name (x_subject cert) (req_subject csr) \<and>
      (case x_extensions cert of Inl e \<Rightarrow> False | Inr ce \<Rightarrow>
         (case ce_san ce of None \<Rightarrow> False | Some names \<Rightarrow> issued_names_ok identities names) \<and>
         ce_basic_ca ce = Some False \<and>
         (case ce_extended_usage ce of None \<Rightarrow> False | Some eku \<Rightarrow> server_eku eku) \<and>
         (case ce_key_usage ce of None \<Rightarrow> False | Some ku \<Rightarrow> server_key_usage ku)) \<and>
      x_not_before cert \<le> now \<and> now < x_not_after cert \<and>
      x_not_after cert = x_not_before cert + lifetime_days * microseconds_per_day \<and>
      (case remaining of None \<Rightarrow> True
       | Some days \<Rightarrow> now + days * microseconds_per_day < x_not_after cert) \<and>
      (if fresh then now \<le> x_not_before cert + ISSUANCE_FRESHNESS_WINDOW else True) \<and>
      x_signature_hash cert = Inr (Some digest) \<and>
      (case issued_signature_oids digest of None \<Rightarrow> False
       | Some oids \<Rightarrow> x_signature_oid cert \<in> set oids))"

lemma check_issued_names_iff:
  "check_issued_names identities names = Inr u \<longleftrightarrow> issued_names_ok identities names"
  by (auto simp: check_issued_names_def issued_names_ok_def Let_def)

lemma require_extension_Inr_iff:
  "require_extension f cert n = Inr v \<longleftrightarrow> (\<exists>ce. x_extensions cert = Inr ce \<and> f ce = Some v)"
  by (auto simp: require_extension_def res_bind_Inr_iff split: option.splits)

lemma server_key_usage_iff:
  "server_key_usage ku \<longleftrightarrow> ku_digital_signature ku \<and> ku_key_encipherment ku \<and>
     \<not> ku_content_commitment ku \<and> \<not> ku_data_encipherment ku \<and> \<not> ku_key_agreement ku \<and>
     \<not> ku_key_cert_sign ku \<and> \<not> ku_crl_sign ku"
  by (cases ku) (auto simp: server_key_usage_def)

lemma guard_Inr_iff: "(if b then Inl e else k) = Inr y \<longleftrightarrow> \<not> b \<and> k = Inr y"
  by simp

lemma server_eku_iff:
  "(length eku \<noteq> length ISSUED_EKU_OIDS \<or> set eku \<noteq> set ISSUED_EKU_OIDS) = (\<not> server_eku eku)"
  by (simp add: server_eku_def ISSUED_EKU_OIDS_def numeral_2_eq_2)

lemma check_issued_usage_iff:
  "check_issued_usage cert = Inr u \<longleftrightarrow>
     (case x_extensions cert of Inl e \<Rightarrow> False | Inr ce \<Rightarrow>
        ce_basic_ca ce = Some False \<and>
        (case ce_extended_usage ce of None \<Rightarrow> False | Some eku \<Rightarrow> server_eku eku) \<and>
        (case ce_key_usage ce of None \<Rightarrow> False | Some ku \<Rightarrow> server_key_usage ku))"
proof (cases "x_extensions cert")
  case (Inr ce)
  show ?thesis
    unfolding check_issued_usage_def res_bind_Inr_iff guard_Inr_iff require_extension_Inr_iff
      server_eku_iff server_key_usage_iff
    using Inr by (auto split: option.splits)
qed (auto simp: check_issued_usage_def require_extension_def)

lemma require_current_iff:
  "require_current_certificate_validity cert now rem = Inr u \<longleftrightarrow>
     x_not_before cert \<le> now \<and> now < x_not_after cert \<and>
     (case rem of None \<Rightarrow> True | Some days \<Rightarrow> now + days * microseconds_per_day < x_not_after cert)"
  by (auto simp: require_current_certificate_validity_def split: option.splits)

lemma check_issued_lifetime_iff:
  "check_issued_lifetime cert now lifetime_days fresh rem = Inr u \<longleftrightarrow>
     x_not_before cert \<le> now \<and> now < x_not_after cert \<and>
     x_not_after cert = x_not_before cert + lifetime_days * microseconds_per_day \<and>
     (case rem of None \<Rightarrow> True | Some days \<Rightarrow> now + days * microseconds_per_day < x_not_after cert) \<and>
     (if fresh then now \<le> x_not_before cert + ISSUANCE_FRESHNESS_WINDOW else True)"
  by (auto simp: check_issued_lifetime_def Let_def res_bind_Inr_iff require_current_iff
        split: if_splits)

lemma validate_issued_signature_iff:
  "validate_issued_signature cert digest = Inr u \<longleftrightarrow>
     x_signature_hash cert = Inr (Some digest) \<and>
     (case issued_signature_oids digest of None \<Rightarrow> False
      | Some oids \<Rightarrow> x_signature_oid cert \<in> set oids)"
  by (auto simp: validate_issued_signature_def split: option.splits sum.splits if_splits)

lemma load_ascii_Inr_iff: "load_ascii f pem m = Inr x \<longleftrightarrow> isascii pem \<and> f pem = Inr x"
  by (auto simp: load_ascii_def split: sum.splits if_splits)

lemma validate_issued_certificate_accepts:
  "validate_issued_certificate lib pem csr sw lifetime_days digest now fresh remaining = Inr cert \<longleftrightarrow>
     isascii pem \<and> load_certificates lib pem = Inr [cert] \<and>
     (case get_certificate_identities sw of Inl e \<Rightarrow> False
      | Inr identities \<Rightarrow> issued_policy cert csr identities lifetime_days digest now fresh remaining)"
proof -
  have one: "(case xs of [] \<Rightarrow> value_error m | [c] \<Rightarrow> f c | c # d # ds \<Rightarrow> value_error m) = Inr cert \<longleftrightarrow>
      (\<exists>c. xs = [c] \<and> f c = Inr cert)" for xs :: "certificate list" and m and f :: "certificate \<Rightarrow> certificate res"
    by (auto split: list.splits)
  have unit: "(\<exists>x. r = Inr (x::unit) \<and> P) \<longleftrightarrow> r = Inr () \<and> P" for r :: "unit res" and P by auto
  have "validate_issued_certificate lib pem csr sw lifetime_days digest now fresh remaining = Inr cert \<longleftrightarrow>
     isascii pem \<and> load_certificates lib pem = Inr [cert] \<and>
     key_is_rsa (x_key cert) \<and> key_bits (x_key cert) = 2048 \<and>
     key_der (x_key cert) = key_der (req_key csr) \<and>
     (\<exists>identities. get_certificate_identities sw = Inr identities \<and>
        attributes_for_oid (x_subject cert) OID_COMMON_NAME = [common_name identities] \<and>
        same_name (x_subject cert) (req_subject csr) \<and>
        (\<exists>names. require_extension ce_san cert ''Subject Alternative Name'' = Inr names \<and>
        check_issued_names identities names = Inr () \<and>
     check_issued_usage cert = Inr () \<and>
     check_issued_lifetime cert now lifetime_days fresh remaining = Inr () \<and>
     validate_issued_signature cert digest = Inr ()))"
    unfolding validate_issued_certificate_def res_bind_Inr_iff load_ascii_Inr_iff one guard_Inr_iff unit
    by auto
  also have "\<dots> \<longleftrightarrow> isascii pem \<and> load_certificates lib pem = Inr [cert] \<and>
     (case get_certificate_identities sw of Inl e \<Rightarrow> False
      | Inr identities \<Rightarrow> issued_policy cert csr identities lifetime_days digest now fresh remaining)"
  proof (cases "get_certificate_identities sw")
    case (Inr identities)
    show ?thesis
      unfolding check_issued_names_iff check_issued_usage_iff check_issued_lifetime_iff
        validate_issued_signature_iff require_extension_Inr_iff issued_policy_def Inr
      by (cases "x_extensions cert") (simp_all split: option.split, blast?)
  qed simp
  finally show ?thesis .
qed

text \<open>
  C13.  An issued certificate is accepted exactly when its PEM text is ASCII, holds one
  certificate, and that certificate satisfies the whole server policy: the key and subject of the
  CSR, exactly the configured names, server usage without CA rights, the configured lifetime and
  digest, and the required freshness and remaining validity.  Nothing else is accepted and
  nothing that satisfies the policy is refused.
\<close>

theorem validate_issued_certificate_iff:
  "validate_issued_certificate lib pem csr sw lifetime_days digest now fresh remaining = Inr cert \<longleftrightarrow>
     isascii pem \<and> load_certificates lib pem = Inr [cert] \<and>
     (case get_certificate_identities sw of Inl e \<Rightarrow> False
      | Inr identities \<Rightarrow> issued_policy cert csr identities lifetime_days digest now fresh remaining)"
  by (rule validate_issued_certificate_accepts)

text \<open>
  Freshness and remaining validity fit together: a certificate accepted with a renewal
  window of some days has a lifetime longer than that window, so a run whose window is not below
  the configured lifetime can accept no certificate at all.
\<close>

theorem accepted_lifetime_exceeds_window:
  assumes "validate_issued_certificate lib pem csr sw lifetime_days digest now fresh (Some days) = Inr cert"
  shows "days < lifetime_days"
proof -
  from assms obtain identities where
      "issued_policy cert csr identities lifetime_days digest now fresh (Some days)"
    unfolding validate_issued_certificate_accepts by (auto split: sum.splits)
  then have "now + days * microseconds_per_day < x_not_before cert + lifetime_days * microseconds_per_day"
      "x_not_before cert \<le> now"
    unfolding issued_policy_def by simp_all
  then have "days * microseconds_per_day < lifetime_days * microseconds_per_day" by linarith
  then show ?thesis by (simp add: microseconds_per_day_def)
qed

definition sample_key :: public_key where
  "sample_key = \<lparr>key_is_rsa = True, key_bits = 2048, key_der = ''K''\<rparr>"

definition sample_subject :: x509_name where
  "sample_subject = [[(OID_COMMON_NAME, ''sw'')], [(OID_ORGANIZATION, ''A B'')],
     [(OID_ORGANIZATIONAL_UNIT, ''U'')], [(OID_LOCALITY, ''L'')], [(OID_STATE, ''S'')],
     [(OID_COUNTRY, ''NL'')]]"

definition sample_request :: csr_object where
  "sample_request = \<lparr>req_key = sample_key, req_signature_oid = OID_RSA_SHA256,
     req_signature = ''sig'', req_tbs = ''tbs'', req_subject = sample_subject,
     req_attributes = Inr [OID_EXTENSION_REQUEST],
     req_extensions = Inr [\<lparr>ext_oid = OID_SAN, ext_critical = False, ext_names = [DNSName ''SW'']\<rparr>],
     req_pem = ''R''\<rparr>"

definition sample_certificate :: certificate where
  "sample_certificate = \<lparr>x_key = sample_key, x_subject = sample_subject,
     x_extensions = Inr \<lparr>ce_san = Some [DNSName ''sw''], ce_basic_ca = Some False,
       ce_extended_usage = Some ISSUED_EKU_OIDS,
       ce_key_usage = Some \<lparr>ku_digital_signature = True, ku_content_commitment = False,
         ku_key_encipherment = True, ku_data_encipherment = False, ku_key_agreement = False,
         ku_key_cert_sign = False, ku_crl_sign = False\<rparr>\<rparr>,
     x_not_before = 0, x_not_after = 10 * microseconds_per_day,
     x_signature_hash = Inr (Some ''sha256''), x_signature_oid = OID_RSA_SHA256, x_der = ''D''\<rparr>"

definition sample_crypto :: crypto where
  "sample_crypto = \<lparr>load_csr = (\<lambda>t. if t = ''R'' then Inr sample_request else value_error ''csr''),
     load_certificates = (\<lambda>t. if t = ''C'' then Inr [sample_certificate] else value_error ''pem''),
     verify_signature = (\<lambda>k s t h. Inr ()), verify_chain = (\<lambda>cs i c. Inr ())\<rparr>"

lemma sample_policy:
  "issued_policy sample_certificate (sample_request\<lparr>req_pem := q\<rparr>)
     \<lparr>common_name = ''sw'', dns_names = [''sw''], ip_addresses = []\<rparr> 10 ''sha256'' 5 fresh (Some 9)"
  by (simp add: issued_policy_def sample_certificate_def sample_request_def sample_key_def
      sample_subject_def same_name_def attributes_for_oid_def server_key_usage_def server_eku_def
      ISSUED_EKU_OIDS_def microseconds_per_day_def ISSUANCE_FRESHNESS_WINDOW_def
      issued_signature_oids_def issued_names_ok_def OID_COMMON_NAME_def OID_ORGANIZATION_def
      OID_ORGANIZATIONAL_UNIT_def OID_LOCALITY_def OID_STATE_def OID_COUNTRY_def)

lemma sample_issued:
  "isascii pem \<Longrightarrow> load_certificates lib pem = Inr [sample_certificate] \<Longrightarrow>
     validate_issued_certificate lib pem (sample_request\<lparr>req_pem := q\<rparr>) sample_switch 10 ''sha256'' 5 fresh
       (Some 9) = Inr sample_certificate"
  by (simp add: validate_issued_certificate_accepts sample_identities sample_policy)

lemma sample_accepted:
  "validate_issued_certificate sample_crypto ''C'' sample_request sample_switch 10 ''sha256'' 5 True (Some 9) =
     Inr sample_certificate"
proof -
  have "isascii ''C''" "load_certificates sample_crypto ''C'' = Inr [sample_certificate]"
    by (simp_all add: isascii_def is_ascii_char_def sample_crypto_def)
  from sample_issued [OF this, of "''R''" True] show ?thesis by (simp add: sample_request_def)
qed

theorem accepted_lifetime_exceeds_window_witness: "(9::int) < 10"
  by (rule accepted_lifetime_exceeds_window [OF sample_accepted])

section \<open>The policy for a CSR\<close>

text \<open>The requested names: none at all, or one SAN extension with configured names and the host.\<close>

definition requested_names_ok :: "switch \<Rightarrow> csr_object \<Rightarrow> bool" where
  "requested_names_ok sw csr =
     (case (req_attributes csr, req_extensions csr) of
        (Inr [], Inr []) \<Rightarrow> True
      | (Inr [oid], Inr [extension]) \<Rightarrow>
          oid = OID_EXTENSION_REQUEST \<and> ext_oid extension = OID_SAN \<and> \<not> ext_critical extension \<and>
          (\<exists>allowed ks host. identity_keys (sw_host sw # sw_additional_sans sw) = Inr allowed \<and>
             list_all2 (\<lambda>n k. csr_san_key n = Inr k) (ext_names extension) ks \<and> distinct ks \<and>
             set ks \<subseteq> set allowed \<and> parse_identity (sw_host sw) ''identity'' = Inr host \<and>
             ident_key host \<in> set ks)
      | _ \<Rightarrow> False)"

lemma check_csr_sans_Inr:
  "check_csr_sans allowed seen names = Inr all \<Longrightarrow> distinct seen \<Longrightarrow>
     \<exists>ks. list_all2 (\<lambda>n k. csr_san_key n = Inr k) names ks \<and> all = rev ks @ seen \<and>
       distinct (ks @ seen) \<and> set ks \<subseteq> set allowed"
proof (induction allowed seen names rule: check_csr_sans.induct)
  case (1 allowed seen)
  then show ?case by simp
next
  case (2 allowed seen name names)
  from 2(2) obtain k where k: "csr_san_key name = Inr k" "k \<notin> set seen" "k \<in> set allowed"
      and rest: "check_csr_sans allowed (k # seen) names = Inr all"
    by (auto simp: res_bind_Inr_iff split: if_splits)
  have "\<not> (k \<in> set seen \<or> k \<notin> set allowed)" using k by simp
  from 2(1) [OF this rest] k(2) 2(3) obtain ks where ks:
      "list_all2 (\<lambda>n k. csr_san_key n = Inr k) names ks" "all = rev ks @ k # seen"
      "distinct (ks @ k # seen)" "set ks \<subseteq> set allowed"
    by auto
  then show ?case using k by (intro exI [of _ "k # ks"]) auto
qed

lemma check_csr_extensions_ok:
  assumes "check_csr_extensions sw csr = Inr u"
  shows "requested_names_ok sw csr"
proof -
  from assms obtain attributes extensions where
      ae: "req_attributes csr = Inr attributes" "req_extensions csr = Inr extensions"
    by (auto simp: check_csr_extensions_def Let_def split: sum.splits if_splits)
  show ?thesis
  proof (cases extensions)
    case Nil
    with assms ae show ?thesis
      by (auto simp: check_csr_extensions_def requested_names_ok_def split: if_splits)
  next
    case (Cons extension more)
    with assms ae obtain oid where one: "attributes = [oid]" "oid = OID_EXTENSION_REQUEST" "more = []"
      by (auto simp: check_csr_extensions_def length_Suc_conv split: if_splits)
    with assms ae Cons obtain allowed seen host where
        "ext_oid extension = OID_SAN" "\<not> ext_critical extension"
        "identity_keys (sw_host sw # sw_additional_sans sw) = Inr allowed"
        "check_csr_sans allowed [] (ext_names extension) = Inr seen"
        "parse_identity (sw_host sw) ''identity'' = Inr host" "ident_key host \<in> set seen"
      by (auto simp: check_csr_extensions_def res_bind_Inr_iff split: if_splits)
    with check_csr_sans_Inr [of allowed "[]" "ext_names extension" seen] one Cons ae
    show ?thesis by (auto simp: requested_names_ok_def)
  qed
qed

lemma scaled_eq_det: "scaled_eq m e a 0 \<Longrightarrow> scaled_eq m e b 0 \<Longrightarrow> a = b"
  by (auto simp: scaled_eq_def Let_def)

lemma py_eq_int_det: "py_eq v (JInt a) \<Longrightarrow> py_eq v (JInt b) \<Longrightarrow> a = b"
  by (cases v) (auto simp: num_eq_def dest: scaled_eq_det)

lemma check_each_Inr: "check_each f xs = Inr u \<longleftrightarrow> (\<forall>x\<in>set xs. f x = Inr ())"
  by (induction xs) (auto simp: res_bind_Inr_iff)

lemma check_subject_field_Inr:
  "check_subject_field csr (oid, name, v) = Inr u \<Longrightarrow> attributes_for_oid (req_subject csr) oid = [v]"
  by (auto simp: check_subject_field_def res_bind_Inr_iff get_subject_value_def
        split: list.splits if_splits)

text \<open>
  C38.  A CSR is accepted only when it carries an RSA key of 2048 bits and a signature by that key
  that verifies under SHA-1 or SHA-256; its subject is exactly the six configured attributes, one
  each; and the names it asks for, if any, are distinct configured names that include the host.
\<close>

theorem validate_csr_pem_sound:
  assumes "validate_csr_pem lib pem sw settings = Inr csr"
    and "validate_csr_settings settings = Inr st" and "get_certificate_identities sw = Inr ids"
  shows "load_csr lib pem = Inr csr \<and> key_is_rsa (req_key csr) \<and> key_bits (req_key csr) = 2048 \<and>
     (\<exists>hash\<in>{''sha1'', ''sha256''}. csr_signature_hash (req_signature_oid csr) = Some hash \<and>
        verify_signature lib (req_key csr) (req_signature csr) (req_tbs csr) hash = Inr ()) \<and>
     (\<forall>(oid, name, v)\<in>set (expected_subject ids st). attributes_for_oid (req_subject csr) oid = [v]) \<and>
     sum_list (map length (req_subject csr)) = 6 \<and> requested_names_ok sw csr"
proof -
  from assms have load: "load_csr lib pem = Inr csr" "key_is_rsa (req_key csr)"
      "py_eq (csr_key_size st) (JInt (key_bits (req_key csr)))"
    and sig: "verify_csr_signature lib csr (req_key csr) = Inr ()"
    and subj: "check_each (check_subject_field csr) (expected_subject ids st) = Inr ()"
      "sum_list (map length (req_subject csr)) = length (expected_subject ids st)"
    and ext: "check_csr_extensions sw csr = Inr ()"
    unfolding validate_csr_pem_def res_bind_Inr_iff guard_Inr_iff load_ascii_Inr_iff by auto
  have "py_eq (csr_key_size st) (JInt 2048)"
    using assms(2) by (auto simp: validate_csr_settings_def res_bind_Inr_iff guard_Inr_iff
        split: json.splits)
  with load(3) have bits: "key_bits (req_key csr) = 2048" by (rule py_eq_int_det)
  from sig obtain hash where hash: "csr_signature_hash (req_signature_oid csr) = Some hash"
      "verify_signature lib (req_key csr) (req_signature csr) (req_tbs csr) hash = Inr ()"
    by (auto simp: verify_csr_signature_def split: option.splits sum.splits if_splits)
  then have "hash \<in> {''sha1'', ''sha256''}" by (auto simp: csr_signature_hash_def split: if_splits)
  moreover have "\<forall>(oid, name, v)\<in>set (expected_subject ids st). attributes_for_oid (req_subject csr) oid = [v]"
    using subj(1) unfolding check_each_Inr by (auto dest!: bspec check_subject_field_Inr)
  ultimately show ?thesis
    using load bits hash subj(2) check_csr_extensions_ok [OF ext] by (auto simp: expected_subject_def)
qed

lemma sample_request_validates:
  assumes "load_csr lib pem = Inr (sample_request\<lparr>req_pem := q\<rparr>)" and "isascii pem"
    and "2 * length pem \<le> MAX_CSR_PEM_BYTES" and "\<And>k s t h. verify_signature lib k s t h = Inr ()"
  shows "validate_csr_pem lib pem sample_switch sample_csr = Inr (sample_request\<lparr>req_pem := q\<rparr>)"
proof -
  let ?ids = "\<lparr>common_name = ''sw'', dns_names = [''sw''], ip_addresses = []\<rparr>"
  let ?st = "\<lparr>csr_organization = ''A B'', csr_organizational_unit = ''U'', csr_locality = ''L'',
     csr_state = ''S'', csr_country = ''NL'', csr_key_size = JInt 2048\<rparr>"
  let ?r = "sample_request\<lparr>req_pem := q\<rparr>"
  have size: "check_output_size pem MAX_CSR_PEM_BYTES ''CSR PEM'' = Inr pem"
    using assms(3) by (rule check_output_size_short)
  have load: "load_ascii (load_csr lib) pem m = Inr ?r" for m
    by (simp add: load_ascii_def assms(1,2))
  have key: "req_key ?r = sample_key" "key_is_rsa sample_key" "key_bits sample_key = 2048"
    by (simp_all add: sample_request_def sample_key_def)
  have size_eq: "py_eq (csr_key_size ?st) (JInt 2048)" by (simp add: num_eq_def scaled_eq_def)
  have sig: "verify_csr_signature lib ?r sample_key = Inr ()"
    by (simp add: verify_csr_signature_def sample_request_def csr_signature_hash_def assms(4)
          OID_RSA_SHA256_def OID_RSA_SHA1_def)
  have name: "validate_csr_common_name ''sw'' = Inr ()" by code_simp
  have fields: "check_each (check_subject_field ?r) (expected_subject ?ids ?st) = Inr ()"
    by code_simp
  have count: "sum_list (map length (req_subject ?r)) = length (expected_subject ?ids ?st)"
    by code_simp
  have ext: "check_csr_extensions sample_switch ?r = Inr ()" by code_simp
  show ?thesis
    unfolding validate_csr_pem_def
    using size load key size_eq sig name fields count ext
    by (simp add: sample_settings sample_identities)
qed

lemma sample_request_accepted:
  "validate_csr_pem sample_crypto ''R'' sample_switch sample_csr = Inr sample_request"
proof -
  have same: "sample_request\<lparr>req_pem := ''R''\<rparr> = sample_request" by (simp add: sample_request_def)
  have "validate_csr_pem sample_crypto ''R'' sample_switch sample_csr = Inr (sample_request\<lparr>req_pem := ''R''\<rparr>)"
    by (rule sample_request_validates)
       (simp_all add: same sample_crypto_def isascii_def is_ascii_char_def MAX_CSR_PEM_BYTES_def)
  then show ?thesis by (simp add: same)
qed

theorem validate_csr_pem_sound_witness:
  "requested_names_ok sample_switch sample_request \<and>
   attributes_for_oid sample_subject OID_ORGANIZATION = [''A B'']"
  using validate_csr_pem_sound [OF sample_request_accepted sample_settings sample_identities]
  by (simp add: expected_subject_def sample_request_def)

end
