(* ===== verification/OutputPolicy.thy ===== *)
theory OutputPolicy
  imports Prelude
begin

text \<open>
  \<^verbatim>\<open>src/output_policy.py\<close>: control characters never reach the terminal.  Every C0 and C1 control
  and DEL is below code point 256, so the function on \<open>char\<close> shows all of its behaviour; on any
  other code point it is the identity.
\<close>

definition hex_digit :: "nat \<Rightarrow> char" where
  "hex_digit n = (if n < 10 then char_of (48 + n) else char_of (87 + n))"

definition backslash :: char where
  "backslash = CHR 0x5C"

text \<open>\<^verbatim>\<open>_READABLE_CONTROL_ESCAPES\<close>\<close>

definition readable_escape :: "char \<Rightarrow> string option" where
  "readable_escape c =
     (if code c = 0 then Some (backslash # ''x00'')
      else if code c = 8 then Some (backslash # ''b'')
      else if code c = 9 then Some (backslash # ''t'')
      else if code c = 10 then Some (backslash # ''n'')
      else if code c = 11 then Some (backslash # ''v'')
      else if code c = 12 then Some (backslash # ''f'')
      else if code c = 13 then Some (backslash # ''r'')
      else None)"

definition is_terminal_control :: "char \<Rightarrow> bool" where
  "is_terminal_control c = (code c \<le> 31 \<or> (127 \<le> code c \<and> code c \<le> 159))"

definition sanitize_char :: "char \<Rightarrow> string" where
  "sanitize_char c =
     (case readable_escape c of
        Some t \<Rightarrow> t
      | None \<Rightarrow>
          if is_terminal_control c
          then backslash # CHR ''x'' # [hex_digit (code c div 16), hex_digit (code c mod 16)]
          else [c])"

definition sanitize_terminal_text :: "string \<Rightarrow> string" where
  "sanitize_terminal_text val = concat (map sanitize_char val)"

lemma readable_escape_control: "readable_escape c = Some t \<Longrightarrow> is_terminal_control c"
  by (auto simp: readable_escape_def is_terminal_control_def split: if_splits)

lemma hex_digit_plain: "n < 16 \<Longrightarrow> \<not> is_terminal_control (hex_digit n)"
  by (auto simp: hex_digit_def is_terminal_control_def code_def)

lemma sanitize_char_clean: "c \<in> set (sanitize_char d) \<Longrightarrow> \<not> is_terminal_control c"
proof -
  assume c: "c \<in> set (sanitize_char d)"
  have small: "code d < 256" by (simp add: code_def)
  have plain: "\<not> is_terminal_control backslash"
    by (simp add: is_terminal_control_def backslash_def code_def)
  have digits: "\<not> is_terminal_control (hex_digit (code d div 16))"
      "\<not> is_terminal_control (hex_digit (code d mod 16))"
    using small by (auto intro!: hex_digit_plain)
  have letters: "\<not> is_terminal_control x" if "x \<in> set ''x0btnvfr''" for x
    using that by (auto simp: is_terminal_control_def code_def)
  show ?thesis
  proof (cases "readable_escape d")
    case (Some t)
    then have "set t \<subseteq> insert backslash (set ''x0btnvfr'')"
      by (auto simp: readable_escape_def split: if_splits)
    with c Some plain letters show ?thesis by (auto simp: sanitize_char_def)
  next
    case None
    with c plain digits letters show ?thesis
      by (auto simp: sanitize_char_def split: if_splits)
  qed
qed

lemma sanitize_char_same: "\<not> is_terminal_control c \<Longrightarrow> sanitize_char c = [c]"
  using readable_escape_control by (cases "readable_escape c") (auto simp: sanitize_char_def)

lemma sanitize_same:
  "list_all (\<lambda>c. \<not> is_terminal_control c) s \<Longrightarrow> sanitize_terminal_text s = s"
  by (induction s) (auto simp: sanitize_terminal_text_def sanitize_char_same)

lemma sanitize_clean: "list_all (\<lambda>c. \<not> is_terminal_control c) (sanitize_terminal_text s)"
  by (auto simp: sanitize_terminal_text_def list_all_iff dest: sanitize_char_clean)

text \<open>
  Sanitised text holds no control character, whatever the input; text without control
  characters is printed unchanged, and so sanitising twice changes nothing.
\<close>

theorem sanitize_terminal_text_clean:
  "list_all (\<lambda>c. \<not> is_terminal_control c) (sanitize_terminal_text s) \<and>
   (sanitize_terminal_text s = s \<longleftrightarrow> list_all (\<lambda>c. \<not> is_terminal_control c) s) \<and>
   sanitize_terminal_text (sanitize_terminal_text s) = sanitize_terminal_text s"
proof -
  have "sanitize_terminal_text s = s \<Longrightarrow> list_all (\<lambda>c. \<not> is_terminal_control c) s"
    using sanitize_clean [of s] by simp
  then show ?thesis using sanitize_clean sanitize_same by blast
qed

end
