(* ===== verification/World.thy ===== *)
theory World
  imports CertificatePolicy JsonReport OutputPolicy
begin

text \<open>
  The world the program acts on.  Every interaction with the operating system, the switch, the
  CA and the terminal is an \<open>action\<close>; the environment answers it, with a value or an exception,
  and may change state of its own (the type \<open>'w\<close>).  The program's state keeps that world, the
  trace of all actions in order, the structured report of \<^verbatim>\<open>--output json\<close>, and the local
  variables that exception handlers and \<^verbatim>\<open>finally\<close> clauses read.
\<close>

section \<open>Actions\<close>

datatype file_kind = RegularFile | Directory | SymbolicLink | OtherFile

text \<open>\<^verbatim>\<open>os.stat_result\<close>; \<open>st_perm\<close> holds the permission bits of \<^verbatim>\<open>st_mode\<close>.\<close>

record file_status =
  st_kind :: file_kind
  st_perm :: nat
  st_uid :: int
  st_gid :: int
  st_dev :: int
  st_ino :: int
  st_nlink :: int
  st_size :: int

datatype action =
    OsOpen string "string list"
  | OsOpenAt int string "string list" nat
  | OsFstat int
  | OsLstat string
  | OsStatAt int string
  | OsFdopen int
  | OsClose int
  | Flock int
  | ReadFile int nat
  | MakeTempDirectory
  | OsStat string
  | WriteNewFile string string
  | RemoveTree string
  | Connect string
  | Disconnect
  | SendCommand string nat
  | SendCommandTiming string nat
  | SendPem string nat
  | EnterConfigMode nat
  | ExitConfigMode nat
  | HttpRequest string string "string option"
  | CreateTlsContext string
  | StartResolver string
  | PollResolver int
  | ReceiveAddresses
  | StopResolver
  | OpenSocket string
  | ConnectPeer string int
  | TlsHandshake string int
  | ReadClock
  | Sleep int
  | Print string
  | PrintError string
  | Prompt string
  | Getpass string

record 'w env =
  answer_text :: "action \<Rightarrow> 'w \<Rightarrow> string res \<times> 'w"
  answer_num :: "action \<Rightarrow> 'w \<Rightarrow> int res \<times> 'w"
  answer_status :: "action \<Rightarrow> 'w \<Rightarrow> file_status res \<times> 'w"
  channel_poisoned :: "'w \<Rightarrow> bool"
  base_prompt :: "'w \<Rightarrow> string"
  now_utc :: "'w \<Rightarrow> int"
  today_utc :: "'w \<Rightarrow> date"
  today_local :: "'w \<Rightarrow> date"

  environ :: "string \<Rightarrow> string option"
  has_nofollow :: bool
  effective_uid :: int
  effective_gid :: int
  json_loads :: "string \<Rightarrow> json res"
  toml_loads :: "string \<Rightarrow> (string \<times> json) list option"
  resolved_parent :: "string \<Rightarrow> string"
  local_timestamp :: "'w \<Rightarrow> string"
  sha256_hex :: "string \<Rightarrow> string"
  crypto_lib :: crypto

text \<open>An event of the trace: the action and what answered it.\<close>

datatype reply = Failed exn | Text string | Number int | Status file_status

type_synonym event = "action \<times> reply"

record 'w st =
  world :: 'w
  trace :: "event list"
  item :: switch_result
  csr_creation_attempted :: bool
  installation_attempted :: bool
  installation_dialogue_completed :: bool
  entered_config_mode :: bool
  installation_completed :: bool
  switch_verdict :: "string option"
  body_exit :: "int option"

type_synonym ('w, 'a) io = "('w st, 'a) eff"

definition record_event :: "event \<Rightarrow> 'w st \<Rightarrow> 'w st" where
  "record_event ev s = s\<lparr>trace := trace s @ [ev]\<rparr>"

text \<open>
  An action and its answer.  The action is in the trace whether or not its answer is an
  exception: a request that failed may still have had its effect.
\<close>

definition act :: "(action \<Rightarrow> 'w \<Rightarrow> 'a res \<times> 'w) \<Rightarrow> ('a \<Rightarrow> reply) \<Rightarrow> action \<Rightarrow> ('w, 'a) io" where
  "act answer shown a = (\<lambda>s. case answer a (world s) of
     (r, w) \<Rightarrow> (r, record_event (a, case r of Inl e \<Rightarrow> Failed e | Inr x \<Rightarrow> shown x) (s\<lparr>world := w\<rparr>)))"

definition act_text :: "'w env \<Rightarrow> action \<Rightarrow> ('w, string) io" where
  "act_text env a = act (answer_text env) Text a"

definition act_num :: "'w env \<Rightarrow> action \<Rightarrow> ('w, int) io" where
  "act_num env a = act (answer_num env) Number a"

definition act_status :: "'w env \<Rightarrow> action \<Rightarrow> ('w, file_status) io" where
  "act_status env a = act (answer_status env) Status a"

definition act_unit :: "'w env \<Rightarrow> action \<Rightarrow> ('w, unit) io" where
  "act_unit env a = bind (act_text env a) (\<lambda>_. ret ())"

definition fail :: "exc_class \<Rightarrow> string \<Rightarrow> ('w, 'a) io" where
  "fail c t = raise (new_exn c t)"

text \<open>\<^verbatim>\<open>except OSError: raise error\<close>\<close>

definition on_os_error :: "exn \<Rightarrow> ('s, 'a) eff \<Rightarrow> ('s, 'a) eff" where
  "on_os_error error m =
     try_except m (\<lambda>e. if isinstance e OSError then raise error else raise e)"

text \<open>How a computation ended, as a value.\<close>

definition outcome_of :: "('s, 'a) eff \<Rightarrow> ('s, 'a res) eff" where
  "outcome_of m = (\<lambda>s. case m s of (r, s') \<Rightarrow> (Inr r, s'))"

definition observe :: "('w \<Rightarrow> 'a) \<Rightarrow> ('w, 'a) io" where
  "observe f = gets (\<lambda>s. f (world s))"

definition print_terminal :: "'w env \<Rightarrow> string \<Rightarrow> ('w, unit) io" where
  "print_terminal env t = act_unit env (Print (sanitize_terminal_text t))"

definition print_error :: "'w env \<Rightarrow> string \<Rightarrow> ('w, unit) io" where
  "print_error env t = act_unit env (PrintError (sanitize_terminal_text t))"

text \<open>
  \<^verbatim>\<open>if progress: progress(event)\<close>: with JSON output the callback updates the report, without it
  there is none.
\<close>

definition report_progress :: "bool \<Rightarrow> progress_event \<Rightarrow> ('w, unit) io" where
  "report_progress progress event =
     (if progress then modify (\<lambda>s. s\<lparr>item := json_progress (item s) event\<rparr>) else ret ())"

section \<open>Invariants of computations\<close>

text \<open>
  \<open>keeps J m\<close>: \<open>m\<close> preserves \<open>J\<close>, whatever the environment answers and however \<open>m\<close> ends.
\<close>

definition keeps :: "('s \<Rightarrow> bool) \<Rightarrow> ('s, 'a) eff \<Rightarrow> bool" where
  "keeps J m = (\<forall>s. J s \<longrightarrow> post m s (\<lambda>r s'. J s'))"

named_theorems keeps_intros \<open>rules to show that a computation preserves an invariant\<close>

lemma keepsI: "(\<And>s. J s \<Longrightarrow> post m s (\<lambda>r s'. J s')) \<Longrightarrow> keeps J m"
  by (simp add: keeps_def)

lemma keepsD: "keeps J m \<Longrightarrow> J s \<Longrightarrow> m s = (r, s') \<Longrightarrow> J s'"
  by (auto simp: keeps_def post_def dest: spec [where x = s])

lemma keeps_post: "keeps J m \<Longrightarrow> J s \<Longrightarrow> post m s (\<lambda>r s'. J s')"
  by (simp add: keeps_def)

lemma keeps_pure [keeps_intros]:
  "keeps J (ret x)" "keeps J (raise e)" "keeps J (lift r)" "keeps J (gets f)" "keeps J (check b e)"
  by (simp_all add: keeps_def effect_simps)

lemma keeps_fail [keeps_intros]: "keeps J (fail c t)"
  by (simp add: fail_def keeps_pure)

lemma keeps_observe [keeps_intros]: "keeps J (observe f)"
  by (simp add: observe_def keeps_pure)

lemma keeps_modify: "(\<And>s. J s \<Longrightarrow> J (f s)) \<Longrightarrow> keeps J (modify f)"
  by (simp add: keeps_def effect_simps)

lemma keeps_then:
  assumes "keeps J m" and "J s" and "\<And>r s'. J s' \<Longrightarrow> Q r s'"
  shows "post m s Q"
  using keeps_post [OF assms(1,2)] by (rule post_mono) (rule assms(3))

lemma keeps_bind [keeps_intros]:
  assumes "keeps J m" and "\<And>x. keeps J (f x)"
  shows "keeps J (bind m f)"
proof (rule keepsI)
  fix s
  assume "J s"
  show "post (bind m f) s (\<lambda>r s'. J s')"
    unfolding post_bind
    by (rule keeps_then [OF assms(1) \<open>J s\<close>]) (auto intro: keeps_post [OF assms(2)] split: sum.split)
qed

lemma keeps_seq [keeps_intros]: "keeps J m \<Longrightarrow> keeps J k \<Longrightarrow> keeps J (seq m k)"
  unfolding seq_def by (rule keeps_bind)

lemma keeps_try_except [keeps_intros]:
  assumes "keeps J m" and "\<And>e. keeps J (h e)"
  shows "keeps J (try_except m h)"
proof (rule keepsI)
  fix s
  assume "J s"
  show "post (try_except m h) s (\<lambda>r s'. J s')"
    unfolding post_try_except
    by (rule keeps_then [OF assms(1) \<open>J s\<close>]) (auto intro: keeps_post [OF assms(2)] split: sum.split)
qed

lemma keeps_try_finally [keeps_intros]:
  assumes "keeps J m" and "\<And>b. keeps J (f b)"
  shows "keeps J (try_finally m f)"
proof (rule keepsI)
  fix s
  assume "J s"
  show "post (try_finally m f) s (\<lambda>r s'. J s')"
    unfolding post_try_finally
    by (rule keeps_then [OF assms(1) \<open>J s\<close>], rule keeps_then [OF assms(2)])
       (auto split: sum.split)
qed

lemma keeps_if [keeps_intros]: "keeps J m \<Longrightarrow> keeps J k \<Longrightarrow> keeps J (if b then m else k)"
  by simp

lemma keeps_outcome_of [keeps_intros]: "keeps J m \<Longrightarrow> keeps J (outcome_of m)"
  by (simp add: keeps_def outcome_of_def post_def split: prod.splits)

lemma keeps_on_os_error [keeps_intros]: "keeps J m \<Longrightarrow> keeps J (on_os_error x m)"
  unfolding on_os_error_def by (intro keeps_try_except keeps_if keeps_pure)

lemma post_outcome_of [effect_simps]: "post (outcome_of m) s Q = post m s (\<lambda>r s'. Q (Inr r) s')"
  by (simp add: outcome_of_def post_def split: prod.split)

lemma keeps_case_sum [keeps_intros]:
  "(\<And>x. keeps J (f x)) \<Longrightarrow> (\<And>y. keeps J (g y)) \<Longrightarrow>
     keeps J (case v of Inl x \<Rightarrow> f x | Inr y \<Rightarrow> g y)"
  by (cases v) simp_all

lemma keeps_case_option [keeps_intros]:
  "keeps J m \<Longrightarrow> (\<And>x. keeps J (f x)) \<Longrightarrow> keeps J (case v of None \<Rightarrow> m | Some x \<Rightarrow> f x)"
  by (cases v) simp_all

lemma keeps_act:
  "(\<And>s w t. J s \<Longrightarrow> J (record_event (a, t) (s\<lparr>world := w\<rparr>))) \<Longrightarrow> keeps J (act answer shown a)"
  by (rule keepsI) (simp add: act_def post_def split: prod.split)

lemma post_act [effect_simps]:
  "post (act answer shown a) s Q = (case answer a (world s) of (r, w) \<Rightarrow>
     Q r (record_event (a, case r of Inl e \<Rightarrow> Failed e | Inr x \<Rightarrow> shown x) (s\<lparr>world := w\<rparr>)))"
  by (simp add: act_def post_def split: prod.split)

text \<open>
  A state invariant that depends on nothing but the trace and survives every event of a class.
\<close>

definition closed_under :: "(action \<Rightarrow> bool) \<Rightarrow> ('w st \<Rightarrow> bool) \<Rightarrow> bool" where
  "closed_under P J = (\<forall>a s w t. P a \<longrightarrow> J s \<longrightarrow> J (record_event (a, t) (s\<lparr>world := w\<rparr>)))"

lemma keeps_actions:
  assumes "closed_under P J" and "P a"
  shows "keeps J (act_text env a)" "keeps J (act_num env a)" "keeps J (act_status env a)"
    "keeps J (act_unit env a)"
proof -
  have "keeps J (act answer shown a)" for answer :: "action \<Rightarrow> 'a \<Rightarrow> 'b res \<times> 'a" and shown
    using assms by (intro keeps_act) (simp add: closed_under_def)
  then show "keeps J (act_text env a)" "keeps J (act_num env a)" "keeps J (act_status env a)"
      "keeps J (act_unit env a)"
    using assms by (auto simp: act_text_def act_num_def act_status_def act_unit_def
        closed_under_def intro!: keeps_bind keeps_pure keeps_act)
qed

lemma keeps_print:
  "closed_under P J \<Longrightarrow> P (Print (sanitize_terminal_text t)) \<Longrightarrow> keeps J (print_terminal env t)"
  unfolding print_terminal_def by (rule keeps_actions(4))

lemma keeps_print_error:
  "closed_under P J \<Longrightarrow> P (PrintError (sanitize_terminal_text t)) \<Longrightarrow> keeps J (print_error env t)"
  unfolding print_error_def by (rule keeps_actions(4))

lemma keeps_progress:
  "(\<And>s. J s \<Longrightarrow> J (s\<lparr>item := json_progress (item s) ev\<rparr>)) \<Longrightarrow> keeps J (report_progress b ev)"
  unfolding report_progress_def by (simp add: keeps_modify keeps_pure)

section \<open>The actions of a computation\<close>

text \<open>\<open>appends P s s'\<close>: the trace of \<open>s'\<close> is that of \<open>s\<close> and further events, all in \<open>P\<close>.\<close>

definition appends :: "(action \<Rightarrow> bool) \<Rightarrow> 'w st \<Rightarrow> 'w st \<Rightarrow> bool" where
  "appends P s s' = (\<exists>evs. trace s' = trace s @ evs \<and> list_all (\<lambda>ev. P (fst ev)) evs)"

lemma appends_refl [simp]: "appends P s s"
  by (simp add: appends_def)

lemma appends_trans: "appends P s t \<Longrightarrow> appends P t u \<Longrightarrow> appends P s u"
  by (auto simp: appends_def)

lemma appends_mono: "appends P s t \<Longrightarrow> (\<And>a. P a \<Longrightarrow> Q a) \<Longrightarrow> appends Q s t"
  by (auto simp: appends_def list_all_iff)

lemma appends_trace: "trace t' = trace t \<Longrightarrow> appends P s t' = appends P s t"
  by (simp add: appends_def)

lemma appends_closed: "closed_under P (appends P s)"
  by (auto simp: closed_under_def appends_def record_event_def)

lemmas appends_actions = keeps_actions [OF appends_closed] keeps_print [OF appends_closed]
  keeps_print_error [OF appends_closed]

text \<open>\<open>does P m\<close>: all actions of \<open>m\<close> are in \<open>P\<close>.\<close>

definition does :: "(action \<Rightarrow> bool) \<Rightarrow> ('w, 'a) io \<Rightarrow> bool" where
  "does P m = (\<forall>s. keeps (appends P s) m)"

lemma doesI: "(\<And>s. keeps (appends P s) m) \<Longrightarrow> does P m"
  by (simp add: does_def)

lemma doesD: "does P m \<Longrightarrow> m s = (r, s') \<Longrightarrow> appends P s s'"
  unfolding does_def by (metis appends_refl keepsD)

lemma does_mono: "does P m \<Longrightarrow> (\<And>a. P a \<Longrightarrow> Q a) \<Longrightarrow> does Q m"
proof (rule doesI, rule keepsI, rule postI)
  fix s t r t'
  assume m: "does P m" and pq: "\<And>a. P a \<Longrightarrow> Q a" and st: "appends Q s t" and run: "m t = (r, t')"
  from doesD [OF m run] pq have "appends Q t t'" by (rule appends_mono)
  with st show "appends Q s t'" by (rule appends_trans)
qed

lemma keeps_trace_progress: "keeps (appends P s) (report_progress b ev)"
  by (rule keeps_progress) (simp add: appends_def)

section \<open>Runs that succeed\<close>

text \<open>What a successful run went through; \<open>run_success\<close> takes a program apart step by step.\<close>

named_theorems run_success \<open>how a computation can end with a result\<close>

lemma ret_Inr [run_success]: "ret x s = (Inr y, s') \<longleftrightarrow> y = x \<and> s' = s"
  by (auto simp: ret_def)

lemma raise_Inr [run_success]: "raise e s = (Inr y, s') \<longleftrightarrow> False"
  by (simp add: raise_def)

lemma gets_Inr [run_success]: "gets f s = (Inr y, s') \<longleftrightarrow> y = f s \<and> s' = s"
  by (auto simp: gets_def)

lemma observe_Inr [run_success]: "observe f s = (Inr y, s') \<longleftrightarrow> y = f (world s) \<and> s' = s"
  by (auto simp: observe_def gets_def)

lemma modify_Inr [run_success]: "modify f s = (Inr u, s') \<longleftrightarrow> s' = f s"
  by (auto simp: modify_def)

lemma lift_Inr [run_success]: "lift r s = (Inr y, s') \<longleftrightarrow> r = Inr y \<and> s' = s"
  by (auto simp: lift_def)

lemma check_Inr [run_success]: "check b e s = (Inr u, s') \<longleftrightarrow> \<not> b \<and> s' = s"
  by (auto simp: check_def raise_def ret_def)

lemma bind_Inr [run_success]:
  "bind m f s = (Inr y, s') \<longleftrightarrow> (\<exists>x s1. m s = (Inr x, s1) \<and> f x s1 = (Inr y, s'))"
  by (cases "m s", cases "fst (m s)") (auto simp: bind_def)

lemma seq_Inr [run_success]:
  "seq m k s = (Inr y, s') \<longleftrightarrow> (\<exists>s1. m s = (Inr (), s1) \<and> k s1 = (Inr y, s'))"
  by (simp add: seq_def bind_Inr)

lemma try_except_Inr:
  "try_except m h s = (Inr y, s') \<longleftrightarrow>
     m s = (Inr y, s') \<or> (\<exists>e s1. m s = (Inl e, s1) \<and> h e s1 = (Inr y, s'))"
  by (cases "m s", cases "fst (m s)") (auto simp: try_except_def)

lemma try_finally_Inr [run_success]:
  "try_finally m f s = (Inr y, s') \<longleftrightarrow>
     (\<exists>s1. m s = (Inr y, s1) \<and> f False s1 = (Inr (), s'))"
  by (cases "m s", cases "fst (m s)") (auto simp: try_finally_def split: prod.splits sum.splits)

text \<open>A handler that always raises cannot turn an exception into a result.\<close>

lemma try_except_raising:
  "(\<And>e s1. h e s1 \<noteq> (Inr y, s')) \<Longrightarrow> try_except m h s = (Inr y, s') \<longleftrightarrow> m s = (Inr y, s')"
  by (auto simp: try_except_Inr)

lemma on_os_error_Inr [run_success]: "on_os_error e m s = (Inr y, s') \<longleftrightarrow> m s = (Inr y, s')"
  unfolding on_os_error_def by (rule try_except_raising) (simp add: raise_def)

lemma outcome_of_Inr [run_success]: "outcome_of m s = (Inr r, s') \<longleftrightarrow> m s = (r, s')"
  by (auto simp: outcome_of_def split: prod.split)

lemma case_sum_run:
  "(case v of Inl e \<Rightarrow> f e | Inr x \<Rightarrow> g x) s = t \<longleftrightarrow>
     (\<exists>e. v = Inl e \<and> f e s = t) \<or> (\<exists>x. v = Inr x \<and> g x s = t)"
  by (cases v) simp_all

lemma case_prod_run: "(case p of (a, b) \<Rightarrow> f a b) s = t \<longleftrightarrow> (\<exists>a b. p = (a, b) \<and> f a b s = t)"
  by (cases p) simp

lemma act_text_Inr [run_success]:
  "act_text env a s = (Inr t, s') \<longleftrightarrow> (\<exists>w. answer_text env a (world s) = (Inr t, w) \<and>
     s' = record_event (a, Text t) (s\<lparr>world := w\<rparr>))"
  by (auto simp: act_text_def act_def split: prod.split sum.split)

lemma act_num_Inr [run_success]:
  "act_num env a s = (Inr n, s') \<longleftrightarrow> (\<exists>w. answer_num env a (world s) = (Inr n, w) \<and>
     s' = record_event (a, Number n) (s\<lparr>world := w\<rparr>))"
  by (auto simp: act_num_def act_def split: prod.split sum.split)

lemma act_status_Inr [run_success]:
  "act_status env a s = (Inr x, s') \<longleftrightarrow> (\<exists>w. answer_status env a (world s) = (Inr x, w) \<and>
     s' = record_event (a, Status x) (s\<lparr>world := w\<rparr>))"
  by (auto simp: act_status_def act_def split: prod.split sum.split)

lemma act_unit_Inr [run_success]:
  "act_unit env a s = (Inr u, s') \<longleftrightarrow> (\<exists>t. act_text env a s = (Inr t, s'))"
  by (auto simp: act_unit_def bind_Inr ret_Inr)

lemma trace_record [simp]: "trace (record_event ev s) = trace s @ [ev]"
  by (simp add: record_event_def)

lemma keeps_does: "does P m \<Longrightarrow> keeps (appends P s) m"
  by (simp add: does_def)

section \<open>Runs that fail\<close>

named_theorems run_failure \<open>how a computation can end with an exception\<close>

lemma ret_Inl [run_failure]: "ret x s = (Inl e, s') \<longleftrightarrow> False"
  by (simp add: ret_def)

lemma raise_Inl [run_failure]: "raise x s = (Inl e, s') \<longleftrightarrow> x = e \<and> s' = s"
  by (auto simp: raise_def)

lemma gets_Inl [run_failure]: "gets f s = (Inl e, s') \<longleftrightarrow> False"
  by (simp add: gets_def)

lemma observe_Inl [run_failure]: "observe f s = (Inl e, s') \<longleftrightarrow> False"
  by (simp add: observe_def gets_def)

lemma modify_Inl [run_failure]: "modify f s = (Inl e, s') \<longleftrightarrow> False"
  by (simp add: modify_def)

lemma lift_Inl [run_failure]: "lift r s = (Inl e, s') \<longleftrightarrow> r = Inl e \<and> s' = s"
  by (auto simp: lift_def)

lemma check_Inl [run_failure]: "check b x s = (Inl e, s') \<longleftrightarrow> b \<and> x = e \<and> s' = s"
  by (auto simp: check_def raise_def ret_def)

lemma bind_Inl [run_failure]:
  "bind m f s = (Inl e, s') \<longleftrightarrow>
     m s = (Inl e, s') \<or> (\<exists>x s1. m s = (Inr x, s1) \<and> f x s1 = (Inl e, s'))"
  by (cases "m s", cases "fst (m s)") (auto simp: bind_def)

lemma seq_Inl [run_failure]:
  "seq m k s = (Inl e, s') \<longleftrightarrow>
     m s = (Inl e, s') \<or> (\<exists>s1. m s = (Inr (), s1) \<and> k s1 = (Inl e, s'))"
  by (simp add: seq_def bind_Inl)

lemma try_except_Inl [run_failure]:
  "try_except m h s = (Inl e, s') \<longleftrightarrow> (\<exists>e1 s1. m s = (Inl e1, s1) \<and> h e1 s1 = (Inl e, s'))"
  by (cases "m s", cases "fst (m s)") (auto simp: try_except_def)

lemma try_finally_Inl [run_failure]:
  "try_finally m f s = (Inl e, s') \<longleftrightarrow>
     (\<exists>r s1. m s = (r, s1) \<and> f (case r of Inl x \<Rightarrow> True | Inr y \<Rightarrow> False) s1 = (Inl e, s')) \<or>
     (\<exists>s1. m s = (Inl e, s1) \<and> f True s1 = (Inr (), s'))"
  by (cases "m s", cases "fst (m s)") (auto simp: try_finally_def split: prod.splits sum.splits)

lemma outcome_of_Inl [run_failure]: "outcome_of m s = (Inl e, s') \<longleftrightarrow> False"
  by (simp add: outcome_of_def split: prod.split)

lemma act_text_Inl [run_failure]:
  "act_text env a s = (Inl e, s') \<longleftrightarrow> (\<exists>w. answer_text env a (world s) = (Inl e, w) \<and>
     s' = record_event (a, Failed e) (s\<lparr>world := w\<rparr>))"
  by (auto simp: act_text_def act_def split: prod.split sum.split)

lemma act_num_Inl [run_failure]:
  "act_num env a s = (Inl e, s') \<longleftrightarrow> (\<exists>w. answer_num env a (world s) = (Inl e, w) \<and>
     s' = record_event (a, Failed e) (s\<lparr>world := w\<rparr>))"
  by (auto simp: act_num_def act_def split: prod.split sum.split)

lemma act_unit_Inl [run_failure]:
  "act_unit env a s = (Inl e, s') \<longleftrightarrow> act_text env a s = (Inl e, s')"
  by (simp add: act_unit_def bind_Inl ret_Inl)

end
