(* ===== verification/SecureFile.thy ===== *)
theory SecureFile
  imports World
begin

text \<open>
  \<^verbatim>\<open>src/secure_file.py\<close>: opening a local file that influences security.  The file must be a
  regular file, not reached through a symbolic link, owned by root or the effective user and not
  writable by others; a descriptor that fails a check is closed again.
\<close>

definition ELOOP :: int where "ELOOP = 40"

definition S_IWGRP :: nat where "S_IWGRP = 16"

definition S_IWOTH :: nat where "S_IWOTH = 2"

text \<open>\<^verbatim>\<open>mode & bit\<close> for a single permission bit given by its value.\<close>

definition has_bit :: "nat \<Rightarrow> nat \<Rightarrow> bool" where
  "has_bit mode b = odd (mode div b)"

definition file_error :: "string \<Rightarrow> string \<Rightarrow> string \<Rightarrow> bool \<Rightarrow> exn" where
  "file_error source_name condition path disclose_path =
     new_exn SecureFileError
       (source_name @ '' '' @ condition @ (if disclose_path then '': '' @ path else []))"

definition raise_file_error :: "string \<Rightarrow> string \<Rightarrow> string \<Rightarrow> bool \<Rightarrow> ('w, 'a) io" where
  "raise_file_error source_name condition path disclose_path =
     raise (file_error source_name condition path disclose_path)"

definition raise_open_error :: "string \<Rightarrow> string \<Rightarrow> bool \<Rightarrow> exn \<Rightarrow> ('w, 'a) io" where
  "raise_open_error source_name path disclose_path error =
     (if \<not> disclose_path then raise_file_error source_name ''could not be read'' path False
      else if isinstance error FileNotFoundError then raise_file_error source_name ''not found'' path True
      else raise_file_error source_name ''cannot be read'' path True)"

definition check_opened_metadata ::
  "'w env \<Rightarrow> file_status \<Rightarrow> string \<Rightarrow> string \<Rightarrow> bool \<Rightarrow> ('w, unit) io" where
  "check_opened_metadata env status source_name path disclose_path =
     (if st_kind status \<noteq> RegularFile then
        raise_file_error source_name ''is not a regular file'' path disclose_path
      else if st_uid status \<notin> {0, effective_uid env} then
        raise_file_error source_name ''has an untrusted owner'' path disclose_path
      else if has_bit (st_perm status) S_IWGRP then
        raise_file_error source_name ''is group-writable'' path disclose_path
      else if has_bit (st_perm status) S_IWOTH then
        raise_file_error source_name ''is world-writable'' path disclose_path
      else ret ())"

definition lstat_for_fallback :: "'w env \<Rightarrow> string \<Rightarrow> string \<Rightarrow> bool \<Rightarrow> ('w, file_status) io" where
  "lstat_for_fallback env path source_name disclose_path =
     bind (try_except (act_status env (OsLstat path))
       (\<lambda>e. if isinstance e OSError then raise_open_error source_name path disclose_path e
             else raise e)) (\<lambda>status.
       if st_kind status = SymbolicLink then
         raise_file_error source_name ''is a symbolic link'' path disclose_path
       else if st_kind status \<noteq> RegularFile then
         raise_file_error source_name ''is not a regular file'' path disclose_path
       else ret status)"

definition raise_classified_open_error ::
  "'w env \<Rightarrow> string \<Rightarrow> string \<Rightarrow> bool \<Rightarrow> exn \<Rightarrow> ('w, 'a) io" where
  "raise_classified_open_error env path source_name disclose_path error =
     bind (try_except (act_status env (OsLstat path))
       (\<lambda>e. if isinstance e OSError then raise_open_error source_name path disclose_path error
             else raise e)) (\<lambda>status.
       if st_kind status = SymbolicLink then
         raise_file_error source_name ''is a symbolic link'' path disclose_path
       else if st_kind status \<noteq> RegularFile then
         raise_file_error source_name ''is not a regular file'' path disclose_path
       else raise_open_error source_name path disclose_path error)"

definition same_file :: "file_status \<Rightarrow> file_status \<Rightarrow> bool" where
  "same_file a b = (st_dev a = st_dev b \<and> st_ino a = st_ino b)"

text \<open>The comparison with the \<^verbatim>\<open>lstat\<close> taken before opening, where there is one.\<close>

definition check_unchanged ::
  "'w env \<Rightarrow> file_status option \<Rightarrow> file_status \<Rightarrow> string \<Rightarrow> string \<Rightarrow> bool \<Rightarrow> ('w, unit) io" where
  "check_unchanged env before_open opened path source_name disclose_path =
     (case before_open of
        None \<Rightarrow> ret ()
      | Some expected \<Rightarrow>
          bind (on_os_error (file_error source_name ''changed while being opened'' path disclose_path)
              (act_status env (OsLstat path))) (\<lambda>after_open.
            if st_kind after_open = SymbolicLink \<or> \<not> same_file after_open expected \<or>
                \<not> same_file opened expected then
              raise_file_error source_name ''changed while being opened'' path disclose_path
            else ret ()))"

definition open_flags :: "'w env \<Rightarrow> string list" where
  "open_flags env = [''O_RDONLY'', ''O_CLOEXEC'', ''O_NONBLOCK''] @
     (if has_nofollow env then [''O_NOFOLLOW''] else [])"

text \<open>The checks of an open descriptor; the result is the file object, named by its descriptor.\<close>

definition inspect_descriptor ::
  "'w env \<Rightarrow> file_status option \<Rightarrow> int \<Rightarrow> string \<Rightarrow> string \<Rightarrow> bool \<Rightarrow> ('w, int) io" where
  "inspect_descriptor env before_open fd path source_name disclose_path =
     bind (on_os_error (file_error source_name ''cannot be inspected safely'' path disclose_path)
         (act_status env (OsFstat fd))) (\<lambda>opened.
       if st_kind opened \<noteq> RegularFile then
         raise_file_error source_name ''is not a regular file'' path disclose_path
       else
         seq (check_unchanged env before_open opened path source_name disclose_path)
         (seq (check_opened_metadata env opened source_name path disclose_path)
           (bind (on_os_error (file_error source_name ''cannot be read'' path disclose_path)
             (act_unit env (OsFdopen fd))) (\<lambda>_. ret fd))))"

definition status_before_open :: "'w env \<Rightarrow> string \<Rightarrow> string \<Rightarrow> bool \<Rightarrow> ('w, file_status option) io" where
  "status_before_open env path source_name disclose_path =
     (if has_nofollow env then ret None
      else bind (lstat_for_fallback env path source_name disclose_path) (\<lambda>status. ret (Some status)))"

definition handle_open_error :: "'w env \<Rightarrow> string \<Rightarrow> string \<Rightarrow> bool \<Rightarrow> exn \<Rightarrow> ('w, 'a) io" where
  "handle_open_error env path source_name disclose_path error =
     (if isinstance error OSError then
        (if has_nofollow env \<and> exn_errno error = Some ELOOP then
           raise_file_error source_name ''is a symbolic link'' path disclose_path
         else raise_classified_open_error env path source_name disclose_path error)
      else raise error)"

definition open_secure_file :: "'w env \<Rightarrow> string \<Rightarrow> string \<Rightarrow> bool \<Rightarrow> ('w, int) io" where
  "open_secure_file env path source_name disclose_path =
     bind (status_before_open env path source_name disclose_path) (\<lambda>before_open.
     bind (try_except (act_num env (OsOpen path (open_flags env)))
         (handle_open_error env path source_name disclose_path)) (\<lambda>fd.
       try_except (inspect_descriptor env before_open fd path source_name disclose_path)
         (\<lambda>error. seq (act_unit env (OsClose fd)) (raise error))))"

text \<open>\<^verbatim>\<open>with open_secure_file(...) as file:\<close> around reading at most \<open>limit\<close> bytes.\<close>

definition read_secure_file :: "'w env \<Rightarrow> string \<Rightarrow> string \<Rightarrow> bool \<Rightarrow> nat \<Rightarrow> ('w, string) io" where
  "read_secure_file env path source_name disclose_path limit =
     bind (open_secure_file env path source_name disclose_path) (\<lambda>fd.
       try_finally (act_text env (ReadFile fd limit)) (\<lambda>failed. act_unit env (OsClose fd)))"

section \<open>Trusted files only\<close>

definition trusted_status :: "'w env \<Rightarrow> file_status \<Rightarrow> bool" where
  "trusted_status env status = (st_kind status = RegularFile \<and>
     (st_uid status = 0 \<or> st_uid status = effective_uid env) \<and>
     \<not> has_bit (st_perm status) S_IWGRP \<and> \<not> has_bit (st_perm status) S_IWOTH)"

text \<open>Descriptors opened and closed by a list of events.\<close>

definition opened_fds :: "event list \<Rightarrow> int list" where
  "opened_fds evs = concat (map (\<lambda>ev. case ev of
     (OsOpen p fl, Number fd) \<Rightarrow> [fd] | (OsOpenAt d p fl m, Number fd) \<Rightarrow> [fd] | _ \<Rightarrow> []) evs)"

definition closed_fds :: "event list \<Rightarrow> int list" where
  "closed_fds evs = concat (map (\<lambda>ev. case ev of (OsClose fd, _) \<Rightarrow> [fd] | _ \<Rightarrow> []) evs)"

lemma fds_simps [simp]:
  "opened_fds [] = []" "closed_fds [] = []"
  "opened_fds (xs @ ys) = opened_fds xs @ opened_fds ys"
  "closed_fds (xs @ ys) = closed_fds xs @ closed_fds ys"
  by (simp_all add: opened_fds_def closed_fds_def)

text \<open>Actions that neither open nor close a descriptor.\<close>

fun keeps_fds :: "action \<Rightarrow> bool" where
  "keeps_fds (OsOpen p fl) = False"
| "keeps_fds (OsOpenAt d p fl m) = False"
| "keeps_fds (OsClose fd) = False"
| "keeps_fds _ = True"

text \<open>\<open>balance s s' open closed\<close>: since \<open>s\<close> exactly these descriptors were opened and closed.\<close>

definition new_events :: "'w st \<Rightarrow> 'w st \<Rightarrow> event list" where
  "new_events s s' = drop (length (trace s)) (trace s')"

definition balance :: "'w st \<Rightarrow> int list \<Rightarrow> int list \<Rightarrow> 'w st \<Rightarrow> bool" where
  "balance s opened closed s' = (\<exists>evs. trace s' = trace s @ evs \<and>
     opened_fds evs = opened \<and> closed_fds evs = closed)"

lemma balance_refl [simp]: "balance s [] [] s"
  by (simp add: balance_def)

lemma balance_world [simp]: "balance s op cl (t\<lparr>world := w\<rparr>) = balance s op cl t"
  by (simp add: balance_def)

lemma balance_quiet: "keeps_fds a \<Longrightarrow> balance s op cl t \<Longrightarrow> balance s op cl (record_event (a, r) t)"
  by (cases a) (auto simp: balance_def opened_fds_def closed_fds_def)

lemma balance_closed: "closed_under keeps_fds (balance s op cl)"
  by (simp add: closed_under_def balance_quiet)

lemma balance_open:
  "balance s op cl t \<Longrightarrow> balance s (op @ [fd]) cl (record_event (OsOpen p fl, Number fd) t)"
  "balance s op cl t \<Longrightarrow> balance s (op @ [fd]) cl (record_event (OsOpenAt d p fl m, Number fd) t)"
  "balance s op cl t \<Longrightarrow> balance s op cl (record_event (OsOpen p fl, Failed e) t)"
  "balance s op cl t \<Longrightarrow> balance s op cl (record_event (OsOpenAt d p fl m, Failed e) t)"
  "balance s op cl t \<Longrightarrow> balance s op (cl @ [fd]) (record_event (OsClose fd, r) t)"
  by (auto simp: balance_def opened_fds_def closed_fds_def)

lemmas balance_actions = keeps_actions [OF balance_closed] keeps_print [OF balance_closed]

lemma keeps_balance_inspect:
  "keeps (balance s op cl) (inspect_descriptor env before fd path src disc)"
  unfolding inspect_descriptor_def check_unchanged_def check_opened_metadata_def raise_file_error_def
  by (intro keeps_intros balance_actions) simp_all

lemma keeps_balance_classified:
  "keeps (balance s op cl) (raise_classified_open_error env path src disc e)"
  "keeps (balance s op cl) (raise_file_error src c path disc)"
  "keeps (balance s op cl) (lstat_for_fallback env path src disc)"
  unfolding raise_classified_open_error_def raise_file_error_def raise_open_error_def
    lstat_for_fallback_def
  by (intro keeps_intros balance_actions; simp)+

lemma never_returns [simp]:
  "raise_file_error src c path disc s \<noteq> (Inr x, s')"
  "raise_open_error src path disc e s \<noteq> (Inr x, s')"
  "raise_classified_open_error env path src disc e s \<noteq> (Inr x, s')"
  by (auto simp: raise_file_error_def raise_open_error_def raise_classified_open_error_def
      run_success try_except_Inr split: if_splits)

lemma inspect_descriptor_trusted:
  assumes "inspect_descriptor env before fd path src disc s = (Inr x, s')"
  shows "x = fd \<and> (\<exists>status. (OsFstat fd, Status status) \<in> set (trace s') \<and> trusted_status env status)"
  using assms
  by (auto simp: inspect_descriptor_def check_unchanged_def check_opened_metadata_def
      raise_file_error_def run_success trusted_status_def split: if_splits option.splits)

lemma keeps_balance_before: "keeps (balance s op cl) (status_before_open env path src disc)"
  unfolding status_before_open_def by (intro keeps_intros keeps_balance_classified)

lemma keeps_balance_handle: "keeps (balance s op cl) (handle_open_error env path src disc e)"
  unfolding handle_open_error_def by (intro keeps_intros keeps_balance_classified)

lemma handle_open_error_raises [simp]: "handle_open_error env path src disc e s \<noteq> (Inr x, s')"
  by (simp add: handle_open_error_def raise_def)

lemma open_secure_file_success:
  assumes "open_secure_file env path src disc s = (Inr fd, s')"
  shows "balance s [fd] [] s' \<and>
    (\<exists>status. (OsFstat fd, Status status) \<in> set (trace s') \<and> trusted_status env status)"
proof -
  from assms obtain before s0 fd0 s1 where
      first: "status_before_open env path src disc s = (Inr before, s0)"
    and op: "act_num env (OsOpen path (open_flags env)) s0 = (Inr fd0, s1)"
    and ins: "inspect_descriptor env before fd0 path src disc s1 = (Inr fd, s')"
    by (auto simp: open_secure_file_def bind_Inr try_except_Inr seq_Inr raise_Inr)
  from keepsD [OF keeps_balance_before balance_refl first] op have "balance s [fd0] [] s1"
    using balance_open(1) [of s "[]" "[]"] by (auto simp: act_num_Inr)
  from keepsD [OF keeps_balance_inspect this ins] inspect_descriptor_trusted [OF ins]
  show ?thesis by simp
qed

lemma open_secure_file_failure:
  assumes "open_secure_file env path src disc s = (Inl e, s')"
  shows "\<exists>fds. balance s fds fds s'"
proof -
  from assms consider (stat) "status_before_open env path src disc s = (Inl e, s')"
    | (notopen) before s0 e1 s1 where "status_before_open env path src disc s = (Inr before, s0)"
        "act_num env (OsOpen path (open_flags env)) s0 = (Inl e1, s1)"
        "handle_open_error env path src disc e1 s1 = (Inl e :: int res, s')"
    | (unsafe) before s0 fd s1 e1 s2 where "status_before_open env path src disc s = (Inr before, s0)"
        "act_num env (OsOpen path (open_flags env)) s0 = (Inr fd, s1)"
        "inspect_descriptor env before fd path src disc s1 = (Inl e1, s2)"
        "seq (act_unit env (OsClose fd)) (raise e1) s2 = (Inl e :: int res, s')"
    unfolding open_secure_file_def bind_Inl try_except_Inl try_except_Inr by auto
  then show ?thesis
  proof cases
    case stat
    from keepsD [OF keeps_balance_before balance_refl this] show ?thesis by blast
  next
    case notopen
    from keepsD [OF keeps_balance_before balance_refl notopen(1)] notopen(2) have b: "balance s [] [] s1"
      by (auto simp: act_num_Inl balance_open)
    from keepsD [OF keeps_balance_handle this notopen(3)] show ?thesis by blast
  next
    case unsafe
    from keepsD [OF keeps_balance_before balance_refl unsafe(1)] unsafe(2) have "balance s [fd] [] s1"
      using balance_open(1) [of s "[]" "[]"] by (auto simp: act_num_Inr)
    from keepsD [OF keeps_balance_inspect this unsafe(3)] unsafe(4) have "balance s [fd] [fd] s'"
      using balance_open(5) [of s "[fd]" "[]"] by (auto simp: run_success run_failure)
    then show ?thesis by blast
  qed
qed

text \<open>
  C16.  Opening a security-sensitive file returns a descriptor only after that very descriptor was
  inspected and is a regular file of a trusted owner that no one else can write; it is then the
  only descriptor opened and none was closed.  Whenever opening fails, whatever failed, every
  descriptor it opened is closed again exactly once.
\<close>

theorem open_secure_file_safe:
  "case open_secure_file env path source_name disclose_path s of
     (Inr fd, s') \<Rightarrow> balance s [fd] [] s' \<and>
       (\<exists>status. (OsFstat fd, Status status) \<in> set (trace s') \<and> trusted_status env status)
   | (Inl e, s') \<Rightarrow> \<exists>fds. balance s fds fds s'"
  using open_secure_file_success open_secure_file_failure
  by (cases "open_secure_file env path source_name disclose_path s",
      cases "fst (open_secure_file env path source_name disclose_path s)") fastforce+

end
