(* ===== verification/SshSession.thy ===== *)
theory SshSession
  imports SecureFile
begin

text \<open>
  The SSH session of \<^verbatim>\<open>src/aruba_cert_renewer.py\<close>: the private copy of the known-hosts file
  (\<^verbatim>\<open>snapshot_known_hosts\<close>), the connection around the body of a \<^verbatim>\<open>with\<close> statement
  (\<^verbatim>\<open>ssh_connection\<close>), and the commands, each under a read budget (\<^verbatim>\<open>_ssh_read_budget\<close>).
\<close>

definition MAX_KNOWN_HOSTS_FILE_BYTES :: nat where
  "MAX_KNOWN_HOSTS_FILE_BYTES = 256 * 1024"

definition FRAMING_BYTES :: nat where "FRAMING_BYTES = 4 * 1024"

definition CONFIG_READ_BYTES :: nat where "CONFIG_READ_BYTES = 4 * 1024"

text \<open>The bytes one operation may read: the output, the echo of the command, the prompt, framing.\<close>

definition read_budget :: "string \<Rightarrow> nat \<Rightarrow> string \<Rightarrow> nat \<Rightarrow> nat" where
  "read_budget prompt semantic_limit command extra_echo_bytes =
     semantic_limit + utf8_len command + utf8_len prompt + FRAMING_BYTES + extra_echo_bytes"

definition send_command :: "'w env \<Rightarrow> string \<Rightarrow> nat \<Rightarrow> ('w, string) io" where
  "send_command env command limit =
     bind (observe (base_prompt env)) (\<lambda>prompt.
       act_text env (SendCommand command (read_budget prompt limit command 0)))"

definition send_command_timing :: "'w env \<Rightarrow> string \<Rightarrow> nat \<Rightarrow> ('w, string) io" where
  "send_command_timing env command limit =
     bind (observe (base_prompt env)) (\<lambda>prompt.
       act_text env (SendCommandTiming command (read_budget prompt limit command 0)))"

definition config_mode :: "'w env \<Rightarrow> ('w, unit) io" where
  "config_mode env =
     bind (observe (base_prompt env)) (\<lambda>prompt.
       act_unit env (EnterConfigMode (read_budget prompt CONFIG_READ_BYTES ''configure terminal'' 0)))"

definition exit_config_mode :: "'w env \<Rightarrow> ('w, unit) io" where
  "exit_config_mode env =
     bind (observe (base_prompt env)) (\<lambda>prompt.
       act_unit env (ExitConfigMode (read_budget prompt CONFIG_READ_BYTES ''end'' 0)))"

text \<open>The PEM text and a newline are written, then the answer is read.\<close>

definition send_certificate_pem :: "'w env \<Rightarrow> string \<Rightarrow> ('w, string) io" where
  "send_certificate_pem env certificate_pem =
     bind (observe (base_prompt env)) (\<lambda>prompt.
       act_text env (SendPem certificate_pem
         (read_budget prompt MAX_INSTALL_PROMPT_OUTPUT_BYTES '''' (utf8_len certificate_pem + 1))))"

definition connection_poisoned :: "'w env \<Rightarrow> ('w, bool) io" where
  "connection_poisoned env = observe (channel_poisoned env)"

definition snapshot_failed :: exn where
  "snapshot_failed = new_exn ValueError ''SSH known_hosts snapshot could not be removed''"

text \<open>The temporary directory, its file, the body, and the removal of the directory.\<close>

definition with_snapshot_directory :: "'w env \<Rightarrow> string \<Rightarrow> ('w, 'a) io \<Rightarrow> ('w, 'a) io" where
  "with_snapshot_directory env contents body =
     bind (act_text env MakeTempDirectory) (\<lambda>directory.
       try_finally
         (bind (act_status env (OsStat directory)) (\<lambda>status.
            seq (check (st_perm status \<noteq> 448)
                  (new_exn OSError ''temporary directory permissions are unsafe''))
            (seq (act_unit env (WriteNewFile (directory @ ''/known_hosts'') contents)) body)))
         (\<lambda>primary_error.
            try_except (act_unit env (RemoveTree directory))
              (\<lambda>e. if isinstance e OSError then check (\<not> primary_error) snapshot_failed
                    else raise e)))"

definition read_known_hosts :: "'w env \<Rightarrow> switch \<Rightarrow> ('w, string) io" where
  "read_known_hosts env sw =
     (case sw_known_hosts_file sw of
        None \<Rightarrow> raise (new_exn ValueError
          ''SSH known_hosts configuration was not validated for this switch'')
      | Some known_hosts_file \<Rightarrow>
          bind (on_os_error (new_exn ValueError
              (''ssh.known_hosts_file cannot be read: '' @ known_hosts_file))
            (read_secure_file env known_hosts_file ''ssh.known_hosts_file'' True
               (MAX_KNOWN_HOSTS_FILE_BYTES + 1))) (\<lambda>contents.
            seq (check (MAX_KNOWN_HOSTS_FILE_BYTES < length contents)
                  (new_exn ValueError (''ssh.known_hosts_file exceeds '' @
                    str_nat MAX_KNOWN_HOSTS_FILE_BYTES @ '' bytes: '' @ known_hosts_file)))
              (ret contents)))"

definition snapshot_known_hosts :: "'w env \<Rightarrow> switch \<Rightarrow> ('w, 'a) io \<Rightarrow> ('w, 'a) io" where
  "snapshot_known_hosts env sw body =
     bind (read_known_hosts env sw) (\<lambda>contents. with_snapshot_directory env contents body)"

definition ssh_connection :: "'w env \<Rightarrow> switch \<Rightarrow> ('w, 'a) io \<Rightarrow> ('w, 'a) io" where
  "ssh_connection env sw body =
     snapshot_known_hosts env sw
       (seq (act_unit env (Connect (sw_host sw)))
         (try_finally body (\<lambda>failed. act_unit env Disconnect)))"

section \<open>Which actions a session performs\<close>

text \<open>Actions on the host that a session needs around its body.\<close>

fun session_action :: "action \<Rightarrow> bool" where
  "session_action (OsOpen p fl) = True"
| "session_action (OsFstat fd) = True"
| "session_action (OsLstat p) = True"
| "session_action (OsFdopen fd) = True"
| "session_action (OsClose fd) = True"
| "session_action (ReadFile fd n) = True"
| "session_action MakeTempDirectory = True"
| "session_action (OsStat p) = True"
| "session_action (WriteNewFile p t) = True"
| "session_action (RemoveTree p) = True"
| "session_action (Connect h) = True"
| "session_action Disconnect = True"
| "session_action _ = False"

lemma closed_under_weaken: "closed_under P J \<Longrightarrow> (\<And>a. Q a \<Longrightarrow> P a) \<Longrightarrow> closed_under Q J"
  by (simp add: closed_under_def)

lemma keeps_open_secure_file:
  assumes "closed_under session_action J"
  shows "keeps J (open_secure_file env path src disc)"
  unfolding open_secure_file_def status_before_open_def handle_open_error_def lstat_for_fallback_def
    raise_classified_open_error_def raise_open_error_def raise_file_error_def inspect_descriptor_def
    check_unchanged_def check_opened_metadata_def
  by (intro keeps_intros keeps_actions [OF assms]) simp_all

lemma keeps_read_secure_file:
  assumes "closed_under session_action J"
  shows "keeps J (read_secure_file env path src disc n)"
  unfolding read_secure_file_def
  by (intro keeps_intros keeps_open_secure_file keeps_actions [OF assms] assms) simp_all

lemma keeps_ssh_connection:
  assumes "closed_under session_action J" and "keeps J body"
  shows "keeps J (ssh_connection env sw body)"
  unfolding ssh_connection_def snapshot_known_hosts_def with_snapshot_directory_def read_known_hosts_def
  by (intro keeps_intros keeps_read_secure_file keeps_actions [OF assms(1)] assms) simp_all

text \<open>A session succeeds only through its body.\<close>

lemma ssh_connection_Inr:
  assumes "ssh_connection env sw body s = (Inr x, s')"
  shows "\<exists>s1 s2. body s1 = (Inr x, s2)"
  using assms
  by (auto simp: ssh_connection_def snapshot_known_hosts_def with_snapshot_directory_def run_success)

end
