(* ===== verification/Triples.thy ===== *)
theory Triples
  imports SshSession
begin

text \<open>
  Pre- and postconditions of effectful computations, with a postcondition for every exception, and
  the rules for the program's connectives, up to the SSH session with its closing.
\<close>

section \<open>Rules\<close>

text \<open>
  From a state in \<open>A\<close>, a result \<open>x\<close> leaves a state in \<open>B x\<close> and an exception \<open>e\<close> one in \<open>X e\<close>.
\<close>

definition triple ::
  "('s \<Rightarrow> bool) \<Rightarrow> ('s, 'a) eff \<Rightarrow> ('a \<Rightarrow> 's \<Rightarrow> bool) \<Rightarrow> (exn \<Rightarrow> 's \<Rightarrow> bool) \<Rightarrow> bool" where
  "triple A m B X = (\<forall>s. A s \<longrightarrow> post m s (\<lambda>r s'. case r of Inl e \<Rightarrow> X e s' | Inr x \<Rightarrow> B x s'))"

lemma tripleI:
  "(\<And>s r s'. A s \<Longrightarrow> m s = (r, s') \<Longrightarrow> case r of Inl e \<Rightarrow> X e s' | Inr x \<Rightarrow> B x s') \<Longrightarrow> triple A m B X"
  by (simp add: triple_def postI)

lemma tripleD:
  "triple A m B X \<Longrightarrow> A s \<Longrightarrow> m s = (r, s') \<Longrightarrow> case r of Inl e \<Rightarrow> X e s' | Inr x \<Rightarrow> B x s'"
  by (auto simp: triple_def post_def dest: spec [where x = s])

lemma triple_bind:
  assumes "triple A m B X" and "\<And>x. triple (B x) (f x) C X"
  shows "triple A (bind m f) C X"
proof (rule tripleI)
  fix s r s'
  assume "A s" and run: "bind m f s = (r, s')"
  obtain r1 s1 where one: "m s = (r1, s1)" by (cases "m s")
  from tripleD [OF assms(1) \<open>A s\<close> one] have p: "case r1 of Inl e \<Rightarrow> X e s1 | Inr x \<Rightarrow> B x s1" .
  show "case r of Inl e \<Rightarrow> X e s' | Inr x \<Rightarrow> C x s'"
  proof (cases r1)
    case (Inl e)
    with run one p show ?thesis by (auto simp: bind_def)
  next
    case (Inr x)
    with run one have "f x s1 = (r, s')" by (simp add: bind_def)
    with tripleD [OF assms(2), of x s1 r s'] p Inr show ?thesis by simp
  qed
qed

lemma triple_seq: "triple A m (\<lambda>_. B) X \<Longrightarrow> triple B k C X \<Longrightarrow> triple A (seq m k) C X"
  unfolding seq_def by (rule triple_bind)

lemma triple_weaken:
  "triple A m B X \<Longrightarrow> (\<And>s. A' s \<Longrightarrow> A s) \<Longrightarrow> (\<And>x s. B x s \<Longrightarrow> B' x s) \<Longrightarrow>
     (\<And>e s. X e s \<Longrightarrow> X' e s) \<Longrightarrow> triple A' m B' X'"
  unfolding triple_def by (fastforce elim!: post_mono split: sum.splits)

lemma triple_modify: "(\<And>s. A s \<Longrightarrow> B () (f s)) \<Longrightarrow> triple A (modify f) B X"
  by (simp add: triple_def effect_simps)

lemma triple_keeps: "keeps A m \<Longrightarrow> (\<And>e s. A s \<Longrightarrow> X e s) \<Longrightarrow> triple A m (\<lambda>_. A) X"
  by (rule tripleI) (auto dest: keepsD split: sum.split)

lemma triple_try_finally:
  assumes "triple A m B X" and "\<And>x. triple (B x) (f False) (\<lambda>_. C x) Y"
    and "\<And>e. triple (X e) (f True) (\<lambda>_. Y e) Y"
  shows "triple A (try_finally m f) C Y"
proof (rule tripleI)
  fix s r s'
  assume "A s" and run: "try_finally m f s = (r, s')"
  obtain r1 s1 where one: "m s = (r1, s1)" by (cases "m s")
  from tripleD [OF assms(1) \<open>A s\<close> one] have p: "case r1 of Inl e \<Rightarrow> X e s1 | Inr x \<Rightarrow> B x s1" .
  show "case r of Inl e \<Rightarrow> Y e s' | Inr x \<Rightarrow> C x s'"
  proof (cases r1)
    case (Inl e)
    obtain r2 s2 where two: "f True s1 = (r2, s2)" by (cases "f True s1")
    from tripleD [OF assms(3) _ two, of e] p Inl run one two show ?thesis
      by (auto simp: try_finally_def split: sum.splits)
  next
    case (Inr x)
    obtain r2 s2 where two: "f False s1 = (r2, s2)" by (cases "f False s1")
    from tripleD [OF assms(2) _ two, of x] p Inr run one two show ?thesis
      by (auto simp: try_finally_def split: sum.splits)
  qed
qed

lemma triple_try_except:
  assumes "triple A m B X" and "\<And>e. triple (X e) (h e) B Y"
  shows "triple A (try_except m h) B Y"
proof (rule tripleI)
  fix s r s'
  assume "A s" and run: "try_except m h s = (r, s')"
  obtain r1 s1 where one: "m s = (r1, s1)" by (cases "m s")
  from tripleD [OF assms(1) \<open>A s\<close> one] have p: "case r1 of Inl e \<Rightarrow> X e s1 | Inr x \<Rightarrow> B x s1" .
  show "case r of Inl e \<Rightarrow> Y e s' | Inr x \<Rightarrow> B x s'"
  proof (cases r1)
    case (Inr x)
    with run one p show ?thesis by (auto simp: try_except_def)
  next
    case (Inl e)
    with run one have "h e s1 = (r, s')" by (simp add: try_except_def)
    with tripleD [OF assms(2), of e s1 r s'] p Inl show ?thesis by simp
  qed
qed

lemma triple_bind_keeps:
  "keeps A m \<Longrightarrow> (\<And>e s. A s \<Longrightarrow> X e s) \<Longrightarrow> (\<And>x. triple A (f x) C X) \<Longrightarrow> triple A (bind m f) C X"
  by (rule triple_bind [OF triple_keeps])

lemma triple_seq_keeps:
  "keeps A m \<Longrightarrow> (\<And>e s. A s \<Longrightarrow> X e s) \<Longrightarrow> triple A k C X \<Longrightarrow> triple A (seq m k) C X"
  by (rule triple_seq [OF triple_keeps])

lemma triple_outcome_of:
  "triple A m B X \<Longrightarrow> triple A (outcome_of m) (\<lambda>r s. case r of Inl e \<Rightarrow> X e s | Inr x \<Rightarrow> B x s) Y"
  by (simp add: triple_def post_outcome_of)

lemma triple_raises:
  assumes "keeps A m" and "\<And>s x s'. m s \<noteq> (Inr x, s')"
  shows "triple A m B (\<lambda>_. A)"
proof (rule tripleI)
  fix s r s'
  assume "A s" and "m s = (r, s')"
  with assms show "case r of Inl e \<Rightarrow> A s' | Inr x \<Rightarrow> B x s'"
    by (cases r) (auto dest: keepsD)
qed

lemma triple_raise: "(\<And>s. A s \<Longrightarrow> X e s) \<Longrightarrow> triple A (raise e) B X"
  by (simp add: triple_def effect_simps)

lemma triple_ret: "(\<And>s. A s \<Longrightarrow> B x s) \<Longrightarrow> triple A (ret x) B X"
  by (simp add: triple_def effect_simps)

lemma triple_if: "triple A m B X \<Longrightarrow> triple A k B X \<Longrightarrow> triple A (if b then m else k) B X"
  by simp

text \<open>
  A session around a body: opening can only fail with \<open>X\<close>; after the body, closing keeps the
  state predicates, and a failure of closing is an exception of any class.
\<close>

lemma triple_ssh_connection:
  assumes "closed_under session_action A" and "closed_under session_action B" and "closed_under session_action Y"
    and "triple A body (\<lambda>_. B) (\<lambda>_. Y)" and "\<And>s. A s \<Longrightarrow> Y s" and "\<And>s. B s \<Longrightarrow> Y s"
  shows "triple A (ssh_connection env sw body) (\<lambda>_. B) (\<lambda>_. Y)"
proof -
  have finish: "triple J (try_except (act_unit env (RemoveTree d))
      (\<lambda>e. if isinstance e OSError then check c snapshot_failed else raise e)) (\<lambda>_. J) (\<lambda>_. Y)"
    if "closed_under session_action J" "\<And>s. J s \<Longrightarrow> Y s" for J d c
    using that by (intro triple_keeps keeps_intros keeps_actions [OF that(1)]) auto
  have close: "triple J (act_unit env Disconnect) (\<lambda>_. J) (\<lambda>_. Y)"
    if "closed_under session_action J" "\<And>s. J s \<Longrightarrow> Y s" for J
    using that by (intro triple_keeps keeps_actions [OF that(1)]) auto
  have connected: "triple A (seq (act_unit env (Connect (sw_host sw)))
      (try_finally body (\<lambda>failed. act_unit env Disconnect))) (\<lambda>_. B) (\<lambda>_. Y)"
    using assms
    by (intro triple_seq_keeps triple_try_finally [OF assms(4)] close keeps_actions [OF assms(1)]) auto
  show ?thesis
    unfolding ssh_connection_def snapshot_known_hosts_def
  proof (rule triple_bind_keeps)
    show "keeps A (read_known_hosts env sw)"
      unfolding read_known_hosts_def
      by (intro keeps_intros keeps_read_secure_file keeps_actions [OF assms(1)] assms)
    show "triple A (with_snapshot_directory env contents (seq (act_unit env (Connect (sw_host sw)))
          (try_finally body (\<lambda>failed. act_unit env Disconnect)))) (\<lambda>_. B) (\<lambda>_. Y)" for contents
      unfolding with_snapshot_directory_def
      by (rule triple_bind_keeps, rule keeps_actions [OF assms(1)], simp, simp add: assms,
          rule triple_try_finally [where B = "\<lambda>_. B" and X = "\<lambda>_. Y"],
          intro triple_bind_keeps triple_seq_keeps connected keeps_actions [OF assms(1)] keeps_intros)
         (auto intro: finish assms)
  qed (rule assms(5))
qed

text \<open>Rules for handlers: the branch condition and the flag read are known in the branch.\<close>

lemma triple_cond:
  "(b \<Longrightarrow> triple A m B X) \<Longrightarrow> (\<not> b \<Longrightarrow> triple A k B X) \<Longrightarrow> triple A (if b then m else k) B X"
  by simp

lemma triple_gets: "(\<And>v. triple (\<lambda>s. A s \<and> f s = v) (k v) B X) \<Longrightarrow> triple A (bind (gets f) k) B X"
  by (simp add: triple_def effect_simps)

lemma triple_gets_any: "(\<And>v. triple A (k v) B X) \<Longrightarrow> triple A (bind (gets f) k) B X"
  by (simp add: triple_def effect_simps)

lemma triple_poisoned: "(\<And>v. triple A (k v) B X) \<Longrightarrow> triple A (bind (connection_poisoned env) k) B X"
  by (simp add: connection_poisoned_def observe_def triple_gets_any)

section \<open>Sessions that close quietly\<close>

text \<open>
  Closing the session must not raise an error of its own: \<^verbatim>\<open>disconnect\<close> does not fail, and
  \<^verbatim>\<open>shutil.rmtree\<close> fails with an \<^verbatim>\<open>OSError\<close> only.
\<close>

definition closes_quietly :: "'w env \<Rightarrow> bool" where
  "closes_quietly env =
     ((\<forall>w. \<not> isl (fst (answer_text env Disconnect w))) \<and>
      (\<forall>w d. case answer_text env (RemoveTree d) w of (Inl e, _) \<Rightarrow> isinstance e OSError | _ \<Rightarrow> True))"

lemma disconnect_quiet:
  assumes "closes_quietly env" and "closed_under session_action J"
  shows "triple J (act_unit env Disconnect) (\<lambda>_. J) (\<lambda>_ _. False)"
proof (rule tripleI)
  fix s r s'
  assume "J s" and run: "act_unit env Disconnect s = (r, s')"
  then have "J s'" by (rule keepsD [OF keeps_actions(4) [OF assms(2)], rotated]) simp
  moreover have "\<exists>x. r = Inr x"
    using assms(1) run
    by (cases "answer_text env Disconnect (world s)", cases r)
       (auto simp: act_unit_Inl act_text_Inl closes_quietly_def dest!: spec [of _ "world s"])
  ultimately show "case r of Inl e \<Rightarrow> False | Inr x \<Rightarrow> J s'" by auto
qed

lemma remove_quiet:
  assumes "closes_quietly env" and "closed_under session_action J"
  shows "triple J (act_unit env (RemoveTree d)) (\<lambda>_. J) (\<lambda>e s. J s \<and> isinstance e OSError)"
proof (rule tripleI)
  fix s r s'
  assume "J s" and run: "act_unit env (RemoveTree d) s = (r, s')"
  then have "J s'" by (rule keepsD [OF keeps_actions(4) [OF assms(2)], rotated]) simp
  moreover have "r = Inl e \<Longrightarrow> isinstance e OSError" for e
    using assms(1) run
    by (auto simp: act_unit_Inl act_text_Inl closes_quietly_def split: prod.splits sum.splits
        dest!: spec [of _ "world s"] spec [of _ d])
  ultimately show "case r of Inl e \<Rightarrow> J s' \<and> isinstance e OSError | Inr x \<Rightarrow> J s'"
    by (auto split: sum.split)
qed

text \<open>A session whose closing is quiet ends with the error of its body, or with one of its own.\<close>

lemma triple_quiet_session:
  assumes quiet: "closes_quietly env"
    and closed: "closed_under session_action A" "closed_under session_action B"
      "\<And>e. closed_under session_action (Y e)"
    and body: "triple A body (\<lambda>_. B) Y" and own: "\<And>e s. A s \<Longrightarrow> Y e s" "\<And>s. B s \<Longrightarrow> Y snapshot_failed s"
  shows "triple A (ssh_connection env sw body) (\<lambda>_. B) Y"
proof -
  have connected: "triple A (seq (act_unit env (Connect (sw_host sw)))
      (try_finally body (\<lambda>failed. act_unit env Disconnect))) (\<lambda>_. B) Y"
    by (intro triple_seq_keeps keeps_actions [OF closed(1)] triple_try_finally [OF body]
          triple_weaken [OF disconnect_quiet [OF quiet]])
       (auto intro: own closed)
  have remove: "triple J (try_except (act_unit env (RemoveTree d))
      (\<lambda>e. if isinstance e OSError then check b snapshot_failed else raise e)) (\<lambda>_. J) Z"
    if "closed_under session_action J" "\<And>s. J s \<Longrightarrow> b \<Longrightarrow> Z snapshot_failed s" for J b d Z
    by (rule triple_try_except [OF remove_quiet [OF quiet that(1)]])
       (auto simp: triple_def effect_simps post_check that(2))
  show ?thesis
    unfolding ssh_connection_def snapshot_known_hosts_def
  proof (rule triple_bind_keeps)
    show "keeps A (read_known_hosts env sw)"
      unfolding read_known_hosts_def
      by (intro keeps_intros keeps_read_secure_file keeps_actions [OF closed(1)] closed)
    show "triple A (with_snapshot_directory env contents (seq (act_unit env (Connect (sw_host sw)))
          (try_finally body (\<lambda>failed. act_unit env Disconnect)))) (\<lambda>_. B) Y" for contents
      unfolding with_snapshot_directory_def
      by (rule triple_bind_keeps, rule keeps_actions [OF closed(1)], simp, simp add: own,
          rule triple_try_finally [where B = "\<lambda>_. B" and X = Y],
          intro triple_bind_keeps triple_seq_keeps connected keeps_actions [OF closed(1)] keeps_intros)
         (auto intro: remove closed own)
  qed (rule own)
qed

end
