(* ===== verification/LifecycleLock.thy ===== *)
theory LifecycleLock
  imports SecureFile
begin

text \<open>
  \<^verbatim>\<open>src/lifecycle_lock.py\<close>: the advisory lock that makes operations on one switch exclusive on
  one host.  \<open>lifecycle_lock\<close> runs the body of the \<^verbatim>\<open>with\<close> statement only between a validated
  acquisition and the closing of both descriptors.
\<close>

definition LIFECYCLE_DIRECTORY :: string where
  "LIFECYCLE_DIRECTORY = ''/run/aruba-cert-renewer-lifecycle''"

definition EAGAIN :: int where "EAGAIN = 11"

definition lock_error :: "exc_class \<Rightarrow> string \<Rightarrow> exn" where
  "lock_error c t = new_exn c t"

definition lock_filename :: "'w env \<Rightarrow> string \<Rightarrow> string res" where
  "lock_filename env canonical_host =
     (if isascii canonical_host then Inr (sha256_hex env canonical_host @ ''.lock'')
      else Inl (new_exn UnicodeEncodeError ''ascii''))"

definition validate_directory :: "'w env \<Rightarrow> file_status \<Rightarrow> unit res" where
  "validate_directory env metadata =
     (if st_kind metadata \<noteq> Directory \<or> st_uid metadata \<notin> {0, effective_uid env} \<or>
         st_perm metadata mod 8 \<noteq> 0 \<or>
         (has_bit (st_perm metadata) S_IWGRP \<and> st_gid metadata \<noteq> effective_gid env)
      then Inl (lock_error LifecycleLockError ''Lifecycle lock directory has unsafe permissions'')
      else Inr ())"

definition validate_lock_file :: "'w env \<Rightarrow> file_status \<Rightarrow> unit res" where
  "validate_lock_file env metadata =
     (if st_kind metadata \<noteq> RegularFile \<or> st_nlink metadata \<noteq> 1 \<or> st_size metadata \<noteq> 0 \<or>
         st_uid metadata \<noteq> effective_uid env \<or> st_perm metadata mod 64 \<noteq> 0
      then Inl (lock_error LifecycleLockError ''Lifecycle lock file is unsafe'')
      else Inr ())"

definition directory_flags :: "string list" where
  "directory_flags = [''O_RDONLY'', ''O_DIRECTORY'', ''O_NOFOLLOW'', ''O_CLOEXEC'']"

definition lock_flags :: "string list" where
  "lock_flags = [''O_RDWR'', ''O_CREAT'', ''O_NOFOLLOW'', ''O_NONBLOCK'', ''O_CLOEXEC'']"

text \<open>The directory descriptor is validated, then the lock file is opened or created in it.\<close>

definition open_lock_file :: "'w env \<Rightarrow> string \<Rightarrow> int \<Rightarrow> ('w, string \<times> int) io" where
  "open_lock_file env canonical_host directory_fd =
     bind (act_status env (OsFstat directory_fd)) (\<lambda>metadata.
     seq (lift (validate_directory env metadata))
     (bind (lift (lock_filename env canonical_host)) (\<lambda>filename.
      bind (act_num env (OsOpenAt directory_fd filename lock_flags 384)) (\<lambda>lock_fd.
        ret (filename, lock_fd)))))"

text \<open>Validation, \<^verbatim>\<open>flock\<close>, and the checks repeated under the lock.\<close>

definition acquire_lock :: "'w env \<Rightarrow> int \<Rightarrow> string \<Rightarrow> int \<Rightarrow> ('w, unit) io" where
  "acquire_lock env directory_fd filename lock_fd =
     bind (act_status env (OsFstat lock_fd)) (\<lambda>metadata.
     seq (lift (validate_lock_file env metadata))
     (seq (try_except (act_unit env (Flock lock_fd))
        (\<lambda>error. if isinstance error OSError \<and> exn_errno error = Some EAGAIN then
                    raise (lock_error LifecycleLockBusy
                      ''Another lifecycle operation is already in progress for this switch'')
                  else raise error))
     (bind (act_status env (OsFstat lock_fd)) (\<lambda>metadata.
      seq (lift (validate_lock_file env metadata))
      (bind (act_status env (OsStatAt directory_fd filename)) (\<lambda>pathname.
        if \<not> same_file pathname metadata \<or> st_kind pathname \<noteq> RegularFile then
          raise (lock_error LifecycleLockError ''Lifecycle lock pathname changed during acquisition'')
        else ret ()))))))"

text \<open>
  The acquisition: the descriptors it opened, in the order they are to be closed, and how it
  ended (\<^verbatim>\<open>lock_fd\<close>, \<^verbatim>\<open>directory_fd\<close> and the pending exception of the code).
\<close>

definition try_acquire :: "'w env \<Rightarrow> string \<Rightarrow> ('w, int list \<times> unit res) io" where
  "try_acquire env canonical_host =
     bind (outcome_of (act_num env (OsOpen LIFECYCLE_DIRECTORY directory_flags))) (\<lambda>r.
       case r of
         Inl e \<Rightarrow> ret ([], Inl e)
       | Inr directory_fd \<Rightarrow>
           bind (outcome_of (open_lock_file env canonical_host directory_fd)) (\<lambda>r.
             case r of
               Inl e \<Rightarrow> ret ([directory_fd], Inl e)
             | Inr (filename, lock_fd) \<Rightarrow>
                 bind (outcome_of (acquire_lock env directory_fd filename lock_fd)) (\<lambda>r.
                   ret ([lock_fd, directory_fd], r))))"

text \<open>Closing: every descriptor in turn; the first \<^verbatim>\<open>OSError\<close> is remembered.\<close>

fun close_descriptors :: "'w env \<Rightarrow> int list \<Rightarrow> ('w, exn option) io" where
  "close_descriptors env [] = ret None"
| "close_descriptors env (fd # fds) =
     bind (try_except (seq (act_unit env (OsClose fd)) (ret None))
         (\<lambda>e. if isinstance e OSError then ret (Some e) else raise e)) (\<lambda>first.
     bind (close_descriptors env fds) (\<lambda>later.
       ret (case first of None \<Rightarrow> later | Some e \<Rightarrow> Some e)))"

definition as_lock_error :: "exn \<Rightarrow> exn" where
  "as_lock_error e =
     (if isinstance e OSError then
        lock_error LifecycleLockError ''Lifecycle lock is unavailable or unsafe''
      else e)"

definition release_error :: exn where
  "release_error = lock_error LifecycleLockReleaseError ''Lifecycle lock release failed''"

definition lifecycle_lock :: "'w env \<Rightarrow> string \<Rightarrow> ('w, 'a) io \<Rightarrow> ('w, 'a) io" where
  "lifecycle_lock env canonical_host body =
     bind (try_acquire env canonical_host) (\<lambda>(fds, acquired).
       try_finally
         (case acquired of Inl e \<Rightarrow> raise (as_lock_error e) | Inr _ \<Rightarrow> body)
         (\<lambda>failed. bind (close_descriptors env fds) (\<lambda>close_error.
            check (close_error \<noteq> None \<and> \<not> failed) release_error)))"

section \<open>The discipline of the lock\<close>

text \<open>The documented behaviour of \<^verbatim>\<open>os.close\<close>: its only exception is \<^verbatim>\<open>OSError\<close>.\<close>

definition close_raises_os_error :: "'w env \<Rightarrow> bool" where
  "close_raises_os_error env \<longleftrightarrow>
     (\<forall>fd w e. fst (answer_text env (OsClose fd) w) = Inl e \<longrightarrow> isinstance e OSError)"

lemma close_descriptors_run:
  assumes "close_raises_os_error env" and "close_descriptors env fds s = (r, s')"
  shows "(\<exists>x. r = Inr x) \<and> balance s [] fds s'"
  using assms(2)
proof (induction fds arbitrary: s s' r)
  case Nil
  then show ?case by (auto simp: ret_def)
next
  case (Cons fd fds)
  obtain r1 s1 where one: "act_text env (OsClose fd) s = (r1, s1)"
    by (cases "act_text env (OsClose fd) s")
  then have b: "balance s [] [fd] s1"
    using balance_open(5) [of s "[]" "[]"]
    by (cases r1) (auto simp: act_text_Inl act_text_Inr)
  have os: "isinstance e OSError" if "r1 = Inl e" for e
  proof -
    from one that obtain w where "answer_text env (OsClose fd) (world s) = (Inl e, w)"
      by (auto simp: act_text_Inl)
    with assms(1) show ?thesis unfolding close_raises_os_error_def by (metis fst_conv)
  qed
  obtain first where first: "try_except (seq (act_unit env (OsClose fd)) (ret None))
         (\<lambda>e. if isinstance e OSError then ret (Some e) else raise e) s = (Inr first, s1)"
  proof (cases r1)
    case (Inl e)
    with one os that [of "Some e"] show ?thesis
      by (auto simp: try_except_Inr seq_Inl act_unit_Inl ret_def)
  next
    case (Inr t)
    with one that [of None] show ?thesis
      by (auto simp: try_except_Inr seq_Inr act_unit_Inr ret_def)
  qed
  obtain r2 s2 where rest: "close_descriptors env fds s1 = (r2, s2)"
    by (cases "close_descriptors env fds s1")
  from Cons.IH [OF rest] obtain y where y: "r2 = Inr y" "balance s1 [] fds s2" by blast
  with Cons.prems first rest have "s' = s2" "\<exists>x. r = Inr x"
    by (auto simp: bind_def ret_def)
  moreover have "balance s [] (fd # fds) s2"
    using b y(2) by (auto simp: balance_def)
  ultimately show ?case by simp
qed

text \<open>The events an acquisition must have seen: a safe directory, a safe file before and under the lock.\<close>

definition safely_locked :: "'w env \<Rightarrow> int \<Rightarrow> int \<Rightarrow> event list \<Rightarrow> bool" where
  "safely_locked env directory_fd lock_fd evs \<longleftrightarrow>
     (\<exists>d f0 f1 p filename t. evs =
        [(OsOpen LIFECYCLE_DIRECTORY directory_flags, Number directory_fd),
         (OsFstat directory_fd, Status d),
         (OsOpenAt directory_fd filename lock_flags 384, Number lock_fd),
         (OsFstat lock_fd, Status f0), (Flock lock_fd, Text t), (OsFstat lock_fd, Status f1),
         (OsStatAt directory_fd filename, Status p)] \<and>
        validate_directory env d = Inr () \<and> validate_lock_file env f0 = Inr () \<and>
        validate_lock_file env f1 = Inr () \<and> same_file p f1 \<and> st_kind p = RegularFile)"

lemma flock_handler_raises:
  "(\<lambda>error. if isinstance error OSError \<and> exn_errno error = Some EAGAIN then raise x else raise error)
     e s \<noteq> (Inr y, s')"
  by (simp add: raise_def)

lemma try_acquire_success:
  assumes "try_acquire env host s = (Inr (fds, Inr u), s')"
  shows "\<exists>d l evs. fds = [l, d] \<and> trace s' = trace s @ evs \<and> safely_locked env d l evs"
proof -
  from assms obtain d s1 filename l s2 where
      "act_num env (OsOpen LIFECYCLE_DIRECTORY directory_flags) s = (Inr d, s1)"
      "open_lock_file env host d s1 = (Inr (filename, l), s2)"
      "acquire_lock env d filename l s2 = (Inr (), s')" "fds = [l, d]"
    by (auto simp: try_acquire_def bind_Inr ret_Inr outcome_of_Inr case_sum_run case_prod_run)
  then show ?thesis
    unfolding safely_locked_def
    by (fastforce simp: open_lock_file_def acquire_lock_def run_success try_except_raising
        flock_handler_raises split: if_splits)
qed

lemma keeps_balance_acquire: "keeps (balance s op cl) (acquire_lock env d f l)"
  unfolding acquire_lock_def by (intro keeps_intros balance_actions) simp_all

lemma open_lock_file_balance:
  assumes "open_lock_file env host d s1 = (r, s2)" and b: "balance s op cl s1"
  shows "case r of Inl e \<Rightarrow> balance s op cl s2 | Inr (f, l) \<Rightarrow> balance s (op @ [l]) cl s2"
proof -
  have "post (open_lock_file env host d) s1
      (\<lambda>r s2. case r of Inl e \<Rightarrow> balance s op cl s2 | Inr (f, l) \<Rightarrow> balance s (op @ [l]) cl s2)"
    unfolding open_lock_file_def act_status_def act_num_def
    by (simp add: effect_simps balance_quiet balance_open b split: prod.split sum.split)
  with assms(1) show ?thesis by (simp add: post_def)
qed

lemma try_acquire_run:
  assumes "try_acquire env host s = (r, s')"
  shows "\<exists>fds a. r = Inr (fds, a) \<and> balance s (rev fds) [] s'"
proof -
  obtain r1 s1 where one: "act_num env (OsOpen LIFECYCLE_DIRECTORY directory_flags) s = (r1, s1)"
    by (cases "act_num env (OsOpen LIFECYCLE_DIRECTORY directory_flags) s")
  show ?thesis
  proof (cases r1)
    case (Inl e)
    with one have "balance s [] [] s1" by (auto simp: act_num_Inl balance_open)
    with one Inl assms show ?thesis by (auto simp: try_acquire_def bind_def outcome_of_def ret_def)
  next
    case (Inr d)
    with one have b1: "balance s [d] [] s1"
      using balance_open(1) [of s "[]" "[]"] by (auto simp: act_num_Inr)
    obtain r2 s2 where two: "open_lock_file env host d s1 = (r2, s2)"
      by (cases "open_lock_file env host d s1")
    note b2 = open_lock_file_balance [OF two b1]
    show ?thesis
    proof (cases r2)
      case (Inl e)
      with one Inr two b2 assms show ?thesis
        by (auto simp: try_acquire_def bind_def outcome_of_def ret_def)
    next
      case (Inr p)
      obtain f l where p: "p = (f, l)" by (cases p)
      obtain r3 s3 where three: "acquire_lock env d f l s2 = (r3, s3)"
        by (cases "acquire_lock env d f l s2")
      have "balance s [d, l] [] s2" using b2 Inr p by simp
      from keepsD [OF keeps_balance_acquire this three] have "balance s [d, l] [] s3" .
      with one \<open>r1 = Inr d\<close> two Inr p three assms show ?thesis
        by (auto simp: try_acquire_def bind_def outcome_of_def ret_def)
    qed
  qed
qed

text \<open>
  C15.  The lifecycle lock is a bracket around its body.  Either the acquisition failed, the body
  never ran, the result is an exception, and every descriptor opened was closed; or the body ran
  exactly once, right after a complete and validated acquisition (directory checked, file checked
  before and under the \<^verbatim>\<open>flock\<close>, path unchanged), both descriptors were closed after it, and the
  outcome is the body's own, except that a body that completed gets the release error when
  closing failed.
\<close>

theorem lifecycle_lock_brackets_body:
  assumes "close_raises_os_error env" and "lifecycle_lock env host body s = (r, s')"
  shows "(\<exists>e fds. r = Inl e \<and> balance s (rev fds) fds s') \<or>
    (\<exists>d l evs s1 rb s2. trace s1 = trace s @ evs \<and> safely_locked env d l evs \<and>
       body s1 = (rb, s2) \<and> balance s2 [] [l, d] s' \<and>
       (r = rb \<or> (\<exists>x. rb = Inr x) \<and> r = Inl release_error))"
proof -
  obtain r0 s1 where acq: "try_acquire env host s = (r0, s1)" by (cases "try_acquire env host s")
  from try_acquire_run [OF this] obtain fds a where a: "r0 = Inr (fds, a)" "balance s (rev fds) [] s1"
    by blast
  define m where "m = (case a of Inl e \<Rightarrow> raise (as_lock_error e) | Inr _ \<Rightarrow> body)"
  obtain rb s2 where body: "m s1 = (rb, s2)" by (cases "m s1")
  obtain rc s3 where close: "close_descriptors env fds s2 = (rc, s3)"
    by (cases "close_descriptors env fds s2")
  from close_descriptors_run [OF assms(1) close] obtain ce where
      c: "rc = Inr ce" "balance s2 [] fds s3" by blast
  have run: "s' = s3" "r = rb \<or> (\<exists>x. rb = Inr x) \<and> r = Inl release_error"
    using assms(2) acq a(1) body close c(1)
    by (cases rb; auto simp: lifecycle_lock_def bind_def m_def [symmetric] try_finally_def
        check_def raise_def ret_def split: if_splits)+
  show ?thesis
  proof (cases a)
    case (Inl e)
    with body have "rb = Inl (as_lock_error e)" "s2 = s1" by (auto simp: m_def raise_def)
    with run a(2) c(2) have "r = Inl (as_lock_error e)" "balance s (rev fds) fds s'"
      by (auto simp: balance_def)
    then show ?thesis by blast
  next
    case (Inr u)
    with acq a(1) have "try_acquire env host s = (Inr (fds, Inr u), s1)" by simp
    from try_acquire_success [OF this] obtain d l evs where
        "fds = [l, d]" "trace s1 = trace s @ evs" "safely_locked env d l evs" by blast
    moreover from body Inr have "body s1 = (rb, s2)" by (simp add: m_def)
    ultimately show ?thesis using run c(2) by blast
  qed
qed

text \<open>An environment in which the lock directory and file are safe.\<close>

definition lock_env :: "unit env" where
  "lock_env = \<lparr>answer_text = (\<lambda>a w. (Inr '''', w)),
     answer_num = (\<lambda>a w. (Inr (case a of OsOpen p fl \<Rightarrow> 3 | _ \<Rightarrow> 4), w)),
     answer_status = (\<lambda>a w. (Inr (if a = OsFstat 3
        then \<lparr>st_kind = Directory, st_perm = 448, st_uid = 0, st_gid = 0, st_dev = 1, st_ino = 1,
              st_nlink = 2, st_size = 0\<rparr>
        else \<lparr>st_kind = RegularFile, st_perm = 384, st_uid = 0, st_gid = 0, st_dev = 1, st_ino = 2,
              st_nlink = 1, st_size = 0\<rparr>), w)),
     channel_poisoned = (\<lambda>w. False), base_prompt = (\<lambda>w. ''''), now_utc = (\<lambda>w. 0),
     today_utc = (\<lambda>w. Date 2026 1 1), today_local = (\<lambda>w. Date 2026 1 1),
     environ = (\<lambda>n. None), has_nofollow = True, effective_uid = 0, effective_gid = 0,
     json_loads = (\<lambda>t. Inr JNull), toml_loads = (\<lambda>t. None),
     resolved_parent = (\<lambda>p. ''/''), local_timestamp = (\<lambda>w. ''''), sha256_hex = (\<lambda>t. t), crypto_lib = sample_crypto\<rparr>"

definition start_state :: "unit st" where
  "start_state = \<lparr>world = (), trace = [], item = new_switch_result ''s'',
     csr_creation_attempted = False, installation_attempted = False,
     installation_dialogue_completed = False, entered_config_mode = False,
     installation_completed = False, switch_verdict = None, body_exit = None\<rparr>"

theorem lifecycle_lock_brackets_body_witness:
  "\<exists>s1. fst (lifecycle_lock lock_env ''h'' (ret (7::int)) start_state) = Inr 7 \<and>
     ret (7::int) s1 = (Inr 7, s1)"
proof -
  have os: "close_raises_os_error lock_env" by (simp add: close_raises_os_error_def lock_env_def)
  obtain r s' where run: "lifecycle_lock lock_env ''h'' (ret (7::int)) start_state = (r, s')"
    by (cases "lifecycle_lock lock_env ''h'' (ret (7::int)) start_state")
  have ok: "fst (lifecycle_lock lock_env ''h'' (ret (7::int)) start_state) = Inr 7"
    by (simp add: lifecycle_lock_def try_acquire_def open_lock_file_def acquire_lock_def bind_def seq_def
        outcome_of_def ret_def lift_def act_num_def act_status_def act_unit_def act_text_def act_def
        try_except_def try_finally_def check_def lock_filename_def isascii_def is_ascii_char_def
        validate_directory_def validate_lock_file_def same_file_def has_bit_def S_IWGRP_def
        record_event_def lock_env_def)
  from lifecycle_lock_brackets_body [OF os run] run ok show ?thesis
    by (auto simp: ret_def)
qed

end
