(* ===== verification/SwitchOperations.thy ===== *)
theory SwitchOperations
  imports Triples LifecycleLock
begin

text \<open>
  The operations on a switch of \<^verbatim>\<open>src/aruba_cert_renewer.py\<close>: \<^verbatim>\<open>generate_csr\<close>, \<^verbatim>\<open>retrieve_csr\<close>,
  \<^verbatim>\<open>install_signed_certificate\<close>, \<^verbatim>\<open>install_pending_certificate\<close>, \<^verbatim>\<open>renewal_preflight\<close>,
  \<^verbatim>\<open>check_switch\<close>.  The theorems relate the class of the exception an operation ends with to what
  was sent to the switch.
\<close>

definition SUMMARY_COMMAND :: string where
  "SUMMARY_COMMAND = ''show crypto pki local-certificate summary''"

definition INSTALL_COMMAND :: string where
  "INSTALL_COMMAND = ''crypto pki install-signed-certificate''"

definition show_summary :: "'w env \<Rightarrow> ('w, string) io" where
  "show_summary env = send_command env SUMMARY_COMMAND MAX_CERTIFICATE_SUMMARY_OUTPUT_BYTES"

section \<open>Retrieving and validating a CSR\<close>

definition retrieve_and_validate_csr :: "'w env \<Rightarrow> switch \<Rightarrow> string \<Rightarrow> json \<Rightarrow> ('w, string) io" where
  "retrieve_and_validate_csr env sw certificate_name settings =
     bind (send_command env (''show crypto pki local-certificate '' @ certificate_name)
        MAX_CSR_DETAIL_OUTPUT_BYTES) (\<lambda>csr_output.
     bind (lift (check_output_size csr_output MAX_CSR_DETAIL_OUTPUT_BYTES ''CSR detail'')) (\<lambda>_.
     bind (lift (extract_csr_pem csr_output)) (\<lambda>csr_pem.
     bind (lift (validate_csr_pem (crypto_lib env) csr_pem sw settings)) (\<lambda>_.
       ret csr_pem))))"

section \<open>Generating a CSR\<close>

text \<open>The guarded creation: the flag is set before the command, config mode is left afterwards.\<close>

definition create_csr :: "'w env \<Rightarrow> string \<Rightarrow> ('w, unit) io" where
  "create_csr env csr_command =
     try_finally
       (seq (modify (\<lambda>s. s\<lparr>csr_creation_attempted := True\<rparr>))
         (bind (send_command_timing env csr_command MAX_CSR_CREATE_OUTPUT_BYTES) (\<lambda>create_output.
          bind (lift (check_output_size create_output MAX_CSR_CREATE_OUTPUT_BYTES ''CSR creation''))
            (\<lambda>_. ret ()))))
       (\<lambda>failed. bind (connection_poisoned env) (\<lambda>poisoned.
          if poisoned then ret () else exit_config_mode env))"

definition generate_csr_session :: "'w env \<Rightarrow> switch \<Rightarrow> string \<Rightarrow> json \<Rightarrow> ('w, string) io" where
  "generate_csr_session env sw certificate_name settings =
     bind (show_summary env) (\<lambda>summary_output.
     bind (lift (parse_web_certificates summary_output)) (\<lambda>certificates.
     bind (lift (get_active_web_certificate certificates)) (\<lambda>active_certificate.
     seq (check (casefold certificate_name = casefold (cert_name active_certificate))
       (new_exn ValueError
         ''New certificate name must differ from the active Web certificate name''))
     (bind (lift (certificate_name_exists summary_output certificate_name)) (\<lambda>found.
     seq (check found (new_exn ValueError
         (''Certificate name already exists on the switch: '' @ certificate_name)))
     (bind (lift (build_csr_command sw certificate_name (cert_profile active_certificate) settings))
       (\<lambda>csr_command.
     seq (print_terminal env (''Current active Web certificate: '' @ cert_name active_certificate))
     (seq (print_terminal env (''Discovered TA profile: '' @ cert_profile active_certificate))
     (seq (print_terminal env (''Requested new certificate name: '' @ certificate_name))
     (seq (print_terminal env ''Generating CSR...'')
     (seq (config_mode env)
     (seq (create_csr env csr_command)
       (try_except (retrieve_and_validate_csr env sw certificate_name settings)
         (\<lambda>error. if isinstance error ValueError then
             fail CSRGenerationError (''CSR retrieval or validation failed: '' @ exn_text error @
               ''. The pending CSR was not removed'')
           else raise error))))))))))))))"

definition generate_csr_failed :: "exn \<Rightarrow> ('w, 'a) io" where
  "generate_csr_failed error =
     (if isinstance error CSRGenerationError then raise error
      else bind (gets csr_creation_attempted) (\<lambda>attempted.
        if isinstance error NetmikoAuthenticationException then
          (if attempted then
             fail CSRGenerationError (''SSH authentication failed after CSR creation was attempted; '' @
               ''a pending CSR may remain on the switch'')
           else fail ValueError ''SSH authentication failed'')
        else if isinstance error NetmikoTimeoutException then
          (if attempted then
             fail CSRGenerationError (''SSH operation timed out after CSR creation was attempted; '' @
               ''a pending CSR may remain on the switch'')
           else fail ValueError ''SSH connection timed out'')
        else if isinstance error Exception then
          (if attempted then
             fail CSRGenerationError (''CSR creation was attempted, but the operation failed; '' @
               ''a pending CSR may remain on the switch'')
           else raise error)
        else raise error))"

definition generate_csr :: "'w env \<Rightarrow> switch \<Rightarrow> string \<Rightarrow> json \<Rightarrow> ('w, string) io" where
  "generate_csr env sw certificate_name settings =
     bind (lift (validate_cli_identifier certificate_name ''certificate name'')) (\<lambda>certificate_name.
     bind (lift (validate_csr_settings settings)) (\<lambda>_.
     seq (modify (\<lambda>s. s\<lparr>csr_creation_attempted := False\<rparr>))
       (try_except
         (ssh_connection env sw (generate_csr_session env sw certificate_name settings))
         generate_csr_failed)))"

section \<open>Retrieving a pending CSR\<close>

definition ssh_failed :: "exn \<Rightarrow> ('w, 'a) io" where
  "ssh_failed error =
     (if isinstance error NetmikoAuthenticationException then fail ValueError ''SSH authentication failed''
      else if isinstance error NetmikoTimeoutException then fail ValueError ''SSH connection timed out''
      else raise error)"

definition retrieve_csr :: "'w env \<Rightarrow> bool \<Rightarrow> switch \<Rightarrow> string \<Rightarrow> json \<Rightarrow> ('w, string) io" where
  "retrieve_csr env progress sw certificate_name settings =
     bind (lift (validate_cli_identifier certificate_name ''certificate name'')) (\<lambda>certificate_name.
     bind (lift (validate_csr_settings settings)) (\<lambda>_.
       try_except
         (ssh_connection env sw
           (bind (show_summary env) (\<lambda>summary_output.
            bind (lift (require_pending_web_certificate summary_output certificate_name)) (\<lambda>_.
            seq (report_progress progress PendingCsrObserved)
              (retrieve_and_validate_csr env sw certificate_name settings)))))
         ssh_failed))"

section \<open>Installing a certificate\<close>

definition attempt_error :: "string \<Rightarrow> exn" where
  "attempt_error t = new_exn CertificateInstallationAttemptError t"

text \<open>The dialogue, message by message: each prompt is checked before anything further is sent.\<close>

definition request_paste :: "'w env \<Rightarrow> ('w, unit) io" where
  "request_paste env =
     bind (send_command_timing env INSTALL_COMMAND MAX_INSTALL_PROMPT_OUTPUT_BYTES) (\<lambda>paste_prompt.
     bind (lift (check_output_size paste_prompt MAX_INSTALL_PROMPT_OUTPUT_BYTES ''installation prompt''))
       (\<lambda>_.
       check (\<not> ends_with_expected_prompt paste_prompt CERTIFICATE_PASTE_PROMPT)
         (new_exn ValueError ''Switch did not return the expected certificate-paste prompt'')))"

definition paste_certificate :: "'w env \<Rightarrow> string \<Rightarrow> ('w, unit) io" where
  "paste_certificate env certificate_pem =
     bind (send_certificate_pem env certificate_pem) (\<lambda>replacement_prompt.
     bind (lift (check_output_size replacement_prompt MAX_INSTALL_PROMPT_OUTPUT_BYTES
         ''installation prompt'')) (\<lambda>_.
       check (\<not> ends_with_expected_prompt replacement_prompt CERTIFICATE_REPLACEMENT_PROMPT)
         (new_exn ValueError (''Switch did not return the expected certificate-replacement prompt; '' @
           ''confirmation was not sent''))))"

definition confirm_replacement :: "'w env \<Rightarrow> ('w, unit) io" where
  "confirm_replacement env =
     bind (send_command_timing env ''y'' MAX_INSTALL_CONFIRM_OUTPUT_BYTES) (\<lambda>confirmation_output.
     bind (lift (check_output_size confirmation_output MAX_INSTALL_CONFIRM_OUTPUT_BYTES
         ''installation confirmation'')) (\<lambda>_.
       check (contains_obvious_cli_error confirmation_output)
         (new_exn ValueError ''Switch reported an error while installing the certificate'')))"

definition installation_dialogue :: "'w env \<Rightarrow> string \<Rightarrow> ('w, unit) io" where
  "installation_dialogue env certificate_pem =
     seq (request_paste env)
     (seq (paste_certificate env certificate_pem)
     (seq (confirm_replacement env)
       (modify (\<lambda>s. s\<lparr>installation_dialogue_completed := True\<rparr>))))"

definition begin_installation :: "'w env \<Rightarrow> string \<Rightarrow> string \<Rightarrow> string \<Rightarrow> ('w, unit) io" where
  "begin_installation env certificate_name certificate_pem expected_profile =
     bind (show_summary env) (\<lambda>summary_output.
     bind (lift (check_summary_size summary_output)) (\<lambda>_.
     bind (lift (require_pending_web_certificate summary_output certificate_name)) (\<lambda>pending_entry.
     seq (check (casefold (entry_profile pending_entry) \<noteq> casefold expected_profile)
       (new_exn ValueError (''Certificate '' @ certificate_name @
          '' TA profile changed before installation'')))
     (seq (config_mode env)
     (seq (modify (\<lambda>s. s\<lparr>entered_config_mode := True, installation_attempted := True\<rparr>))
       (installation_dialogue env certificate_pem))))))"

definition installation_failed :: "exn \<Rightarrow> ('w, 'a) io" where
  "installation_failed error =
     (if isinstance error Exception then
        bind (gets installation_attempted) (\<lambda>attempted.
          if attempted then
            raise (attempt_error (''Certificate installation may already have changed the switch: '' @
              exn_text error))
          else raise error)
      else raise error)"

definition leave_installation :: "'w env \<Rightarrow> ('w, unit) io" where
  "leave_installation env =
     bind (gets entered_config_mode) (\<lambda>entered.
     bind (connection_poisoned env) (\<lambda>poisoned.
       if entered \<and> \<not> poisoned then
         try_except (exit_config_mode env) (\<lambda>exit_error.
           if isinstance exit_error Exception then
             bind (gets installation_dialogue_completed) (\<lambda>completed.
               if completed then
                 raise (attempt_error (''Certificate installation may already have changed the switch, '' @
                   ''and config mode could not be exited: '' @ exn_text exit_error))
               else ret ())
           else raise exit_error)
       else ret ()))"

definition confirm_installation :: "'w env \<Rightarrow> string \<Rightarrow> string \<Rightarrow> ('w, unit) io" where
  "confirm_installation env certificate_name expected_profile =
     bind (show_summary env) (\<lambda>summary_output.
     bind (lift (check_summary_size summary_output)) (\<lambda>_.
     bind (lift (get_certificate_summary_entry summary_output certificate_name)) (\<lambda>installed_entry.
     seq (check (casefold (entry_usage installed_entry) \<noteq> ''web'')
       (new_exn ValueError (''Installed certificate has usage '' @ entry_usage installed_entry @
         ''; expected Web'')))
     (seq (check (casefold (entry_expiration installed_entry) = ''csr'')
       (new_exn ValueError ''Certificate is still shown as a pending CSR''))
     (seq (check (casefold (entry_profile installed_entry) \<noteq> casefold expected_profile)
       (new_exn ValueError ''Installed certificate TA profile changed''))
     (bind (send_command env (''show crypto pki local-certificate '' @ certificate_name)
         MAX_CERTIFICATE_DETAIL_OUTPUT_BYTES) (\<lambda>details_output.
     bind (lift (check_output_size details_output MAX_CERTIFICATE_DETAIL_OUTPUT_BYTES
         ''certificate detail'')) (\<lambda>_.
       check (contains_obvious_cli_error details_output \<or>
              search certificate_detail_re details_output = None)
         (new_exn ValueError
           ''Could not confirm the installed certificate in detailed switch output'')))))))))"

definition verification_failed :: "exn \<Rightarrow> ('w, 'a) io" where
  "verification_failed error =
     (if isinstance error CertificateInstallationAttemptError then raise error
      else if isinstance error Exception then
        raise (attempt_error (''Certificate installation may already have changed the switch, but '' @
          ''post-install Aruba verification failed: '' @ exn_text error))
      else raise error)"

definition install_signed_certificate :: "'w env \<Rightarrow> string \<Rightarrow> string \<Rightarrow> string \<Rightarrow> ('w, unit) io" where
  "install_signed_certificate env certificate_name certificate_pem expected_profile =
     seq (modify (\<lambda>s. s\<lparr>installation_attempted := False, installation_dialogue_completed := False,
            entered_config_mode := False\<rparr>))
     (seq (try_finally
            (try_except (begin_installation env certificate_name certificate_pem expected_profile)
              installation_failed)
            (\<lambda>failed. leave_installation env))
       (try_except (confirm_installation env certificate_name expected_profile) verification_failed))"

definition install_session ::
  "'w env \<Rightarrow> bool \<Rightarrow> switch \<Rightarrow> string \<Rightarrow> string \<Rightarrow> json \<Rightarrow> int \<Rightarrow> ca_snapshot \<Rightarrow> string \<Rightarrow> int option \<Rightarrow>
     ('w, certificate) io" where
  "install_session env progress sw certificate_name certificate_pem settings lifetime_days snapshot
       digest minimum_remaining_days =
     bind (show_summary env) (\<lambda>summary_output.
     bind (lift (check_summary_size summary_output)) (\<lambda>_.
     bind (lift (require_pending_web_certificate summary_output certificate_name)) (\<lambda>pending_entry.
     seq (report_progress progress PendingCsrObserved)
     (seq (report_progress progress CsrRetrievalStarted)
     (bind (retrieve_and_validate_csr env sw certificate_name settings) (\<lambda>csr_pem.
     bind (lift (validate_csr_pem (crypto_lib env) csr_pem sw settings)) (\<lambda>csr.
     seq (report_progress progress CsrRetrieved)
     (seq (report_progress progress IssuedValidationStarted)
     (bind (observe (now_utc env)) (\<lambda>now.
     bind (lift (validate_issued_certificate (crypto_lib env) certificate_pem csr sw lifetime_days
         digest now False minimum_remaining_days)) (\<lambda>cert.
     bind (lift (verify_issued_certificate_trust (crypto_lib env) cert sw snapshot)) (\<lambda>_.
     bind (observe (now_utc env)) (\<lambda>now.
     bind (lift (require_current_certificate_validity cert now minimum_remaining_days)) (\<lambda>_.
     seq (report_progress progress IssuedValidated)
     (seq (report_progress progress InstallationPrepared)
     (seq (install_signed_certificate env certificate_name certificate_pem (entry_profile pending_entry))
     (seq (modify (\<lambda>s. s\<lparr>installation_completed := True\<rparr>))
       (ret cert))))))))))))))))))"

definition install_pending_failed :: "exn \<Rightarrow> ('w, 'a) io" where
  "install_pending_failed error =
     (if isinstance error CertificateInstallationAttemptError then raise error
      else bind (gets installation_completed) (\<lambda>completed.
        if isinstance error NetmikoAuthenticationException then
          (if completed then
             raise (attempt_error (''Certificate installation may already have changed the switch; '' @
               ''SSH authentication failed while closing the connection''))
           else fail ValueError ''SSH authentication failed'')
        else if isinstance error NetmikoTimeoutException then
          (if completed then
             raise (attempt_error (''Certificate installation may already have changed the switch; '' @
               ''SSH timed out while closing the connection''))
           else fail ValueError ''SSH connection timed out'')
        else if isinstance_any error [ValueError, OSError] then
          (if completed then
             raise (attempt_error (''Certificate installation may already have changed the switch; '' @
               ''an error occurred while closing the SSH connection''))
           else raise error)
        else if isinstance error Exception then
          (if completed then
             raise (attempt_error (''Certificate installation may already have changed the switch; '' @
               ''an SSH error occurred while closing the connection''))
           else fail ValueError ''SSH operation failed before certificate installation was attempted'')
        else raise error))"

definition install_pending_certificate ::
  "'w env \<Rightarrow> bool \<Rightarrow> switch \<Rightarrow> string \<Rightarrow> string \<Rightarrow> json \<Rightarrow> int \<Rightarrow> ca_snapshot \<Rightarrow> string \<Rightarrow> int option \<Rightarrow>
     ('w, certificate) io" where
  "install_pending_certificate env progress sw certificate_name certificate_pem settings lifetime_days
       snapshot digest minimum_remaining_days =
     bind (lift (validate_cli_identifier certificate_name ''certificate name'')) (\<lambda>certificate_name.
     bind (lift (validate_csr_settings settings)) (\<lambda>_.
     bind (lift (validate_switch_signing_identity sw)) (\<lambda>_.
     seq (modify (\<lambda>s. s\<lparr>installation_completed := False\<rparr>))
       (try_except
         (ssh_connection env sw
           (install_session env progress sw certificate_name certificate_pem settings lifetime_days
              snapshot digest minimum_remaining_days))
         install_pending_failed))))"

section \<open>The read-only operations\<close>

record renewal_plan =
  plan_active_certificate_name :: string
  plan_ta_profile :: string
  plan_new_certificate_name :: string

definition plan_renewal :: "string \<Rightarrow> date \<Rightarrow> renewal_plan res" where
  "plan_renewal summary_output today =
     res_bind (parse_web_certificates summary_output) (\<lambda>certificates.
       let pending = filter cert_pending certificates
       in if pending \<noteq> [] then
            Inl (new_exn PendingCSRPreflightError (''A pending Web CSR already exists ('' @
              join '', '' (map cert_name pending) @ ''). Use the explicit '' @
              ''staged commands to inspect or recover it; --renew will not '' @
              ''resume, replace, or clear it''))
          else
            res_bind (get_active_web_certificate certificates) (\<lambda>active_certificate.
            res_bind (choose_renewal_certificate_name summary_output today) (\<lambda>certificate_name.
              Inr \<lparr>plan_active_certificate_name = cert_name active_certificate,
                   plan_ta_profile = cert_profile active_certificate,
                   plan_new_certificate_name = certificate_name\<rparr>)))"

definition preflight_failed :: "exn \<Rightarrow> ('w, 'a) io" where
  "preflight_failed error =
     (if isinstance error RenewalPreflightError then raise error
      else if isinstance error NetmikoAuthenticationException then
        fail RenewalPreflightError ''SSH authentication failed''
      else if isinstance error NetmikoTimeoutException then
        fail RenewalPreflightError ''SSH connection timed out''
      else if isinstance_any error [ValueError, OSError] then
        fail RenewalPreflightError (exn_text error)
      else raise error)"

definition renewal_preflight :: "'w env \<Rightarrow> switch \<Rightarrow> ('w, renewal_plan) io" where
  "renewal_preflight env sw =
     try_except
       (bind (ssh_connection env sw (show_summary env)) (\<lambda>summary_output.
        bind (observe (today_utc env)) (\<lambda>today.
          lift (plan_renewal summary_output today))))
       preflight_failed"

text \<open>The verdict on an active certificate, from the days it has left.\<close>

definition expiry_status :: "int \<Rightarrow> int \<Rightarrow> string" where
  "expiry_status days_remaining warning_days =
     (if days_remaining < 0 then ''expired''
      else if days_remaining \<le> warning_days then ''renewal_due''
      else ''ok'')"

definition check_switch_session :: "'w env \<Rightarrow> ('w, string \<times> string) io" where
  "check_switch_session env =
     bind (send_command env ''show version'' MAX_SHOW_VERSION_OUTPUT_BYTES) (\<lambda>version_output.
     bind (lift (check_output_size version_output MAX_SHOW_VERSION_OUTPUT_BYTES ''show version'')) (\<lambda>_.
     bind (show_summary env) (\<lambda>cert_output.
     bind (lift (check_summary_size cert_output)) (\<lambda>_.
       ret (version_output, cert_output)))))"

definition report_check_error :: "'w env \<Rightarrow> string \<Rightarrow> ('w, string) io" where
  "report_check_error env reason =
     seq (print_terminal env ''Status:           ERROR'')
     (seq (print_terminal env (''Reason:           '' @ reason))
       (ret ''error''))"

text \<open>\<^verbatim>\<open>check_switch\<close> after the session: what the outputs say, and the status printed and returned.\<close>

definition report_certificate ::
  "'w env \<Rightarrow> string \<Rightarrow> string \<Rightarrow> int \<Rightarrow> ('w, string) io" where
  "report_certificate env version_output cert_output warning_days =
     bind (lift (parse_aos_version version_output)) (\<lambda>version.
     seq (print_terminal env (''AOS-S version:    '' @ version))
     (case res_bind (parse_web_certificates cert_output) get_active_web_certificate of
        Inl e \<Rightarrow> if isinstance e ValueError then report_check_error env (exn_text e) else raise e
      | Inr certificate \<Rightarrow>
          bind (observe (today_local env)) (\<lambda>today.
            let expiration = (case cert_expiration certificate of None \<Rightarrow> today | Some d \<Rightarrow> d);
                days_remaining = toordinal expiration - toordinal today
            in seq (print_terminal env (''Certificate:      '' @ cert_name certificate))
               (seq (print_terminal env (''TA profile:       '' @ cert_profile certificate))
               (seq (print_terminal env (''Expires:          '' @ write_date ''-'' expiration))
               (seq (print_terminal env (''Days remaining:   '' @ str_int days_remaining))
                 (let status = expiry_status days_remaining warning_days
                  in seq (print_terminal env (''Status:           '' @
                          (if status = ''expired'' then ''EXPIRED''
                           else if status = ''renewal_due'' then ''RENEWAL DUE'' else ''OK'')))
                       (ret status))))))))"

definition print_switch_heading :: "'w env \<Rightarrow> switch \<Rightarrow> ('w, unit) io" where
  "print_switch_heading env sw =
     (let display_name = sanitize_terminal_text (sw_name sw)
      in seq (print_terminal env '''')
         (seq (print_terminal env display_name)
         (seq (print_terminal env (replicate (length display_name) CHR ''-''))
           (print_terminal env (''Host:             '' @ sw_host sw)))))"

definition check_switch :: "'w env \<Rightarrow> switch \<Rightarrow> int \<Rightarrow> ('w, string) io" where
  "check_switch env sw warning_days =
     seq (print_switch_heading env sw)
     (bind (outcome_of (ssh_connection env sw (check_switch_session env))) (\<lambda>r.
        case r of
          Inl e \<Rightarrow>
            if isinstance e NetmikoAuthenticationException then
              report_check_error env ''SSH authentication failed''
            else if isinstance e NetmikoTimeoutException then
              report_check_error env ''SSH connection timed out''
            else if isinstance e Exception then report_check_error env (exn_text e)
            else raise e
        | Inr (version_output, cert_output) \<Rightarrow>
            report_certificate env version_output cert_output warning_days))"

section \<open>What was sent to the switch\<close>

text \<open>The actions that can change a switch: creating a CSR and the installation dialogue.\<close>

fun changes_switch :: "action \<Rightarrow> bool" where
  "changes_switch (SendCommandTiming c n) = True"
| "changes_switch (SendPem p n) = True"
| "changes_switch _ = False"

text \<open>Nothing since \<open>s\<close> could have changed the switch.\<close>

abbreviation unchanged_since :: "'w st \<Rightarrow> 'w st \<Rightarrow> bool" where
  "unchanged_since s s' \<equiv> appends (\<lambda>a. \<not> changes_switch a) s s'"

lemma session_action_unchanging: "session_action a \<Longrightarrow> \<not> changes_switch a"
  by (cases a) simp_all

lemma keeps_commands:
  assumes "closed_under P J" and "\<And>n. P (SendCommand c n)" and "\<And>n. P (EnterConfigMode n)"
    and "\<And>n. P (ExitConfigMode n)"
  shows "keeps J (send_command env c limit)" "keeps J (config_mode env)" "keeps J (exit_config_mode env)"
  unfolding send_command_def config_mode_def exit_config_mode_def
  using assms(2-4) by (auto intro!: keeps_intros keeps_actions [OF assms(1)])

lemma keeps_mutations:
  assumes "closed_under (\<lambda>a. True) J"
  shows "keeps J (send_command_timing env c limit)" "keeps J (send_certificate_pem env p)"
  unfolding send_command_timing_def send_certificate_pem_def
  by (intro keeps_intros keeps_actions [OF assms]; simp)+

lemma keeps_retrieve_and_validate:
  assumes "closed_under P J" and "\<And>c n. P (SendCommand c n)"
  shows "keeps J (retrieve_and_validate_csr env sw name settings)"
  unfolding retrieve_and_validate_csr_def send_command_def
  by (intro keeps_intros keeps_actions [OF assms(1)] assms(2))

lemma keeps_poisoned [keeps_intros]: "keeps J (connection_poisoned env)"
  by (simp add: connection_poisoned_def keeps_observe)

section \<open>Generating a CSR is reported truthfully\<close>

definition untouched_unless_attempted :: "'w st \<Rightarrow> 'w st \<Rightarrow> bool" where
  "untouched_unless_attempted s0 s = (\<not> csr_creation_attempted s \<longrightarrow> unchanged_since s0 s)"

lemma untouched_closed: "closed_under (\<lambda>a. \<not> changes_switch a) (untouched_unless_attempted s0)"
  using appends_closed [of "\<lambda>a. \<not> changes_switch a" s0]
  by (simp add: closed_under_def untouched_unless_attempted_def record_event_def)

lemma attempted_closed: "closed_under P csr_creation_attempted"
  by (simp add: closed_under_def record_event_def)

lemma keeps_create_csr: "keeps (untouched_unless_attempted s0) (create_csr env cmd)"
proof (rule keepsI)
  fix s :: "'a st"
  have finalizer: "keeps csr_creation_attempted (bind (connection_poisoned env)
      (\<lambda>poisoned. if poisoned then ret () else exit_config_mode env))"
    by (intro keeps_intros keeps_commands [OF attempted_closed]) auto
  have body: "keeps csr_creation_attempted
      (bind (send_command_timing env cmd MAX_CSR_CREATE_OUTPUT_BYTES) (\<lambda>create_output.
          bind (lift (check_output_size create_output MAX_CSR_CREATE_OUTPUT_BYTES ''CSR creation''))
            (\<lambda>_. ret ())))"
    by (intro keeps_intros keeps_mutations attempted_closed)
  have "post (create_csr env cmd) s (\<lambda>r s'. csr_creation_attempted s')"
    unfolding create_csr_def post_try_finally post_seq post_modify sum.case
    by (rule keeps_then [OF body], simp, rule keeps_then [OF finalizer], assumption)
       (simp split: sum.split)
  then show "post (create_csr env cmd) s (\<lambda>r s'. untouched_unless_attempted s0 s')"
    by (rule post_mono) (simp add: untouched_unless_attempted_def)
qed

lemma keeps_generate_session:
  "keeps (untouched_unless_attempted s0) (generate_csr_session env sw name settings)"
  unfolding generate_csr_session_def show_summary_def
  by (intro keeps_intros keeps_commands [OF untouched_closed] keeps_print [OF untouched_closed]
      keeps_create_csr keeps_retrieve_and_validate [OF untouched_closed]) auto

lemma generate_csr_failed_class:
  "generate_csr_failed error s = (Inl e, s') \<Longrightarrow> s' = s \<and>
     (exn_class e = CSRGenerationError \<or> \<not> isinstance e Exception \<or> \<not> csr_creation_attempted s)"
  by (auto simp: generate_csr_failed_def run_failure run_success fail_def isinstance_def
      split: if_splits)

text \<open>What a generated or retrieved CSR was checked for.\<close>

lemma retrieve_and_validate_Inr:
  "retrieve_and_validate_csr env sw name settings s = (Inr pem, s') \<Longrightarrow>
     \<exists>csr. validate_csr_pem (crypto_lib env) pem sw settings = Inr csr"
  by (auto simp: retrieve_and_validate_csr_def run_success)

lemma handlers_raise [simp]:
  "generate_csr_failed e t \<noteq> (Inr x, t')" "ssh_failed e t \<noteq> (Inr x, t')"
  "install_pending_failed e t \<noteq> (Inr x, t')" "installation_failed e t \<noteq> (Inr x, t')"
  "verification_failed e t \<noteq> (Inr x, t')" "preflight_failed e t \<noteq> (Inr x, t')"
  "fail c m t \<noteq> (Inr x, t')" "raise e t \<noteq> (Inr x, t')"
  by (auto simp: generate_csr_failed_def ssh_failed_def install_pending_failed_def
      installation_failed_def verification_failed_def preflight_failed_def run_success fail_def
      split: if_splits)

lemma generate_csr_valid:
  assumes "generate_csr env sw name settings s = (Inr pem, s')"
  shows "\<exists>csr. validate_csr_pem (crypto_lib env) pem sw settings = Inr csr"
proof -
  from assms obtain s1 s2 where "ssh_connection env sw (generate_csr_session env sw name settings) s1 = (Inr pem, s2)"
    by (auto simp: generate_csr_def run_success try_except_Inr validate_cli_identifier_Inr_iff)
  from ssh_connection_Inr [OF this] obtain s3 s4 where
      "generate_csr_session env sw name settings s3 = (Inr pem, s4)" by blast
  then obtain s5 s6 where "retrieve_and_validate_csr env sw name settings s5 = (Inr pem, s6)"
    by (fastforce simp: generate_csr_session_def bind_Inr seq_Inr try_except_Inr split: if_splits)
  from retrieve_and_validate_Inr [OF this] show ?thesis .
qed

lemma generate_csr_truth:
  assumes "generate_csr env sw name settings s = (Inl e, s')"
  shows "exn_class e = CSRGenerationError \<or> \<not> isinstance e Exception \<or> unchanged_since s s'"
proof -
  define s1 where "s1 = s\<lparr>csr_creation_attempted := False\<rparr>"
  have same: "unchanged_since s t = unchanged_since s1 t" for t
    by (simp add: appends_def s1_def)
  have start: "untouched_unless_attempted s1 s1" by (simp add: untouched_unless_attempted_def)
  have keep: "keeps (untouched_unless_attempted s1)
      (ssh_connection env sw (generate_csr_session env sw n settings))" for n
    by (intro keeps_ssh_connection keeps_generate_session closed_under_weaken [OF untouched_closed])
       (simp add: session_action_unchanging)
  from assms consider "s' = s"
    | n e1 s2 where "ssh_connection env sw (generate_csr_session env sw n settings) s1 = (Inl e1, s2)"
        "generate_csr_failed e1 s2 = (Inl e :: string res, s')"
    by (auto simp: generate_csr_def run_failure run_success s1_def)
  then show ?thesis
  proof cases
    case 1
    then show ?thesis by simp
  next
    case 2
    from keepsD [OF keep start 2(1)] have "untouched_unless_attempted s1 s2" .
    with generate_csr_failed_class [OF 2(2)] show ?thesis
      by (auto simp: same untouched_unless_attempted_def)
  qed
qed

text \<open>
  C10.  Generating a CSR reports truthfully: when it fails with an ordinary exception other than
  \<^verbatim>\<open>CSRGenerationError\<close>, no command that can change the switch was sent, whatever the switch, the
  files and the terminal answered; and the text it returns is a CSR that passed validation.
\<close>

theorem generate_csr_truthful:
  "case generate_csr env sw name settings s of
     (Inl e, s') \<Rightarrow> exn_class e = CSRGenerationError \<or> \<not> isinstance e Exception \<or> unchanged_since s s'
   | (Inr pem, s') \<Rightarrow> \<exists>csr. validate_csr_pem (crypto_lib env) pem sw settings = Inr csr"
  using generate_csr_truth generate_csr_valid
  by (cases "generate_csr env sw name settings s", cases "fst (generate_csr env sw name settings s)")
     fastforce+

theorem generate_csr_truthful_witness:
  "\<exists>e s'. generate_csr lock_env sample_switch '''' JNull start_state = (Inl e, s') \<and>
     exn_class e = ValueError \<and> unchanged_since start_state s'"
proof -
  have "\<not> fullmatch identifier_re ''''" by code_simp
  then obtain e s' where run: "generate_csr lock_env sample_switch '''' JNull start_state = (Inl e, s')"
      "exn_class e = ValueError"
    by (simp add: generate_csr_def validate_cli_identifier_def bind_def lift_def)
  with generate_csr_truthful [where env = lock_env and sw = sample_switch and name = "''''" and
      settings = JNull and s = start_state] show ?thesis
    by (simp add: isinstance_def)
qed

end
