(* ===== verification/InstallDialogue.thy ===== *)
theory InstallDialogue
  imports SwitchOperations
begin

text \<open>
  The certificate installation of \<^verbatim>\<open>src/aruba_cert_renewer.py\<close> (\<^verbatim>\<open>install_signed_certificate\<close>,
  \<^verbatim>\<open>install_pending_certificate\<close>) against a state machine: which message may follow which answer
  of the switch, and what its errors say of what was sent.
\<close>

section \<open>The installation dialogue\<close>

text \<open>
  The dialogue as a state machine over the events of the trace.  The install command may be sent
  only when idle; the PEM text only after the paste prompt; the confirmation only after the
  replacement prompt.  A wrong answer leaves no further step.
\<close>

datatype phase = Idle | PasteReady | ReplaceReady | Confirmed | Stuck

fun prompted :: "string \<Rightarrow> reply \<Rightarrow> bool" where
  "prompted prompt (Text t) = ends_with_expected_prompt t prompt"
| "prompted prompt _ = False"

inductive dialogue :: "string \<Rightarrow> phase \<Rightarrow> event \<Rightarrow> phase \<Rightarrow> bool" for pem :: string where
  dialogue_other: "\<not> changes_switch a \<Longrightarrow> dialogue pem p (a, r) p"
| dialogue_create:
    "c \<noteq> INSTALL_COMMAND \<Longrightarrow> c \<noteq> ''y'' \<Longrightarrow> dialogue pem Idle (SendCommandTiming c n, r) Idle"
| dialogue_install: "dialogue pem Idle (SendCommandTiming INSTALL_COMMAND n, r)
     (if prompted CERTIFICATE_PASTE_PROMPT r then PasteReady else Stuck)"
| dialogue_paste: "dialogue pem PasteReady (SendPem pem n, r)
     (if prompted CERTIFICATE_REPLACEMENT_PROMPT r then ReplaceReady else Stuck)"
| dialogue_confirm: "dialogue pem ReplaceReady (SendCommandTiming ''y'' n, r) Confirmed"

inductive_cases dialogue_yE: "dialogue pem p (SendCommandTiming ''y'' n, r) q"
inductive_cases dialogue_pemE: "dialogue pem p (SendPem x n, r) q"

inductive dialogues :: "string \<Rightarrow> event list \<Rightarrow> phase \<Rightarrow> bool" for pem :: string where
  dialogues_start: "dialogues pem [] Idle"
| dialogues_step: "dialogues pem evs p \<Longrightarrow> dialogue pem p ev q \<Longrightarrow> dialogues pem (evs @ [ev]) q"

inductive_cases dialogues_snocE: "dialogues pem (evs @ [ev]) q"

lemma dialogues_prefix: "dialogues pem (evs @ rest) q \<Longrightarrow> \<exists>p. dialogues pem evs p"
proof (induction rest arbitrary: q rule: rev_induct)
  case (snoc ev rest)
  from snoc.prems have "dialogues pem ((evs @ rest) @ [ev]) q" by simp
  then obtain p where "dialogues pem (evs @ rest) p" by (auto elim: dialogues.cases)
  with snoc.IH show ?case by blast
qed auto

lemma dialogues_at: "dialogues pem (evs @ ev # rest) q \<Longrightarrow>
    \<exists>p p'. dialogues pem evs p \<and> dialogue pem p ev p'"
  using dialogues_prefix [of pem "evs @ [ev]" rest q] by (auto elim!: dialogues_snocE)

text \<open>What the machine means: the event that led into a phase, with its prompt.\<close>

definition entered_by :: "string \<Rightarrow> event list \<Rightarrow> phase \<Rightarrow> bool" where
  "entered_by pem evs p =
     (case p of
        PasteReady \<Rightarrow> \<exists>pre n t post. evs = pre @ (SendCommandTiming INSTALL_COMMAND n, Text t) # post \<and>
          ends_with_expected_prompt t CERTIFICATE_PASTE_PROMPT \<and>
          list_all (\<lambda>ev. \<not> changes_switch (fst ev)) post
      | ReplaceReady \<Rightarrow> \<exists>pre n t post. evs = pre @ (SendPem pem n, Text t) # post \<and>
          ends_with_expected_prompt t CERTIFICATE_REPLACEMENT_PROMPT \<and>
          list_all (\<lambda>ev. \<not> changes_switch (fst ev)) post
      | _ \<Rightarrow> True)"

lemma entered_by_other: "entered_by pem evs p \<Longrightarrow> \<not> changes_switch a \<Longrightarrow> entered_by pem (evs @ [(a, r)]) p"
  by (cases p) (fastforce simp: entered_by_def)+

lemma prompted_Text: "prompted prompt r \<Longrightarrow> \<exists>t. r = Text t \<and> ends_with_expected_prompt t prompt"
  by (cases r) auto

lemma dialogues_entered: "dialogues pem evs p \<Longrightarrow> entered_by pem evs p"
proof (induction rule: dialogues.induct)
  case dialogues_start
  then show ?case by (simp add: entered_by_def)
next
  case (dialogues_step evs p ev q)
  from dialogues_step(2) show ?case
  proof cases
    case (dialogue_other a r)
    with dialogues_step(3) show ?thesis by (simp add: entered_by_other)
  next
    case (dialogue_install n r)
    then show ?thesis using prompted_Text [of CERTIFICATE_PASTE_PROMPT r]
      by (force simp: entered_by_def)
  next
    case (dialogue_paste n r)
    then show ?thesis using prompted_Text [of CERTIFICATE_REPLACEMENT_PROMPT r]
      by (force simp: entered_by_def)
  qed (auto simp: entered_by_def)
qed

definition in_phase :: "string \<Rightarrow> 'w st \<Rightarrow> phase \<Rightarrow> 'w st \<Rightarrow> bool" where
  "in_phase pem s0 p s = (\<exists>evs. trace s = trace s0 @ evs \<and> dialogues pem evs p)"

definition obeys :: "string \<Rightarrow> 'w st \<Rightarrow> 'w st \<Rightarrow> bool" where
  "obeys pem s0 s = (\<exists>p. in_phase pem s0 p s)"

lemma in_phase_step:
  "in_phase pem s0 p s \<Longrightarrow> dialogue pem p ev q \<Longrightarrow> in_phase pem s0 q (record_event ev (s\<lparr>world := w\<rparr>))"
  by (auto simp: in_phase_def intro: dialogues_step)

lemma in_phase_start: "in_phase pem s0 Idle s0"
  by (auto simp: in_phase_def intro: dialogues_start)

lemma in_phase_closed: "closed_under (\<lambda>a. \<not> changes_switch a) (in_phase pem s0 p)"
  by (auto simp: closed_under_def intro: in_phase_step dialogue_other)

lemma obeys_closed: "closed_under (\<lambda>a. \<not> changes_switch a) (obeys pem s0)"
  using in_phase_closed by (fastforce simp: closed_under_def obeys_def)

lemma obeysI: "in_phase pem s0 p s \<Longrightarrow> obeys pem s0 s"
  by (auto simp: obeys_def)

lemma step_any:
  "in_phase pem s0 Idle s \<Longrightarrow>
     obeys pem s0 (record_event (SendCommandTiming INSTALL_COMMAND n, r) (s\<lparr>world := w\<rparr>))"
  "in_phase pem s0 PasteReady s \<Longrightarrow> obeys pem s0 (record_event (SendPem pem n, r) (s\<lparr>world := w\<rparr>))"
  "in_phase pem s0 ReplaceReady s \<Longrightarrow>
     in_phase pem s0 Confirmed (record_event (SendCommandTiming ''y'' n, r) (s\<lparr>world := w\<rparr>))"
  by (blast intro: obeysI in_phase_step dialogue_install dialogue_paste dialogue_confirm)+

lemma step_prompted:
  "in_phase pem s0 Idle s \<Longrightarrow> ends_with_expected_prompt t CERTIFICATE_PASTE_PROMPT \<Longrightarrow>
     in_phase pem s0 PasteReady (record_event (SendCommandTiming INSTALL_COMMAND n, Text t) (s\<lparr>world := w\<rparr>))"
  "in_phase pem s0 PasteReady s \<Longrightarrow> ends_with_expected_prompt t CERTIFICATE_REPLACEMENT_PROMPT \<Longrightarrow>
     in_phase pem s0 ReplaceReady (record_event (SendPem pem n, Text t) (s\<lparr>world := w\<rparr>))"
  using dialogue_install [of pem n "Text t"] dialogue_paste [of pem n "Text t"]
  by (auto intro: in_phase_step)

text \<open>A message and its check: any answer obeys the machine, success leads to the next phase.\<close>

lemma request_paste_triple:
  "triple (in_phase pem s0 Idle) (request_paste env) (\<lambda>_. in_phase pem s0 PasteReady) (\<lambda>_. obeys pem s0)"
  by (rule tripleI, rename_tac s r s', case_tac r)
     (auto simp: request_paste_def send_command_timing_def run_success run_failure
      intro: step_any step_prompted)

lemma paste_certificate_triple:
  "triple (in_phase pem s0 PasteReady) (paste_certificate env pem) (\<lambda>_. in_phase pem s0 ReplaceReady)
     (\<lambda>_. obeys pem s0)"
  by (rule tripleI, rename_tac s r s', case_tac r)
     (auto simp: paste_certificate_def send_certificate_pem_def run_success run_failure
      intro: step_any step_prompted)

lemma confirm_replacement_triple:
  "triple (in_phase pem s0 ReplaceReady) (confirm_replacement env) (\<lambda>_. in_phase pem s0 Confirmed)
     (\<lambda>_. obeys pem s0)"
  by (rule tripleI, rename_tac s r s', case_tac r)
     (auto simp: confirm_replacement_def send_command_timing_def run_success run_failure
      intro: step_any obeysI)

lemma installation_dialogue_triple:
  "triple (in_phase pem s0 Idle) (installation_dialogue env pem) (\<lambda>_. in_phase pem s0 Confirmed)
     (\<lambda>_. obeys pem s0)"
  unfolding installation_dialogue_def
  by (rule triple_seq [OF request_paste_triple] triple_seq [OF paste_certificate_triple]
      triple_seq [OF confirm_replacement_triple] triple_modify)+ (simp add: in_phase_def)

text \<open>The whole installation obeys the machine.\<close>

lemma keeps_summary:
  "closed_under P J \<Longrightarrow> (\<And>n. P (SendCommand SUMMARY_COMMAND n)) \<Longrightarrow> keeps J (show_summary env)"
  unfolding show_summary_def send_command_def by (intro keeps_intros keeps_actions)

lemma keeps_leave_installation:
  assumes "closed_under (\<lambda>a. \<not> changes_switch a) J"
  shows "keeps J (leave_installation env)"
  unfolding leave_installation_def by (intro keeps_intros keeps_commands [OF assms]) auto

lemma keeps_confirm_installation:
  assumes "closed_under (\<lambda>a. \<not> changes_switch a) J"
  shows "keeps J (confirm_installation env name profile)"
  unfolding confirm_installation_def send_command_def
  by (intro keeps_intros keeps_summary [OF assms] keeps_actions [OF assms]) auto

lemma begin_installation_triple:
  "triple (in_phase pem s0 Idle) (begin_installation env name pem profile)
     (\<lambda>_. in_phase pem s0 Confirmed) (\<lambda>_. obeys pem s0)"
  unfolding begin_installation_def
  by (intro triple_bind_keeps triple_seq_keeps keeps_summary [OF in_phase_closed]
      keeps_commands [OF in_phase_closed] keeps_modify keeps_pure installation_dialogue_triple)
     (auto simp: in_phase_def intro: obeysI)

lemma keeps_installation_failed: "keeps J (installation_failed e)"
  unfolding installation_failed_def by (intro keeps_intros)

lemma keeps_verification_failed: "keeps J (verification_failed e)"
  unfolding verification_failed_def by (intro keeps_intros)

lemma install_signed_obeys:
  "triple (in_phase pem s0 Idle) (install_signed_certificate env name pem profile)
     (\<lambda>_. in_phase pem s0 Confirmed) (\<lambda>_. obeys pem s0)"
  unfolding install_signed_certificate_def
proof (rule triple_seq [OF triple_modify])
  show "in_phase pem s0 Idle s \<Longrightarrow> in_phase pem s0 Idle (s\<lparr>installation_attempted := False,
      installation_dialogue_completed := False, entered_config_mode := False\<rparr>)" for s :: "'a st"
    by (simp add: in_phase_def)
  have leave: "keeps J (leave_installation env)"
    if "closed_under (\<lambda>a. \<not> changes_switch a) J" for J
    using that by (rule keeps_leave_installation)
  have failed: "triple (obeys pem s0) (installation_failed e) B (\<lambda>_. obeys pem s0)"
    for e and B :: "unit \<Rightarrow> 'a st \<Rightarrow> bool"
    by (rule triple_raises) (simp_all add: keeps_installation_failed)
  have "triple (in_phase pem s0 Idle) (try_except (begin_installation env name pem profile) installation_failed)
      (\<lambda>_. in_phase pem s0 Confirmed) (\<lambda>_. obeys pem s0)"
    by (rule triple_try_except [OF begin_installation_triple failed])
  then have "triple (in_phase pem s0 Idle) (try_finally
        (try_except (begin_installation env name pem profile) installation_failed)
        (\<lambda>failed. leave_installation env)) (\<lambda>_. in_phase pem s0 Confirmed) (\<lambda>_. obeys pem s0)"
    by (rule triple_try_finally)
       (auto intro!: triple_keeps leave in_phase_closed obeys_closed intro: obeysI)
  then show "triple (in_phase pem s0 Idle) (seq (try_finally
        (try_except (begin_installation env name pem profile) installation_failed)
        (\<lambda>failed. leave_installation env))
       (try_except (confirm_installation env name profile) verification_failed))
     (\<lambda>_. in_phase pem s0 Confirmed) (\<lambda>_. obeys pem s0)"
    by (rule triple_seq)
       (auto intro!: triple_keeps keeps_try_except keeps_verification_failed
          keeps_confirm_installation in_phase_closed intro: obeysI)
qed


section \<open>The session around the installation\<close>

lemma in_phase_progress: "keeps (in_phase pem s0 p) (report_progress b ev)"
  by (rule keeps_progress) (simp add: in_phase_def)

lemma in_phase_session: "closed_under session_action (in_phase pem s0 p)"
  by (rule closed_under_weaken [OF in_phase_closed]) (rule session_action_unchanging)

lemma obeys_session: "closed_under session_action (obeys pem s0)"
  by (rule closed_under_weaken [OF obeys_closed]) (rule session_action_unchanging)

lemma keeps_install_pending_failed: "keeps J (install_pending_failed e)"
  unfolding install_pending_failed_def by (intro keeps_intros)

lemma install_session_obeys:
  "triple (in_phase pem s0 Idle)
     (install_session env progress sw name pem settings lifetime snapshot digest remaining)
     (\<lambda>_. in_phase pem s0 Confirmed) (\<lambda>_. obeys pem s0)"
  unfolding install_session_def
  by (intro triple_bind_keeps triple_seq_keeps keeps_summary [OF in_phase_closed] in_phase_progress
      keeps_retrieve_and_validate [OF in_phase_closed] keeps_pure keeps_observe
      triple_seq [OF install_signed_obeys] triple_seq [OF triple_modify] triple_ret)
     (auto simp: in_phase_def intro: obeysI)

lemma install_pending_obeys:
  "triple (in_phase pem s0 Idle)
     (install_pending_certificate env progress sw name pem settings lifetime snapshot digest remaining)
     (\<lambda>_. in_phase pem s0 Confirmed) (\<lambda>_. obeys pem s0)"
proof -
  have failed: "triple (obeys pem s0) (install_pending_failed e) B (\<lambda>_. obeys pem s0)"
    for e and B :: "certificate \<Rightarrow> 'a st \<Rightarrow> bool"
    by (rule triple_raises) (simp_all add: keeps_install_pending_failed)
  have session: "triple (in_phase pem s0 Idle)
      (ssh_connection env sw
        (install_session env progress sw n pem settings lifetime snapshot digest remaining))
      (\<lambda>_. in_phase pem s0 Confirmed) (\<lambda>_. obeys pem s0)" for n
    by (rule triple_ssh_connection [OF in_phase_session in_phase_session obeys_session
          install_session_obeys obeysI obeysI])
  show ?thesis
    unfolding install_pending_certificate_def
    by (intro triple_bind_keeps keeps_pure triple_seq_keeps keeps_modify
        triple_try_except [OF session failed])
       (auto simp: in_phase_def intro: obeysI)
qed

text \<open>
  C5.  An installation follows the dialogue machine, whatever the switch answers at every point: the
  PEM text is sent only directly after the install command was answered with the paste prompt, the
  confirmation only directly after the PEM text was answered with the replacement prompt, nothing
  is sent twice, and an installation that succeeds has sent the confirmation.
\<close>

theorem install_pending_follows_dialogue:
  "case install_pending_certificate env progress sw name pem settings lifetime snapshot digest remaining s of
     (r, s') \<Rightarrow> \<exists>evs p. trace s' = trace s @ evs \<and> dialogues pem evs p \<and> entered_by pem evs p \<and>
       (isl r \<or> p = Confirmed)"
proof (cases "install_pending_certificate env progress sw name pem settings lifetime snapshot digest
    remaining s")
  case (Pair r s')
  from tripleD [OF install_pending_obeys in_phase_start Pair]
  have "\<exists>p. in_phase pem s p s' \<and> (isl r \<or> p = Confirmed)"
    by (cases r) (auto simp: obeys_def)
  with Pair show ?thesis by (auto simp: in_phase_def intro: dialogues_entered)
qed

text \<open>What the machine says of a confirmation in a trace.\<close>

lemma confirmation_was_prompted:
  assumes "dialogues pem (evs @ (SendCommandTiming ''y'' n, r) # rest) q"
  shows "\<exists>pre m t mid. evs = pre @ (SendPem pem m, Text t) # mid \<and>
    ends_with_expected_prompt t CERTIFICATE_REPLACEMENT_PROMPT \<and>
    list_all (\<lambda>ev. \<not> changes_switch (fst ev)) mid"
proof -
  obtain p p' where "dialogues pem evs p" and step: "dialogue pem p (SendCommandTiming ''y'' n, r) p'"
    using dialogues_at [OF assms] by blast
  from step have "p = ReplaceReady" by (rule dialogue_yE) (simp_all add: INSTALL_COMMAND_def)
  with dialogues_entered [OF \<open>dialogues pem evs p\<close>] show ?thesis by (auto simp: entered_by_def)
qed

section \<open>Only a validated certificate is sent\<close>

text \<open>A property of the outcome of a pure check may be used after it.\<close>

lemma keeps_bind_lift: "(\<And>x. v = Inr x \<Longrightarrow> keeps J (f x)) \<Longrightarrow> keeps J (bind (lift v) f)"
  by (rule keepsI, cases v) (auto simp: effect_simps keeps_post)

definition unsent_unless :: "bool \<Rightarrow> 'w st \<Rightarrow> 'w st \<Rightarrow> bool" where
  "unsent_unless b s0 s = (b \<or> unchanged_since s0 s)"

lemma unsent_unless_closed: "closed_under (\<lambda>a. \<not> changes_switch a) (unsent_unless b s0)"
  using appends_closed [of "\<lambda>a. \<not> changes_switch a" s0]
  by (simp add: closed_under_def unsent_unless_def record_event_def)

lemma keeps_sent: "b \<Longrightarrow> keeps (unsent_unless b s0) m"
  by (simp add: keeps_def unsent_unless_def post_def split: prod.split)

definition validated_for ::
  "'w env \<Rightarrow> switch \<Rightarrow> string \<Rightarrow> json \<Rightarrow> int \<Rightarrow> ca_snapshot \<Rightarrow> string \<Rightarrow> int option \<Rightarrow> bool" where
  "validated_for env sw pem settings lifetime snapshot digest remaining =
     (\<exists>csr_pem csr cert now now'.
        validate_csr_pem (crypto_lib env) csr_pem sw settings = Inr csr \<and>
        validate_issued_certificate (crypto_lib env) pem csr sw lifetime digest now False remaining = Inr cert \<and>
        verify_issued_certificate_trust (crypto_lib env) cert sw snapshot = Inr () \<and>
        require_current_certificate_validity cert now' remaining = Inr ())"

lemma keeps_unsent_progress: "keeps (unsent_unless b s0) (report_progress p ev)"
  by (rule keeps_progress) (simp add: unsent_unless_def appends_def)

text \<open>The four checks together are what \<open>validated_for\<close> says, and allow anything to be sent.\<close>

lemma keeps_validated:
  "validate_csr_pem (crypto_lib env) csr_pem sw settings = Inr csr \<Longrightarrow>
   validate_issued_certificate (crypto_lib env) pem csr sw lifetime digest now False remaining = Inr cert \<Longrightarrow>
   verify_issued_certificate_trust (crypto_lib env) cert sw snapshot = Inr () \<Longrightarrow>
   require_current_certificate_validity cert now' remaining = Inr () \<Longrightarrow>
     keeps (unsent_unless (validated_for env sw pem settings lifetime snapshot digest remaining) s0) m"
  by (rule keeps_sent) (auto simp: validated_for_def)

lemma keeps_install_session_unsent:
  "keeps (unsent_unless (validated_for env sw pem settings lifetime snapshot digest remaining) s0)
     (install_session env progress sw name pem settings lifetime snapshot digest remaining)"
  unfolding install_session_def
  by (intro keeps_bind_lift keeps_bind keeps_seq keeps_summary [OF unsent_unless_closed]
      keeps_unsent_progress keeps_retrieve_and_validate [OF unsent_unless_closed] keeps_observe)
     (auto intro: keeps_validated)

lemma keeps_install_pending_unsent:
  "keeps (unsent_unless (validated_for env sw pem settings lifetime snapshot digest remaining) s0)
     (install_pending_certificate env progress sw name pem settings lifetime snapshot digest remaining)"
  unfolding install_pending_certificate_def
  by (intro keeps_bind keeps_seq keeps_pure keeps_modify keeps_try_except keeps_install_pending_failed
      keeps_ssh_connection keeps_install_session_unsent
      closed_under_weaken [OF unsent_unless_closed] session_action_unchanging)
     (simp_all add: unsent_unless_def appends_def)


section \<open>The error says whether the switch may have changed\<close>

text \<open>
  An ordinary error that is no \<^verbatim>\<open>CertificateInstallationAttemptError\<close> claims that nothing was sent.
\<close>

definition truthful :: "'w st \<Rightarrow> exn \<Rightarrow> 'w st \<Rightarrow> bool" where
  "truthful s0 e s = (exn_class e = CertificateInstallationAttemptError \<or> \<not> isinstance e Exception \<or>
     unchanged_since s0 s)"

lemma truthful_closed: "closed_under (\<lambda>a. \<not> changes_switch a) (truthful s0 e)"
  using appends_closed [of "\<lambda>a. \<not> changes_switch a" s0]
  by (auto simp: closed_under_def truthful_def record_event_def)

lemma attempt_error_class [simp]: "exn_class (attempt_error t) = CertificateInstallationAttemptError"
  by (simp add: attempt_error_def)

lemma truthful_attempt: "truthful s0 (attempt_error t) s"
  by (simp add: truthful_def)

lemma flags_closed:
  "closed_under P installation_attempted" "closed_under P installation_dialogue_completed"
  "closed_under P installation_completed" "closed_under P (\<lambda>s. \<not> installation_attempted s)"
  by (simp_all add: closed_under_def record_event_def)

lemma closed_under_conj: "closed_under P J \<Longrightarrow> closed_under P K \<Longrightarrow> closed_under P (\<lambda>s. J s \<and> K s)"
  by (simp add: closed_under_def)

lemma closed_under_disj: "closed_under P J \<Longrightarrow> closed_under P K \<Longrightarrow> closed_under P (\<lambda>s. J s \<or> K s)"
  by (auto simp: closed_under_def)

definition untouched :: "'w st \<Rightarrow> 'w st \<Rightarrow> bool" where
  "untouched s0 s = (unchanged_since s0 s \<and> \<not> installation_attempted s)"

lemma untouched_only: "closed_under (\<lambda>a. \<not> changes_switch a) (untouched s0)"
  unfolding untouched_def by (intro closed_under_conj appends_closed flags_closed)

lemma keeps_dialogue_attempted: "keeps installation_attempted (installation_dialogue env pem)"
  unfolding installation_dialogue_def request_paste_def paste_certificate_def confirm_replacement_def
  by (intro keeps_intros keeps_mutations flags_closed keeps_modify) simp

lemma begin_installation_truth:
  "triple (untouched s0) (begin_installation env name pem profile)
     (\<lambda>_. installation_dialogue_completed) (\<lambda>_ s. installation_attempted s \<or> unchanged_since s0 s)"
proof -
  have dialogue: "triple installation_attempted (installation_dialogue env pem)
      (\<lambda>_. installation_dialogue_completed) (\<lambda>_ s. installation_attempted s \<or> unchanged_since s0 s)"
    unfolding installation_dialogue_def request_paste_def paste_certificate_def confirm_replacement_def
    by (intro triple_seq_keeps keeps_intros keeps_mutations flags_closed triple_modify) simp_all
  show ?thesis
    unfolding begin_installation_def
    by (intro triple_bind_keeps triple_seq_keeps keeps_summary [OF untouched_only]
        keeps_commands [OF untouched_only] keeps_pure triple_seq [OF triple_modify dialogue])
       (auto simp: untouched_def)
qed

lemma installation_failed_truth:
  "triple (\<lambda>s. installation_attempted s \<or> unchanged_since s0 s) (installation_failed e) B (truthful s0)"
  unfolding installation_failed_def
  by (intro triple_gets triple_cond triple_raise)
     (auto simp: truthful_attempt, auto simp: truthful_def)

lemma leave_installation_truth:
  "triple installation_dialogue_completed (leave_installation env) (\<lambda>_ _. True) (truthful s0)"
  "triple (truthful s0 e) (leave_installation env) (\<lambda>_. truthful s0 e) (truthful s0)"
proof -
  have quit: "triple J (try_except (exit_config_mode env) (\<lambda>exit_error.
           if isinstance exit_error Exception then
             bind (gets installation_dialogue_completed) (\<lambda>completed.
               if completed then
                 raise (attempt_error (''Certificate installation may already have changed the switch, '' @
                   ''and config mode could not be exited: '' @ exn_text exit_error))
               else ret ())
           else raise exit_error)) (\<lambda>_. J) (truthful s0)"
    if "closed_under (\<lambda>a. \<not> changes_switch a) J" for J
    by (intro triple_try_except [where X = "\<lambda>_. J"] triple_keeps keeps_commands [OF that]
          triple_cond triple_gets triple_raise triple_ret)
       (auto simp: truthful_attempt, auto simp: truthful_def)
  show "triple installation_dialogue_completed (leave_installation env) (\<lambda>_ _. True) (truthful s0)"
    unfolding leave_installation_def
    by (rule triple_weaken [where A = installation_dialogue_completed and
          B = "\<lambda>_. installation_dialogue_completed" and X = "truthful s0"],
        intro triple_gets_any triple_poisoned triple_if quit flags_closed triple_ret) auto
  show "triple (truthful s0 e) (leave_installation env) (\<lambda>_. truthful s0 e) (truthful s0)"
    unfolding leave_installation_def
    by (intro triple_gets_any triple_poisoned triple_if quit truthful_closed triple_ret)
qed

lemma confirm_installation_truth:
  "triple (\<lambda>_. True) (try_except (confirm_installation env name profile) verification_failed)
     (\<lambda>_ _. True) (truthful s0)"
proof (rule triple_try_except [where X = "\<lambda>_ _. True"])
  show "triple (\<lambda>_. True) (confirm_installation env name profile) (\<lambda>_ _. True) (\<lambda>_ _. True)"
    by (simp add: triple_def post_def split: prod.split sum.split)
  show "triple (\<lambda>_. True) (verification_failed e) (\<lambda>_ _. True) (truthful s0)" for e
    unfolding verification_failed_def
    by (intro triple_cond triple_raise) (auto simp: truthful_attempt, auto simp: truthful_def isinstance_def)
qed

lemma install_signed_truth:
  "triple (unchanged_since s0) (install_signed_certificate env name pem profile)
     (\<lambda>_ _. True) (truthful s0)"
proof -
  have start: "triple (unchanged_since s0) (modify (\<lambda>s. s\<lparr>installation_attempted := False,
      installation_dialogue_completed := False, entered_config_mode := False\<rparr>))
      (\<lambda>_. untouched s0) (truthful s0)"
    by (rule triple_modify) (simp add: untouched_def appends_def)
  have dialogue: "triple (untouched s0) (try_finally
        (try_except (begin_installation env name pem profile) installation_failed)
        (\<lambda>failed. leave_installation env)) (\<lambda>_ _. True) (truthful s0)"
    by (rule triple_try_finally [OF triple_try_except [OF begin_installation_truth
          installation_failed_truth] leave_installation_truth])
  show ?thesis
    unfolding install_signed_certificate_def
    by (rule triple_seq [OF start triple_seq [OF dialogue confirm_installation_truth]])
qed

definition attempt_truth :: "'w st \<Rightarrow> exn \<Rightarrow> 'w st \<Rightarrow> bool" where
  "attempt_truth s0 e s = (truthful s0 e s \<or> installation_completed s)"

lemma session_closed:
  "closed_under session_action (unchanged_since s0)" "closed_under session_action installation_completed"
  "closed_under session_action (truthful s0 e)" "closed_under session_action (attempt_truth s0 e)"
  unfolding attempt_truth_def
  by (intro closed_under_disj closed_under_weaken [OF truthful_closed] closed_under_weaken [OF appends_closed]
      flags_closed; simp add: session_action_unchanging)+

lemma install_session_truth:
  "triple (unchanged_since s0)
     (install_session env progress sw name pem settings lifetime snapshot digest remaining)
     (\<lambda>_. installation_completed) (attempt_truth s0)"
proof -
  have signed: "triple (unchanged_since s0) (install_signed_certificate env name pem profile)
      (\<lambda>_ _. True) (attempt_truth s0)" for profile
    by (rule triple_weaken [OF install_signed_truth]) (auto simp: attempt_truth_def)
  show ?thesis
    unfolding install_session_def
    by (intro triple_bind_keeps triple_seq_keeps keeps_summary [OF appends_closed] keeps_trace_progress
        keeps_retrieve_and_validate [OF appends_closed] keeps_pure keeps_observe
        triple_seq [OF signed] triple_seq [OF triple_modify [where B = "\<lambda>_. installation_completed"]]
        triple_ret)
       (auto simp: attempt_truth_def truthful_def)
qed

lemma netmiko_exception:
  "isinstance e NetmikoAuthenticationException \<Longrightarrow> isinstance e Exception"
  "isinstance e NetmikoTimeoutException \<Longrightarrow> isinstance e Exception"
  "isinstance e ValueError \<Longrightarrow> isinstance e Exception" "isinstance e OSError \<Longrightarrow> isinstance e Exception"
  "isinstance e CertificateInstallationAttemptError \<longleftrightarrow> exn_class e = CertificateInstallationAttemptError"
  by (cases "exn_class e"; simp add: isinstance_def)+

lemma install_pending_failed_truth:
  "triple (attempt_truth s0 e) (install_pending_failed e) B (truthful s0)"
  unfolding install_pending_failed_def
  by (intro triple_cond triple_gets triple_raise)
     (auto simp: truthful_attempt fail_def attempt_truth_def truthful_def netmiko_exception triple_def effect_simps)

lemma install_pending_truth:
  assumes "closes_quietly env"
    and "install_pending_certificate env progress sw name pem settings lifetime snapshot digest remaining s =
      (Inl e, s')"
  shows "exn_class e = CertificateInstallationAttemptError \<or> \<not> isinstance e Exception \<or> unchanged_since s s'"
proof -
  have session: "triple (unchanged_since s) (ssh_connection env sw
      (install_session env progress sw n pem settings lifetime snapshot digest remaining))
      (\<lambda>_. installation_completed) (attempt_truth s)" for n
    by (rule triple_quiet_session [OF assms(1) session_closed(1,2,4) install_session_truth])
       (auto simp: attempt_truth_def truthful_def)
  have "triple (unchanged_since s)
      (install_pending_certificate env progress sw name pem settings lifetime snapshot digest remaining)
      (\<lambda>_ _. True) (truthful s)"
    unfolding install_pending_certificate_def
    by (intro triple_bind_keeps triple_seq_keeps keeps_pure keeps_modify
        triple_try_except [OF triple_weaken [OF session] install_pending_failed_truth])
       (auto simp: truthful_def appends_def)
  from tripleD [OF this appends_refl assms(2)] show ?thesis by (simp add: truthful_def)
qed

text \<open>
  C9.  When closing the session is quiet, an installation reports truthfully: if it fails with an
  ordinary exception other than \<^verbatim>\<open>CertificateInstallationAttemptError\<close>, nothing that can change the
  switch was sent, whatever the switch answered and wherever the failure came from.
\<close>

theorem install_pending_truthful:
  assumes "closes_quietly env"
    and "install_pending_certificate env progress sw name pem settings lifetime snapshot digest remaining s =
      (Inl e, s')"
  shows "exn_class e = CertificateInstallationAttemptError \<or> \<not> isinstance e Exception \<or> unchanged_since s s'"
  using assms by (rule install_pending_truth)

theorem install_pending_truthful_witness:
  "\<exists>e s'. install_pending_certificate lock_env False sample_switch '''' ''pem'' JNull 90
       \<lparr>ca_path = ''ca'', ca_pem = ''''\<rparr> ''sha256'' None start_state = (Inl e, s') \<and>
     exn_class e = ValueError \<and> unchanged_since start_state s'"
proof -
  have quiet: "closes_quietly lock_env" by (simp add: closes_quietly_def lock_env_def)
  have "\<not> fullmatch identifier_re ''''" by code_simp
  then obtain e s' where run: "install_pending_certificate lock_env False sample_switch '''' ''pem'' JNull 90
      \<lparr>ca_path = ''ca'', ca_pem = ''''\<rparr> ''sha256'' None start_state = (Inl e, s')"
      and cls: "exn_class e = ValueError"
    by (simp add: install_pending_certificate_def validate_cli_identifier_def bind_def lift_def)
  with install_pending_truthful [OF quiet run] show ?thesis by (simp add: isinstance_def)
qed

text \<open>
  Without the hypothesis the claim is false: an error of \<^verbatim>\<open>disconnect\<close> replaces the
  \<^verbatim>\<open>CertificateInstallationAttemptError\<close> of the body, and as the installation did not complete,
  the handler passes it on as an ordinary failure.
\<close>

lemma disconnect_masks_attempt:
  assumes "body s = (Inl (attempt_error t), s1)" and "\<not> installation_completed s1"
    and "answer_text env Disconnect (world s1) = (Inl d, w)" and "exn_class d = OSError"
  shows "\<exists>s2. try_except (try_finally body (\<lambda>failed. act_unit env Disconnect)) install_pending_failed s =
    (Inl d, s2)"
  using assms
  by (simp add: try_finally_def try_except_def act_unit_def act_text_def act_def bind_def gets_def raise_def
      install_pending_failed_def isinstance_def record_event_def isinstance_any_def)

end
