(* ===== verification/LiveHttps.thy ===== *)
theory LiveHttps
  imports Triples
begin

text \<open>
  The live check of \<^verbatim>\<open>src/aruba_cert_renewer.py\<close> after an installation: \<^verbatim>\<open>verify_live_https_certificate\<close>
  with its resolver, the connection to each address, and the retry loop up to a deadline.

  The monotonic clock counts milliseconds; window, delay and timeout are whole seconds, as the
  constants of the program are.  An address is the text the resolver sent for it.
\<close>

definition HTTPS_VERIFICATION_WINDOW_SECONDS :: int where "HTTPS_VERIFICATION_WINDOW_SECONDS = 30"
definition HTTPS_RETRY_DELAY_SECONDS :: int where "HTTPS_RETRY_DELAY_SECONDS = 2"
definition HTTPS_SOCKET_TIMEOUT_SECONDS :: int where "HTTPS_SOCKET_TIMEOUT_SECONDS = 5"
definition HTTPS_RESOLVER_CLEANUP_MS :: int where "HTTPS_RESOLVER_CLEANUP_MS = 100"

definition https_error :: "string \<Rightarrow> exn" where
  "https_error t = new_exn ValueError t"

definition monotonic :: "'w env \<Rightarrow> ('w, int) io" where
  "monotonic env = act_num env ReadClock"

section \<open>Connecting\<close>

text \<open>The error numbers of Linux: refused, reset, aborted, network and host unreachable, timed out.\<close>

definition retryable_errnos :: "int list" where
  "retryable_errnos = [111, 104, 103, 101, 113, 110]"

definition is_retryable_live_https_error :: "exn \<Rightarrow> bool" where
  "is_retryable_live_https_error error =
     (isinstance_any error [ConnectionError, TimeoutError] \<or>
      (case exn_errno error of None \<Rightarrow> False | Some n \<Rightarrow> n \<in> set retryable_errnos))"

definition live_https_timeout :: "'w env \<Rightarrow> int \<Rightarrow> int \<Rightarrow> ('w, int) io" where
  "live_https_timeout env deadline socket_timeout =
     bind (monotonic env) (\<lambda>now.
       if deadline - now \<le> 0 then raise (new_exn TimeoutError '''')
       else ret (min (1000 * socket_timeout) (deadline - now)))"

text \<open>One address: connect, handshake, and the certificate the peer presented.\<close>

definition read_leaf_at :: "'w env \<Rightarrow> string \<Rightarrow> int \<Rightarrow> int \<Rightarrow> string \<Rightarrow> ('w, string) io" where
  "read_leaf_at env host deadline socket_timeout address =
     seq (act_unit env (OpenSocket address))
    (bind (live_https_timeout env deadline socket_timeout) (\<lambda>timeout.
     seq (act_unit env (ConnectPeer address timeout))
    (bind (live_https_timeout env deadline socket_timeout) (\<lambda>timeout.
     bind (act_text env (TlsHandshake host timeout)) (\<lambda>peer_der.
     bind (live_https_timeout env deadline socket_timeout) (\<lambda>_.
       ret peer_der))))))"

fun read_live_https_leaf ::
  "'w env \<Rightarrow> string \<Rightarrow> int \<Rightarrow> int \<Rightarrow> exn option \<Rightarrow> string list \<Rightarrow> ('w, string) io" where
  "read_live_https_leaf env host deadline socket_timeout last_error [] =
     raise (case last_error of None \<Rightarrow> new_exn TimeoutError '''' | Some e \<Rightarrow> e)"
| "read_live_https_leaf env host deadline socket_timeout last_error (address # addresses) =
     bind (outcome_of (read_leaf_at env host deadline socket_timeout address)) (\<lambda>outcome.
       case outcome of
         Inr peer_der \<Rightarrow> ret peer_der
       | Inl error \<Rightarrow>
           if isinstance error SSLError \<or> \<not> isinstance error OSError \<or>
              \<not> is_retryable_live_https_error error
           then raise error
           else bind (monotonic env) (\<lambda>now.
             if deadline - now \<le> 0 then raise error
             else read_live_https_leaf env host deadline socket_timeout (Some error) addresses))"

section \<open>Resolving the host\<close>

text \<open>
  A host that is an address needs no resolver.  Otherwise a process resolves the name; it is
  asked to stop in every case once it was started.  At most 16 addresses are sent, one a line.
\<close>

definition resolution_timed_out :: exn where
  "resolution_timed_out = https_error ''Live HTTPS hostname resolution exceeded verification window''"

definition stop_resolver :: "'w env \<Rightarrow> ('w, unit) io" where
  "stop_resolver env =
     bind (act_num env StopResolver) (\<lambda>alive.
       check (alive \<noteq> 0) (https_error ''Live HTTPS hostname resolver could not stop''))"

definition receive_addresses :: "'w env \<Rightarrow> ('w, string list) io" where
  "receive_addresses env =
     bind (try_except (act_text env ReceiveAddresses)
             (\<lambda>error. if isinstance error EOFError then ret '''' else raise error)) (\<lambda>listed.
       ret (if listed = [] then [] else take 16 (split_on newline listed)))"

definition resolve_live_https_addresses :: "'w env \<Rightarrow> string \<Rightarrow> int \<Rightarrow> ('w, string list) io" where
  "resolve_live_https_addresses env host deadline =
     (if ip_address host \<noteq> None then ret [host]
      else
        bind (monotonic env) (\<lambda>now.
        seq (check (deadline - now \<le> HTTPS_RESOLVER_CLEANUP_MS) resolution_timed_out)
       (seq (on_os_error (https_error ''Live HTTPS hostname resolution could not start'')
               (act_unit env (StartResolver host)))
          (try_finally
            (bind (monotonic env) (\<lambda>now.
             bind (act_num env (PollResolver (max 0 (deadline - now - HTTPS_RESOLVER_CLEANUP_MS)))) (\<lambda>ready.
             seq (check (ready = 0) resolution_timed_out)
            (bind (receive_addresses env) (\<lambda>addresses.
             seq (check (addresses = []) (https_error ''Live HTTPS hostname resolution failed''))
            (bind (monotonic env) (\<lambda>now.
             seq (check (deadline \<le> now) resolution_timed_out)
               (ret addresses))))))))
            (\<lambda>failed. stop_resolver env)))))"

section \<open>The retry loop\<close>

datatype https_step = Verified | Stop string | Again string

definition NOT_READY :: string where "NOT_READY = ''HTTPS endpoint did not become ready''"

definition attempt_failed :: "exn \<Rightarrow> ('w, https_step) io" where
  "attempt_failed error =
     (if isinstance error SSLCertVerificationError then
        raise (https_error ''Live HTTPS certificate or hostname verification failed'')
      else if isinstance error SSLError then raise (https_error ''Live HTTPS TLS handshake failed'')
      else if isinstance error OSError then
        (if \<not> is_retryable_live_https_error error then raise (https_error ''Live HTTPS connection failed'')
         else ret (Again NOT_READY))
      else raise error)"

definition https_attempt ::
  "'w env \<Rightarrow> string list \<Rightarrow> string \<Rightarrow> string \<Rightarrow> int \<Rightarrow> int \<Rightarrow> ('w, https_step) io" where
  "https_attempt env addresses host expected_der deadline socket_timeout =
     try_except
       (bind (read_live_https_leaf env host deadline socket_timeout None addresses) (\<lambda>peer_der.
          if peer_der = expected_der then
            bind (monotonic env) (\<lambda>now.
              ret (if deadline - now \<le> 0 then Stop ''HTTPS verification deadline expired'' else Verified))
          else ret (Again ''HTTPS service presented a different valid certificate'')))
       attempt_failed"

definition https_pause :: "'w env \<Rightarrow> int \<Rightarrow> int \<Rightarrow> string \<Rightarrow> ('w, https_step) io" where
  "https_pause env deadline retry_delay last_error =
     bind (monotonic env) (\<lambda>now.
       if deadline - now \<le> 0 then ret (Stop last_error)
       else seq (act_unit env (Sleep (min (1000 * retry_delay) (deadline - now))))
              (ret (Again last_error)))"

definition https_round ::
  "'w env \<Rightarrow> string list \<Rightarrow> string \<Rightarrow> string \<Rightarrow> int \<Rightarrow> int \<Rightarrow> int \<Rightarrow> string \<Rightarrow> ('w, https_step) io" where
  "https_round env addresses host expected_der deadline retry_delay socket_timeout last_error =
     bind (monotonic env) (\<lambda>now.
       if deadline - now \<le> 0 then ret (Stop last_error)
       else bind (https_attempt env addresses host expected_der deadline socket_timeout) (\<lambda>step.
         case step of
           Again last_error \<Rightarrow> https_pause env deadline retry_delay last_error
         | Stop last_error \<Rightarrow> ret (Stop last_error)
         | Verified \<Rightarrow> ret Verified))"

text \<open>The loop, with fuel for its rounds; it returns \<open>False\<close> when the fuel runs out.\<close>

fun https_loop ::
  "nat \<Rightarrow> 'w env \<Rightarrow> string list \<Rightarrow> string \<Rightarrow> string \<Rightarrow> int \<Rightarrow> int \<Rightarrow> int \<Rightarrow> int \<Rightarrow> string \<Rightarrow> ('w, bool) io" where
  "https_loop 0 env addresses host expected_der window deadline retry_delay socket_timeout last_error =
     ret False"
| "https_loop (Suc fuel) env addresses host expected_der window deadline retry_delay socket_timeout last_error =
     bind (https_round env addresses host expected_der deadline retry_delay socket_timeout last_error) (\<lambda>step.
       case step of
         Verified \<Rightarrow> ret True
       | Stop last_error \<Rightarrow>
           raise (https_error (''Expected certificate was not verified over live HTTPS within '' @
             str_int window @ '' seconds: '' @ last_error))
       | Again last_error \<Rightarrow>
           https_loop fuel env addresses host expected_der window deadline retry_delay socket_timeout last_error)"

definition https_rounds :: "int \<Rightarrow> int \<Rightarrow> nat" where
  "https_rounds window retry_delay = nat (window div retry_delay) + 2"

definition https_tls_context :: "'w env \<Rightarrow> ca_snapshot \<Rightarrow> ('w, unit) io" where
  "https_tls_context env snapshot =
     try_except
       (seq (check (\<not> isascii (ca_pem snapshot)) (https_error ''verification.ca_file is not PEM''))
         (act_unit env (CreateTlsContext (ca_pem snapshot))))
       (\<lambda>error. if isinstance_any error [OSError, SSLError, ValueError] then
            raise (https_error (''verification.ca_file cannot be loaded as a CA file: '' @ ca_path snapshot))
          else raise error)"

definition verify_live_https ::
  "nat \<Rightarrow> 'w env \<Rightarrow> switch \<Rightarrow> ca_snapshot \<Rightarrow> certificate \<Rightarrow> int \<Rightarrow> int \<Rightarrow> int \<Rightarrow> ('w, bool) io" where
  "verify_live_https fuel env sw snapshot expected window retry_delay socket_timeout =
     seq (check (window \<le> 0) (https_error ''Invalid live HTTPS verification window''))
    (seq (check (retry_delay < 0) (https_error ''Invalid live HTTPS retry delay''))
    (seq (check (socket_timeout \<le> 0) (https_error ''Invalid live HTTPS socket timeout''))
    (bind (lift (validate_switch_signing_identity sw)) (\<lambda>identities.
     seq (https_tls_context env snapshot)
    (bind (monotonic env) (\<lambda>start.
       let deadline = start + 1000 * window; host = common_name identities
       in bind (resolve_live_https_addresses env host deadline) (\<lambda>addresses.
            https_loop fuel env addresses host (x_der expected) window deadline retry_delay
              socket_timeout NOT_READY)))))))"

text \<open>
  \<^verbatim>\<open>verify_live_https_certificate\<close> with its default arguments.  The fuel is enough (below); the
  value that stands for a loop that does not end is an exception no handler catches.
\<close>

definition unending :: exn where
  "unending = new_exn BaseException ''the retry loop did not end''"

definition verify_live_https_certificate ::
  "'w env \<Rightarrow> switch \<Rightarrow> ca_snapshot \<Rightarrow> certificate \<Rightarrow> ('w, unit) io" where
  "verify_live_https_certificate env sw snapshot expected =
     bind (verify_live_https
             (https_rounds HTTPS_VERIFICATION_WINDOW_SECONDS HTTPS_RETRY_DELAY_SECONDS)
             env sw snapshot expected HTTPS_VERIFICATION_WINDOW_SECONDS HTTPS_RETRY_DELAY_SECONDS
             HTTPS_SOCKET_TIMEOUT_SECONDS) (\<lambda>finished.
       check (\<not> finished) unending)"

section \<open>The loop ends\<close>

text \<open>
  What the standard library promises of the clock: \<open>now w\<close> is the reading in world \<open>w\<close>, no action
  turns it back, and \<^verbatim>\<open>time.sleep(d)\<close> returns no earlier than \<open>d\<close> later.
\<close>

definition clock_runs :: "'w env \<Rightarrow> ('w \<Rightarrow> int) \<Rightarrow> bool" where
  "clock_runs env now =
     ((\<forall>a w. now w \<le> now (snd (answer_text env a w)) \<and> now w \<le> now (snd (answer_num env a w))) \<and>
      (\<forall>w. case answer_num env ReadClock w of (Inr t, w') \<Rightarrow> now w \<le> t \<and> t \<le> now w' | _ \<Rightarrow> False) \<and>
      (\<forall>w d. now w + d \<le> now (snd (answer_text env (Sleep d) w))))"

lemma clock_runsD:
  assumes "clock_runs env now"
  shows "now w \<le> now (snd (answer_text env a w))" and "now w \<le> now (snd (answer_num env a w))"
    and "now w + d \<le> now (snd (answer_text env (Sleep d) w))"
    and "\<exists>t w'. answer_num env ReadClock w = (Inr t, w') \<and> now w \<le> t \<and> t \<le> now w'"
proof -
  show "now w \<le> now (snd (answer_text env a w))" "now w \<le> now (snd (answer_num env a w))"
    "now w + d \<le> now (snd (answer_text env (Sleep d) w))"
    using assms by (simp_all add: clock_runs_def)
  have "case answer_num env ReadClock w of (Inr t, w') \<Rightarrow> now w \<le> t \<and> t \<le> now w' | _ \<Rightarrow> False"
    using assms by (simp add: clock_runs_def)
  then show "\<exists>t w'. answer_num env ReadClock w = (Inr t, w') \<and> now w \<le> t \<and> t \<le> now w'"
    by (cases "answer_num env ReadClock w", cases "fst (answer_num env ReadClock w)") auto
qed

definition elapsed :: "('w \<Rightarrow> int) \<Rightarrow> int \<Rightarrow> 'w st \<Rightarrow> bool" where
  "elapsed now t s = (t \<le> now (world s))"

lemma keeps_elapsed:
  assumes "clock_runs env now"
  shows "keeps (elapsed now t) (act_text env a)" "keeps (elapsed now t) (act_num env a)"
    "keeps (elapsed now t) (act_unit env a)"
proof -
  show act: "keeps (elapsed now t) (act_text env a)" "keeps (elapsed now t) (act_num env a)"
    using clock_runsD(1,2) [OF assms]
    by (auto intro!: keepsI postI simp: act_text_def act_num_def act_def elapsed_def record_event_def
        split: prod.splits intro: order_trans) (metis order_trans snd_conv)+
  show "keeps (elapsed now t) (act_unit env a)"
    unfolding act_unit_def by (intro keeps_intros act)
qed

text \<open>A reading lies between the time before and the time after.\<close>

lemma monotonic_triple:
  assumes "clock_runs env now"
  shows "triple (elapsed now t) (monotonic env) (\<lambda>r s. t \<le> r \<and> elapsed now r s) (\<lambda>_ _. False)"
proof (rule tripleI)
  fix s r s'
  assume "elapsed now t s" and run: "monotonic env s = (r, s')"
  obtain v w where "answer_num env ReadClock (world s) = (Inr v, w)" "now (world s) \<le> v" "v \<le> now w"
    using clock_runsD(4) [OF assms] by blast
  with run \<open>elapsed now t s\<close> show "case r of Inl e \<Rightarrow> False | Inr r \<Rightarrow> t \<le> r \<and> elapsed now r s'"
    by (auto simp: monotonic_def act_num_def act_def elapsed_def record_event_def)
qed

lemma bind_monotonic:
  assumes "clock_runs env now" and "\<And>r. t \<le> r \<Longrightarrow> triple (elapsed now r) (k r) C X"
  shows "triple (elapsed now t) (bind (monotonic env) k) C X"
proof (rule triple_bind)
  show "triple (elapsed now t) (monotonic env) (\<lambda>r s. t \<le> r \<and> elapsed now r s) X"
    by (rule triple_weaken [OF monotonic_triple [OF assms(1)]]) auto
  show "triple (\<lambda>s. t \<le> r \<and> elapsed now r s) (k r) C X" for r
    using assms(2) [of r] by (cases "t \<le> r") (simp_all add: triple_def)
qed

lemma sleep_triple:
  assumes "clock_runs env now"
  shows "triple (elapsed now t) (act_unit env (Sleep d)) (\<lambda>_. elapsed now (t + d)) (\<lambda>_ _. True)"
proof (rule tripleI)
  fix s r s'
  assume "elapsed now t s" and run: "act_unit env (Sleep d) s = (r, s')"
  with clock_runsD(3) [OF assms, of "world s" d]
  show "case r of Inl e \<Rightarrow> True | Inr x \<Rightarrow> elapsed now (t + d) s'"
    by (auto simp: act_unit_Inr act_text_Inr elapsed_def record_event_def split: sum.split)
qed

lemma keeps_leaf:
  assumes "clock_runs env now"
  shows "keeps (elapsed now t) (read_live_https_leaf env host deadline timeout e addresses)"
  by (induction addresses arbitrary: e)
     (auto simp: read_leaf_at_def live_https_timeout_def monotonic_def
      intro!: keeps_intros keeps_elapsed [OF assms])

lemma keeps_attempt:
  assumes "clock_runs env now"
  shows "keeps (elapsed now t) (https_attempt env addresses host der deadline timeout)"
  unfolding https_attempt_def attempt_failed_def monotonic_def
  by (intro keeps_intros keeps_leaf keeps_elapsed assms)

text \<open>A round that is to be repeated has used up its delay, or the window.\<close>

definition progressed :: "('w \<Rightarrow> int) \<Rightarrow> int \<Rightarrow> int \<Rightarrow> int \<Rightarrow> https_step \<Rightarrow> 'w st \<Rightarrow> bool" where
  "progressed now t deadline delay step s =
     (case step of Again e \<Rightarrow> t < deadline \<and> elapsed now (min (t + 1000 * delay) deadline) s | _ \<Rightarrow> True)"

lemma pause_triple:
  assumes "clock_runs env now" and "t < deadline"
  shows "triple (elapsed now t) (https_pause env deadline delay e) (progressed now t deadline delay)
    (\<lambda>_ _. True)"
  unfolding https_pause_def
proof (rule bind_monotonic [OF assms(1)], rule triple_cond)
  fix r assume "t \<le> r"
  show "triple (elapsed now r) (ret (Stop e)) (progressed now t deadline delay) (\<lambda>_ _. True)"
    by (rule triple_ret) (simp add: progressed_def)
  show "triple (elapsed now r)
      (seq (act_unit env (Sleep (min (1000 * delay) (deadline - r)))) (ret (Again e)))
      (progressed now t deadline delay) (\<lambda>_ _. True)"
    by (rule triple_seq [OF sleep_triple [OF assms(1)]], rule triple_ret)
       (use assms(2) \<open>t \<le> r\<close> in \<open>auto simp: progressed_def elapsed_def\<close>)
qed

lemma round_triple:
  assumes "clock_runs env now"
  shows "triple (elapsed now t)
    (https_round env addresses host der deadline delay timeout e) (progressed now t deadline delay)
    (\<lambda>_ _. True)"
  unfolding https_round_def
proof (rule bind_monotonic [OF assms], rule triple_cond)
  fix r assume r: "t \<le> r"
  show "triple (elapsed now r) (ret (Stop e)) (progressed now t deadline delay) (\<lambda>_ _. True)"
    by (rule triple_ret) (simp add: progressed_def)
  assume "\<not> deadline - r \<le> 0"
  then have pause: "triple (elapsed now r) (https_pause env deadline delay e')
      (progressed now t deadline delay) (\<lambda>_ _. True)" for e'
    by (intro triple_weaken [OF pause_triple [OF assms, of t]])
       (use r in \<open>auto simp: elapsed_def\<close>)
  show "triple (elapsed now r)
      (bind (https_attempt env addresses host der deadline timeout) (\<lambda>step.
         case step of
           Again last_error \<Rightarrow> https_pause env deadline delay last_error
         | Stop last_error \<Rightarrow> ret (Stop last_error)
         | Verified \<Rightarrow> ret Verified)) (progressed now t deadline delay) (\<lambda>_ _. True)"
  proof (rule triple_bind_keeps [OF keeps_attempt [OF assms]])
    show "triple (elapsed now r)
      (case step of
           Again last_error \<Rightarrow> https_pause env deadline delay last_error
         | Stop last_error \<Rightarrow> ret (Stop last_error)
         | Verified \<Rightarrow> ret Verified) (progressed now t deadline delay) (\<lambda>_ _. True)" for step
      by (cases step) (auto intro!: triple_ret pause simp: progressed_def)
  qed simp
qed

lemma loop_ends:
  assumes "clock_runs env now" and "0 \<le> delay" and "deadline - t \<le> 1000 * delay * int n"
  shows "triple (elapsed now t)
    (https_loop (Suc n) env addresses host der window deadline delay timeout e)
    (\<lambda>finished _. finished) (\<lambda>_ _. True)"
  using assms(3)
proof (induction n arbitrary: t e)
  case 0
  show ?case
    unfolding https_loop.simps
    by (rule triple_bind [OF round_triple [OF assms(1)]])
       (use 0 in \<open>auto simp: progressed_def triple_def effect_simps split: https_step.split\<close>)
next
  case (Suc n)
  have again: "triple (elapsed now (min (t + 1000 * delay) deadline))
      (https_loop (Suc n) env addresses host der window deadline delay timeout e')
      (\<lambda>finished _. finished) (\<lambda>_ _. True)" for e'
    using Suc.prems assms(2) by (intro Suc.IH) (auto simp: algebra_simps min_def)
  show ?case
    unfolding https_loop.simps(2) [of "Suc n"]
  proof (rule triple_bind [OF round_triple [OF assms(1)]])
    fix step
    show "triple (progressed now t deadline delay step)
      (case step of
         Verified \<Rightarrow> ret True
       | Stop last_error \<Rightarrow>
           raise (https_error (''Expected certificate was not verified over live HTTPS within '' @
             str_int window @ '' seconds: '' @ last_error))
       | Again last_error \<Rightarrow>
           https_loop (Suc n) env addresses host der window deadline delay timeout last_error)
      (\<lambda>finished _. finished) (\<lambda>_ _. True)"
      by (cases step)
         (auto intro!: triple_ret triple_raise triple_weaken [OF again] simp: progressed_def simp del: https_loop.simps)
  qed
qed

lemma resolve_keeps:
  assumes "clock_runs env now"
  shows "keeps (elapsed now t) (resolve_live_https_addresses env host deadline)"
  unfolding resolve_live_https_addresses_def receive_addresses_def stop_resolver_def monotonic_def
  by (intro keeps_intros keeps_elapsed assms)

lemma tls_context_keeps:
  assumes "clock_runs env now"
  shows "keeps (elapsed now t) (https_tls_context env snapshot)"
  unfolding https_tls_context_def by (intro keeps_intros keeps_elapsed assms)


section \<open>What a successful check saw\<close>

definition extends :: "'w st \<Rightarrow> 'w st \<Rightarrow> bool" where
  "extends s0 s = (\<exists>evs. trace s = trace s0 @ evs)"

text \<open>The peer presented a certificate in a handshake for the host, since \<open>s0\<close>.\<close>

definition presented :: "string \<Rightarrow> string \<Rightarrow> 'w st \<Rightarrow> 'w st \<Rightarrow> bool" where
  "presented host der s0 s =
     (\<exists>evs t. trace s = trace s0 @ evs \<and> (TlsHandshake host t, Text der) \<in> set evs)"

lemma extends_closed: "closed_under (\<lambda>a. True) (extends s0)"
  by (auto simp: closed_under_def extends_def record_event_def)

lemma presented_closed: "closed_under (\<lambda>a. True) (presented host der s0)"
  by (fastforce simp: closed_under_def presented_def record_event_def)

lemma keeps_any:
  assumes "closed_under (\<lambda>a. True) J"
  shows "keeps J (monotonic env)" "keeps J (live_https_timeout env deadline timeout)"
    "keeps J (act_unit env a)" "keeps J (https_pause env deadline delay e)"
    "keeps J (resolve_live_https_addresses env host deadline)" "keeps J (https_tls_context env snapshot)"
  unfolding monotonic_def live_https_timeout_def https_pause_def resolve_live_https_addresses_def
    receive_addresses_def stop_resolver_def https_tls_context_def
  by (intro keeps_intros keeps_actions [OF assms] TrueI)+

lemma handshake_presents:
  "triple (extends s0) (act_text env (TlsHandshake host t)) (\<lambda>der. presented host der s0) (\<lambda>_. extends s0)"
  by (rule tripleI, rename_tac s r s', case_tac r)
     (fastforce simp: act_text_Inr act_text_Inl extends_def presented_def record_event_def)+

lemma presented_extends: "presented host der s0 s \<Longrightarrow> extends s0 s"
  by (auto simp: presented_def extends_def)

lemma leaf_at_presents:
  "triple (extends s0) (read_leaf_at env host deadline timeout address)
     (\<lambda>der. presented host der s0) (\<lambda>_. extends s0)"
  unfolding read_leaf_at_def
  by (intro triple_bind [OF handshake_presents] triple_seq_keeps triple_bind_keeps
      keeps_any [OF extends_closed] keeps_any [OF presented_closed] triple_ret)
     (auto intro: presented_extends)

lemma triple_lift: "triple A (f x) B X \<Longrightarrow> triple A (bind (lift (Inr x)) f) B X"
  by (simp add: triple_def effect_simps)

lemma leaf_presents:
  "triple (extends s0) (read_live_https_leaf env host deadline timeout prior addresses)
     (\<lambda>der. presented host der s0) (\<lambda>_. extends s0)"
proof (induction addresses arbitrary: prior)
  case Nil
  show ?case by (auto intro: triple_raise)
next
  case (Cons address addresses)
  show ?case
    unfolding read_live_https_leaf.simps
  proof (rule triple_bind [OF triple_outcome_of [OF leaf_at_presents]])
    fix outcome :: "exn + string"
    show "triple (\<lambda>s. case outcome of Inl e \<Rightarrow> extends s0 s | Inr der \<Rightarrow> presented host der s0 s)
      (case outcome of
         Inr peer_der \<Rightarrow> ret peer_der
       | Inl error \<Rightarrow>
           if isinstance error SSLError \<or> \<not> isinstance error OSError \<or>
              \<not> is_retryable_live_https_error error
           then raise error
           else bind (monotonic env) (\<lambda>now.
             if deadline - now \<le> 0 then raise error
             else read_live_https_leaf env host deadline timeout (Some error) addresses))
      (\<lambda>der. presented host der s0) (\<lambda>_. extends s0)"
      by (cases outcome)
         (auto intro!: triple_ret triple_raise triple_bind_keeps keeps_any [OF extends_closed] Cons.IH)
  qed
qed

text \<open>What a step says of the trace: \<open>Verified\<close> is only reached with the expected certificate.\<close>

definition seen :: "string \<Rightarrow> string \<Rightarrow> 'w st \<Rightarrow> https_step \<Rightarrow> 'w st \<Rightarrow> bool" where
  "seen host der s0 step s = (case step of Verified \<Rightarrow> presented host der s0 s | _ \<Rightarrow> extends s0 s)"

lemma attempt_seen:
  "triple (extends s0) (https_attempt env addresses host der deadline timeout) (seen host der s0)
     (\<lambda>_ _. True)"
  unfolding https_attempt_def
proof (rule triple_try_except [OF triple_bind [OF leaf_presents]])
  show "triple (presented host peer s0) (if peer = der then bind (monotonic env) (\<lambda>now.
        ret (if deadline - now \<le> 0 then Stop ''HTTPS verification deadline expired'' else Verified))
      else ret (Again ''HTTPS service presented a different valid certificate''))
      (seen host der s0) (\<lambda>_. extends s0)" for peer
    by (auto intro!: triple_bind_keeps triple_ret keeps_any [OF presented_closed]
        simp: seen_def presented_extends)
  show "triple (extends s0) (attempt_failed e) (seen host der s0) (\<lambda>_ _. True)" for e
    unfolding attempt_failed_def by (intro triple_cond triple_raise triple_ret) (simp_all add: seen_def)
qed

lemma round_seen:
  "triple (extends s0) (https_round env addresses host der deadline delay timeout e) (seen host der s0)
     (\<lambda>_ _. True)"
  unfolding https_round_def
proof (intro triple_bind [OF attempt_seen] triple_bind_keeps keeps_any [OF extends_closed] triple_cond
    triple_ret)
  show "triple (seen host der s0 step) (case step of
         Again last_error \<Rightarrow> https_pause env deadline delay last_error
       | Stop last_error \<Rightarrow> ret (Stop last_error)
       | Verified \<Rightarrow> ret Verified) (seen host der s0) (\<lambda>_ _. True)" for step
  proof (cases step)
    case (Again seen_error)
    have "triple (extends s0) (https_pause env deadline delay seen_error) (seen host der s0) (\<lambda>_ _. True)"
      unfolding https_pause_def
      by (intro triple_bind_keeps triple_seq_keeps keeps_any [OF extends_closed] triple_cond triple_ret)
         (simp_all add: seen_def)
    moreover have "seen host der s0 (Again seen_error) = extends s0" by (rule ext) (simp add: seen_def)
    ultimately show ?thesis using Again by simp
  qed (auto intro!: triple_ret)
qed (simp_all add: seen_def)

lemma loop_seen:
  "triple (extends s0) (https_loop n env addresses host der window deadline delay timeout e)
     (\<lambda>finished s. finished \<longrightarrow> presented host der s0 s) (\<lambda>_ _. True)"
proof (induction n arbitrary: e)
  case 0
  show ?case by (simp add: triple_ret)
next
  case (Suc n)
  show ?case
    unfolding https_loop.simps
  proof (rule triple_bind [OF round_seen])
    fix step
    show "triple (seen host der s0 step)
      (case step of
         Verified \<Rightarrow> ret True
       | Stop last_error \<Rightarrow>
           raise (https_error (''Expected certificate was not verified over live HTTPS within '' @
             str_int window @ '' seconds: '' @ last_error))
       | Again last_error \<Rightarrow>
           https_loop n env addresses host der window deadline delay timeout last_error)
      (\<lambda>finished s. finished \<longrightarrow> presented host der s0 s) (\<lambda>_ _. True)"
      by (cases step) (auto intro!: triple_ret triple_raise triple_weaken [OF Suc.IH] simp: seen_def)
  qed
qed

lemma live_https_seen:
  assumes "verify_live_https_certificate env sw snapshot expected s = (Inr (), s')"
  shows "\<exists>identities. get_certificate_identities sw = Inr identities \<and>
    presented (common_name identities) (x_der expected) s s'"
proof (cases "get_certificate_identities sw")
  case (Inl e)
  with assms show ?thesis
    by (simp add: verify_live_https_certificate_def verify_live_https_def run_success
        validate_switch_signing_identity_def)
next
  case (Inr identities)
  have none: "extends s s" by (simp add: extends_def)
  have "triple (extends s) (verify_live_https_certificate env sw snapshot expected)
      (\<lambda>_. presented (common_name identities) (x_der expected) s) (\<lambda>_ _. True)"
    unfolding verify_live_https_certificate_def
  proof (rule triple_bind)
    show "triple (extends s) (verify_live_https fuel env sw snapshot expected window delay timeout)
        (\<lambda>finished s1. finished \<longrightarrow> presented (common_name identities) (x_der expected) s s1) (\<lambda>_ _. True)"
      for fuel window delay timeout
      unfolding verify_live_https_def validate_switch_signing_identity_def Inr Let_def
      by (intro triple_seq_keeps triple_bind_keeps keeps_pure keeps_any [OF extends_closed]
          triple_lift loop_seen) auto
    show "triple (\<lambda>s1. finished \<longrightarrow> presented (common_name identities) (x_der expected) s s1)
        (check (\<not> finished) unending) (\<lambda>_. presented (common_name identities) (x_der expected) s)
        (\<lambda>_ _. True)" for finished
      by (auto simp: triple_def effect_simps)
  qed
  from tripleD [OF this none assms] Inr show ?thesis by auto
qed

text \<open>
  A live check that returns saw the expected certificate: in a handshake for the switch's own
  host, in the verifying TLS context, the peer presented exactly the DER of the certificate that was
  installed.
\<close>

theorem live_https_check_sound:
  assumes "verify_live_https_certificate env sw snapshot expected s = (Inr (), s')"
  shows "\<exists>identities evs t. get_certificate_identities sw = Inr identities \<and> trace s' = trace s @ evs \<and>
    (TlsHandshake (common_name identities) t, Text (x_der expected)) \<in> set evs"
  using live_https_seen [OF assms] by (auto simp: presented_def)

section \<open>A network to run the check in\<close>

text \<open>The world is the clock; every peer presents the certificate \<^verbatim>\<open>der\<close>.\<close>

definition https_env :: "int env" where
  "https_env = \<lparr>answer_text = (\<lambda>a w. (Inr (case a of TlsHandshake h t \<Rightarrow> ''der'' | _ \<Rightarrow> ''192.0.2.1''),
       case a of Sleep d \<Rightarrow> w + max 0 d | _ \<Rightarrow> w)),
     answer_num = (\<lambda>a w. (Inr (case a of ReadClock \<Rightarrow> w | PollResolver d \<Rightarrow> 1 | _ \<Rightarrow> 0), w)),
     answer_status = (\<lambda>a w. (Inl (new_exn OSError ''''), w)),
     channel_poisoned = (\<lambda>w. False), base_prompt = (\<lambda>w. ''''), now_utc = (\<lambda>w. 0),
     today_utc = (\<lambda>w. Date 2026 1 1), today_local = (\<lambda>w. Date 2026 1 1),
     environ = (\<lambda>n. None), has_nofollow = True, effective_uid = 0, effective_gid = 0,
     json_loads = (\<lambda>t. Inr JNull), toml_loads = (\<lambda>t. None),
     resolved_parent = (\<lambda>p. ''/''), local_timestamp = (\<lambda>w. ''''), sha256_hex = (\<lambda>t. t), crypto_lib = sample_crypto\<rparr>"

definition https_start :: "int st" where
  "https_start = \<lparr>world = 0, trace = [], item = new_switch_result ''s'',
     csr_creation_attempted = False, installation_attempted = False,
     installation_dialogue_completed = False, entered_config_mode = False,
     installation_completed = False, switch_verdict = None, body_exit = None\<rparr>"

lemma https_env_clock: "clock_runs https_env (\<lambda>w. w)"
  by (auto simp: clock_runs_def https_env_def split: action.split)


theorem live_https_check_sound_witness:
  "\<exists>s' t. verify_live_https_certificate https_env (sample_switch\<lparr>sw_host := ''192.0.2.1''\<rparr>)
     \<lparr>ca_path = ''ca'', ca_pem = ''''\<rparr> (sample_certificate\<lparr>x_der := ''der''\<rparr>) https_start = (Inr (), s') \<and>
   (TlsHandshake ''192.0.2.1'' t, Text ''der'') \<in> set (trace s')"
proof -
  let ?run = "verify_live_https_certificate https_env (sample_switch\<lparr>sw_host := ''192.0.2.1''\<rparr>)
     \<lparr>ca_path = ''ca'', ca_pem = ''''\<rparr> (sample_certificate\<lparr>x_der := ''der''\<rparr>) https_start"
  have names: "get_certificate_identities (sample_switch\<lparr>sw_host := ''192.0.2.1''\<rparr>) =
      Inr \<lparr>common_name = ''192.0.2.1'', dns_names = [], ip_addresses = [''192.0.2.1'']\<rparr>" by code_simp
  have address: "ip_address ''192.0.2.1'' = Some (Ip4 [192, 0, 2, 1])" by code_simp
  obtain n where rounds: "https_rounds 30 2 = Suc n" by (simp add: https_rounds_def)
  have "fst ?run = Inr ()"
    by (simp add: verify_live_https_certificate_def verify_live_https_def HTTPS_VERIFICATION_WINDOW_SECONDS_def
        HTTPS_RETRY_DELAY_SECONDS_def HTTPS_SOCKET_TIMEOUT_SECONDS_def Let_def
        validate_switch_signing_identity_def names https_tls_context_def isascii_def rounds
        resolve_live_https_addresses_def https_round_def
        https_attempt_def read_leaf_at_def live_https_timeout_def monotonic_def address
        bind_def seq_def check_def try_except_def lift_def ret_def raise_def outcome_of_def
        act_unit_def act_text_def act_num_def act_def record_event_def https_env_def https_start_def)
  then obtain s' where run: "?run = (Inr (), s')" by (cases ?run) simp
  from live_https_check_sound [OF run] names have "\<exists>t. (TlsHandshake ''192.0.2.1'' t, Text ''der'') \<in> set (trace s')"
    by (auto simp: https_start_def)
  with run show ?thesis by blast
qed

end
