(* ===== verification/BaseUrl.thy ===== *)
theory BaseUrl
  imports Identity
begin

text \<open>
  \<^verbatim>\<open>validate_base_url\<close> of \<^verbatim>\<open>src/opnsense_client.py\<close> with the part of \<^verbatim>\<open>urllib.parse.urlsplit\<close>
  it relies on, for the ASCII texts without white space and controls that reach it.
\<close>

section \<open>Splitting a URL\<close>

text \<open>\<^verbatim>\<open>s.partition(c)\<close>, and what follows the last \<^verbatim>\<open>c\<close> (\<^verbatim>\<open>s.rpartition(c)[2]\<close>).\<close>

definition before_char :: "char \<Rightarrow> string \<Rightarrow> string" where
  "before_char c s = takeWhile (\<lambda>x. x \<noteq> c) s"

definition after_char :: "char \<Rightarrow> string \<Rightarrow> string" where
  "after_char c s = drop 1 (dropWhile (\<lambda>x. x \<noteq> c) s)"

definition after_last :: "char \<Rightarrow> string \<Rightarrow> string" where
  "after_last c s = rev (takeWhile (\<lambda>x. x \<noteq> c) (rev s))"

definition scheme_char :: "char \<Rightarrow> bool" where
  "scheme_char c = (is_alnum c \<or> c = CHR ''+'' \<or> c = CHR ''-'' \<or> c = CHR ''.'')"

definition is_alpha :: "char \<Rightarrow> bool" where
  "is_alpha c = (is_upper c \<or> is_lower c)"

definition has_scheme :: "string \<Rightarrow> bool" where
  "has_scheme url = (CHR '':'' \<in> set url \<and> before_char CHR '':'' url \<noteq> [] \<and> is_alpha (hd url) \<and>
     list_all scheme_char (before_char CHR '':'' url))"

definition url_scheme :: "string \<Rightarrow> string" where
  "url_scheme url = (if has_scheme url then lower (before_char CHR '':'' url) else [])"

definition after_scheme :: "string \<Rightarrow> string" where
  "after_scheme url = (if has_scheme url then after_char CHR '':'' url else url)"

definition ends_netloc :: "char \<Rightarrow> bool" where
  "ends_netloc c = (c = CHR ''/'' \<or> c = CHR ''?'' \<or> c = CHR ''#'')"

definition url_netloc :: "string \<Rightarrow> string" where
  "url_netloc url = (if startswith (after_scheme url) ''//''
     then takeWhile (\<lambda>c. \<not> ends_netloc c) (drop 2 (after_scheme url)) else [])"

definition url_path :: "string \<Rightarrow> string" where
  "url_path url = takeWhile (\<lambda>c. c \<noteq> CHR ''?'' \<and> c \<noteq> CHR ''#'')
     (if startswith (after_scheme url) ''//''
      then dropWhile (\<lambda>c. \<not> ends_netloc c) (drop 2 (after_scheme url)) else after_scheme url)"

text \<open>\<^verbatim>\<open>_check_bracketed_netloc\<close> and \<^verbatim>\<open>_check_bracketed_host\<close>\<close>

definition ip_future_re :: re where
  "ip_future_re = cats [lit ''v'', Plus (Cls is_hex), lit ''.'', Plus (Cls (\<lambda>c. c \<noteq> newline))]"

definition bracketed_host_ok :: "string \<Rightarrow> bool" where
  "bracketed_host_ok hostname =
     (if startswith hostname ''v'' then fullmatch ip_future_re hostname
      else (case ip_address hostname of Some (Ip6 gs scope) \<Rightarrow> True | _ \<Rightarrow> False))"

definition bracketed_netloc_ok :: "string \<Rightarrow> bool" where
  "bracketed_netloc_ok netloc =
     (let info = after_last CHR ''@'' netloc
      in if CHR ''['' \<in> set info then
           (let bracketed = after_char CHR ''['' info;
                rest = after_char CHR '']'' bracketed
            in before_char CHR ''['' info = [] \<and> (rest = [] \<or> startswith rest '':'') \<and>
               bracketed_host_ok (before_char CHR '']'' bracketed))
         else bracketed_host_ok (before_char CHR '':'' info))"

definition netloc_ok :: "string \<Rightarrow> bool" where
  "netloc_ok netloc =
     ((CHR ''['' \<in> set netloc) = (CHR '']'' \<in> set netloc) \<and>
      (CHR ''['' \<in> set netloc \<longrightarrow> bracketed_netloc_ok netloc))"

text \<open>\<^verbatim>\<open>SplitResult.hostname\<close> and \<^verbatim>\<open>SplitResult.port\<close>, from the network location.\<close>

definition raw_host :: "string \<Rightarrow> string" where
  "raw_host netloc =
     (let info = after_last CHR ''@'' netloc
      in if CHR ''['' \<in> set info then before_char CHR '']'' (after_char CHR ''['' info)
         else before_char CHR '':'' info)"

definition raw_port :: "string \<Rightarrow> string" where
  "raw_port netloc =
     (let info = after_last CHR ''@'' netloc
      in if CHR ''['' \<in> set info
         then after_char CHR '':'' (after_char CHR '']'' (after_char CHR ''['' info))
         else after_char CHR '':'' info)"

definition url_hostname :: "string \<Rightarrow> string option" where
  "url_hostname netloc =
     (let host = raw_host netloc
      in if host = [] then None
         else Some (lower (before_char CHR ''%'' host) @ dropWhile (\<lambda>x. x \<noteq> CHR ''%'') host))"

text \<open>\<open>None\<close> for the \<^verbatim>\<open>ValueError\<close> of \<^verbatim>\<open>parsed.port\<close>, \<open>Some None\<close> without a port.\<close>

definition url_port :: "string \<Rightarrow> nat option option" where
  "url_port netloc =
     (let port = raw_port netloc
      in if port = [] then Some None
         else if list_all is_digit port \<and> int_of_digits port \<le> 65535 then Some (Some (int_of_digits port))
         else None)"

section \<open>Validation\<close>

definition numeric_component_re :: re where
  "numeric_component_re =
     Alt (Plus (Cls is_digit))
       (cats [lit ''0'', Cls (\<lambda>c. c = CHR ''x'' \<or> c = CHR ''X''), Plus (Cls is_hex)])"

definition hostname_error :: "'a res" where
  "hostname_error = value_error ''opnsense.base_url contains an invalid hostname''"

definition validate_url_hostname :: "string \<Rightarrow> bool \<Rightarrow> unit res" where
  "validate_url_hostname hostname bracketed =
     (if CHR ''%'' \<in> set hostname then hostname_error
      else (case ip_address hostname of
          Some (Ip4 octets) \<Rightarrow> if bracketed then hostname_error else Inr ()
        | Some (Ip6 groups scope) \<Rightarrow> if bracketed then Inr () else hostname_error
        | None \<Rightarrow>
            if bracketed \<or> list_all (fullmatch numeric_component_re) (split_on CHR ''.'' hostname)
            then hostname_error
            else if 253 < length hostname then hostname_error
            else if list_ex (\<lambda>label. \<not> fullmatch dns_label_re label) (split_on CHR ''.'' hostname)
            then hostname_error
            else Inr ()))"

text \<open>The port text the code reads off the authority itself; \<open>None\<close> is a malformed authority.\<close>

definition authority_port_text :: "string \<Rightarrow> string option option" where
  "authority_port_text authority =
     (if startswith authority ''['' then
        (let suffix = after_char CHR '']'' authority
         in if suffix = [] then Some None
            else if startswith suffix '':'' then Some (Some (drop 1 suffix))
            else None)
      else if CHR '':'' \<in> set authority then Some (Some (after_char CHR '':'' authority))
      else Some None)"

definition url_error :: "string \<Rightarrow> 'a res" where
  "url_error t = value_error (''opnsense.base_url '' @ t)"

definition validate_base_url :: "string \<Rightarrow> string res" where
  "validate_base_url base =
     (let netloc = url_netloc base
      in if base = [] then url_error ''must be a non-empty HTTPS URL''
         else if \<not> isascii base \<or> list_ex (\<lambda>c. isspace c \<or> code c \<le> 31 \<or> code c = 127) base
         then url_error ''contains unsupported characters''
         else if \<not> netloc_ok netloc then url_error ''must be a valid HTTPS URL''
         else (case url_hostname netloc of
             None \<Rightarrow> url_error ''must be a valid HTTPS URL''
           | Some hostname \<Rightarrow>
               if casefold (url_scheme base) \<noteq> ''https'' then url_error ''must be a valid HTTPS URL''
               else if CHR ''@'' \<in> set netloc then url_error ''must not contain credentials''
               else if CHR ''?'' \<in> set base \<or> CHR ''#'' \<in> set base
               then url_error ''must not contain a query or fragment''
               else if url_path base \<noteq> [] \<and> url_path base \<noteq> ''/''
               then url_error ''must not contain a path''
               else (case authority_port_text netloc of
                   None \<Rightarrow> url_error ''must be a valid HTTPS URL''
                 | Some port_text \<Rightarrow>
                     if (case port_text of None \<Rightarrow> False | Some t \<Rightarrow> \<not> (t \<noteq> [] \<and> list_all is_digit t))
                     then url_error ''contains an invalid port''
                     else (case url_port netloc of
                         None \<Rightarrow> url_error ''contains an invalid port''
                       | Some port \<Rightarrow>
                           if (case port of None \<Rightarrow> False | Some n \<Rightarrow> \<not> (1 \<le> n \<and> n \<le> 65535))
                           then url_error ''contains an invalid port''
                           else res_bind (validate_url_hostname hostname (startswith netloc ''[''))
                                  (\<lambda>_. Inr (if url_path base = ''/'' then butlast base else base))))))"

section \<open>Canonical origins\<close>

text \<open>What follows the scheme, with and without a final slash.\<close>

lemma before_char_app: "c \<in> set s \<Longrightarrow> before_char c (s @ t) = before_char c s"
  by (auto simp: before_char_def takeWhile_append)

lemma after_char_app: "c \<in> set s \<Longrightarrow> after_char c (s @ t) = after_char c s @ t"
  by (induction s) (auto simp: after_char_def)

lemma has_scheme_app: "CHR '':'' \<in> set s \<Longrightarrow> has_scheme (s @ t) = has_scheme s"
  by (cases "s = []") (simp_all add: has_scheme_def before_char_app)

lemma after_scheme_app: "CHR '':'' \<in> set s \<Longrightarrow> after_scheme (s @ t) = after_scheme s @ t"
  by (simp add: after_scheme_def has_scheme_app after_char_app)

lemma url_scheme_app: "CHR '':'' \<in> set s \<Longrightarrow> url_scheme (s @ t) = url_scheme s"
  by (simp add: url_scheme_def has_scheme_app before_char_app)

text \<open>The facts a successful validation establishes.\<close>

lemma validate_base_url_Inr_iff:
  "validate_base_url base = Inr url \<longleftrightarrow>
     (\<exists>hostname port_text port.
        base \<noteq> [] \<and> isascii base \<and> \<not> list_ex (\<lambda>c. isspace c \<or> code c \<le> 31 \<or> code c = 127) base \<and>
        netloc_ok (url_netloc base) \<and> url_hostname (url_netloc base) = Some hostname \<and>
        casefold (url_scheme base) = ''https'' \<and> CHR ''@'' \<notin> set (url_netloc base) \<and>
        CHR ''?'' \<notin> set base \<and> CHR ''#'' \<notin> set base \<and> (url_path base = [] \<or> url_path base = ''/'') \<and>
        authority_port_text (url_netloc base) = Some port_text \<and>
        (\<forall>t. port_text = Some t \<longrightarrow> t \<noteq> [] \<and> list_all is_digit t) \<and>
        url_port (url_netloc base) = Some port \<and> (\<forall>n. port = Some n \<longrightarrow> 1 \<le> n \<and> n \<le> 65535) \<and>
        validate_url_hostname hostname (startswith (url_netloc base) ''['') = Inr () \<and>
        url = (if url_path base = ''/'' then butlast base else base))"
  unfolding validate_base_url_def Let_def url_error_def
  by (cases "url_hostname (url_netloc base)"; cases "authority_port_text (url_netloc base)";
      cases "url_port (url_netloc base)") (auto simp: res_bind_Inr_iff split: option.splits)

lemma takeWhile_dropWhile_none:
  "CHR ''?'' \<notin> set s \<Longrightarrow> CHR ''#'' \<notin> set s \<Longrightarrow> takeWhile (\<lambda>c. c \<noteq> CHR ''?'' \<and> c \<noteq> CHR ''#'') s = s"
  by (rule takeWhile_eq_all_conv [THEN iffD2]) auto

lemma before_after: "c \<in> set s \<Longrightarrow> s = before_char c s @ c # after_char c s"
  by (induction s) (auto simp: before_char_def after_char_def)

text \<open>A URL with the path \<open>/\<close> is one without a path, and a slash.\<close>

lemma slash_path:
  assumes path: "url_path base = ''/''" and scheme: "url_scheme base \<noteq> []"
    and host: "url_netloc base \<noteq> []" and "CHR ''?'' \<notin> set base" "CHR ''#'' \<notin> set base"
  obtains url where "base = url @ ''/''" "CHR '':'' \<in> set url" "url_netloc url = url_netloc base"
    "url_path url = []" "url_scheme url = url_scheme base"
proof -
  have has: "has_scheme base" using scheme by (auto simp: url_scheme_def split: if_splits)
  then have colon: "CHR '':'' \<in> set base" by (simp add: has_scheme_def)
  from host obtain r where r: "after_scheme base = ''//'' @ r" 
    by (auto simp: url_netloc_def startswith_iff split: if_splits)
  have base: "base = before_char CHR '':'' base @ CHR '':'' # ''//'' @ r"
    using before_after [OF colon] r has by (simp add: after_scheme_def)
  define n where "n = takeWhile (\<lambda>c. \<not> ends_netloc c) r"
  have "set r \<subseteq> set base" by (subst base) auto
  then have "takeWhile (\<lambda>c. c \<noteq> CHR ''?'' \<and> c \<noteq> CHR ''#'') (dropWhile (\<lambda>c. \<not> ends_netloc c) r) =
      dropWhile (\<lambda>c. \<not> ends_netloc c) r"
    using assms(4,5) by (intro takeWhile_dropWhile_none) (auto dest: set_dropWhileD)
  with path r have "dropWhile (\<lambda>c. \<not> ends_netloc c) r = ''/''" by (simp add: url_path_def)
  then have r': "r = n @ ''/''" using takeWhile_dropWhile_id [of "\<lambda>c. \<not> ends_netloc c" r]
    by (simp add: n_def)
  define url where "url = before_char CHR '':'' base @ CHR '':'' # ''//'' @ n"
  have split: "base = url @ ''/''" by (subst base) (simp add: url_def r')
  have in_url: "CHR '':'' \<in> set url" by (simp add: url_def)
  have after: "after_scheme url = ''//'' @ n"
    using after_scheme_app [OF in_url, of "''/''"] r r' split by simp
  have free: "\<forall>c\<in>set n. \<not> ends_netloc c" by (auto simp: n_def dest: set_takeWhileD)
  have same: "takeWhile (\<lambda>c. \<not> ends_netloc c) n = n" "dropWhile (\<lambda>c. \<not> ends_netloc c) n = []"
    using free by (simp_all add: takeWhile_eq_all_conv dropWhile_eq_Nil_conv)
  show thesis
  proof (rule that [OF split in_url])
    have "url_netloc url = n" using after same by (simp add: url_netloc_def)
    then show "url_netloc url = url_netloc base" using r by (simp add: url_netloc_def n_def)
    show "url_path url = []" by (simp add: url_path_def after same(2))
    show "url_scheme url = url_scheme base" using url_scheme_app [OF in_url, of "''/''"] split by simp
  qed
qed

text \<open>
  A validated base URL is canonical: validating it again accepts it and changes nothing, so
  the client's second validation of the configured origin cannot fail.
\<close>

theorem validate_base_url_idempotent:
  assumes "validate_base_url base = Inr url"
  shows "validate_base_url url = Inr url"
proof (cases "url_path base = ''/''")
  case False
  with assms have "url = base" by (auto simp: validate_base_url_Inr_iff)
  with assms show ?thesis by simp
next
  case True
  from assms have "url_scheme base \<noteq> []" "url_netloc base \<noteq> []" "CHR ''?'' \<notin> set base" "CHR ''#'' \<notin> set base"
    by (auto simp: validate_base_url_Inr_iff casefold_def url_hostname_def raw_host_def Let_def
        after_last_def before_char_def)
  from slash_path [OF True this] obtain u where u: "base = u @ ''/''" "CHR '':'' \<in> set u"
    "url_netloc u = url_netloc base" "url_path u = []" "url_scheme u = url_scheme base" .
  from assms True u(1) have "url = u" by (auto simp: validate_base_url_Inr_iff)
  from u(2) have "u \<noteq> []" by auto
  with assms u show ?thesis
    unfolding \<open>url = u\<close> validate_base_url_Inr_iff by (auto simp: isascii_def)
qed

theorem validate_base_url_idempotent_witness:
  "validate_base_url ''https://fw/'' = Inr ''https://fw'' \<and>
   validate_base_url ''https://fw'' = Inr ''https://fw''"
proof -
  have "validate_base_url ''https://fw/'' = Inr ''https://fw''" by code_simp
  with validate_base_url_idempotent show ?thesis by blast
qed

end
