(* ===== verification/OpnsenseClient.thy ===== *)
theory OpnsenseClient
  imports SecureFile BaseUrl
begin

text \<open>
  \<^verbatim>\<open>src/opnsense_client.py\<close>: the checks of what is sent to and received from the certificate
  authority, and the three requests of the client.  A byte string (response, secret) is a
  \<open>string\<close> of its bytes.  Certificate signing takes typed arguments, so its \<^verbatim>\<open>isinstance\<close> checks
  on them have no counterpart; the values of a response are checked as JSON documents.
\<close>

definition api_error :: "string \<Rightarrow> exn" where
  "api_error t = new_exn OPNsenseAPIError t"

definition CA_LIST_PATH :: string where "CA_LIST_PATH = ''/api/trust/cert/ca_list''"
definition CERT_ADD_PATH :: string where "CERT_ADD_PATH = ''/api/trust/cert/add''"
definition certificate_path :: "string \<Rightarrow> string" where
  "certificate_path uuid = ''/api/trust/cert/generate_file/'' @ uuid @ ''/crt''"

definition MAX_RESPONSE_BYTES :: nat where "MAX_RESPONSE_BYTES = 1024 * 1024"
definition MAX_CERTIFICATE_PEM_BYTES :: nat where "MAX_CERTIFICATE_PEM_BYTES = 64 * 1024"
definition MAX_CSR_PEM_BYTES :: nat where "MAX_CSR_PEM_BYTES = 64 * 1024"
definition MAX_OPNSENSE_SIGN_REQUEST_BYTES :: nat where
  "MAX_OPNSENSE_SIGN_REQUEST_BYTES = 144 * 1024"
definition MAX_SECRET_FILE_BYTES :: nat where "MAX_SECRET_FILE_BYTES = 16 * 1024"
definition MAX_DESCRIPTION_CHARS :: nat where "MAX_DESCRIPTION_CHARS = 255"
definition MAX_SAN_ENTRIES :: nat where "MAX_SAN_ENTRIES = 101"

section \<open>Checks of texts and names\<close>

text \<open>
  \<^verbatim>\<open>unicodedata.category(c) in {"Cc", "Cf", "Cs", "Zl", "Zp"}\<close>: below code point 256 these are the
  controls and the soft hyphen.
\<close>

definition unsafe_category :: "char \<Rightarrow> bool" where
  "unsafe_category c = (code c \<le> 31 \<or> (127 \<le> code c \<and> code c \<le> 159) \<or> code c = 173)"

definition validate_safe_text :: "string \<Rightarrow> string \<Rightarrow> string res" where
  "validate_safe_text val label =
     raise_if (MAX_DESCRIPTION_CHARS < length val) (api_error (label @ '' exceeds the size limit''))
    (raise_if (strip val = []) (api_error (label @ '' must be non-empty text''))
    (raise_if (list_ex unsafe_category val) (api_error (label @ '' contains unsafe characters''))
      (Inr val)))"

text \<open>The loop over the DNS names, with the canonical names seen so far.\<close>

fun check_dns_names :: "string set \<Rightarrow> string list \<Rightarrow> unit res" where
  "check_dns_names seen [] = Inr ()"
| "check_dns_names seen (name # names) =
     raise_if (name = [] \<or> 253 < length name) (api_error ''DNS SAN is invalid'')
    (raise_if (fullmatch dotted_number_re name \<or>
               list_ex (\<lambda>label. \<not> fullmatch dns_label_re label) (split_on CHR ''.'' name))
       (api_error ''DNS SAN is invalid'')
    (raise_if (lower name \<in> seen) (api_error ''DNS SAN is duplicated'')
      (check_dns_names (insert (lower name) seen) names)))"

fun check_ip_names :: "string set \<Rightarrow> string list \<Rightarrow> string list res" where
  "check_ip_names seen [] = Inr []"
| "check_ip_names seen (val # vals) =
     raise_if (val = [] \<or> 64 < length val \<or> CHR ''%'' \<in> set val) (api_error ''IP SAN is invalid'')
      (case ip_address val of
         None \<Rightarrow> Inl (api_error ''IP SAN is invalid'')
       | Some address \<Rightarrow>
           (let canonical = str_ip address
            in raise_if (canonical \<in> seen) (api_error ''IP SAN is duplicated'')
                 (res_bind (check_ip_names (insert canonical seen) vals)
                   (\<lambda>rest. Inr (canonical # rest)))))"

definition validate_sans :: "string list \<Rightarrow> string list \<Rightarrow> (string list \<times> string list) res" where
  "validate_sans dns addresses =
     raise_if (\<not> (1 \<le> length dns + length addresses \<and>
                  length dns + length addresses \<le> MAX_SAN_ENTRIES))
       (api_error ''SAN count must be between 1 and 101'')
    (res_bind (check_dns_names {} dns) (\<lambda>_.
     res_bind (check_ip_names {} addresses) (\<lambda>canonical_ips.
       Inr (dns, canonical_ips))))"

section \<open>Certificate identifiers\<close>

text \<open>\<^verbatim>\<open>int(text, 16)\<close>: white space around, a sign, the prefix and single underscores are allowed.\<close>

definition hex_digits_value :: "string \<Rightarrow> nat option" where
  "hex_digits_value s =
     (let parts = split_on CHR ''_'' s
      in if list_all (\<lambda>p. p \<noteq> [] \<and> list_all is_hex p) parts then Some (int_of_hex (concat parts))
         else None)"

definition unsigned_hex :: "string \<Rightarrow> nat option" where
  "unsigned_hex s =
     (if startswith s ''0x'' \<or> startswith s ''0X'' then
        (let t = drop 2 s in hex_digits_value (if startswith t ''_'' then drop 1 t else t))
      else hex_digits_value s)"

definition int_base16 :: "string \<Rightarrow> int option" where
  "int_base16 text_given =
     (let s = strip text_given
      in if startswith s ''-'' then map_option (\<lambda>n. - int n) (unsigned_hex (drop 1 s))
         else map_option int (unsigned_hex (if startswith s ''+'' then drop 1 s else s)))"

text \<open>\<^verbatim>\<open>s.replace(old, "")\<close>: the occurrences from left to right, without overlap.\<close>

function remove_all :: "string \<Rightarrow> string \<Rightarrow> string" where
  "remove_all old [] = []"
| "remove_all old (c # s) =
     (if old \<noteq> [] \<and> startswith (c # s) old then remove_all old (drop (length old) (c # s))
      else c # remove_all old s)"
  by pat_completeness auto
termination
  by (relation "measure (length \<circ> snd)") auto

definition strip_braces :: "string \<Rightarrow> string" where
  "strip_braces s =
     (let brace = (\<lambda>c. c = CHR 0x7B \<or> c = CHR 0x7D)
      in rev (dropWhile brace (rev (dropWhile brace s))))"

text \<open>\<^verbatim>\<open>'%032x' % n\<close>, with the hyphens of \<^verbatim>\<open>str(UUID)\<close>.\<close>

fun hex_fixed :: "nat \<Rightarrow> nat \<Rightarrow> string" where
  "hex_fixed 0 n = []"
| "hex_fixed (Suc k) n = hex_fixed k (n div 16) @ [hex_char (n mod 16)]"

definition hyphenated :: "string \<Rightarrow> string" where
  "hyphenated h = join ''-'' [take 8 h, take 4 (drop 8 h), take 4 (drop 12 h), take 4 (drop 16 h), drop 20 h]"

text \<open>\<^verbatim>\<open>str(uuid.UUID(text))\<close>, or \<open>None\<close> for its \<^verbatim>\<open>ValueError\<close>.\<close>

definition normalize_uuid :: "string \<Rightarrow> string option" where
  "normalize_uuid text_given =
     (let h = remove_all ''-'' (strip_braces (remove_all ''uuid:'' (remove_all ''urn:'' text_given)))
      in if length h \<noteq> 32 then None
         else (case int_base16 h of
             None \<Rightarrow> None
           | Some i \<Rightarrow> if i < 0 then None else Some (hyphenated (hex_fixed 32 (nat i)))))"

section \<open>Credentials\<close>

text \<open>Well-formed UTF-8, by the table of RFC 3629; the argument is a byte string.\<close>

definition byte_between :: "nat \<Rightarrow> nat \<Rightarrow> char \<Rightarrow> bool" where
  "byte_between lo hi c = (lo \<le> code c \<and> code c \<le> hi)"

function valid_utf8 :: "string \<Rightarrow> bool" where
  "valid_utf8 [] = True"
| "valid_utf8 (a # s) =
     (let tail = byte_between 128 191;
          two = (\<lambda>ok. case s of b # r \<Rightarrow> ok b \<and> valid_utf8 r | _ \<Rightarrow> False);
          three = (\<lambda>ok. case s of b # c # r \<Rightarrow> ok b \<and> tail c \<and> valid_utf8 r | _ \<Rightarrow> False);
          four = (\<lambda>ok. case s of b # c # d # r \<Rightarrow> ok b \<and> tail c \<and> tail d \<and> valid_utf8 r | _ \<Rightarrow> False)
      in if code a \<le> 127 then valid_utf8 s
         else if byte_between 194 223 a then two tail
         else if code a = 224 then three (byte_between 160 191)
         else if code a = 237 then three (byte_between 128 159)
         else if byte_between 225 239 a then three tail
         else if code a = 240 then four (byte_between 144 191)
         else if byte_between 241 243 a then four tail
         else if code a = 244 then four (byte_between 128 143)
         else False)"
  by pat_completeness auto
termination
  by (relation "measure length") auto

definition validate_credential_content :: "string \<Rightarrow> string \<Rightarrow> string res" where
  "validate_credential_content credential source_name =
     raise_if (\<not> valid_utf8 credential) (api_error (source_name @ '' must contain valid UTF-8''))
    (raise_if (MAX_SECRET_FILE_BYTES < length credential)
       (api_error (source_name @ '' exceeds '' @ str_nat MAX_SECRET_FILE_BYTES @ '' bytes''))
    (raise_if (nul \<in> set credential) (api_error (source_name @ '' contains NUL''))
    (raise_if (carriage_return \<in> set credential \<or> newline \<in> set credential)
       (api_error (source_name @ '' must contain exactly one line''))
    (raise_if (credential = []) (api_error (source_name @ '' is empty''))
      (Inr credential)))))"

definition chop_line_end :: "string \<Rightarrow> string" where
  "chop_line_end secret =
     (if endswith secret [carriage_return, newline] then take (length secret - 2) secret
      else if endswith secret [newline] then butlast secret
      else secret)"

definition check_secret_bytes :: "string \<Rightarrow> string \<Rightarrow> string res" where
  "check_secret_bytes secret_bytes source_name =
     raise_if (MAX_SECRET_FILE_BYTES < length secret_bytes)
       (api_error (source_name @ '' exceeds '' @ str_nat MAX_SECRET_FILE_BYTES @ '' bytes''))
    (raise_if (nul \<in> set secret_bytes) (api_error (source_name @ '' contains NUL''))
    (raise_if (\<not> valid_utf8 secret_bytes) (api_error (source_name @ '' must contain valid UTF-8''))
      (validate_credential_content (chop_line_end secret_bytes) source_name)))"

definition read_secret_file :: "'w env \<Rightarrow> string \<Rightarrow> string \<Rightarrow> ('w, string) io" where
  "read_secret_file env configured_path source_name =
     seq (check (strip configured_path = [] \<or> list_ex is_terminal_control configured_path)
            (api_error (source_name @ '' must be a non-empty safe path'')))
     (bind (try_except
             (read_secure_file env configured_path source_name False (MAX_SECRET_FILE_BYTES + 1))
             (\<lambda>error. if isinstance error SecureFileError then raise (api_error (exn_text error))
                      else if isinstance error OSError then
                        raise (api_error (source_name @ '' could not be read''))
                      else raise error)) (\<lambda>secret_bytes.
       lift (check_secret_bytes secret_bytes source_name)))"

definition load_credential :: "'w env \<Rightarrow> string \<Rightarrow> string \<Rightarrow> ('w, string) io" where
  "load_credential env direct_name file_name =
     (case environ env file_name of
        Some path \<Rightarrow> read_secret_file env path file_name
      | None \<Rightarrow>
          (case environ env direct_name of
             None \<Rightarrow> raise (api_error (direct_name @ '' or '' @ file_name @ '' must be set''))
           | Some credential \<Rightarrow> lift (validate_credential_content credential direct_name)))"

text \<open>\<^verbatim>\<open>base64.b64encode\<close>\<close>

definition b64_char :: "nat \<Rightarrow> char" where
  "b64_char n =
     (if n < 26 then char_of (65 + n) else if n < 52 then char_of (71 + n)
      else if n < 62 then char_of (n - 4) else if n = 62 then CHR ''+'' else CHR ''/'')"

fun b64encode :: "string \<Rightarrow> string" where
  "b64encode [] = []"
| "b64encode [a] = [b64_char (code a div 4), b64_char (code a mod 4 * 16), CHR ''='', CHR ''='']"
| "b64encode [a, b] =
     [b64_char (code a div 4), b64_char (code a mod 4 * 16 + code b div 16),
      b64_char (code b mod 16 * 4), CHR ''='']"
| "b64encode (a # b # c # s) =
     [b64_char (code a div 4), b64_char (code a mod 4 * 16 + code b div 16),
      b64_char (code b mod 16 * 4 + code c div 64), b64_char (code c mod 64)] @ b64encode s"

definition load_authorization :: "'w env \<Rightarrow> ('w, string) io" where
  "load_authorization env =
     bind (load_credential env ''OPNSENSE_API_KEY'' ''OPNSENSE_API_KEY_FILE'') (\<lambda>api_key.
     bind (load_credential env ''OPNSENSE_API_SECRET'' ''OPNSENSE_API_SECRET_FILE'') (\<lambda>api_secret.
       ret (''Basic '' @ b64encode (api_key @ '':'' @ api_secret))))"

section \<open>Requests\<close>

record client =
  base_url :: string
  authorization :: string

text \<open>
  \<^verbatim>\<open>OPNsenseClient.__init__\<close> with the default timeout of 30 seconds, which passes its check: the
  base URL is checked, the credentials are read, then the TLS context is created.
\<close>

definition opnsense_client :: "'w env \<Rightarrow> string \<Rightarrow> ('w, client) io" where
  "opnsense_client env given_url =
     bind (lift (validate_base_url given_url)) (\<lambda>url.
     bind (load_authorization env) (\<lambda>auth.
     seq (act_unit env (CreateTlsContext ''''))
       (ret \<lparr>base_url = url, authorization = auth\<rparr>)))"

definition request_data :: "string \<Rightarrow> json option \<Rightarrow> string option res" where
  "request_data path payload =
     (case payload of
        None \<Rightarrow> Inr None
      | Some j \<Rightarrow>
          (let data = dumps '', '' '': '' j
           in raise_if (path = CERT_ADD_PATH \<and> MAX_OPNSENSE_SIGN_REQUEST_BYTES < length data)
                (api_error ''OPNsense signing request exceeds the size limit'')
                (Inr (Some data))))"

text \<open>An \<^verbatim>\<open>HTTPError\<close> carries its status code as the number of the exception.\<close>

definition request_failed :: "exn \<Rightarrow> ('w, 'a) io" where
  "request_failed error =
     (if isinstance error HTTPError then
        raise (api_error (''OPNsense API request failed with HTTP '' @
          (case exn_errno error of None \<Rightarrow> '''' | Some n \<Rightarrow> str_int n)))
      else if isinstance_any error [URLError, TimeoutError, OSError] then
        raise (api_error ''OPNsense API connection failed'')
      else raise error)"

definition parse_response :: "'w env \<Rightarrow> string \<Rightarrow> (string \<times> json) list res" where
  "parse_response env response_data =
     raise_if (MAX_RESPONSE_BYTES < length response_data)
       (api_error ''OPNsense API response is too large'')
      (case res_bind (json_loads env response_data)
              (reject_duplicates (new_exn DuplicateJSONKeyError '''')) of
         Inl e \<Rightarrow>
           (if isinstance_any e [ValueError, RecursionError]
            then Inl (api_error ''OPNsense API returned malformed JSON'') else Inl e)
       | Inr (JObj members) \<Rightarrow> Inr members
       | Inr _ \<Rightarrow> Inl (api_error ''OPNsense API returned an invalid JSON response''))"

text \<open>\<open>dispatch\<close> is the caller's \<^verbatim>\<open>on_dispatch\<close>, called just before the request is sent.\<close>

definition request_json ::
  "'w env \<Rightarrow> client \<Rightarrow> ('w, unit) io \<Rightarrow> string \<Rightarrow> string \<Rightarrow> json option \<Rightarrow>
     ('w, (string \<times> json) list) io" where
  "request_json env cl dispatch verb path payload =
     bind (lift (request_data path payload)) (\<lambda>data.
     bind (try_except
             (seq dispatch (act_text env (HttpRequest verb (base_url cl @ path) data)))
             request_failed) (\<lambda>response.
       lift (parse_response env (take (MAX_RESPONSE_BYTES + 1) response))))"

section \<open>The certificate authority\<close>

definition ca_reference_re :: re where
  "ca_reference_re = rep 13 (Cls is_lower_hex)"

text \<open>The loop over the rows of the list: the references of the rows with the description.\<close>

fun ca_matches :: "string \<Rightarrow> json list \<Rightarrow> string list res" where
  "ca_matches description [] = Inr []"
| "ca_matches description (row # rows) =
     (case row of
        JObj members \<Rightarrow>
          (case (dict_get members ''descr'', dict_get members ''caref'') of
             (JStr descr, JStr caref) \<Rightarrow>
               res_bind (ca_matches description rows) (\<lambda>rest.
                 Inr (if descr = description then caref # rest else rest))
           | _ \<Rightarrow> Inl (api_error ''OPNsense CA list response is malformed''))
      | _ \<Rightarrow> Inl (api_error ''OPNsense CA list response is malformed''))"

definition find_ca :: "string \<Rightarrow> (string \<times> json) list \<Rightarrow> string res" where
  "find_ca description response =
     (case (dict_get response ''rows'', dict_get response ''count'') of
        (JList rows, JInt count) \<Rightarrow>
          raise_if (count \<noteq> int (length rows))
            (api_error ''OPNsense CA list response is malformed'')
          (res_bind (ca_matches description rows) (\<lambda>matches.
             (case matches of
                [] \<Rightarrow> Inl (api_error ''OPNsense CA description was not found'')
              | [caref] \<Rightarrow>
                  raise_if (\<not> fullmatch ca_reference_re caref)
                    (api_error ''OPNsense returned an invalid CA reference'')
                    (Inr caref)
              | _ \<Rightarrow> Inl (api_error ''OPNsense CA description is not unique''))))
      | _ \<Rightarrow> Inl (api_error ''OPNsense CA list response is malformed''))"

definition resolve_ca :: "'w env \<Rightarrow> client \<Rightarrow> string \<Rightarrow> ('w, string) io" where
  "resolve_ca env cl description =
     bind (lift (validate_safe_text description ''OPNsense CA description'')) (\<lambda>description.
     bind (request_json env cl (ret ()) ''GET'' CA_LIST_PATH None) (\<lambda>response.
       lift (find_ca description response)))"

section \<open>Signing\<close>

definition base64_line :: re where
  "base64_line = Plus (Cls (\<lambda>c. is_alnum c \<or> c = CHR ''+'' \<or> c = CHR ''/'' \<or> c = CHR ''=''))"

definition line_break :: re where
  "line_break = Cat (Opt (Cls (\<lambda>c. c = carriage_return))) (Cls (\<lambda>c. c = newline))"

definition csr_pem_re :: re where
  "csr_pem_re = cats [lit ''-----BEGIN CERTIFICATE REQUEST-----'', line_break, base64_line,
     Star (Cat line_break base64_line), line_break,
     lit ''-----END CERTIFICATE REQUEST-----'', line_break]"

record sign_request =
  sr_csr_pem :: string
  sr_caref :: string
  sr_digest :: string
  sr_lifetime_days :: int
  sr_dns_names :: "string list"
  sr_ip_addresses :: "string list"
  sr_description :: string

definition sign_payload :: "sign_request \<Rightarrow> string list \<Rightarrow> string list \<Rightarrow> json" where
  "sign_payload r dns addresses =
     JObj [(''cert'', JObj
       [(''action'', JStr ''sign_csr''),
        (''caref'', JStr (sr_caref r)),
        (''digest'', JStr (sr_digest r)),
        (''cert_type'', JStr ''server_cert''),
        (''lifetime'', JInt (sr_lifetime_days r)),
        (''key_type'', JStr ''2048''),
        (''csr_payload'', JStr (sr_csr_pem r)),
        (''altnames_dns'', JStr (join [newline] dns)),
        (''altnames_ip'', JStr (join [newline] addresses)),
        (''descr'', JStr (sr_description r))])]"

text \<open>Everything that is checked before a signing request is sent.\<close>

definition check_sign_request :: "sign_request \<Rightarrow> json res" where
  "check_sign_request r =
     raise_if (MAX_CSR_PEM_BYTES < utf8_len (sr_csr_pem r)) (api_error ''CSR PEM exceeds the size limit'')
    (raise_if (\<not> isascii (sr_csr_pem r)) (api_error ''CSR PEM must be ASCII'')
    (raise_if (\<not> fullmatch csr_pem_re (sr_csr_pem r)) (api_error ''CSR PEM is malformed'')
    (raise_if (\<not> fullmatch ca_reference_re (sr_caref r)) (api_error ''OPNsense CA reference is invalid'')
    (raise_if (sr_digest r \<notin> {''sha256'', ''sha384'', ''sha512''}) (api_error ''OPNsense digest is unsupported'')
    (raise_if (\<not> (1 \<le> sr_lifetime_days r \<and> sr_lifetime_days r \<le> 3650))
       (api_error ''OPNsense lifetime must be between 1 and 3650 days'')
    (res_bind (validate_safe_text (sr_description r) ''Certificate description'') (\<lambda>_.
     res_bind (validate_sans (sr_dns_names r) (sr_ip_addresses r)) (\<lambda>(dns, addresses).
       Inr (sign_payload r dns addresses)))))))))"

definition signed_uuid :: "(string \<times> json) list \<Rightarrow> string res" where
  "signed_uuid response =
     raise_if (dict_get response ''result'' \<noteq> JStr ''saved'')
       (api_error ''OPNsense did not save the signed certificate'')
      (case dict_get response ''uuid'' of
         JStr certificate_uuid \<Rightarrow>
           (case normalize_uuid certificate_uuid of
              None \<Rightarrow> Inl (api_error ''OPNsense response did not contain a valid UUID'')
            | Some parsed \<Rightarrow>
                raise_if (parsed \<noteq> casefold certificate_uuid)
                  (api_error ''OPNsense response did not contain a valid UUID'')
                  (Inr parsed))
       | _ \<Rightarrow> Inl (api_error ''OPNsense response did not contain a valid UUID''))"

definition sign_csr :: "'w env \<Rightarrow> client \<Rightarrow> ('w, unit) io \<Rightarrow> sign_request \<Rightarrow> ('w, string) io" where
  "sign_csr env cl dispatch r =
     bind (lift (check_sign_request r)) (\<lambda>payload.
     bind (request_json env cl dispatch ''POST'' CERT_ADD_PATH (Some payload)) (\<lambda>response.
       lift (signed_uuid response)))"

section \<open>Fetching the certificate\<close>

definition certificate_text :: "(string \<times> json) list \<Rightarrow> string res" where
  "certificate_text response =
     (case dict_get response ''payload'' of
        JStr pem \<Rightarrow>
          raise_if (dict_get response ''status'' \<noteq> JStr ''ok'')
            (api_error ''OPNsense public certificate response is malformed'')
         (raise_if (\<not> isascii pem) (api_error ''OPNsense public certificate response is not ASCII'')
         (raise_if (strip pem = []) (api_error ''OPNsense public certificate response is malformed'')
           (let certificate_pem = strip pem @ [newline]
            in raise_if (MAX_CERTIFICATE_PEM_BYTES < length certificate_pem)
                 (api_error ''OPNsense public certificate payload exceeds the size limit'')
                 (Inr certificate_pem))))
      | _ \<Rightarrow> Inl (api_error ''OPNsense public certificate response is malformed''))"

definition get_certificate :: "'w env \<Rightarrow> client \<Rightarrow> string \<Rightarrow> ('w, string) io" where
  "get_certificate env cl certificate_uuid =
     (case normalize_uuid certificate_uuid of
        None \<Rightarrow> raise (api_error ''Certificate UUID is invalid'')
      | Some normalized \<Rightarrow>
          bind (request_json env cl (ret ()) ''POST'' (certificate_path normalized) (Some (JObj [])))
            (\<lambda>response. lift (certificate_text response)))"

section \<open>Responses\<close>

lemma parse_response_unique:
  "parse_response env data = Inr members \<Longrightarrow> unique_keys (JObj members)"
  by (auto simp: parse_response_def reject_duplicates_iff res_bind_Inr_iff
      split: sum.splits json.splits if_splits)

text \<open>The rows of a list response with a description.\<close>

definition describes :: "string \<Rightarrow> json \<Rightarrow> bool" where
  "describes description row =
     (\<exists>members. row = JObj members \<and> dict_get members ''descr'' = JStr description)"

lemma ca_matches_Inr:
  "ca_matches description rows = Inr carefs \<Longrightarrow>
     list_all2 (\<lambda>row caref. \<exists>members. row = JObj members \<and> dict_get members ''caref'' = JStr caref)
       (filter (describes description) rows) carefs"
proof (induction rows arbitrary: carefs)
  case Nil
  then show ?case by simp
next
  case (Cons row rows)
  then obtain members descr caref rest where row: "row = JObj members"
      "dict_get members ''descr'' = JStr descr" "dict_get members ''caref'' = JStr caref"
    and rest: "ca_matches description rows = Inr rest"
      "carefs = (if descr = description then caref # rest else rest)"
    by (auto simp: res_bind_Inr_iff split: json.splits)
  from Cons.IH [OF rest(1)] rest(2) row show ?case by (auto simp: describes_def)
qed

lemma find_ca_unique_facts:
  assumes "find_ca description response = Inr caref"
  shows "length caref = 13" and "list_all is_lower_hex caref"
    and "\<exists>rows members. dict_get response ''rows'' = JList rows \<and>
      filter (describes description) rows = [JObj members] \<and> dict_get members ''caref'' = JStr caref"
proof -
  from assms obtain rows matches where found: "dict_get response ''rows'' = JList rows"
      "ca_matches description rows = Inr matches"
      "(case matches of
          [] \<Rightarrow> Inl (api_error ''OPNsense CA description was not found'')
        | [caref] \<Rightarrow> raise_if (\<not> fullmatch ca_reference_re caref)
            (api_error ''OPNsense returned an invalid CA reference'') (Inr caref)
        | _ \<Rightarrow> Inl (api_error ''OPNsense CA description is not unique'')) = Inr caref"
    by (auto simp: find_ca_def res_bind_Inr_iff split: json.splits)
  then have rows: "dict_get response ''rows'' = JList rows"
      "ca_matches description rows = Inr [caref]" "fullmatch ca_reference_re caref"
    by (auto split: list.splits)
  from rows(3) show "length caref = 13" "list_all is_lower_hex caref"
    by (simp_all add: ca_reference_re_def fullmatch_rep_Cls)
  from ca_matches_Inr [OF rows(2)] rows(1)
  show "\<exists>rows members. dict_get response ''rows'' = JList rows \<and>
      filter (describes description) rows = [JObj members] \<and> dict_get members ''caref'' = JStr caref"
    by (auto simp: list_all2_Cons2)
qed

text \<open>
  The reference \<^verbatim>\<open>resolve_ca\<close> settles on is well formed and belongs to the only row of the
  authority's list that carries the configured description.
\<close>

theorem find_ca_unique:
  assumes "find_ca description response = Inr caref"
  shows "length caref = 13 \<and> list_all is_lower_hex caref \<and>
    (\<exists>rows members. dict_get response ''rows'' = JList rows \<and>
      filter (describes description) rows = [JObj members] \<and> dict_get members ''caref'' = JStr caref)"
  using find_ca_unique_facts [OF assms] by blast

theorem find_ca_unique_witness:
  "length ''0123456789abc'' = 13 \<and>
   find_ca ''CA'' [(''rows'', JList [JObj [(''descr'', JStr ''CA''), (''caref'', JStr ''0123456789abc'')],
      JObj [(''descr'', JStr ''other''), (''caref'', JStr '''')]]), (''count'', JInt 2)] =
     Inr ''0123456789abc''"
proof -
  have run: "find_ca ''CA'' [(''rows'', JList [JObj [(''descr'', JStr ''CA''), (''caref'', JStr ''0123456789abc'')],
      JObj [(''descr'', JStr ''other''), (''caref'', JStr '''')]]), (''count'', JInt 2)] =
     Inr ''0123456789abc''" by code_simp
  with find_ca_unique [OF run] show ?thesis by simp
qed

section \<open>Certificate identifiers are canonical\<close>

lemma lower_hex_char: "d < 16 \<Longrightarrow> is_lower_hex (hex_char d)"
  by (auto simp: hex_char_def is_lower_hex_def is_digit_def in_range_def code_def)

lemma hex_fixed_shape: "length (hex_fixed k n) = k \<and> list_all is_lower_hex (hex_fixed k n)"
  by (induction k arbitrary: n) (simp_all add: lower_hex_char)

lemma char_of_code [simp]: "char_of (code c) = c"
  by (simp add: code_def)

lemma hex_char_value: "is_lower_hex c \<Longrightarrow> hex_char (hex_value c) = c \<and> hex_value c < 16"
  by (auto simp: is_lower_hex_def is_digit_def in_range_def hex_value_def hex_char_def lower_char_def
      is_upper_def)

lemma hex_fixed_int_of_hex: "list_all is_lower_hex h \<Longrightarrow> hex_fixed (length h) (int_of_hex h) = h"
  by (induction h rule: rev_induct) (auto simp: int_of_hex_snoc hex_char_value)

lemma remove_all_free: "old \<noteq> [] \<Longrightarrow> hd old \<notin> set s \<Longrightarrow> remove_all old s = s"
  by (induction old s rule: remove_all.induct) (auto simp: startswith_iff neq_Nil_conv)

lemma remove_all_char: "remove_all [c] s = filter (\<lambda>x. x \<noteq> c) s"
  by (induction "[c]" s rule: remove_all.induct) auto

lemma lower_hex_free: "list_all is_lower_hex h \<Longrightarrow> \<not> is_lower_hex c \<Longrightarrow> c \<notin> set h"
  by (auto simp: list_all_iff)

lemma not_lower_hex [simp]:
  "\<not> is_lower_hex CHR ''u''" "\<not> is_lower_hex CHR ''-''" "\<not> is_lower_hex CHR ''x''"
  "\<not> is_lower_hex CHR ''X''" "\<not> is_lower_hex CHR ''_''" "\<not> is_lower_hex CHR ''+''"
  "\<not> is_lower_hex CHR 0x7B" "\<not> is_lower_hex CHR 0x7D"
  by (simp_all add: is_lower_hex_def is_digit_def in_range_def code_def)

lemma lower_hex_not_space: "is_lower_hex c \<Longrightarrow> \<not> isspace c"
  by (auto simp: is_lower_hex_def is_digit_def in_range_def isspace_def)

lemma hyphenated_split:
  assumes "length h = 32"
  obtains a b c d e where "h = a @ b @ c @ d @ e" "length a = 8" "length b = 4" "length c = 4"
    "length d = 4" "length e = 12"
    "hyphenated h = a @ ''-'' @ b @ ''-'' @ c @ ''-'' @ d @ ''-'' @ e"
proof -
  have step: "drop m h = take k (drop m h) @ drop (m + k) h" for m k
    using append_take_drop_id [of k "drop m h"] by (simp add: add.commute)
  have "h = take 8 h @ take 4 (drop 8 h) @ take 4 (drop 12 h) @ take 4 (drop 16 h) @ drop 20 h"
    using step [of 0 8] step [of 8 4] step [of 12 4] step [of 16 4] by simp
  then show thesis
    by (rule that) (use assms in \<open>simp_all add: hyphenated_def\<close>)
qed

lemma hex_digits_value_lower: "h \<noteq> [] \<Longrightarrow> list_all is_lower_hex h \<Longrightarrow> hex_digits_value h = Some (int_of_hex h)"
proof -
  assume h: "h \<noteq> []" "list_all is_lower_hex h"
  then have "split_on CHR ''_'' h = [h]"
    using split_on_join [of "[h]" "CHR ''_''"] lower_hex_free [OF h(2)] by simp
  moreover have "list_all is_hex h" using h(2) by (auto simp: list_all_iff is_hex_def)
  ultimately show ?thesis using h by (simp add: hex_digits_value_def)
qed

lemma dropWhile_free: "(\<And>x. x \<in> set s \<Longrightarrow> \<not> P x) \<Longrightarrow> dropWhile P s = s"
  by (cases s) simp_all

lemma int_base16_lower: "h \<noteq> [] \<Longrightarrow> list_all is_lower_hex h \<Longrightarrow> int_base16 h = Some (int (int_of_hex h))"
proof -
  assume h: "h \<noteq> []" "list_all is_lower_hex h"
  have free: "\<not> is_lower_hex c \<Longrightarrow> c \<notin> set h" for c using lower_hex_free [OF h(2)] .
  have "dropWhile isspace h = h" "dropWhile isspace (rev h) = rev h"
    by (rule dropWhile_free, use h(2) in \<open>auto simp: list_all_iff lower_hex_not_space\<close>)+
  then have strip: "strip h = h" by (simp add: strip_def rstrip_def lstrip_def)
  have start: "\<not> startswith h (c # p)" if "\<not> is_lower_hex c" for c p
    using free [OF that] by (auto simp: startswith_iff)
  have second: "\<not> startswith h [b, c]" if "\<not> is_lower_hex c" for b c
    using free [OF that] by (auto simp: startswith_iff)
  show ?thesis
    using start second hex_digits_value_lower [OF h]
    by (simp add: int_base16_def strip unsigned_hex_def Let_def)
qed

lemma normalize_uuid_canonical_facts:
  assumes "normalize_uuid given = Some uuid"
  shows "normalize_uuid uuid = Some uuid"
    and "length uuid = 36" and "list_all (\<lambda>c. is_lower_hex c \<or> c = CHR ''-'') uuid"
proof -
  from assms obtain n where uuid: "uuid = hyphenated (hex_fixed 32 n)"
    by (auto simp: normalize_uuid_def Let_def split: if_splits option.splits)
  define h where "h = hex_fixed 32 n"
  have h: "length h = 32" "list_all is_lower_hex h" using hex_fixed_shape [of 32 n] by (simp_all add: h_def)
  from hyphenated_split [OF h(1)] obtain a b c d e where parts: "h = a @ b @ c @ d @ e"
      "length a = 8" "length b = 4" "length c = 4" "length d = 4" "length e = 12"
      "hyphenated h = a @ ''-'' @ b @ ''-'' @ c @ ''-'' @ d @ ''-'' @ e" .
  have u: "uuid = a @ ''-'' @ b @ ''-'' @ c @ ''-'' @ d @ ''-'' @ e" using parts(7) uuid h_def by simp
  show len: "length uuid = 36" using parts u by simp
  show chars: "list_all (\<lambda>c. is_lower_hex c \<or> c = CHR ''-'') uuid"
    using h(2) parts(1) u by (auto simp: list_all_iff)
  have free: "x \<notin> set uuid" if "\<not> is_lower_hex x" "x \<noteq> CHR ''-''" for x
    using chars that by (auto simp: list_all_iff)
  have urn: "remove_all ''urn:'' uuid = uuid" "remove_all ''uuid:'' uuid = uuid"
    by (rule remove_all_free; simp add: free)+
  have ends: "dropWhile (\<lambda>c. c = CHR 0x7B \<or> c = CHR 0x7D) uuid = uuid"
      "dropWhile (\<lambda>c. c = CHR 0x7B \<or> c = CHR 0x7D) (rev uuid) = rev uuid"
    by (rule dropWhile_free, use free [of "CHR 0x7B"] free [of "CHR 0x7D"] in auto)+
  have "strip_braces uuid = uuid" by (simp add: strip_braces_def Let_def ends)
  moreover have same: "filter (\<lambda>x. x \<noteq> CHR ''-'') p = p" if "list_all is_lower_hex p" for p
    using that by (induction p) auto
  have "list_all is_lower_hex a" "list_all is_lower_hex b" "list_all is_lower_hex c"
      "list_all is_lower_hex d" "list_all is_lower_hex e"
    using h(2) by (simp_all add: parts(1))
  then have "remove_all ''-'' uuid = h"
    unfolding remove_all_char u by (simp add: parts(1) same)
  moreover have "h \<noteq> []" using h(1) by auto
  ultimately show "normalize_uuid uuid = Some uuid"
    using urn h int_base16_lower [of h] hex_fixed_int_of_hex [OF h(2)] uuid
    by (auto simp: normalize_uuid_def Let_def h_def [symmetric])
qed

text \<open>
  A certificate identifier the client accepts is canonical: normalising it again gives the
  same text, so the path of the download request is that of the certificate that was signed.  It
  is 32 lower-case hexadecimal digits in groups of 8, 4, 4, 4 and 12.
\<close>

theorem normalize_uuid_canonical:
  assumes "normalize_uuid given = Some uuid"
  shows "normalize_uuid uuid = Some uuid \<and> length uuid = 36 \<and>
    list_all (\<lambda>c. is_lower_hex c \<or> c = CHR ''-'') uuid"
  using normalize_uuid_canonical_facts [OF assms] by blast

theorem normalize_uuid_canonical_witness:
  "normalize_uuid ''{00000000000000000000000000000AB}'' = None \<and>
   normalize_uuid ''{000000000000000000000000000000AB}'' = Some ''00000000-0000-0000-0000-0000000000ab'' \<and>
   normalize_uuid ''00000000-0000-0000-0000-0000000000ab'' = Some ''00000000-0000-0000-0000-0000000000ab''"
proof -
  have short: "normalize_uuid ''{00000000000000000000000000000AB}'' = None" by code_simp
  have run: "normalize_uuid ''{000000000000000000000000000000AB}'' =
      Some ''00000000-0000-0000-0000-0000000000ab''" by code_simp
  from normalize_uuid_canonical [OF run] short run show ?thesis by blast
qed

section \<open>The names of a request\<close>

lemma check_dns_names_Inr:
  "check_dns_names seen names = Inr u \<Longrightarrow>
     list_all (\<lambda>n. length n \<le> 253 \<and> list_all is_label (split_on CHR ''.'' n)) names \<and>
     distinct (map lower names) \<and> lower ` set names \<inter> seen = {}"
  by (induction seen names rule: check_dns_names.induct)
     (auto simp: fullmatch_dns_label list_all_iff list_ex_iff)

lemma check_ip_names_Inr:
  "check_ip_names seen vals = Inr canonical \<Longrightarrow>
     list_all2 (\<lambda>v c. \<exists>a. ip_address v = Some a \<and> c = str_ip a) vals canonical \<and>
     distinct canonical \<and> set canonical \<inter> seen = {}"
proof (induction vals arbitrary: seen canonical)
  case Nil
  then show ?case by simp
next
  case (Cons v vals)
  then obtain a rest where a: "ip_address v = Some a" "str_ip a \<notin> seen"
      "check_ip_names (insert (str_ip a) seen) vals = Inr rest" "canonical = str_ip a # rest"
    by (auto simp: res_bind_Inr_iff Let_def split: option.splits)
  from Cons.IH [OF a(3)] a show ?case by auto
qed

lemma validate_sans_sound_facts:
  assumes "validate_sans dns addresses = Inr (names, ips)"
  shows "names = dns" and "1 \<le> length names + length ips" and "length names + length ips \<le> MAX_SAN_ENTRIES"
    and "distinct (map lower names)" and "list_all (\<lambda>n. list_all is_label (split_on CHR ''.'' n)) names"
    and "distinct ips" and "list_all (\<lambda>c. map_option str_ip (ip_address c) = Some c) ips"
proof -
  from assms have checks: "check_dns_names {} dns = Inr ()" "check_ip_names {} addresses = Inr ips"
    and count: "1 \<le> length dns + length addresses" "length dns + length addresses \<le> MAX_SAN_ENTRIES"
    and names: "names = dns"
    by (auto simp: validate_sans_def res_bind_Inr_iff)
  note dns_facts = check_dns_names_Inr [OF checks(1)]
  note ip_facts = check_ip_names_Inr [OF checks(2)]
  have len: "length ips = length addresses" using ip_facts by (auto dest: list_all2_lengthD)
  show "names = dns" by (rule names)
  show "1 \<le> length names + length ips" "length names + length ips \<le> MAX_SAN_ENTRIES"
    using count len names by simp_all
  show "distinct (map lower names)" "list_all (\<lambda>n. list_all is_label (split_on CHR ''.'' n)) names"
    using dns_facts names by (auto simp: list_all_iff)
  show "distinct ips" using ip_facts by simp
  have "\<exists>v a. ip_address v = Some a \<and> c = str_ip a" if "c \<in> set ips" for c
    using ip_facts that by (fastforce simp: list_all2_conv_all_nth in_set_conv_nth)
  then show "list_all (\<lambda>c. map_option str_ip (ip_address c) = Some c) ips"
    using ip.canonical_text_fixed by (fastforce simp: list_all_iff)
qed

text \<open>
  The names a signing request may carry: at most 101 and at least one, every DNS name made of
  valid labels and none twice up to case, every address canonical, so that reading it gives the
  same address again, and none twice.
\<close>

theorem validate_sans_sound:
  assumes "validate_sans dns addresses = Inr (names, ips)"
  shows "names = dns \<and> 1 \<le> length names + length ips \<and>
    length names + length ips \<le> MAX_SAN_ENTRIES \<and> distinct (map lower names) \<and>
    list_all (\<lambda>n. list_all is_label (split_on CHR ''.'' n)) names \<and> distinct ips \<and>
    list_all (\<lambda>c. map_option str_ip (ip_address c) = Some c) ips"
  using validate_sans_sound_facts [OF assms] by blast

theorem validate_sans_sound_witness:
  "validate_sans [''sw1.example''] [''192.0.2.1''] = Inr ([''sw1.example''], [''192.0.2.1'']) \<and>
   distinct [''192.0.2.1'']"
proof -
  have run: "validate_sans [''sw1.example''] [''192.0.2.1''] = Inr ([''sw1.example''], [''192.0.2.1''])"
    by code_simp
  with validate_sans_sound [OF run] show ?thesis by blast
qed

section \<open>What a signing run sends\<close>

text \<open>A request either is not made, or is the one further event of the trace.\<close>

lemma request_json_run:
  assumes "request_json env cl (report_progress b ev) verb path payload s = (r, s')"
  shows "(trace s' = trace s \<and> item s' = item s \<and> (\<exists>e. request_data path payload = Inl e)) \<or>
    (\<exists>data reply. request_data path payload = Inr data \<and>
       trace s' = trace s @ [(HttpRequest verb (base_url cl @ path) data, reply)] \<and>
       item s' = (if b then json_progress (item s) ev else item s))"
proof (cases "request_data path payload")
  case (Inl e)
  with assms show ?thesis by (simp add: request_json_def bind_def lift_def)
next
  case (Inr data)
  obtain r1 s1 where one: "seq (report_progress b ev)
      (act_text env (HttpRequest verb (base_url cl @ path) data)) s = (r1, s1)"
    by (cases "seq (report_progress b ev) (act_text env (HttpRequest verb (base_url cl @ path) data)) s")
  have sent: "(\<exists>reply. trace s1 = trace s @ [(HttpRequest verb (base_url cl @ path) data, reply)]) \<and>
      item s1 = (if b then json_progress (item s) ev else item s)"
    using one by (auto simp: seq_def bind_def report_progress_def modify_def ret_def act_text_def
        act_def record_event_def split: if_splits prod.splits sum.splits)
  have failed: "request_failed e s1 = (r2, s2) \<Longrightarrow> s2 = s1" for e and r2 :: "string res" and s2
    by (auto simp: request_failed_def raise_def split: if_splits)
  have "s' = s1"
    using assms one Inr failed
    by (cases r1) (auto simp: request_json_def bind_def lift_def try_except_def split: prod.splits sum.splits)
  with sent Inr show ?thesis by auto
qed

text \<open>
  C11.  A signing run sends at most one request, the \<^verbatim>\<open>POST\<close> to the signing route, and only after
  every check of the request passed and within the size limit.  The report says that issuance is
  uncertain exactly when the request was sent.
\<close>

theorem sign_csr_sends_once:
  "case sign_csr env cl (report_progress b IssuanceDispatched) r s of
     (res, s') \<Rightarrow>
       (trace s' = trace s \<and> item s' = item s \<and> isl res) \<or>
       (\<exists>payload reply. check_sign_request r = Inr payload \<and>
          length (dumps '', '' '': '' payload) \<le> MAX_OPNSENSE_SIGN_REQUEST_BYTES \<and>
          trace s' = trace s @ [(HttpRequest ''POST'' (base_url cl @ CERT_ADD_PATH)
             (Some (dumps '', '' '': '' payload)), reply)] \<and>
          item s' = (if b then json_progress (item s) IssuanceDispatched else item s))"
proof (cases "check_sign_request r")
  case (Inl e)
  then show ?thesis by (simp add: sign_csr_def bind_def lift_def)
next
  case (Inr payload)
  obtain r1 s1 where one: "request_json env cl (report_progress b IssuanceDispatched) ''POST''
      CERT_ADD_PATH (Some payload) s = (r1, s1)"
    by (cases "request_json env cl (report_progress b IssuanceDispatched) ''POST''
      CERT_ADD_PATH (Some payload) s")
  from request_json_run [OF one] consider
      "trace s1 = trace s" "item s1 = item s" "\<exists>e. request_data CERT_ADD_PATH (Some payload) = Inl e"
    | data reply where "request_data CERT_ADD_PATH (Some payload) = Inr data"
      "trace s1 = trace s @ [(HttpRequest ''POST'' (base_url cl @ CERT_ADD_PATH) data, reply)]"
      "item s1 = (if b then json_progress (item s) IssuanceDispatched else item s)" by blast
  then show ?thesis
  proof cases
    case 1
    with one have "isl r1" by (auto simp: request_json_def bind_def lift_def)
    with 1 Inr one show ?thesis by (cases r1) (auto simp: sign_csr_def bind_def lift_def)
  next
    case 2
    then have "data = Some (dumps '', '' '': '' payload)"
        "length (dumps '', '' '': '' payload) \<le> MAX_OPNSENSE_SIGN_REQUEST_BYTES"
      by (auto simp: request_data_def Let_def)
    with 2 Inr one show ?thesis by (cases r1) (auto simp: sign_csr_def bind_def lift_def)
  qed
qed

end
