(* ===== verification/Configuration.thy ===== *)
theory Configuration
  imports LiveHttps OpnsenseClient
begin

text \<open>
  The configuration of a run (\<^verbatim>\<open>src/aruba_cert_renewer.py\<close>): the TOML file and the paths it names,
  the switches, the \<^verbatim>\<open>[opnsense]\<close> and \<^verbatim>\<open>[verification]\<close> sections, the credentials of a switch and the
  certificate to install.  The TOML parser is a parameter; a table is an object of \<open>json\<close>, where
  TOML's dates and times have no counterpart.
\<close>

definition MAX_CONFIG_FILE_BYTES :: nat where "MAX_CONFIG_FILE_BYTES = 1024 * 1024"
definition MAX_VERIFICATION_CA_FILE_BYTES :: nat where "MAX_VERIFICATION_CA_FILE_BYTES = 1024 * 1024"
definition MAX_CERTIFICATE_INPUT_BYTES :: nat where "MAX_CERTIFICATE_INPUT_BYTES = 64 * 1024"
definition MAX_PASSWORD_FILE_BYTES :: nat where "MAX_PASSWORD_FILE_BYTES = 16 * 1024"
definition MAX_ADDITIONAL_SANS :: nat where "MAX_ADDITIONAL_SANS = 100"

section \<open>Paths\<close>

text \<open>\<^verbatim>\<open>os.path.abspath\<close> of an absolute path: the parts from left to right, with a stack.\<close>

fun norm_parts :: "string list \<Rightarrow> string list \<Rightarrow> string list" where
  "norm_parts stack [] = rev stack"
| "norm_parts stack (part # parts) =
     (if part = [] \<or> part = ''.'' then norm_parts stack parts
      else if part = ''..'' then norm_parts (drop 1 stack) parts
      else norm_parts (part # stack) parts)"

definition root_slashes :: "string \<Rightarrow> string" where
  "root_slashes path = (if startswith path ''//'' \<and> \<not> startswith path ''///'' then ''//'' else ''/'')"

definition normpath :: "string \<Rightarrow> string" where
  "normpath path = root_slashes path @ join ''/'' (norm_parts [] (split_on CHR ''/'' path))"

text \<open>\<^verbatim>\<open>resolved_parent\<close> is the directory of the configuration file, with its links resolved.\<close>

definition resolve_config_relative_path :: "'w env \<Rightarrow> string \<Rightarrow> string \<Rightarrow> string" where
  "resolve_config_relative_path env configured_path config_file =
     (let directory = resolved_parent env config_file
      in normpath (if startswith configured_path ''/'' then configured_path
           else directory @ (if endswith directory ''/'' then [] else ''/'') @ configured_path))"

section \<open>The configuration file\<close>

definition load_config :: "'w env \<Rightarrow> string \<Rightarrow> ('w, (string \<times> json) list) io" where
  "load_config env config_file =
     bind (on_os_error (new_exn ValueError (''Configuration file cannot be read: '' @ config_file))
       (read_secure_file env config_file ''Configuration file'' True (MAX_CONFIG_FILE_BYTES + 1))) (\<lambda>contents.
     seq (check (MAX_CONFIG_FILE_BYTES < length contents)
       (new_exn ValueError (''Configuration file exceeds '' @ str_nat MAX_CONFIG_FILE_BYTES @ '' bytes: '' @
         config_file)))
      (case (if valid_utf8 contents then toml_loads env contents else None) of
         None \<Rightarrow> fail ValueError (''Invalid TOML or UTF-8 in configuration file '' @ config_file)
       | Some config \<Rightarrow> ret config))"

definition get_ssh_known_hosts_file ::
  "'w env \<Rightarrow> (string \<times> json) list \<Rightarrow> string \<Rightarrow> ('w, string) io" where
  "get_ssh_known_hosts_file env config config_file =
     (case dict_get config ''ssh'' of
        JObj settings \<Rightarrow>
          (case dict_get settings ''known_hosts_file'' of
             JStr configured_path \<Rightarrow>
               if strip configured_path = [] then fail ValueError ''ssh.known_hosts_file must be configured''
               else if nul \<in> set configured_path then
                 fail ValueError ''ssh.known_hosts_file contains unsupported characters''
               else (let known_hosts_file = resolve_config_relative_path env configured_path config_file
                     in bind (open_secure_file env known_hosts_file ''ssh.known_hosts_file'' True) (\<lambda>fd.
                        seq (act_unit env (OsClose fd)) (ret known_hosts_file)))
           | _ \<Rightarrow> fail ValueError ''ssh.known_hosts_file must be configured'')
      | _ \<Rightarrow> fail ValueError ''An [ssh] configuration section is required'')"

section \<open>The switches\<close>

definition entry_error :: "nat \<Rightarrow> string \<Rightarrow> 'a res" where
  "entry_error index t = value_error (''Switch entry '' @ str_nat index @ t)"

definition ascii_control :: "char \<Rightarrow> bool" where
  "ascii_control c = (code c < 32 \<or> code c = 127)"

definition validate_ssh_username :: "json \<Rightarrow> string \<Rightarrow> string res" where
  "validate_ssh_username username field_name =
     (case username of
        JStr u \<Rightarrow>
          if strip u = [] \<or> list_ex ascii_control u then
            value_error (field_name @ '' must be a non-empty string without controls'')
          else Inr u
      | _ \<Rightarrow> value_error (field_name @ '' must be a non-empty string without controls''))"

definition entry_field :: "nat \<Rightarrow> (string \<times> json) list \<Rightarrow> string \<Rightarrow> string res" where
  "entry_field index entry field =
     (let missing = entry_error index ('' must contain a non-empty '' @ [apostrophe] @ field @ [apostrophe])
      in case dict_get entry field of
           JStr s \<Rightarrow> if strip s = [] then missing else Inr s
         | _ \<Rightarrow> missing)"

definition canonical_identity :: "string \<Rightarrow> string \<Rightarrow> string res" where
  "canonical_identity field_name val =
     res_bind (parse_identity val field_name) (\<lambda>identity. Inr (ident_value identity))"

fun as_strings :: "json list \<Rightarrow> string list option" where
  "as_strings [] = Some []"
| "as_strings (JStr s # vals) = map_option ((#) s) (as_strings vals)"
| "as_strings (_ # vals) = None"

definition entry_sans :: "nat \<Rightarrow> (string \<times> json) list \<Rightarrow> string list res" where
  "entry_sans index entry =
     (let wrong = entry_error index '' additional_sans must be an array of strings''
      in case dict_get_default entry ''additional_sans'' (JList []) of
           JList vals \<Rightarrow>
             (case as_strings vals of
                None \<Rightarrow> wrong
              | Some names \<Rightarrow>
                  if MAX_ADDITIONAL_SANS < length names then
                    entry_error index ('' additional_sans cannot contain more than '' @
                      str_nat MAX_ADDITIONAL_SANS @ '' entries'')
                  else res_map (canonical_identity (''Switch entry '' @ str_nat index @
                    '' additional_sans item'')) names)
         | _ \<Rightarrow> wrong)"

definition entry_username :: "nat \<Rightarrow> (string \<times> json) list \<Rightarrow> string option res" where
  "entry_username index entry =
     (case map_of entry ''username'' of
        None \<Rightarrow> Inr None
      | Some username \<Rightarrow>
          res_bind (validate_ssh_username username (''Switch entry '' @ str_nat index @ '' username''))
            (\<lambda>u. Inr (Some u)))"

definition entry_password_file :: "nat \<Rightarrow> (string \<times> json) list \<Rightarrow> string option res" where
  "entry_password_file index entry =
     (let wrong = entry_error index '' password_file must be a non-empty safe path''
      in case map_of entry ''password_file'' of
           None \<Rightarrow> Inr None
         | Some (JStr p) \<Rightarrow> if strip p = [] \<or> list_ex ascii_control p then wrong else Inr (Some p)
         | Some _ \<Rightarrow> wrong)"

definition validate_entry :: "string \<Rightarrow> nat \<Rightarrow> json \<Rightarrow> switch res" where
  "validate_entry known_hosts_file index entry =
     (case entry of
        JObj members \<Rightarrow>
          raise_if (''fqdn'' \<in> keys members)
            (new_exn ValueError ''switches.fqdn is no longer supported; use host and optional additional_sans'')
         (raise_if (''password'' \<in> keys members)
            (new_exn ValueError (''switches.password is not supported; passwords must come from '' @
              ''password_file, ARUBA_SSH_PASSWORD, or interactive input''))
         (res_bind (entry_field index members ''name'') (\<lambda>name.
          res_bind (entry_field index members ''host'') (\<lambda>given_host.
          res_bind (canonical_identity (''Switch entry '' @ str_nat index @ '' host'') given_host) (\<lambda>host.
          res_bind (entry_sans index members) (\<lambda>sans.
          res_bind (entry_username index members) (\<lambda>username.
          res_bind (entry_password_file index members) (\<lambda>password_file.
            Inr \<lparr>sw_name = name, sw_host = host, sw_additional_sans = sans,
                 sw_known_hosts_file = Some known_hosts_file, sw_username = username,
                 sw_password_file = password_file\<rparr>))))))))
      | _ \<Rightarrow> entry_error index '' must be a TOML table'')"

text \<open>The loop over the entries, with the casefolded names seen so far.\<close>

fun validate_entries :: "string \<Rightarrow> nat \<Rightarrow> string set \<Rightarrow> json list \<Rightarrow> switch list res" where
  "validate_entries known_hosts_file index used [] = Inr []"
| "validate_entries known_hosts_file index used (entry # entries) =
     res_bind (validate_entry known_hosts_file index entry) (\<lambda>sw.
       raise_if (casefold (sw_name sw) \<in> used)
         (new_exn ValueError (''Duplicate switch name: '' @ sw_name sw))
         (res_bind (validate_entries known_hosts_file (index + 1) (insert (casefold (sw_name sw)) used) entries)
           (\<lambda>sws. Inr (sw # sws))))"

text \<open>A \<^verbatim>\<open>settings\<close> value that is no table has no method \<^verbatim>\<open>get\<close>.\<close>

definition get_warning_days :: "(string \<times> json) list \<Rightarrow> int res" where
  "get_warning_days config =
     (case dict_get_default config ''settings'' (JObj []) of
        JObj settings \<Rightarrow>
          (case dict_get_default settings ''warning_days'' (JInt 30) of
             JInt n \<Rightarrow>
               if n < 0 then value_error ''settings.warning_days cannot be negative'' else Inr n
           | _ \<Rightarrow> value_error ''settings.warning_days must be an integer'')
      | _ \<Rightarrow> Inl (new_exn AttributeError ''''))"

definition validate_config ::
  "'w env \<Rightarrow> (string \<times> json) list \<Rightarrow> string \<Rightarrow> ('w, int \<times> switch list) io" where
  "validate_config env config config_file =
     bind (get_ssh_known_hosts_file env config config_file) (\<lambda>known_hosts_file.
     bind (lift (get_warning_days config)) (\<lambda>warning_days.
       (case dict_get config ''switches'' of
          JList (entry # entries) \<Rightarrow>
            bind (lift (validate_entries known_hosts_file 1 {} (entry # entries))) (\<lambda>switches.
              ret (warning_days, switches))
        | _ \<Rightarrow> fail ValueError ''At least one [[switches]] entry must be configured'')))"

definition select_switches :: "switch list \<Rightarrow> string option \<Rightarrow> switch list res" where
  "select_switches switches switch_name =
     (case switch_name of
        None \<Rightarrow> Inr switches
      | Some name \<Rightarrow>
          (let matches = filter (\<lambda>sw. casefold (sw_name sw) = casefold name) switches
           in raise_if (matches = []) (new_exn ValueError (''Switch not found in configuration: '' @ name))
                (Inr matches)))"

section \<open>Credentials\<close>

definition check_password_bytes :: "string \<Rightarrow> string \<Rightarrow> string res" where
  "check_password_bytes password_bytes password_file =
     raise_if (MAX_PASSWORD_FILE_BYTES < length password_bytes)
       (new_exn ValueError (''switches.password_file exceeds '' @ str_nat MAX_PASSWORD_FILE_BYTES @
          '' bytes: '' @ password_file))
    (raise_if (nul \<in> set password_bytes)
       (new_exn ValueError (''switches.password_file contains NUL: '' @ password_file))
    (let line = chop_line_end password_bytes
     in raise_if (line = []) (new_exn ValueError (''switches.password_file is empty: '' @ password_file))
       (raise_if (carriage_return \<in> set line \<or> newline \<in> set line)
          (new_exn ValueError (''switches.password_file must contain exactly one line: '' @ password_file))
       (raise_if (\<not> valid_utf8 line)
          (new_exn ValueError (''switches.password_file must contain valid UTF-8: '' @ password_file))
          (Inr line)))))"

definition read_password_file :: "'w env \<Rightarrow> string \<Rightarrow> string \<Rightarrow> ('w, string) io" where
  "read_password_file env configured_path config_file =
     (let password_file = resolve_config_relative_path env configured_path config_file
      in bind (open_secure_file env password_file ''switches.password_file'' True) (\<lambda>fd.
         bind (try_finally
             (on_os_error (new_exn ValueError (''switches.password_file cannot be read: '' @ password_file))
               (act_text env (ReadFile fd (MAX_PASSWORD_FILE_BYTES + 1))))
             (\<lambda>failed. act_unit env (OsClose fd))) (\<lambda>password_bytes.
           lift (check_password_bytes password_bytes password_file))))"

text \<open>\<^verbatim>\<open>a or b\<close> on optional texts: an empty text counts as absent.\<close>

definition nonempty :: "string option \<Rightarrow> string option" where
  "nonempty t = (if t = Some [] then None else t)"

definition ask_username :: "'w env \<Rightarrow> switch \<Rightarrow> bool \<Rightarrow> ('w, string) io" where
  "ask_username env sw allow_prompt =
     (case (case nonempty (sw_username sw) of
              None \<Rightarrow> nonempty (environ env ''ARUBA_SSH_USERNAME'') | configured \<Rightarrow> configured) of
        Some username \<Rightarrow> ret username
      | None \<Rightarrow>
          seq (check (\<not> allow_prompt) (new_exn ValueError ''SSH username is required in non-interactive mode''))
            (act_text env (Prompt (''SSH username for '' @ sanitize_terminal_text (sw_name sw) @ '': ''))))"

definition ask_password :: "'w env \<Rightarrow> switch \<Rightarrow> string \<Rightarrow> bool \<Rightarrow> ('w, string) io" where
  "ask_password env sw config_file allow_prompt =
     (case sw_password_file sw of
        Some path \<Rightarrow> read_password_file env path config_file
      | None \<Rightarrow>
          (case nonempty (environ env ''ARUBA_SSH_PASSWORD'') of
             Some password \<Rightarrow> ret password
           | None \<Rightarrow>
               seq (check (\<not> allow_prompt)
                 (new_exn ValueError ''SSH password is required in non-interactive mode''))
                 (act_text env (Getpass (''SSH password for '' @ sanitize_terminal_text (sw_name sw) @ '': '')))))"

definition get_switch_credentials ::
  "'w env \<Rightarrow> switch \<Rightarrow> string \<Rightarrow> bool \<Rightarrow> ('w, string \<times> string) io" where
  "get_switch_credentials env sw config_file allow_prompt =
     bind (ask_username env sw allow_prompt) (\<lambda>username.
     bind (lift (validate_ssh_username (JStr username) ''SSH username'')) (\<lambda>username.
     bind (ask_password env sw config_file allow_prompt) (\<lambda>password.
     seq (check (password = [])
       (new_exn ValueError (''SSH password for '' @ sw_name sw @ '' cannot be empty'')))
       (ret (username, password)))))"

section \<open>The certificate authority\<close>

record opnsense_settings =
  os_base_url :: string
  os_ca :: string
  os_lifetime_days :: int
  os_digest :: string

text \<open>A list or table cannot be looked up in a set: \<^verbatim>\<open>digest not in {...}\<close> raises \<^verbatim>\<open>TypeError\<close>.\<close>

definition opnsense_digest :: "json \<Rightarrow> string res" where
  "opnsense_digest digest =
     (case digest of
        JStr d \<Rightarrow>
          if d \<in> {''sha256'', ''sha384'', ''sha512''} then Inr d
          else value_error ''opnsense.digest must be sha256, sha384, or sha512''
      | JList xs \<Rightarrow> Inl (new_exn TypeError '''')
      | JObj ps \<Rightarrow> Inl (new_exn TypeError '''')
      | _ \<Rightarrow> value_error ''opnsense.digest must be sha256, sha384, or sha512'')"

definition opnsense_ca :: "json \<Rightarrow> string res" where
  "opnsense_ca ca =
     (case ca of
        JStr d \<Rightarrow>
          if strip d = [] \<or> 255 < length d \<or> list_ex (\<lambda>c. code c < 32) d then
            value_error ''opnsense.ca must be a non-empty safe description''
          else Inr (strip d)
      | _ \<Rightarrow> value_error ''opnsense.ca must be a non-empty safe description'')"

definition opnsense_lifetime :: "json \<Rightarrow> int res" where
  "opnsense_lifetime lifetime =
     (case lifetime of
        JInt n \<Rightarrow>
          if 1 \<le> n \<and> n \<le> 3650 then Inr n
          else value_error ''opnsense.lifetime_days must be between 1 and 3650''
      | _ \<Rightarrow> value_error ''opnsense.lifetime_days must be between 1 and 3650'')"

definition get_opnsense_settings :: "(string \<times> json) list \<Rightarrow> opnsense_settings res" where
  "get_opnsense_settings config =
     (case dict_get config ''opnsense'' of
        JObj settings \<Rightarrow>
          raise_if (''api_key'' \<in> keys settings \<or> ''api_secret'' \<in> keys settings)
            (new_exn ValueError ''OPNsense API credentials must be supplied only through environment variables'')
           (case filter (\<lambda>field. field \<notin> keys settings) [''base_url'', ''ca'', ''lifetime_days'', ''digest''] of
              field # _ \<Rightarrow> value_error (''opnsense.'' @ field @ '' must be configured'')
            | [] \<Rightarrow>
                res_bind (case dict_get settings ''base_url'' of
                    JStr u \<Rightarrow> validate_base_url u
                  | _ \<Rightarrow> url_error ''must be a non-empty HTTPS URL'') (\<lambda>base_url.
                res_bind (opnsense_ca (dict_get settings ''ca'')) (\<lambda>ca.
                res_bind (opnsense_lifetime (dict_get settings ''lifetime_days'')) (\<lambda>lifetime_days.
                res_bind (opnsense_digest (dict_get settings ''digest'')) (\<lambda>digest.
                  Inr \<lparr>os_base_url = base_url, os_ca = ca, os_lifetime_days = lifetime_days,
                       os_digest = digest\<rparr>)))))
      | _ \<Rightarrow> value_error ''An [opnsense] configuration section is required'')"

definition validate_automatic_renewal_window :: "int \<Rightarrow> opnsense_settings \<Rightarrow> unit res" where
  "validate_automatic_renewal_window warning_days opnsense =
     raise_if (warning_days < 0 \<or> os_lifetime_days opnsense \<le> warning_days)
       (new_exn ValueError (''--renew-due requires settings.warning_days to be less than '' @
          ''opnsense.lifetime_days''))
       (Inr ())"

definition capture_verification_ca :: "'w env \<Rightarrow> string \<Rightarrow> ('w, ca_snapshot) io" where
  "capture_verification_ca env path =
     bind (on_os_error (new_exn ValueError (''verification.ca_file cannot be read: '' @ path))
       (read_secure_file env path ''verification.ca_file'' True (MAX_VERIFICATION_CA_FILE_BYTES + 1)))
       (\<lambda>ca_bytes.
     seq (check (MAX_VERIFICATION_CA_FILE_BYTES < length ca_bytes)
       (new_exn ValueError (''verification.ca_file exceeds '' @ str_nat MAX_VERIFICATION_CA_FILE_BYTES @
          '' bytes: '' @ path)))
    (seq (check (ca_bytes = [])
       (new_exn ValueError (''verification.ca_file does not contain any trusted certificates: '' @ path)))
      (ret \<lparr>ca_path = path, ca_pem = ca_bytes\<rparr>)))"

definition get_verification_ca_file ::
  "'w env \<Rightarrow> (string \<times> json) list \<Rightarrow> string \<Rightarrow> ('w, ca_snapshot) io" where
  "get_verification_ca_file env config config_file =
     (case dict_get config ''verification'' of
        JObj settings \<Rightarrow>
          (case dict_get settings ''ca_file'' of
             JStr configured_path \<Rightarrow>
               if strip configured_path = [] then fail ValueError ''verification.ca_file must be configured''
               else if nul \<in> set configured_path then
                 fail ValueError ''verification.ca_file contains unsupported characters''
               else
                 bind (capture_verification_ca env
                     (resolve_config_relative_path env configured_path config_file)) (\<lambda>snapshot.
                 seq (https_tls_context env snapshot) (ret snapshot))
           | _ \<Rightarrow> fail ValueError ''verification.ca_file must be configured'')
      | _ \<Rightarrow> fail ValueError (''A [verification] configuration section is required for '' @
               ''--install-certificate, --renew, or --renew-due''))"

section \<open>The certificate to install\<close>

definition certificate_input_re :: re where
  "certificate_input_re =
     (let blank = Star (Cls (\<lambda>c. c = CHR '' '' \<or> c = CHR 0x09 \<or> c = carriage_return \<or> c = newline))
      in cats [blank, lit ''-----BEGIN CERTIFICATE-----'', line_break, Plus (Cat base64_line line_break),
           lit ''-----END CERTIFICATE-----'', blank])"

definition certificate_input_failed :: "string \<Rightarrow> exn \<Rightarrow> ('w, 'a) io" where
  "certificate_input_failed path error =
     (if isinstance error FileNotFoundError then
        fail ValueError (''Certificate input file not found: '' @ path)
      else if isinstance error IsADirectoryError then
        fail ValueError (''Certificate input is not a regular file: '' @ path)
      else if isinstance error OSError then
        fail ValueError (''Certificate input could not be read: '' @ path @ '': '' @ exn_text error)
      else raise error)"

definition read_certificate_bytes :: "'w env \<Rightarrow> string \<Rightarrow> ('w, string) io" where
  "read_certificate_bytes env path =
     bind (act_num env (OsOpen path [''O_RDONLY'', ''O_NONBLOCK'', ''O_CLOEXEC''])) (\<lambda>fd.
     seq (try_except (act_unit env (OsFdopen fd)) (\<lambda>error. seq (act_unit env (OsClose fd)) (raise error)))
       (try_finally
         (bind (act_status env (OsFstat fd)) (\<lambda>status.
          seq (check (st_kind status \<noteq> RegularFile)
            (new_exn ValueError (''Certificate input is not a regular file: '' @ path)))
            (act_text env (ReadFile fd (MAX_CERTIFICATE_INPUT_BYTES + 1)))))
         (\<lambda>failed. act_unit env (OsClose fd))))"

definition check_certificate_input :: "crypto \<Rightarrow> string \<Rightarrow> string res" where
  "check_certificate_input lib certificate_bytes =
     raise_if (MAX_CERTIFICATE_INPUT_BYTES < length certificate_bytes)
       (new_exn ValueError (''Certificate input exceeds '' @ str_nat MAX_CERTIFICATE_INPUT_BYTES @ '' bytes''))
    (raise_if (\<not> isascii certificate_bytes) (new_exn ValueError ''Certificate input must be ASCII PEM'')
    (raise_if (\<not> fullmatch certificate_input_re certificate_bytes)
       (new_exn ValueError ''Certificate input must contain exactly one PEM X.509 certificate'')
      (case load_certificates lib certificate_bytes of
         Inl e \<Rightarrow>
           if isinstance e ValueError then value_error ''Certificate input is not valid PEM X.509'' else Inl e
       | Inr certificates \<Rightarrow>
           raise_if (length certificates \<noteq> 1)
             (new_exn ValueError ''Certificate input must contain exactly one certificate'')
             (Inr certificate_bytes))))"

definition read_certificate_input :: "'w env \<Rightarrow> string \<Rightarrow> ('w, string) io" where
  "read_certificate_input env path =
     bind (try_except (read_certificate_bytes env path) (certificate_input_failed path)) (\<lambda>certificate_bytes.
       lift (check_certificate_input (crypto_lib env) certificate_bytes))"

section \<open>Command line arguments\<close>

text \<open>The result of \<^verbatim>\<open>parse_args\<close>, which \<^verbatim>\<open>argparse\<close> builds.\<close>

record cli_args =
  arg_config :: string
  arg_json :: bool
  arg_switch_name :: "string option"
  arg_certificate_name :: "string option"
  arg_generate_csr :: bool
  arg_retrieve_csr :: bool
  arg_sign_csr :: bool
  arg_install_certificate :: bool
  arg_renew :: bool
  arg_renew_due :: bool
  arg_csr_output :: "string option"
  arg_certificate_output :: "string option"
  arg_certificate_input :: "string option"

definition staged_operation :: "cli_args \<Rightarrow> bool" where
  "staged_operation args =
     list_ex (\<lambda>b. b) [arg_generate_csr args, arg_retrieve_csr args, arg_sign_csr args, arg_install_certificate args]"

definition selected_operations :: "cli_args \<Rightarrow> nat" where
  "selected_operations args = length (filter (\<lambda>b. b)
     [arg_generate_csr args, arg_retrieve_csr args, arg_sign_csr args, arg_install_certificate args,
      arg_renew args, arg_renew_due args])"

text \<open>The rules on the arguments alone; a path is present when the option was given.\<close>

definition check_cli_args :: "cli_args \<Rightarrow> unit res" where
  "check_cli_args args =
     (let staged = staged_operation args;
          operation_name =
            (if arg_generate_csr args then ''--generate-csr'' else if arg_retrieve_csr args then ''--retrieve-csr''
             else if arg_sign_csr args then ''--sign-csr'' else ''--install-certificate'');
          renewal = (arg_renew args \<or> arg_renew_due args);
          renewal_mode = (if arg_renew_due args then ''--renew-due'' else ''--renew'');
          named = (nonempty (arg_certificate_name args) \<noteq> None);
          switch_given = (nonempty (arg_switch_name args) \<noteq> None);
          csr_output = (arg_csr_output args \<noteq> None);
          certificate_output = (arg_certificate_output args \<noteq> None);
          certificate_input = (arg_certificate_input args \<noteq> None);
          refuse = (\<lambda>b t. raise_if b (new_exn ValueError t))
      in refuse (arg_json args \<and> (arg_generate_csr args \<or> arg_retrieve_csr args) \<and> \<not> csr_output)
           ''--output json requires --csr-output for CSR output''
        (refuse (1 < selected_operations args)
           (''--generate-csr, --retrieve-csr, --sign-csr, '' @
            ''--install-certificate, --renew, and --renew-due are mutually exclusive'')
        (refuse (arg_renew args \<and> \<not> switch_given) ''--renew requires --switch''
        (refuse (staged \<and> \<not> switch_given) (operation_name @ '' requires --switch'')
        (refuse (staged \<and> \<not> named) (operation_name @ '' requires --certificate-name'')
        (refuse (renewal \<and> named) (renewal_mode @ '' does not accept --certificate-name'')
        (refuse (\<not> staged \<and> \<not> renewal \<and> named)
           (''--certificate-name requires --generate-csr, --retrieve-csr, '' @ ''--sign-csr, or --install-certificate'')
        (refuse (renewal \<and> csr_output) (renewal_mode @ '' does not accept --csr-output'')
        (refuse ((\<not> staged \<or> arg_sign_csr args \<or> arg_install_certificate args) \<and> csr_output)
           ''--csr-output requires --generate-csr or --retrieve-csr''
        (refuse (renewal \<and> certificate_output) (renewal_mode @ '' does not accept --certificate-output'')
        (refuse (\<not> arg_sign_csr args \<and> certificate_output) ''--certificate-output requires --sign-csr''
        (refuse (arg_sign_csr args \<and> \<not> certificate_output) ''--sign-csr requires --certificate-output''
        (refuse (arg_install_certificate args \<and> \<not> certificate_input)
           ''--install-certificate requires --certificate-input''
        (refuse (renewal \<and> certificate_input) (renewal_mode @ '' does not accept --certificate-input'')
        (refuse (\<not> arg_install_certificate args \<and> \<not> renewal \<and> certificate_input)
           ''--certificate-input requires --install-certificate''
          (case nonempty (arg_certificate_name args) of
             None \<Rightarrow> Inr ()
           | Some name \<Rightarrow>
               res_bind (validate_cli_identifier name ''certificate name'') (\<lambda>_. Inr ())))))))))))))))))"

text \<open>\<^verbatim>\<open>Path.exists\<close>: whether \<^verbatim>\<open>os.stat\<close> succeeds; an \<^verbatim>\<open>OSError\<close> or \<^verbatim>\<open>ValueError\<close> means no.\<close>

definition path_exists :: "'w env \<Rightarrow> string \<Rightarrow> ('w, bool) io" where
  "path_exists env path =
     try_except (bind (act_status env (OsStat path)) (\<lambda>_. ret True))
       (\<lambda>error. if isinstance_any error [OSError, ValueError] then ret False else raise error)"

definition refuse_existing :: "'w env \<Rightarrow> string \<Rightarrow> string option \<Rightarrow> ('w, unit) io" where
  "refuse_existing env kind output =
     (case output of
        None \<Rightarrow> ret ()
      | Some path \<Rightarrow>
          bind (path_exists env path) (\<lambda>exists.
            check exists (new_exn ValueError (kind @ '' output file already exists: '' @ path))))"

definition validate_cli_args :: "'w env \<Rightarrow> cli_args \<Rightarrow> ('w, unit) io" where
  "validate_cli_args env args =
     bind (lift (check_cli_args args)) (\<lambda>_.
     seq (refuse_existing env ''CSR'' (arg_csr_output args))
       (refuse_existing env ''Certificate'' (arg_certificate_output args)))"

section \<open>What an accepted configuration satisfies\<close>

text \<open>The entry as the rest of the program reads it: canonical names, a bounded number of them.\<close>

definition canonical :: "string \<Rightarrow> bool" where
  "canonical host = (\<exists>given field identity. parse_identity given field = Inr identity \<and>
     ident_value identity = host)"

definition sound_switch :: "string \<Rightarrow> switch \<Rightarrow> bool" where
  "sound_switch known_hosts_file sw =
     (strip (sw_name sw) \<noteq> [] \<and> canonical (sw_host sw) \<and> list_all canonical (sw_additional_sans sw) \<and>
      length (sw_additional_sans sw) \<le> MAX_ADDITIONAL_SANS \<and>
      sw_known_hosts_file sw = Some known_hosts_file \<and>
      (case sw_username sw of None \<Rightarrow> True | Some u \<Rightarrow> strip u \<noteq> [] \<and> \<not> list_ex ascii_control u) \<and>
      (case sw_password_file sw of None \<Rightarrow> True | Some p \<Rightarrow> strip p \<noteq> [] \<and> \<not> list_ex ascii_control p))"

lemma canonical_identity_Inr: "canonical_identity field given = Inr host \<Longrightarrow> canonical host"
  by (auto simp: canonical_identity_def canonical_def res_bind_Inr_iff)

lemma res_map_canonical: "res_map (canonical_identity field) names = Inr hosts \<Longrightarrow>
    list_all canonical hosts \<and> length hosts = length names"
proof (induction names arbitrary: hosts)
  case (Cons name names)
  then show ?case by (auto simp: res_bind_Inr_iff dest: canonical_identity_Inr)
qed simp

lemma entry_sans_Inr:
  assumes "entry_sans index members = Inr sans"
  shows "list_all canonical sans \<and> length sans \<le> MAX_ADDITIONAL_SANS"
  using assms
  by (auto simp: entry_sans_def entry_error_def Let_def dest: res_map_canonical
      split: json.splits option.splits if_splits)

lemma entry_field_Inr: "entry_field index members field = Inr t \<Longrightarrow> strip t \<noteq> []"
  by (auto simp: entry_field_def entry_error_def Let_def split: json.splits if_splits)

lemma validate_ssh_username_Inr:
  "validate_ssh_username j field = Inr u \<Longrightarrow> strip u \<noteq> [] \<and> \<not> list_ex ascii_control u"
  by (auto simp: validate_ssh_username_def split: json.splits if_splits)

lemma validate_entry_sound:
  assumes "validate_entry known_hosts_file index entry = Inr sw"
  shows "sound_switch known_hosts_file sw"
proof -
  have username: "entry_username index members = Inr u \<Longrightarrow>
      (case u of None \<Rightarrow> True | Some u \<Rightarrow> strip u \<noteq> [] \<and> \<not> list_ex ascii_control u)" for members u
    by (auto simp: entry_username_def res_bind_Inr_iff dest: validate_ssh_username_Inr split: option.splits)
  have password: "entry_password_file index members = Inr p \<Longrightarrow>
      (case p of None \<Rightarrow> True | Some p \<Rightarrow> strip p \<noteq> [] \<and> \<not> list_ex ascii_control p)" for members p
    by (auto simp: entry_password_file_def entry_error_def Let_def split: option.splits json.splits if_splits)
  from assms show ?thesis
    by (auto simp: validate_entry_def entry_error_def sound_switch_def res_bind_Inr_iff raise_if_Inr_iff
        split: json.splits dest: entry_field_Inr canonical_identity_Inr entry_sans_Inr username password)
qed

lemma validate_entries_distinct:
  "validate_entries known_hosts_file index used entries = Inr sws \<Longrightarrow>
     length sws = length entries \<and> list_all (sound_switch known_hosts_file) sws \<and>
     distinct (map (\<lambda>sw. casefold (sw_name sw)) sws) \<and>
     (\<lambda>sw. casefold (sw_name sw)) ` set sws \<inter> used = {}"
proof (induction entries arbitrary: index used sws)
  case (Cons entry entries)
  from Cons.prems obtain sw rest where parts: "sws = sw # rest" "sound_switch known_hosts_file sw"
      "casefold (sw_name sw) \<notin> used"
      "validate_entries known_hosts_file (index + 1) (insert (casefold (sw_name sw)) used) entries = Inr rest"
    by (auto simp: res_bind_Inr_iff raise_if_Inr_iff dest: validate_entry_sound)
  from Cons.IH [OF parts(4)] parts(1-3) show ?case by auto
qed simp

lemma filter_distinct_key:
  "distinct (map f xs) \<Longrightarrow> x \<in> set xs \<Longrightarrow> filter (\<lambda>y. f y = f x) xs = [x]"
  by (induction xs) (auto simp: filter_empty_conv image_iff)

lemma select_one:
  assumes "distinct (map (\<lambda>sw. casefold (sw_name sw)) sws)" and "select_switches sws (Some name) = Inr chosen"
  shows "\<exists>sw \<in> set sws. chosen = [sw] \<and> casefold (sw_name sw) = casefold name"
proof -
  let ?matches = "filter (\<lambda>sw. casefold (sw_name sw) = casefold name) sws"
  from assms(2) have chosen: "chosen = ?matches" and "?matches \<noteq> []"
    by (auto simp: select_switches_def Let_def raise_if_Inr_iff)
  then obtain sw where sw: "sw \<in> set sws" "casefold (sw_name sw) = casefold name"
    by (auto simp: filter_empty_conv)
  from filter_distinct_key [OF assms(1) sw(1)] sw chosen show ?thesis by auto
qed

text \<open>
  C39.  The switches of an accepted configuration: every entry gives one switch, whose host and further
  names are canonical identities, with a bounded number of further names, the checked
  \<^verbatim>\<open>known_hosts\<close> file, and a user name and password file without control characters; and the names
  are distinct up to case, so that \<^verbatim>\<open>--switch\<close> selects exactly one of them.
\<close>

theorem validate_entries_sound:
  assumes "validate_entries known_hosts_file 1 {} entries = Inr switches"
  shows "length switches = length entries \<and> (\<forall>sw \<in> set switches. sound_switch known_hosts_file sw) \<and>
    distinct (map (\<lambda>sw. casefold (sw_name sw)) switches) \<and>
    (\<forall>name chosen. select_switches switches (Some name) = Inr chosen \<longrightarrow>
       (\<exists>sw \<in> set switches. chosen = [sw] \<and> casefold (sw_name sw) = casefold name))"
  using validate_entries_distinct [OF assms] select_one by (auto simp: list_all_iff)

definition sample_entries :: "json list" where
  "sample_entries =
     [JObj [(''name'', JStr ''Core''), (''host'', JStr ''CORE.example.NET'')],
      JObj [(''name'', JStr ''edge''), (''host'', JStr ''10.0.0.2''),
        (''additional_sans'', JList [JStr ''Edge.example.net'']), (''username'', JStr ''admin'')]]"

theorem validate_entries_sound_witness:
  "\<exists>switches. validate_entries ''kh'' 1 {} sample_entries = Inr switches \<and>
     distinct (map (\<lambda>sw. casefold (sw_name sw)) switches) \<and>
     (\<exists>sw \<in> set switches. select_switches switches (Some ''EDGE'') = Inr [sw] \<and> sound_switch ''kh'' sw)"
proof -
  let ?switches = "[\<lparr>sw_name = ''Core'', sw_host = ''core.example.net'', sw_additional_sans = [],
        sw_known_hosts_file = Some ''kh'', sw_username = None, sw_password_file = None\<rparr>,
      \<lparr>sw_name = ''edge'', sw_host = ''10.0.0.2'', sw_additional_sans = [''edge.example.net''],
        sw_known_hosts_file = Some ''kh'', sw_username = Some ''admin'', sw_password_file = None\<rparr>]"
  have accepted: "validate_entries ''kh'' 1 {} sample_entries = Inr ?switches" by code_simp
  have chosen: "select_switches ?switches (Some ''EDGE'') = Inr [?switches ! 1]" by code_simp
  from validate_entries_sound [OF accepted] accepted chosen show ?thesis by fastforce
qed

section \<open>Paths of the configuration\<close>

text \<open>A part that is a name of its own.\<close>

definition plain_part :: "string \<Rightarrow> bool" where
  "plain_part p = (p \<noteq> [] \<and> p \<noteq> ''.'' \<and> p \<noteq> ''..'' \<and> CHR ''/'' \<notin> set p)"

lemma norm_parts_clean:
  "list_all plain_part stack \<Longrightarrow> (\<And>p. p \<in> set parts \<Longrightarrow> CHR ''/'' \<notin> set p) \<Longrightarrow>
     list_all plain_part (norm_parts stack parts)"
proof (induction stack parts rule: norm_parts.induct)
  case (2 stack part parts)
  have "list_all plain_part (drop 1 stack)" using 2(4) by (auto simp: list_all_iff dest: in_set_dropD)
  with 2 show ?case by (simp add: plain_part_def [of part])
qed (simp add: list_all_iff)

lemma norm_parts_plain: "list_all plain_part parts \<Longrightarrow> norm_parts stack parts = rev stack @ parts"
  by (induction parts arbitrary: stack) (auto simp: plain_part_def)

lemma norm_parts_skip [simp]: "norm_parts stack ([] # parts) = norm_parts stack parts"
  by simp

lemma root_slashes_cases: "root_slashes path = ''/'' \<or> root_slashes path = ''//''"
  by (simp add: root_slashes_def)

lemma join_plain_start: "list_all plain_part parts \<Longrightarrow> \<not> startswith (join ''/'' parts) ''/''"
  by (cases parts; cases "hd parts"; cases "tl parts") (auto simp: plain_part_def)

lemma root_slashes_join:
  assumes "list_all plain_part parts" and "root = ''/'' \<or> root = ''//''"
  shows "root_slashes (root @ join ''/'' parts) = root"
  using assms(2) join_plain_start [OF assms(1)] by (auto simp: root_slashes_def)

lemma split_join_plain:
  "list_all plain_part parts \<Longrightarrow> norm_parts [] (split_on CHR ''/'' (join ''/'' parts)) = parts"
  by (cases "parts = []") (auto simp: split_on_join norm_parts_plain list_all_iff plain_part_def)

text \<open>
  A path of the configuration file is used as an absolute path without empty, \<^verbatim>\<open>.\<close> and \<^verbatim>\<open>..\<close>
  parts, whatever was configured, and normalising it again does not change it.
\<close>

theorem resolved_path_canonical:
  "\<exists>root parts. resolve_config_relative_path env configured_path config_file = root @ join ''/'' parts \<and>
     (root = ''/'' \<or> root = ''//'') \<and>
     list_all plain_part parts \<and>
     normpath (root @ join ''/'' parts) = root @ join ''/'' parts"
proof -
  obtain path where path: "resolve_config_relative_path env configured_path config_file = normpath path"
    by (simp add: resolve_config_relative_path_def Let_def)
  define root parts where "root = root_slashes path" and "parts = norm_parts [] (split_on CHR ''/'' path)"
  have plain: "list_all plain_part parts"
    unfolding parts_def by (rule norm_parts_clean) (auto dest: split_on_no_sep)
  have root: "root = ''/'' \<or> root = ''//''" unfolding root_def by (rule root_slashes_cases)
  have "norm_parts [] (split_on CHR ''/'' (root @ join ''/'' parts)) = parts"
    using root split_join_plain [OF plain] by auto
  then have "normpath (root @ join ''/'' parts) = root @ join ''/'' parts"
    using root_slashes_join [OF plain root] by (simp add: normpath_def)
  with path plain root show ?thesis unfolding normpath_def root_def parts_def by blast
qed

section \<open>Runs without prompts\<close>

text \<open>The actions that wait for the operator.\<close>

fun asks_operator :: "action \<Rightarrow> bool" where
  "asks_operator (Prompt t) = True"
| "asks_operator (Getpass t) = True"
| "asks_operator _ = False"

lemma session_action_silent: "session_action a \<Longrightarrow> \<not> asks_operator a"
  by (cases a) simp_all

lemma check_seq_False [simp]: "seq (check True e) m = raise e"
  by (simp add: fun_eq_iff seq_def bind_def check_def raise_def)

lemma credentials_silent:
  assumes "closed_under session_action J"
  shows "keeps J (get_switch_credentials env sw config_file False)"
  unfolding get_switch_credentials_def ask_username_def ask_password_def read_password_file_def Let_def
    not_False_eq_True check_seq_False
  by (intro keeps_intros keeps_open_secure_file keeps_actions [OF assms] assms; simp)

end
