(* ===== verification/Renewal.thy ===== *)
theory Renewal
  imports InstallDialogue Configuration
begin

text \<open>
  The renewal of one switch (\<^verbatim>\<open>sign_pending_csr\<close>, \<^verbatim>\<open>renew_certificate\<close> of
  \<^verbatim>\<open>src/aruba_cert_renewer.py\<close>), its report (\<^verbatim>\<open>_json_renew\<close>), and what the reported outcome says of
  the requests and commands that were sent.
\<close>

section \<open>Signing a pending CSR\<close>

definition build_opnsense_certificate_description :: "string \<Rightarrow> string \<Rightarrow> string" where
  "build_opnsense_certificate_description certificate_name cn =
     take MAX_DESCRIPTION_CHARS (''Aruba Web certificate '' @ certificate_name @ '' for '' @ cn)"

definition sign_pending_csr ::
  "'w env \<Rightarrow> bool \<Rightarrow> switch \<Rightarrow> string \<Rightarrow> json \<Rightarrow> opnsense_settings \<Rightarrow> int option \<Rightarrow> ('w, string) io" where
  "sign_pending_csr env progress sw certificate_name settings opnsense minimum_remaining_days =
     bind (lift (validate_switch_signing_identity sw)) (\<lambda>identities.
     seq (report_progress progress CsrRetrievalStarted)
    (bind (retrieve_csr env progress sw certificate_name settings) (\<lambda>csr_pem.
     bind (lift (validate_csr_pem (crypto_lib env) csr_pem sw settings)) (\<lambda>csr.
     seq (report_progress progress CsrRetrieved)
    (seq (report_progress progress SigningPreparation)
    (bind (opnsense_client env (os_base_url opnsense)) (\<lambda>cl.
     bind (resolve_ca env cl (os_ca opnsense)) (\<lambda>caref.
     bind (sign_csr env cl (report_progress progress IssuanceDispatched)
       \<lparr>sr_csr_pem = req_pem csr, sr_caref = caref, sr_digest = os_digest opnsense,
        sr_lifetime_days = os_lifetime_days opnsense, sr_dns_names = dns_names identities,
        sr_ip_addresses = ip_addresses identities,
        sr_description = build_opnsense_certificate_description certificate_name (common_name identities)\<rparr>)
       (\<lambda>certificate_uuid.
     seq (report_progress progress IssuanceConfirmed)
    (bind (get_certificate env cl certificate_uuid) (\<lambda>certificate_pem.
     seq (report_progress progress CertificateRetrieved)
    (bind (observe (now_utc env)) (\<lambda>now.
     bind (lift (validate_issued_certificate (crypto_lib env) certificate_pem csr sw
         (os_lifetime_days opnsense) (os_digest opnsense) now True minimum_remaining_days)) (\<lambda>_.
     seq (report_progress progress IssuedValidated)
       (ret certificate_pem)))))))))))))))"

section \<open>The renewal\<close>

text \<open>\<^verbatim>\<open>_json_certificate\<close>: the fingerprint, and the day the certificate expires in UTC.\<close>

fun year_from :: "nat \<Rightarrow> int \<Rightarrow> int" where
  "year_from 0 n = 1"
| "year_from (Suc y) n = (if days_before_year (int (Suc y)) < n then int (Suc y) else year_from y n)"

fun month_from :: "nat \<Rightarrow> int \<Rightarrow> int \<Rightarrow> nat" where
  "month_from 0 y n = 1"
| "month_from (Suc m) y n = (if int (days_before_month y (Suc m)) < n then Suc m else month_from m y n)"

definition date_of_ordinal :: "int \<Rightarrow> date" where
  "date_of_ordinal n =
     (let y = year_from (nat n div 365 + 1) n;
          in_year = n - days_before_year y;
          m = month_from 12 y in_year
      in Date y m (nat (in_year - int (days_before_month y m))))"

definition date_of_instant :: "int \<Rightarrow> date" where
  "date_of_instant t = date_of_ordinal (t div microseconds_per_day + 719163)"

definition json_certificate :: "'w env \<Rightarrow> certificate \<Rightarrow> certificate_summary" where
  "json_certificate env cert =
     \<lparr>fingerprint_sha256 = sha256_hex env (x_der cert),
      expiry_date = write_date ''-'' (date_of_instant (x_not_after cert))\<rparr>"

definition staged_recovery :: string where
  "staged_recovery = ''. The pending CSR remains on the switch; use the explicit '' @
     ''staged commands for diagnosis or recovery''"

text \<open>The handlers around the stages.\<close>

definition generation_failed :: "exn \<Rightarrow> ('w, 'a) io" where
  "generation_failed error =
     (if isinstance error CSRGenerationError then raise error
      else if isinstance_any error [ValueError, OSError] then
        fail CSRGenerationPreAttemptError (exn_text error)
      else raise error)"

definition signing_failed :: "exn \<Rightarrow> ('w, 'a) io" where
  "signing_failed error =
     (if isinstance_any error [ValueError, OSError] then
        fail CSRSigningError (exn_text error @ staged_recovery)
      else raise error)"

definition pre_install_failed :: "exn \<Rightarrow> ('w, 'a) io" where
  "pre_install_failed error =
     (if isinstance error CertificateInstallationAttemptError then raise error
      else if isinstance_any error [ValueError, OSError] then
        fail CertificatePreInstallationError (exn_text error @ staged_recovery)
      else raise error)"

definition live_failed :: "exn \<Rightarrow> ('w, 'a) io" where
  "live_failed error =
     (if isinstance_any error [ValueError, OSError, SSLError] then
        fail LiveHTTPSVerificationError (exn_text error)
      else raise error)"

text \<open>After the CSR: signing, installation and the live check.\<close>

definition finish_renewal ::
  "'w env \<Rightarrow> bool \<Rightarrow> switch \<Rightarrow> json \<Rightarrow> opnsense_settings \<Rightarrow> ca_snapshot \<Rightarrow> int option \<Rightarrow> string \<Rightarrow>
     ('w, string) io" where
  "finish_renewal env progress sw settings opnsense snapshot minimum_remaining_days certificate_name =
     seq (print_terminal env ''Signing CSR with OPNsense...'')
    (bind (try_except
        (sign_pending_csr env progress sw certificate_name settings opnsense minimum_remaining_days)
        signing_failed) (\<lambda>certificate_pem.
     seq (print_terminal env ''Issued certificate validated.'')
    (seq (print_terminal env ''Verifying issued certificate trust before installation...'')
    (bind (try_except
        (install_pending_certificate env False sw certificate_name certificate_pem settings
           (os_lifetime_days opnsense) snapshot (os_digest opnsense) minimum_remaining_days)
        pre_install_failed) (\<lambda>cert.
     seq (print_terminal env ''Certificate installed and Aruba state verified.'')
    (seq (report_progress progress (InstallationConfirmed (json_certificate env cert)))
    (seq (print_terminal env ''Verifying live HTTPS...'')
    (seq (try_except (verify_live_https_certificate env sw snapshot cert) live_failed)
    (seq (print_terminal env ''Live HTTPS certificate chain and hostname verified.'')
    (seq (report_progress progress LiveTlsConfirmed)
    (seq (print_terminal env ''Live HTTPS certificate matches the installed certificate.'')
    (seq (print_terminal env ''Renewal completed successfully.'')
    (seq (print_terminal env (''Active Web certificate: '' @ certificate_name))
       (ret certificate_name))))))))))))))"

definition renew_certificate ::
  "'w env \<Rightarrow> bool \<Rightarrow> switch \<Rightarrow> json \<Rightarrow> opnsense_settings \<Rightarrow> ca_snapshot \<Rightarrow> int option \<Rightarrow> ('w, string) io" where
  "renew_certificate env progress sw settings opnsense snapshot minimum_remaining_days =
     bind (renewal_preflight env sw) (\<lambda>preflight.
     seq (report_progress progress PreflightConfirmed)
    (seq (print_terminal env (''Current active Web certificate: '' @ plan_active_certificate_name preflight))
    (seq (print_terminal env (''Selected renewal certificate name: '' @ plan_new_certificate_name preflight))
    (bind (try_except (generate_csr env sw (plan_new_certificate_name preflight) settings)
        generation_failed) (\<lambda>_.
     seq (print_terminal env ''CSR generated and validated.'')
    (seq (report_progress progress CsrConfirmed)
      (finish_renewal env progress sw settings opnsense snapshot minimum_remaining_days
         (plan_new_certificate_name preflight))))))))"

section \<open>The report of a renewal\<close>

definition with_item :: "(switch_result \<Rightarrow> switch_result) \<Rightarrow> ('w, unit) io" where
  "with_item f = modify (\<lambda>s. s\<lparr>item := f (item s)\<rparr>)"

definition json_renew ::
  "'w env \<Rightarrow> switch \<Rightarrow> json \<Rightarrow> opnsense_settings \<Rightarrow> ca_snapshot \<Rightarrow> int option \<Rightarrow> ('w, unit) io" where
  "json_renew env sw settings opnsense snapshot warning_days =
     seq (with_item (item_stage_update (\<lambda>_. PREFLIGHT)))
    (bind (outcome_of (renew_certificate env True sw settings opnsense snapshot warning_days)) (\<lambda>r.
       case r of
         Inl error \<Rightarrow>
           if isinstance error Exception then with_item (\<lambda>item. json_failure item error) else raise error
       | Inr _ \<Rightarrow> with_item (\<lambda>item. item\<lparr>item_outcome := SUCCESS_CHANGED, item_stage := COMPLETED,
           item_message := ''Certificate renewal verified by live HTTPS.''\<rparr>)))"

section \<open>Laws of the operations\<close>

text \<open>Actions that neither change the switch nor ask the certificate authority for anything.\<close>

fun calls_authority :: "action \<Rightarrow> bool" where
  "calls_authority (HttpRequest v u d) = True"
| "calls_authority _ = False"

definition harmless :: "action \<Rightarrow> bool" where
  "harmless a = (\<not> changes_switch a \<and> \<not> calls_authority a)"

definition reads_only :: "action \<Rightarrow> bool" where
  "reads_only a = (harmless a \<and> \<not> asks_operator a)"

lemma session_action_harmless: "session_action a \<Longrightarrow> harmless a"
  by (cases a) (simp_all add: harmless_def)

text \<open>
  What the operations that only look at the switch preserve: a property of the state that every
  such action and every progress event preserves.
\<close>

locale read_law =
  fixes J :: "'w st \<Rightarrow> bool"
  assumes reading: "closed_under reads_only J"
    and report: "J s \<Longrightarrow> J (s\<lparr>item := json_progress (item s) ev\<rparr>)"
begin

lemma session: "closed_under session_action J"
  by (rule closed_under_weaken [OF reading])
     (simp add: reads_only_def session_action_harmless session_action_silent)

lemma keeps_report: "keeps J (report_progress b ev)"
  by (rule keeps_progress) (rule report)

lemmas keeps_reading = keeps_intros keeps_report keeps_actions [OF reading] keeps_print [OF reading]
  keeps_commands [OF reading] keeps_retrieve_and_validate [OF reading] keeps_ssh_connection session

lemma keeps_shown_summary: "keeps J (show_summary env)"
  unfolding show_summary_def by (intro keeps_reading) (simp_all add: reads_only_def harmless_def)

lemma keeps_retrieve: "keeps J (retrieve_csr env b sw name settings)"
  unfolding retrieve_csr_def ssh_failed_def
  by (intro keeps_reading keeps_shown_summary) (simp_all add: reads_only_def harmless_def)

lemma keeps_preflight: "keeps J (renewal_preflight env sw)"
  unfolding renewal_preflight_def preflight_failed_def
  by (intro keeps_reading keeps_shown_summary)

lemma keeps_client: "keeps J (opnsense_client env url)"
  unfolding opnsense_client_def load_authorization_def load_credential_def read_secret_file_def
  by (intro keeps_reading keeps_read_secure_file) (simp_all add: reads_only_def harmless_def)

lemma keeps_check: "keeps J (check_switch env sw warning_days)"
proof -
  have out: "keeps J (print_terminal env t)" "keeps J (report_check_error env t)" for t
    unfolding report_check_error_def
    by (intro keeps_reading; simp add: reads_only_def harmless_def)+
  have verdict: "keeps J (report_certificate env v c warning_days)" for v c
    unfolding report_certificate_def Let_def by (intro keeps_reading out)
  have session: "keeps J (check_switch_session env)"
    unfolding check_switch_session_def
    by (intro keeps_reading keeps_shown_summary) (simp_all add: reads_only_def harmless_def)
  show ?thesis
    unfolding check_switch_def print_switch_heading_def Let_def
    by (intro keeps_reading out verdict session; auto intro: keeps_reading out verdict split: prod.split)
qed

end

text \<open>Signing sends requests to the certificate authority besides.\<close>

locale signing_law = read_law J for J :: "'w st \<Rightarrow> bool" +
  assumes signing: "closed_under (\<lambda>a. \<not> changes_switch a \<and> \<not> asks_operator a) J"
begin

lemmas keeps_signing = keeps_intros keeps_report keeps_actions [OF signing] keeps_print [OF signing]

lemma keeps_request: "keeps J m \<Longrightarrow> keeps J (request_json env cl m verb path payload)"
  unfolding request_json_def request_failed_def by (intro keeps_signing) auto

lemma keeps_sign: "keeps J (sign_pending_csr env b sw name settings opnsense remaining)"
  unfolding sign_pending_csr_def resolve_ca_def sign_csr_def get_certificate_def
  by (intro keeps_signing keeps_retrieve keeps_client keeps_request)

end

text \<open>Creating a CSR, installing a certificate and the live check use the local variables besides.\<close>

locale install_law = read_law J for J :: "'w st \<Rightarrow> bool" +
  assumes acting: "closed_under (\<lambda>a. \<not> calls_authority a \<and> \<not> asks_operator a) J"
    and flags: "J s \<Longrightarrow> J (s\<lparr>csr_creation_attempted := a, installation_attempted := b,
      installation_dialogue_completed := c, entered_config_mode := d, installation_completed := e\<rparr>)"
begin

lemma same_but_locals:
  assumes "J s" and "world t = world s" "trace t = trace s" "item t = item s"
    "switch_verdict t = switch_verdict s" "body_exit t = body_exit s"
  shows "J t"
proof -
  have "t = s\<lparr>csr_creation_attempted := csr_creation_attempted t,
      installation_attempted := installation_attempted t,
      installation_dialogue_completed := installation_dialogue_completed t,
      entered_config_mode := entered_config_mode t, installation_completed := installation_completed t\<rparr>"
    using assms(2-6) by (cases s, cases t) simp
  with flags [OF assms(1)] show ?thesis by metis
qed

lemma keeps_flags:
  "keeps J (modify (\<lambda>s. s\<lparr>csr_creation_attempted := x\<rparr>))"
  "keeps J (modify (\<lambda>s. s\<lparr>installation_dialogue_completed := x\<rparr>))"
  "keeps J (modify (\<lambda>s. s\<lparr>installation_completed := x\<rparr>))"
  "keeps J (modify (\<lambda>s. s\<lparr>entered_config_mode := x, installation_attempted := y\<rparr>))"
  "keeps J (modify (\<lambda>s. s\<lparr>installation_attempted := x, installation_dialogue_completed := y,
     entered_config_mode := z\<rparr>))"
  by (rule keeps_modify, erule same_but_locals, simp_all)+

lemmas keeps_base = keeps_intros keeps_report keeps_flags keeps_actions [OF acting] keeps_print [OF acting]
  keeps_commands [OF acting] keeps_retrieve_and_validate [OF acting] keeps_shown_summary

lemma keeps_mutating:
  "keeps J (send_command_timing env c limit)" "keeps J (send_certificate_pem env p)"
  unfolding send_command_timing_def send_certificate_pem_def by (intro keeps_base; simp)+

lemma keeps_generate: "keeps J (generate_csr env sw name settings)"
  unfolding generate_csr_def generate_csr_session_def create_csr_def generate_csr_failed_def
  by (intro keeps_base keeps_mutating keeps_ssh_connection session) simp_all

lemma keeps_install_signed: "keeps J (install_signed_certificate env name pem profile)"
  unfolding install_signed_certificate_def begin_installation_def installation_dialogue_def
    request_paste_def paste_certificate_def confirm_replacement_def installation_failed_def
    leave_installation_def confirm_installation_def verification_failed_def
  by (intro keeps_base keeps_mutating) simp_all

lemma keeps_install:
  "keeps J (install_pending_certificate env b sw name pem settings lifetime snapshot digest remaining)"
  unfolding install_pending_certificate_def install_session_def install_pending_failed_def
  by (intro keeps_base keeps_ssh_connection keeps_install_signed session) simp_all

lemma keeps_network:
  "keeps J (monotonic env)" "keeps J (https_tls_context env snapshot)"
  "keeps J (https_pause env deadline delay e)" "keeps J (resolve_live_https_addresses env host deadline)"
  unfolding monotonic_def https_pause_def resolve_live_https_addresses_def live_https_timeout_def
    receive_addresses_def stop_resolver_def https_tls_context_def
  by (intro keeps_base; simp)+

lemma keeps_loop:
  "keeps J (https_loop n env addresses host der window deadline delay timeout e)"
proof (induction n arbitrary: e)
  case (Suc n)
  have leaf: "keeps J (read_live_https_leaf env host deadline timeout p addresses)" for p
    by (induction addresses arbitrary: p)
       (auto simp: read_leaf_at_def live_https_timeout_def intro!: keeps_base keeps_network)
  have step: "keeps J (https_attempt env addresses host der deadline timeout)"
    unfolding https_attempt_def attempt_failed_def by (intro keeps_base keeps_network leaf)
  show ?case
    by (auto simp: https_round_def intro!: keeps_base keeps_network step Suc.IH
        split: https_step.split)
qed (simp add: keeps_pure)

lemma keeps_live: "keeps J (verify_live_https_certificate env sw snapshot cert)"
  unfolding verify_live_https_certificate_def verify_live_https_def Let_def
  by (intro keeps_base keeps_network keeps_loop)

end

text \<open>
  What a whole renewal preserves: nothing but actions, progress events and the local variables of
  the operations touch the state, and no operation asks the operator.
\<close>

locale run_law = signing_law J + install_law J for J :: "'w st \<Rightarrow> bool"
begin

lemma keeps_finish: "keeps J (finish_renewal env b sw settings opnsense snapshot remaining name)"
  unfolding finish_renewal_def signing_failed_def pre_install_failed_def live_failed_def
  by (intro keeps_base keeps_sign keeps_install keeps_live) simp_all

lemma keeps_renew: "keeps J (renew_certificate env b sw settings opnsense snapshot remaining)"
  unfolding renew_certificate_def generation_failed_def
  by (intro keeps_base keeps_preflight keeps_generate keeps_finish) simp_all

end

text \<open>Evidence of a change is never taken back.\<close>

interpretation changed: run_law "\<lambda>s. item_change (item s) \<noteq> NO_CHANGE"
proof unfold_locales
  show "item_change (item (s\<lparr>item := json_progress (item s) ev\<rparr>)) \<noteq> NO_CHANGE"
    if "item_change (item s) \<noteq> NO_CHANGE" for s :: "'a st" and ev
    using that by (cases ev) (auto simp: Let_def)
qed (simp_all add: closed_under_def record_event_def)

text \<open>The report stays consistent with the evidence it shows.\<close>

interpretation evidence: run_law "\<lambda>s. evidence_inv (item s)"
  by unfold_locales (simp_all add: closed_under_def record_event_def evidence_inv_progress)

text \<open>The operations that only read are harmless, and no operation asks the operator.\<close>

interpretation reading: read_law "appends reads_only s0" for s0
proof unfold_locales
  show "closed_under reads_only (appends reads_only s0)" by (rule appends_closed)
qed (simp add: appends_def)

interpretation silent: run_law "appends (\<lambda>a. \<not> asks_operator a) s0" for s0
proof unfold_locales
  note closed = appends_closed [where P = "\<lambda>a. \<not> asks_operator a" and s = s0]
  show "closed_under reads_only (appends (\<lambda>a. \<not> asks_operator a) s0)"
      "closed_under (\<lambda>a. \<not> changes_switch a \<and> \<not> asks_operator a) (appends (\<lambda>a. \<not> asks_operator a) s0)"
      "closed_under (\<lambda>a. \<not> calls_authority a \<and> \<not> asks_operator a) (appends (\<lambda>a. \<not> asks_operator a) s0)"
    by (rule closed_under_weaken [OF closed]; simp add: reads_only_def)+
qed (simp_all add: appends_def)

text \<open>Only signing calls the authority.\<close>

interpretation local: install_law "appends (\<lambda>a. \<not> calls_authority a) s0" for s0
proof unfold_locales
  note closed = appends_closed [where P = "\<lambda>a. \<not> calls_authority a" and s = s0]
  show "closed_under reads_only (appends (\<lambda>a. \<not> calls_authority a) s0)"
      "closed_under (\<lambda>a. \<not> calls_authority a \<and> \<not> asks_operator a) (appends (\<lambda>a. \<not> calls_authority a) s0)"
    by (rule closed_under_weaken [OF closed]; simp add: reads_only_def harmless_def)+
qed (simp_all add: appends_def)

section \<open>A failure before the attempt\<close>

text \<open>Nothing since \<open>s\<close> could have changed the switch or had a certificate issued.\<close>

abbreviation quiet_since :: "'w st \<Rightarrow> 'w st \<Rightarrow> bool" where
  "quiet_since s s' \<equiv> appends harmless s s'"

lemma appends_conj: "appends P s s' \<Longrightarrow> appends Q s s' \<Longrightarrow> appends (\<lambda>a. P a \<and> Q a) s s'"
  by (auto simp: appends_def list_all_iff)

lemma quiet_closed: "closed_under harmless (appends harmless s)" "closed_under session_action (appends harmless s)"
  by (auto intro: closed_under_weaken [OF appends_closed] session_action_harmless)

interpretation quiet: read_law "appends harmless s0" for s0
proof unfold_locales
  show "closed_under reads_only (appends harmless s0)"
    by (rule closed_under_weaken [OF quiet_closed(1)]) (simp add: reads_only_def)
qed (simp add: appends_def)

lemma generate_csr_local: "does (\<lambda>a. \<not> calls_authority a) (generate_csr env sw name settings)"
  by (rule doesI) (rule local.keeps_generate)

text \<open>What an exception of a renewal says of the run.\<close>

definition renewal_error :: "'w st \<Rightarrow> exn \<Rightarrow> 'w st \<Rightarrow> bool" where
  "renewal_error s0 e s = (isinstance e Exception \<longrightarrow>
     quiet_since s0 s \<or> exn_class e = CSRGenerationError \<or>
     (item_change (item s) \<noteq> NO_CHANGE \<and> \<not> isinstance e RenewalPreflightError \<and>
      exn_class e \<noteq> CSRGenerationPreAttemptError))"

text \<open>The terminal accepts what is printed on it.\<close>

definition prints_ok :: "'w env \<Rightarrow> bool" where
  "prints_ok env = (\<forall>t w. \<not> isl (fst (answer_text env (Print t) w)))"

lemma triple_print:
  assumes "prints_ok env" and "closed_under harmless J"
  shows "triple J (print_terminal env t) (\<lambda>_. J) (\<lambda>_ _. False)"
proof (rule tripleI)
  fix s r s'
  assume "J s" and run: "print_terminal env t s = (r, s')"
  then have "J s'"
    by (rule keepsD [OF keeps_print [OF assms(2)], rotated]) (simp add: harmless_def)
  moreover have "\<exists>x. r = Inr x"
    using assms(1) run
    by (cases r) (auto simp: print_terminal_def act_unit_Inl act_text_Inl prints_ok_def
        dest!: spec [of _ "sanitize_terminal_text t"] spec [of _ "world s"])
  ultimately show "case r of Inl e \<Rightarrow> False | Inr x \<Rightarrow> J s'" by auto
qed

lemma triple_progress_any: "triple (\<lambda>_. True) (report_progress b ev) (\<lambda>_ _. True) (\<lambda>_ _. False)"
  by (simp add: triple_def report_progress_def effect_simps)

lemma triple_csr_confirmed:
  "triple (\<lambda>_. True) (report_progress True CsrConfirmed) (\<lambda>_ s. item_change (item s) \<noteq> NO_CHANGE) X"
  by (simp add: triple_def report_progress_def effect_simps)

lemma triple_progress_keeps:
  "keeps J (report_progress b ev) \<Longrightarrow> triple J (report_progress b ev) (\<lambda>_. J) X"
  by (auto simp: triple_def report_progress_def effect_simps keeps_def)

lemma generate_csr_triple:
  "triple (quiet_since s0) (generate_csr env sw name settings) (\<lambda>_ _. True)
     (\<lambda>e s. isinstance e Exception \<longrightarrow> quiet_since s0 s \<or> exn_class e = CSRGenerationError)"
proof (rule tripleI)
  fix s r s'
  assume start: "quiet_since s0 s" and run: "generate_csr env sw name settings s = (r, s')"
  have "quiet_since s0 s'" if "unchanged_since s s'"
  proof -
    have "quiet_since s s'"
      unfolding harmless_def by (rule appends_conj [OF that doesD [OF generate_csr_local run]])
    with start show ?thesis by (rule appends_trans)
  qed
  with run show "case r of
      Inl e \<Rightarrow> isinstance e Exception \<longrightarrow> quiet_since s0 s' \<or> exn_class e = CSRGenerationError
    | Inr x \<Rightarrow> True"
    by (auto split: sum.split dest: generate_csr_truth)
qed

lemma isinstance_CSRGenerationError [simp]:
  "isinstance e CSRGenerationError \<longleftrightarrow> exn_class e = CSRGenerationError"
  by (simp add: isinstance_def)

lemma generation_failed_error:
  "triple (\<lambda>s. isinstance e Exception \<longrightarrow> quiet_since s0 s \<or> exn_class e = CSRGenerationError)
     (generation_failed e) B (renewal_error s0)"
  unfolding generation_failed_def fail_def
  by (intro triple_cond triple_raise)
     (auto simp: renewal_error_def dest: isinstance_ValueErrorD isinstance_OSErrorD)

text \<open>The errors of the stages after the CSR have classes of their own.\<close>

definition later_error :: "exn \<Rightarrow> 'w st \<Rightarrow> bool" where
  "later_error e s = (item_change (item s) \<noteq> NO_CHANGE \<and> \<not> isinstance e RenewalPreflightError \<and>
     exn_class e \<noteq> CSRGenerationPreAttemptError)"

lemma not_preflight:
  "\<not> isinstance e ValueError \<Longrightarrow> \<not> isinstance e RenewalPreflightError \<and> exn_class e \<noteq> CSRGenerationPreAttemptError"
  by (cases e, rename_tac c t n, case_tac c) (simp_all add: isinstance_def)

lemma stage_triple:
  assumes "keeps (\<lambda>s. item_change (item s) \<noteq> NO_CHANGE) m"
    and "\<And>e. triple (\<lambda>s. item_change (item s) \<noteq> NO_CHANGE) (h e) (\<lambda>_ s. item_change (item s) \<noteq> NO_CHANGE)
      later_error"
  shows "triple (\<lambda>s. item_change (item s) \<noteq> NO_CHANGE) (try_except m h)
    (\<lambda>_ s. item_change (item s) \<noteq> NO_CHANGE) later_error"
  by (rule triple_try_except [where X = "\<lambda>_ s. item_change (item s) \<noteq> NO_CHANGE"])
     (auto intro: triple_keeps assms)

lemma handlers_later:
  "triple (\<lambda>s. item_change (item s) \<noteq> NO_CHANGE) (signing_failed e) B later_error"
  "triple (\<lambda>s. item_change (item s) \<noteq> NO_CHANGE) (pre_install_failed e) B later_error"
  "triple (\<lambda>s. item_change (item s) \<noteq> NO_CHANGE) (live_failed e) B later_error"
  unfolding signing_failed_def pre_install_failed_def live_failed_def fail_def
  by (intro triple_cond triple_raise; auto simp: later_error_def isinstance_def not_preflight
      [unfolded isinstance_def])+

lemma changed_harmless: "closed_under harmless (\<lambda>s. item_change (item s) \<noteq> NO_CHANGE)"
  by (simp add: closed_under_def record_event_def)

lemma print_changed:
  assumes "prints_ok env"
  shows "triple (\<lambda>s. item_change (item s) \<noteq> NO_CHANGE) (print_terminal env t)
    (\<lambda>_ s. item_change (item s) \<noteq> NO_CHANGE) X"
  by (rule triple_weaken [OF triple_print [OF assms changed_harmless]]) auto

lemma finish_triple:
  assumes "prints_ok env"
  shows "triple (\<lambda>s. item_change (item s) \<noteq> NO_CHANGE)
    (finish_renewal env b sw settings opnsense snapshot remaining name)
    (\<lambda>_ s. item_change (item s) \<noteq> NO_CHANGE) later_error"
  unfolding finish_renewal_def
  by (intro triple_seq [OF print_changed [OF assms]]
      triple_bind [OF stage_triple [OF changed.keeps_sign handlers_later(1)]]
      triple_bind [OF stage_triple [OF changed.keeps_install handlers_later(2)]]
      triple_seq [OF stage_triple [OF changed.keeps_live handlers_later(3)]]
      triple_seq [OF triple_progress_keeps [OF changed.keeps_report]] triple_ret TrueI)

lemma renew_triple:
  assumes "prints_ok env"
  shows "triple (quiet_since s0) (renew_certificate env True sw settings opnsense snapshot remaining)
    (\<lambda>_ s. item_change (item s) \<noteq> NO_CHANGE) (renewal_error s0)"
proof -
  note print = triple_weaken [OF triple_print [OF assms quiet_closed(1)]]
  have shown: "triple (quiet_since s0) (print_terminal env t) (\<lambda>_. quiet_since s0) (renewal_error s0)" for t
    by (rule print) auto
  have printed: "triple (\<lambda>_. True) (print_terminal env t) (\<lambda>_ _. True) (renewal_error s0)" for t
    by (rule triple_weaken [OF triple_print [OF assms, where J = "\<lambda>_. True"]])
       (auto simp: closed_under_def)
  have finish: "triple (\<lambda>s. item_change (item s) \<noteq> NO_CHANGE)
      (finish_renewal env True sw settings opnsense snapshot remaining name)
      (\<lambda>_ s. item_change (item s) \<noteq> NO_CHANGE) (renewal_error s0)"
    for name
    by (rule triple_weaken [OF finish_triple [OF assms]]) (auto simp: later_error_def renewal_error_def)
  have progress: "triple (quiet_since s0) (report_progress True ev) (\<lambda>_. quiet_since s0) (renewal_error s0)" for ev
    by (rule triple_progress_keeps, rule keeps_trace_progress)
  show ?thesis
    unfolding renew_certificate_def
    by (rule triple_bind_keeps [OF quiet.keeps_preflight])
       (auto intro!: triple_seq [OF progress] triple_seq [OF shown]
          triple_bind [OF triple_try_except [OF generate_csr_triple generation_failed_error]]
          triple_seq [OF printed] triple_seq [OF triple_csr_confirmed] finish simp: renewal_error_def)
qed

lemma json_failure_pre_attempt:
  assumes "item_outcome (json_failure it e) = FAILURE_PRE_ATTEMPT"
  shows "exn_class e \<noteq> CSRGenerationError"
    and "item_change it = NO_CHANGE \<or> isinstance e RenewalPreflightError \<or>
      exn_class e = CSRGenerationPreAttemptError"
proof -
  have pending: "exn_class e = PendingCSRPreflightError \<Longrightarrow> isinstance e RenewalPreflightError"
    by (simp add: isinstance_def)
  show "exn_class e \<noteq> CSRGenerationError"
  proof
    assume "exn_class e = CSRGenerationError"
    with assms show False by (simp add: json_failure_def isinstance_def Let_def)
  qed
  show "item_change it = NO_CHANGE \<or> isinstance e RenewalPreflightError \<or>
      exn_class e = CSRGenerationPreAttemptError"
    using assms pending
    by (auto simp: json_failure_def Let_def json_failure_outcome_cases(2) isinstance_def split: if_splits)
qed

lemma json_failure_change:
  "item_change (json_failure it e) = NO_CHANGE \<Longrightarrow> item_change it = NO_CHANGE \<and> exn_class e \<noteq> CSRGenerationError"
  by (auto simp: json_failure_def Let_def isinstance_def split: if_splits)

text \<open>A report without a change is truthful, and so is one of a failure before the attempt.\<close>

definition reported_quiet :: "'w st \<Rightarrow> 'w st \<Rightarrow> bool" where
  "reported_quiet s0 s =
     (quiet_since s0 s \<or> item_change (item s) \<noteq> NO_CHANGE \<and> item_outcome (item s) \<noteq> FAILURE_PRE_ATTEMPT)"

lemma json_renew_triple:
  assumes "prints_ok env"
  shows "triple (quiet_since s0) (json_renew env sw settings opnsense snapshot warning_days)
    (\<lambda>_. reported_quiet s0) (\<lambda>e _. \<not> isinstance e Exception)"
proof (rule tripleI)
  fix s r s'
  assume start: "quiet_since s0 s"
    and json: "json_renew env sw settings opnsense snapshot warning_days s = (r, s')"
  define s1 where "s1 = s\<lparr>item := (item s)\<lparr>item_stage := PREFLIGHT\<rparr>\<rparr>"
  obtain r1 s2 where run: "renew_certificate env True sw settings opnsense snapshot warning_days s1 = (r1, s2)"
    by (cases "renew_certificate env True sw settings opnsense snapshot warning_days s1")
  from start have "quiet_since s0 s1" by (simp add: appends_def s1_def)
  from tripleD [OF renew_triple [OF assms] this run]
  have post: "case r1 of Inl e \<Rightarrow> renewal_error s0 e s2 | Inr x \<Rightarrow> item_change (item s2) \<noteq> NO_CHANGE" .
  show "case r of Inl e \<Rightarrow> \<not> isinstance e Exception | Inr x \<Rightarrow> reported_quiet s0 s'"
  proof (cases r1)
    case (Inr name)
    with json run post show ?thesis
      by (auto simp: json_renew_def with_item_def s1_def bind_def seq_def modify_def outcome_of_def
          reported_quiet_def)
  next
    case (Inl e)
    with json run have "r = (if isinstance e Exception then Inr () else Inl e)"
        "isinstance e Exception \<Longrightarrow> s' = s2\<lparr>item := json_failure (item s2) e\<rparr>"
      by (auto simp: json_renew_def with_item_def s1_def bind_def seq_def modify_def outcome_of_def raise_def
          split: if_splits)
    with post Inl json_failure_pre_attempt [of "item s2" e] json_failure_change [of "item s2" e]
    show ?thesis
      by (auto simp: renewal_error_def reported_quiet_def appends_def split: if_splits)
  qed
qed

text \<open>
  A renewal reported as \<^verbatim>\<open>failure_pre_attempt\<close> left everything as it was: no command that can
  change the switch was sent to it and no request to the certificate authority, whatever the switch,
  the authority, the files and the network answered.  The terminal has to accept the lines that are
  printed: a \<^verbatim>\<open>print\<close> that fails after the CSR was created is reported the same way.
\<close>

theorem pre_attempt_changed_nothing:
  assumes "prints_ok env"
    and "json_renew env sw settings opnsense snapshot warning_days s = (Inr (), s')"
    and "item_outcome (item s') = FAILURE_PRE_ATTEMPT"
  shows "quiet_since s s'"
  using tripleD [OF json_renew_triple [OF assms(1)] appends_refl assms(2)] assms(3)
  by (simp add: reported_quiet_def)

theorem pre_attempt_changed_nothing_witness:
  "\<exists>s'. json_renew lock_env (sample_switch\<lparr>sw_known_hosts_file := None\<rparr>) JNull
       \<lparr>os_base_url = [], os_ca = [], os_lifetime_days = 90, os_digest = ''sha256''\<rparr>
       \<lparr>ca_path = ''ca'', ca_pem = ''''\<rparr> None start_state = (Inr (), s') \<and>
     item_outcome (item s') = FAILURE_PRE_ATTEMPT \<and> quiet_since start_state s'"
proof -
  let ?run = "json_renew lock_env (sample_switch\<lparr>sw_known_hosts_file := None\<rparr>) JNull
       \<lparr>os_base_url = [], os_ca = [], os_lifetime_days = 90, os_digest = ''sha256''\<rparr>
       \<lparr>ca_path = ''ca'', ca_pem = ''''\<rparr> None start_state"
  have prints: "prints_ok lock_env" by (simp add: prints_ok_def lock_env_def)
  have ends: "fst ?run = Inr ()" and outcome: "item_outcome (item (snd ?run)) = FAILURE_PRE_ATTEMPT"
    by (simp_all add: json_renew_def with_item_def renew_certificate_def renewal_preflight_def
        ssh_connection_def snapshot_known_hosts_def read_known_hosts_def preflight_failed_def fail_def
        json_failure_def modify_def seq_def bind_def outcome_of_def try_except_def raise_def)
  from pre_attempt_changed_nothing [OF prints] ends outcome show ?thesis
    by (metis prod.collapse)
qed

section \<open>A renewal that succeeds\<close>

text \<open>
  The certificate that was installed and checked: validated against a validated CSR of the switch
  and the trust anchors, sent in a complete installation dialogue, and then presented by the switch
  itself in a live handshake.
\<close>

definition installed_since ::
  "'w env \<Rightarrow> switch \<Rightarrow> json \<Rightarrow> opnsense_settings \<Rightarrow> ca_snapshot \<Rightarrow> int option \<Rightarrow> 'w st \<Rightarrow>
     certificate \<Rightarrow> 'w st \<Rightarrow> bool" where
  "installed_since env sw settings opnsense snapshot remaining s0 cert s =
     (\<exists>csr_pem csr pem now.
        validate_csr_pem (crypto_lib env) csr_pem sw settings = Inr csr \<and>
        validate_issued_certificate (crypto_lib env) pem csr sw (os_lifetime_days opnsense)
          (os_digest opnsense) now False remaining = Inr cert \<and>
        verify_issued_certificate_trust (crypto_lib env) cert sw snapshot = Inr () \<and>
        in_phase pem s0 Confirmed s)"

definition renewed_since ::
  "'w env \<Rightarrow> switch \<Rightarrow> json \<Rightarrow> opnsense_settings \<Rightarrow> ca_snapshot \<Rightarrow> int option \<Rightarrow> 'w st \<Rightarrow> 'w st \<Rightarrow> bool" where
  "renewed_since env sw settings opnsense snapshot remaining s0 s =
     (\<exists>cert s1 identities.
        installed_since env sw settings opnsense snapshot remaining s0 cert s1 \<and>
        get_certificate_identities sw = Inr identities \<and>
        presented (common_name identities) (x_der cert) s1 s)"

lemma install_pending_Inr:
  assumes "install_pending_certificate env b sw name pem settings lifetime snapshot digest remaining s = (Inr cert, s')"
  shows "\<exists>csr_pem csr now. validate_csr_pem (crypto_lib env) csr_pem sw settings = Inr csr \<and>
    validate_issued_certificate (crypto_lib env) pem csr sw lifetime digest now False remaining = Inr cert \<and>
    verify_issued_certificate_trust (crypto_lib env) cert sw snapshot = Inr ()"
proof -
  from assms obtain s1 s2 n where "ssh_connection env sw
      (install_session env b sw n pem settings lifetime snapshot digest remaining) s1 = (Inr cert, s2)"
    by (auto simp: install_pending_certificate_def run_success try_except_Inr)
  from ssh_connection_Inr [OF this] obtain s3 s4 where
      "install_session env b sw n pem settings lifetime snapshot digest remaining s3 = (Inr cert, s4)" by blast
  then show ?thesis
    unfolding install_session_def bind_Inr seq_Inr lift_Inr ret_Inr by clarsimp blast
qed

definition idle_since :: "'w st \<Rightarrow> 'w st \<Rightarrow> bool" where
  "idle_since s0 s = (\<forall>pem. in_phase pem s0 Idle s)"

lemma idle_closed: "closed_under (\<lambda>a. \<not> changes_switch a) (idle_since s0)"
  using in_phase_closed by (fastforce simp: closed_under_def idle_since_def)

lemma idle_session: "closed_under session_action (idle_since s0)"
  by (rule closed_under_weaken [OF idle_closed]) (rule session_action_unchanging)

interpretation idle: signing_law "idle_since s0" for s0
proof unfold_locales
  show "closed_under (\<lambda>a. \<not> changes_switch a \<and> \<not> asks_operator a) (idle_since s0)"
      "closed_under reads_only (idle_since s0)"
    by (rule closed_under_weaken [OF idle_closed]; simp add: reads_only_def harmless_def)+
qed (simp add: idle_since_def in_phase_def)

lemma csr_command_distinct:
  "build_csr_command sw name profile settings = Inr cmd \<Longrightarrow> cmd \<noteq> INSTALL_COMMAND \<and> cmd \<noteq> ''y''"
  by (auto simp: build_csr_command_def res_bind_Inr_iff INSTALL_COMMAND_def Let_def split: if_splits)

lemma idle_create:
  assumes "cmd \<noteq> INSTALL_COMMAND" and "cmd \<noteq> ''y''"
  shows "keeps (idle_since s0) (create_csr env cmd)"
proof -
  have "keeps (idle_since s0) (act_text env (SendCommandTiming cmd n))" for n
    unfolding act_text_def
    by (rule keeps_act, simp add: idle_since_def)
       (intro allI in_phase_step [OF _ dialogue_create [OF assms]], simp)
  then show ?thesis
    unfolding create_csr_def send_command_timing_def
    by (intro keeps_intros keeps_modify keeps_commands [OF idle_closed])
       (auto simp: idle_since_def in_phase_def)
qed

lemma idle_generate: "keeps (idle_since s0) (generate_csr env sw name settings)"
  unfolding generate_csr_def generate_csr_session_def generate_csr_failed_def show_summary_def fail_def
  by (intro keeps_bind_lift keeps_intros keeps_modify keeps_ssh_connection idle_session
      keeps_commands [OF idle_closed] keeps_print [OF idle_closed]
      keeps_retrieve_and_validate [OF idle_closed] idle_create)
     (auto simp: idle_since_def in_phase_def dest: csr_command_distinct)

lemma idle_print: "keeps (idle_since s0) (print_terminal env t)"
  by (rule keeps_print [OF idle_closed]) simp

lemma install_stage:
  "triple (idle_since s0)
     (try_except (install_pending_certificate env b sw name pem settings (os_lifetime_days opnsense) snapshot
         (os_digest opnsense) remaining) pre_install_failed)
     (\<lambda>cert. installed_since env sw settings opnsense snapshot remaining s0 cert) (\<lambda>_ _. True)"
proof (rule triple_try_except [where X = "\<lambda>_ _. True"], rule tripleI)
  fix s r s'
  assume idle: "idle_since s0 s"
    and run: "install_pending_certificate env b sw name pem settings (os_lifetime_days opnsense) snapshot
        (os_digest opnsense) remaining s = (r, s')"
  from idle have "in_phase pem s0 Idle s" by (simp add: idle_since_def)
  from tripleD [OF install_pending_obeys this run] run
  show "case r of Inl e \<Rightarrow> True
    | Inr cert \<Rightarrow> installed_since env sw settings opnsense snapshot remaining s0 cert s'"
    by (cases r) (use install_pending_Inr in \<open>fastforce simp: installed_since_def\<close>)+
next
  show "triple (\<lambda>_. True) (pre_install_failed e)
      (\<lambda>cert. installed_since env sw settings opnsense snapshot remaining s0 cert) (\<lambda>_ _. True)" for e
    unfolding pre_install_failed_def fail_def by (intro triple_if triple_raise)
qed

lemma installed_closed:
  "closed_under (\<lambda>a. \<not> changes_switch a) (installed_since env sw settings opnsense snapshot remaining s0 cert)"
  using in_phase_closed by (fastforce simp: closed_under_def installed_since_def)

lemma installed_progress:
  "keeps (installed_since env sw settings opnsense snapshot remaining s0 cert) (report_progress b ev)"
  by (rule keeps_progress) (simp add: installed_since_def in_phase_def)

lemma renewed_closed: "closed_under (\<lambda>a. True) (renewed_since env sw settings opnsense snapshot remaining s0)"
  using presented_closed by (fastforce simp: closed_under_def renewed_since_def)

lemma renewed_progress:
  "keeps (renewed_since env sw settings opnsense snapshot remaining s0) (report_progress b ev)"
  by (rule keeps_progress) (simp add: renewed_since_def presented_def)

lemma live_stage:
  "triple (installed_since env sw settings opnsense snapshot remaining s0 cert)
     (try_except (verify_live_https_certificate env sw snapshot cert) live_failed)
     (\<lambda>_. renewed_since env sw settings opnsense snapshot remaining s0) (\<lambda>_ _. True)"
proof (rule tripleI)
  fix s r s'
  assume installed: "installed_since env sw settings opnsense snapshot remaining s0 cert s"
    and run: "try_except (verify_live_https_certificate env sw snapshot cert) live_failed s = (r, s')"
  have raising: "live_failed e t \<noteq> (Inr u, t')" for e and t t' :: "'a st" and u :: unit
    by (auto simp: live_failed_def run_success)
  show "case r of Inl e \<Rightarrow> True | Inr u \<Rightarrow> renewed_since env sw settings opnsense snapshot remaining s0 s'"
  proof (cases r)
    case (Inr u)
    with run have "verify_live_https_certificate env sw snapshot cert s = (Inr (), s')"
      by (simp add: try_except_raising [OF raising])
    from live_https_seen [OF this] installed Inr show ?thesis by (auto simp: renewed_since_def)
  qed simp
qed

lemma finish_renewed:
  "triple (idle_since s0) (finish_renewal env b sw settings opnsense snapshot remaining name)
     (\<lambda>_. renewed_since env sw settings opnsense snapshot remaining s0) (\<lambda>_ _. True)"
proof -
  have sign: "keeps (idle_since s0) (try_except (sign_pending_csr env b sw name settings opnsense remaining)
      signing_failed)"
    unfolding signing_failed_def by (intro keeps_intros idle.keeps_sign)
  have print: "keeps (installed_since env sw settings opnsense snapshot remaining s0 cert) (print_terminal env t)"
      "keeps (renewed_since env sw settings opnsense snapshot remaining s0) (print_terminal env t)" for cert t
    by (rule keeps_print [OF installed_closed], simp, rule keeps_print [OF renewed_closed], simp)
  show ?thesis
    unfolding finish_renewal_def
    by (intro triple_bind [OF install_stage] triple_seq [OF live_stage] triple_seq_keeps
        triple_bind_keeps sign print idle_print installed_progress renewed_progress triple_ret) auto
qed

lemma renew_renewed:
  "triple (idle_since s0) (renew_certificate env b sw settings opnsense snapshot remaining)
     (\<lambda>_. renewed_since env sw settings opnsense snapshot remaining s0) (\<lambda>_ _. True)"
proof -
  have generate: "keeps (idle_since s0) (try_except (generate_csr env sw name settings) generation_failed)" for name
    unfolding generation_failed_def fail_def by (intro keeps_intros idle_generate)
  show ?thesis
    unfolding renew_certificate_def
    by (intro triple_seq_keeps triple_bind_keeps idle.keeps_preflight idle.keeps_report idle_print generate
        finish_renewed TrueI)
qed

lemma json_failure_no_success: "item_outcome (json_failure it e) \<noteq> SUCCESS_CHANGED"
  using json_failure_outcome_cases(1) [of it] by (auto simp: json_failure_def Let_def)

text \<open>
  C3.  A renewal reported as \<^verbatim>\<open>success_changed\<close> is complete: a certificate was issued for a CSR of
  this switch that passed validation, meets the policy and chains to the trust anchors; it went
  through the whole installation dialogue, with nothing of that dialogue sent before it; and later
  the switch itself presented exactly this certificate in a live handshake for its own name.
\<close>

theorem reported_success_is_renewed:
  assumes "json_renew env sw settings opnsense snapshot warning_days s = (Inr (), s')"
    and "item_outcome (item s') = SUCCESS_CHANGED"
  shows "renewed_since env sw settings opnsense snapshot warning_days s s'"
proof -
  define s1 where "s1 = s\<lparr>item := (item s)\<lparr>item_stage := PREFLIGHT\<rparr>\<rparr>"
  obtain r s2 where run: "renew_certificate env True sw settings opnsense snapshot warning_days s1 = (r, s2)"
    by (cases "renew_certificate env True sw settings opnsense snapshot warning_days s1")
  have idle: "idle_since s1 s1" by (simp add: idle_since_def in_phase_start)
  from assms run obtain name where r: "r = Inr name" "trace s' = trace s2"
    by (cases r) (auto simp: json_renew_def with_item_def run_success s1_def raise_def
        json_failure_no_success split: if_splits)
  with tripleD [OF renew_renewed idle run] have "renewed_since env sw settings opnsense snapshot warning_days s1 s2"
    by simp
  with r(2) show ?thesis
    by (auto simp: renewed_since_def installed_since_def in_phase_def presented_def s1_def)
qed

end
