(* ===== verification/SampleRun.thy ===== *)
theory SampleRun
  imports Renewal
begin

text \<open>
  A complete renewal in a concrete environment: a switch that plays the whole dialogue, a certificate
  authority that signs, a peer that presents the certificate.  It shows that the outcome the theorems
  on renewals speak of is reached, and that the definitions compute.

  The world counts what happened to the switch: 0 as found, 1 with a pending CSR, 2 with the new
  certificate installed.
\<close>

section \<open>Runs in a known environment\<close>

text \<open>From world \<open>w\<close>, whatever the rest of the state, \<open>m\<close> returns, with \<open>P\<close> of its result.\<close>

definition completes :: "('w, 'a) io \<Rightarrow> 'w \<Rightarrow> ('a \<Rightarrow> 'w \<Rightarrow> bool) \<Rightarrow> bool" where
  "completes m w P = (\<forall>s. world s = w \<longrightarrow> (\<exists>x s'. m s = (Inr x, s') \<and> P x (world s')))"

lemma completes_bind: "completes m w (\<lambda>x w1. completes (f x) w1 P) \<Longrightarrow> completes (bind m f) w P"
  by (fastforce simp: completes_def bind_Inr)

lemma completes_seq: "completes m w (\<lambda>_ w1. completes k w1 P) \<Longrightarrow> completes (seq m k) w P"
  unfolding seq_def by (rule completes_bind)

lemma completes_try_except: "completes m w P \<Longrightarrow> completes (try_except m h) w P"
  by (fastforce simp: completes_def try_except_Inr)

lemma completes_on_os_error: "completes m w P \<Longrightarrow> completes (on_os_error e m) w P"
  unfolding on_os_error_def by (rule completes_try_except)

lemma completes_try_finally:
  "completes m w (\<lambda>x w1. completes (f False) w1 (\<lambda>_ w2. P x w2)) \<Longrightarrow> completes (try_finally m f) w P"
  by (fastforce simp: completes_def try_finally_Inr)

lemma completes_outcome_of: "completes m w (\<lambda>x w1. P (Inr x) w1) \<Longrightarrow> completes (outcome_of m) w P"
  by (fastforce simp: completes_def outcome_of_Inr)

lemma completes_gets: "(\<And>v. completes (k v) w P) \<Longrightarrow> completes (bind (gets f) k) w P"
  by (auto simp: completes_def bind_Inr gets_Inr)

lemma completes_pure:
  "P x w \<Longrightarrow> completes (ret x) w P" "P x w \<Longrightarrow> completes (lift (Inr x)) w P"
  "P (f w) w \<Longrightarrow> completes (observe f) w P" "\<not> b \<Longrightarrow> Q () w \<Longrightarrow> completes (check b e) w Q"
  by (auto simp: completes_def ret_def lift_def observe_def gets_def check_def)

lemma completes_modify: "(\<And>s. world (f s) = world s) \<Longrightarrow> P () w \<Longrightarrow> completes (modify f) w P"
  by (auto simp: completes_def modify_Inr)

lemma completes_progress: "P () w \<Longrightarrow> completes (report_progress b ev) w P"
  by (auto simp: completes_def report_progress_def modify_def ret_def)

lemma completes_mono: "completes m w P \<Longrightarrow> (\<And>x w1. P x w1 \<Longrightarrow> Q x w1) \<Longrightarrow> completes m w Q"
  by (fastforce simp: completes_def)

lemma completes_if:
  "(b \<Longrightarrow> completes m w P) \<Longrightarrow> (\<not> b \<Longrightarrow> completes k w P) \<Longrightarrow> completes (if b then m else k) w P"
  by simp

lemmas completes_steps = completes_if completes_gets completes_bind completes_seq completes_try_except
  completes_on_os_error completes_try_finally completes_outcome_of completes_pure completes_progress

section \<open>The environment\<close>

definition found_summary :: string where
  "found_summary = ''old Web 2026/01/09 p''"

definition pending_summary :: string where
  "pending_summary = ''old Web 2026/01/09 p'' @ [newline] @ ''webcert-20260102-01 Web CSR p''"

definition installed_summary :: string where
  "installed_summary = ''webcert-20260102-01 Web 2026/01/11 p''"

definition run_csr_pem :: string where
  "run_csr_pem = ''-----BEGIN CERTIFICATE REQUEST-----'' @ [newline] @ ''AAAA'' @ [newline] @
     ''-----END CERTIFICATE REQUEST-----'' @ [newline]"

fun run_text :: "action \<Rightarrow> nat \<Rightarrow> string" where
  "run_text (SendCommand c n) w =
     (if c = SUMMARY_COMMAND then
        (if w = 0 then found_summary else if w = 1 then pending_summary else installed_summary)
      else if w = 1 then run_csr_pem else ''Certificate Detail:'')"
| "run_text (SendCommandTiming c n) w = (if c = INSTALL_COMMAND then CERTIFICATE_PASTE_PROMPT else '''')"
| "run_text (SendPem p n) w = CERTIFICATE_REPLACEMENT_PROMPT"
| "run_text (HttpRequest v u d) w =
     (if v = ''GET'' then ''ca'' else if u = ''https://fw/api/trust/cert/add'' then ''add'' else ''cert'')"
| "run_text MakeTempDirectory w = ''/t''"
| "run_text ReceiveAddresses w = ''192.0.2.7''"
| "run_text (TlsHandshake h t) w = ''D''"
| "run_text (ReadFile fd n) w = ''sw key''"
| "run_text a w = ''''"

fun run_step :: "action \<Rightarrow> nat \<Rightarrow> nat" where
  "run_step (SendCommandTiming c n) w = (if c = INSTALL_COMMAND then w else if c = ''y'' then 2 else 1)"
| "run_step a w = w"

fun run_num :: "action \<Rightarrow> int" where
  "run_num (OsOpen p fl) = 3"
| "run_num (PollResolver d) = 1"
| "run_num a = 0"

definition run_json :: "string \<Rightarrow> json" where
  "run_json t =
     (if t = ''ca'' then JObj [(''rows'', JList [JObj [(''descr'', JStr ''CA''),
          (''caref'', JStr ''0123456789abc'')]]), (''count'', JInt 1)]
      else if t = ''add'' then JObj [(''result'', JStr ''saved''),
          (''uuid'', JStr ''00000000-0000-0000-0000-0000000000ab'')]
      else JObj [(''status'', JStr ''ok''), (''payload'', JStr ''C'')])"

definition run_env :: "nat env" where
  "run_env = \<lparr>answer_text = (\<lambda>a w. (Inr (run_text a w), run_step a w)),
     answer_num = (\<lambda>a w. (Inr (run_num a), w)),
     answer_status = (\<lambda>a w. (Inr (case a of
          OsStat p \<Rightarrow> \<lparr>st_kind = Directory, st_perm = 448, st_uid = 0, st_gid = 0, st_dev = 1, st_ino = 1,
              st_nlink = 2, st_size = 0\<rparr>
        | _ \<Rightarrow> \<lparr>st_kind = RegularFile, st_perm = 384, st_uid = 0, st_gid = 0, st_dev = 1, st_ino = 2,
              st_nlink = 1, st_size = 6\<rparr>), w)),
     channel_poisoned = (\<lambda>w. False), base_prompt = (\<lambda>w. ''sw#''), now_utc = (\<lambda>w. 5),
     today_utc = (\<lambda>w. Date 2026 1 2), today_local = (\<lambda>w. Date 2026 1 2),
     environ = (\<lambda>n. if n = ''OPNSENSE_API_KEY'' \<or> n = ''OPNSENSE_API_SECRET'' then Some ''k'' else None),
     has_nofollow = True, effective_uid = 0, effective_gid = 0,
     json_loads = (\<lambda>t. Inr (run_json t)), toml_loads = (\<lambda>t. None),
     resolved_parent = (\<lambda>p. ''/''), local_timestamp = (\<lambda>w. ''''), sha256_hex = (\<lambda>t. t),
     crypto_lib = sample_crypto\<lparr>load_csr := (\<lambda>t. Inr (sample_request\<lparr>req_pem := run_csr_pem\<rparr>)),
       load_certificates := (\<lambda>t. Inr [sample_certificate])\<rparr>\<rparr>"

definition run_start :: "nat st" where
  "run_start = \<lparr>world = 0, trace = [], item = new_switch_result ''s'',
     csr_creation_attempted = False, installation_attempted = False,
     installation_dialogue_completed = False, entered_config_mode = False,
     installation_completed = False, switch_verdict = None, body_exit = None\<rparr>"

definition run_settings :: opnsense_settings where
  "run_settings = \<lparr>os_base_url = ''https://fw/'', os_ca = ''CA'', os_lifetime_days = 10, os_digest = ''sha256''\<rparr>"

definition run_anchors :: ca_snapshot where
  "run_anchors = \<lparr>ca_path = ''ca'', ca_pem = ''C''\<rparr>"

lemma run_act:
  "run_text a w = t \<Longrightarrow> run_step a w = w1 \<Longrightarrow> P t w1 \<Longrightarrow> completes (act_text run_env a) w P"
  "run_step a w = w1 \<Longrightarrow> Q () w1 \<Longrightarrow> completes (act_unit run_env a) w Q"
  "Q () w \<Longrightarrow> completes (print_terminal run_env t) w Q"
  by (auto simp: completes_def act_text_Inr act_unit_Inr record_event_def run_env_def print_terminal_def)

lemma run_act_num: "run_num a = n \<Longrightarrow> P n w \<Longrightarrow> completes (act_num run_env a) w P"
  by (auto simp: completes_def act_num_Inr record_event_def run_env_def)

lemma run_env_fields [simp]:
  "channel_poisoned run_env w = False" "base_prompt run_env w = ''sw#''" "now_utc run_env w = 5"
  "today_utc run_env w = Date 2026 1 2" "has_nofollow run_env = True" "effective_uid run_env = 0"
  by (simp_all add: run_env_def)

lemma run_read_secure:
  "P ''sw key'' w \<Longrightarrow> completes (read_secure_file run_env path src disc n) w P"
  by (simp add: completes_def read_secure_file_def open_secure_file_def status_before_open_def
      inspect_descriptor_def check_unchanged_def check_opened_metadata_def has_bit_def S_IWGRP_def S_IWOTH_def
      run_env_def bind_def ret_def try_except_def try_finally_def act_num_def act_status_def act_unit_def
      act_text_def act_def record_event_def on_os_error_def seq_def check_def)

lemma run_temp_status:
  "(\<And>st. st_perm st = 448 \<Longrightarrow> Q st w) \<Longrightarrow> completes (act_status run_env (OsStat p)) w Q"
  by (auto simp: completes_def act_status_Inr record_event_def run_env_def)

lemmas run_steps = completes_steps run_act run_act_num run_read_secure run_temp_status

lemma run_session:
  assumes "completes body w P"
  shows "completes (ssh_connection run_env sample_switch body) w P"
  unfolding ssh_connection_def snapshot_known_hosts_def with_snapshot_directory_def read_known_hosts_def
  apply (simp add: sample_switch_def)
  apply (rule run_steps | simp add: MAX_KNOWN_HOSTS_FILE_BYTES_def)+
  apply (rule completes_mono [OF assms])
  apply (rule run_steps | simp)+
  done

section \<open>What the texts say\<close>

definition run_name :: string where "run_name = ''webcert-20260102-01''"

lemma short_summary [simp]:
  "check_summary_size found_summary = Inr found_summary"
  "check_summary_size pending_summary = Inr pending_summary"
  "check_summary_size installed_summary = Inr installed_summary"
  using utf8_len_bounds [of found_summary] utf8_len_bounds [of pending_summary]
    utf8_len_bounds [of installed_summary]
  by (simp_all add: MAX_CERTIFICATE_SUMMARY_OUTPUT_BYTES_def found_summary_def pending_summary_def
      installed_summary_def)

lemma parse_found [simp]:
  "parse_web_certificates found_summary =
     Inr [\<lparr>cert_name = ''old'', cert_expiration = Some (Date 2026 1 9), cert_profile = ''p'', cert_pending = False\<rparr>]"
proof -
  have "res_map web_certificate_of_match (finditer web_certificate_re found_summary) =
     Inr [\<lparr>cert_name = ''old'', cert_expiration = Some (Date 2026 1 9), cert_profile = ''p'', cert_pending = False\<rparr>]"
    by code_simp
  then show ?thesis by (simp add: parse_web_certificates_def)
qed

lemma run_name_ok [simp]: "validate_cli_identifier run_name label = Inr run_name"
proof -
  have "fullmatch identifier_re run_name" by code_simp
  then show ?thesis by (simp add: validate_cli_identifier_def)
qed

lemma name_free [simp]: "certificate_name_exists found_summary run_name = Inr False"
proof -
  have "search (name_line_re run_name) found_summary = None" by code_simp
  then show ?thesis by (simp add: certificate_name_exists_def)
qed

lemma run_plan [simp]:
  "plan_renewal found_summary (Date 2026 1 2) = Inr \<lparr>plan_active_certificate_name = ''old'',
     plan_ta_profile = ''p'', plan_new_certificate_name = run_name\<rparr>"
proof -
  have "renewal_candidate (Date 2026 1 2) 1 = run_name" by code_simp
  then have "choose_renewal_certificate_name found_summary (Date 2026 1 2) = Inr run_name"
    by (simp add: choose_renewal_certificate_name_def choose_from.simps)
  then show ?thesis by (simp add: plan_renewal_def get_active_web_certificate_def)
qed

abbreviation run_request :: csr_object where
  "run_request \<equiv> sample_request\<lparr>req_pem := run_csr_pem\<rparr>"

lemma run_csr_chars: "isascii run_csr_pem" "length run_csr_pem = 75"
  by (simp_all add: run_csr_pem_def isascii_def is_ascii_char_def newline_def)

lemma run_extract [simp]: "extract_csr_pem run_csr_pem = Inr run_csr_pem"
  by code_simp

lemma run_sizes [simp]:
  "check_output_size run_csr_pem MAX_CSR_DETAIL_OUTPUT_BYTES label = Inr run_csr_pem"
  "check_output_size [] limit label = Inr []"
  using run_csr_chars(2) by (simp_all add: MAX_CSR_DETAIL_OUTPUT_BYTES_def)

lemma run_csr_valid [simp]:
  "validate_csr_pem (crypto_lib run_env) run_csr_pem sample_switch sample_csr = Inr run_request"
  by (rule sample_request_validates)
     (simp_all add: run_env_def run_csr_chars SwitchCli.MAX_CSR_PEM_BYTES_def sample_crypto_def)

lemma run_issued [simp]:
  "isascii pem \<Longrightarrow> validate_issued_certificate (crypto_lib run_env) pem run_request sample_switch 10 ''sha256'' 5
     fresh (Some 9) = Inr sample_certificate"
  by (rule sample_issued) (simp_all add: run_env_def)

lemma run_name_not_summary: "run_name \<noteq> ''summary''"
  by (simp add: run_name_def)

lemma run_name_other: "casefold run_name \<noteq> casefold ''old''"
  by code_simp

definition run_command :: string where
  "run_command = projr (build_csr_command sample_switch run_name ''p'' sample_csr)"

lemma run_command [simp]:
  "build_csr_command sample_switch run_name ''p'' sample_csr = Inr run_command"
  unfolding run_command_def by code_simp

lemma run_command_other [simp]: "run_command \<noteq> INSTALL_COMMAND" "run_command \<noteq> ''y''"
  using csr_command_distinct [OF run_command] by simp_all

section \<open>The operations\<close>

lemma run_preflight:
  "completes (renewal_preflight run_env sample_switch) 0 (\<lambda>plan w. w = 0 \<and>
     plan = \<lparr>plan_active_certificate_name = ''old'', plan_ta_profile = ''p'', plan_new_certificate_name = run_name\<rparr>)"
  unfolding renewal_preflight_def show_summary_def send_command_def
  by (rule run_steps run_session | simp del: One_nat_def)+

lemma run_retrieve:
  "P run_csr_pem 1 \<Longrightarrow> completes (retrieve_and_validate_csr run_env sample_switch run_name sample_csr) 1 P"
  unfolding retrieve_and_validate_csr_def send_command_def
  by (rule run_steps | assumption | simp add: SUMMARY_COMMAND_def run_name_not_summary del: One_nat_def)+

lemma run_generate:
  "completes (generate_csr run_env sample_switch run_name sample_csr) 0 (\<lambda>x w. w = 1)"
  unfolding generate_csr_def generate_csr_session_def show_summary_def send_command_def create_csr_def
    send_command_timing_def config_mode_def exit_config_mode_def connection_poisoned_def
  by (rule run_steps run_session run_retrieve completes_modify
    | simp add: sample_settings get_active_web_certificate_def run_name_other del: One_nat_def)+

section \<open>Signing\<close>

lemma run_identities [simp]:
  "validate_switch_signing_identity sample_switch =
     Inr \<lparr>common_name = ''sw'', dns_names = [''sw''], ip_addresses = []\<rparr>"
  unfolding validate_switch_signing_identity_def sample_identities by code_simp

lemma run_pending [simp]:
  "require_pending_web_certificate pending_summary run_name =
     Inr \<lparr>entry_name = run_name, entry_usage = ''Web'', entry_expiration = ''CSR'', entry_profile = ''p''\<rparr>"
proof -
  have "map (\<lambda>m. (group ''name'' m, group ''usage'' m, group ''expiration'' m, group ''profile'' m))
      (finditer (summary_entry_re run_name) pending_summary) = [(run_name, ''Web'', ''CSR'', ''p'')]"
    by code_simp
  then obtain m where m: "finditer (summary_entry_re run_name) pending_summary = [m]" "group ''name'' m = run_name"
      "group ''usage'' m = ''Web''" "group ''expiration'' m = ''CSR''" "group ''profile'' m = ''p''"
    by auto
  have fold: "casefold ''Web'' = ''web''" "casefold ''CSR'' = ''csr''" by code_simp+
  show ?thesis
    by (simp add: require_pending_web_certificate_def get_certificate_summary_entry_def  m fold)
qed

lemma run_retrieve_csr:
  "P run_csr_pem 1 \<Longrightarrow> completes (retrieve_csr run_env b sample_switch run_name sample_csr) 1 P"
  unfolding retrieve_csr_def show_summary_def send_command_def
  by (rule run_steps run_session run_retrieve | assumption | simp add: sample_settings del: One_nat_def)+

lemma run_credential: "validate_credential_content ''k'' name = Inr ''k''"
  by (simp add: validate_credential_content_def byte_between_def MAX_SECRET_FILE_BYTES_def
      carriage_return_def newline_def nul_def code_def raise_if_def)

lemma run_credentials:
  "P ''k'' w \<Longrightarrow> completes (load_credential run_env ''OPNSENSE_API_KEY'' ''OPNSENSE_API_KEY_FILE'') w P"
  "P ''k'' w \<Longrightarrow> completes (load_credential run_env ''OPNSENSE_API_SECRET'' ''OPNSENSE_API_SECRET_FILE'') w P"
  by (auto simp: load_credential_def run_env_def run_credential intro!: completes_pure)

lemma run_client:
  "P \<lparr>base_url = ''https://fw'', authorization = ''Basic azpr''\<rparr> w \<Longrightarrow>
     completes (opnsense_client run_env ''https://fw/'') w P"
proof -
  assume P: "P \<lparr>base_url = ''https://fw'', authorization = ''Basic azpr''\<rparr> w"
  have url: "validate_base_url ''https://fw/'' = Inr ''https://fw''"
    and auth: "''Basic '' @ b64encode (''k'' @ '':'' @ ''k'') = ''Basic azpr''" by code_simp+
  show ?thesis
    unfolding opnsense_client_def load_authorization_def
    by (rule run_steps run_credentials | simp add: url auth [simplified] P)+
qed

text \<open>A request whose answer is an object with unique keys.\<close>

lemma run_request_json:
  assumes "\<And>Q. Q () w \<Longrightarrow> completes dispatch w Q" and "request_data path payload = Inr data"
    and "run_text (HttpRequest verb (base_url cl @ path) data) w = t" and "run_json t = JObj members"
    and "unique_keys (JObj members)" and "length t \<le> 100" and "P members w"
  shows "completes (request_json run_env cl dispatch verb path payload) w P"
proof -
  have "reject_duplicates e (JObj members) = Inr (JObj members)" for e
    by (simp only: reject_duplicates_iff(1) assms(5) if_True)
  then have "parse_response run_env t = Inr members"
    using assms(4,6) by (simp add: parse_response_def run_env_def MAX_RESPONSE_BYTES_def del: reject_duplicates.simps)
  moreover have "take (MAX_RESPONSE_BYTES + 1) t = t" using assms(6) by (simp add: MAX_RESPONSE_BYTES_def)
  ultimately have parsed: "parse_response run_env (take (MAX_RESPONSE_BYTES + 1) t) = Inr members" by simp
  show ?thesis
    unfolding request_json_def assms(2)
    by (rule completes_bind completes_pure completes_try_except completes_seq assms(1) run_act(1) [OF assms(3) refl]
        | simp only: parsed run_step.simps)+ (rule assms(7))
qed

abbreviation run_cl :: client where
  "run_cl \<equiv> \<lparr>base_url = ''https://fw'', authorization = ''Basic azpr''\<rparr>"

lemma run_resolve_ca: "P ''0123456789abc'' w \<Longrightarrow> completes (resolve_ca run_env run_cl ''CA'') w P"
proof -
  assume P: "P ''0123456789abc'' w"
  let ?list = "[(''rows'', JList [JObj [(''descr'', JStr ''CA''), (''caref'', JStr ''0123456789abc'')]]),
    (''count'', JInt 1)]"
  have plain: "validate_safe_text ''CA'' label = Inr ''CA''" for label
    by (simp add: validate_safe_text_def MAX_DESCRIPTION_CHARS_def unsafe_category_def code_def
        strip_def rstrip_def lstrip_def isspace_def raise_if_def)
  have found: "find_ca ''CA'' ?list = Inr ''0123456789abc''" by code_simp
  have request: "completes (request_json run_env run_cl (ret ()) ''GET'' CA_LIST_PATH None) w Q"
    if "Q ?list w" for Q
    by (rule run_request_json [where data = None and t = "''ca''" and members = ?list])
       (simp_all add: request_data_def run_json_def completes_pure that)
  show ?thesis
    unfolding resolve_ca_def plain
    by (rule completes_bind completes_pure request | simp only: found)+ (rule P)
qed

abbreviation run_sign_request :: sign_request where
  "run_sign_request \<equiv> \<lparr>sr_csr_pem = run_csr_pem, sr_caref = ''0123456789abc'', sr_digest = ''sha256'',
     sr_lifetime_days = 10, sr_dns_names = [''sw''], sr_ip_addresses = [],
     sr_description = build_opnsense_certificate_description run_name ''sw''\<rparr>"

lemma run_sign_check: "check_sign_request run_sign_request = Inr (sign_payload run_sign_request [''sw''] [])"
proof -
  have pem: "fullmatch csr_pem_re run_csr_pem" and caref: "fullmatch ca_reference_re ''0123456789abc''"
    and sans: "validate_sans [''sw''] [] = Inr ([''sw''], [])"
    and descr: "build_opnsense_certificate_description run_name ''sw'' =
      ''Aruba Web certificate webcert-20260102-01 for sw''" by code_simp+
  have plain: "validate_safe_text ''Aruba Web certificate webcert-20260102-01 for sw'' label =
      Inr ''Aruba Web certificate webcert-20260102-01 for sw''" for label
    by (simp add: validate_safe_text_def MAX_DESCRIPTION_CHARS_def unsafe_category_def code_def
        strip_def rstrip_def lstrip_def isspace_def raise_if_def)
  have size: "utf8_len run_csr_pem \<le> OpnsenseClient.MAX_CSR_PEM_BYTES"
    using utf8_len_bounds [of run_csr_pem] run_csr_chars(2) by (simp add: OpnsenseClient.MAX_CSR_PEM_BYTES_def)
  show ?thesis
    using size by (simp add: check_sign_request_def run_csr_chars(1) pem caref sans descr plain raise_if_def not_less)
qed

lemma run_sign_data:
  "\<exists>data. request_data CERT_ADD_PATH (Some (sign_payload run_sign_request [''sw''] [])) = Inr (Some data)"
proof -
  have "length (dumps '', '' '': '' (sign_payload run_sign_request [''sw''] [])) < 1000" by code_simp
  then show ?thesis by (simp add: request_data_def Let_def MAX_OPNSENSE_SIGN_REQUEST_BYTES_def raise_if_def)
qed

lemma run_sign_csr:
  "P ''00000000-0000-0000-0000-0000000000ab'' w \<Longrightarrow>
     completes (sign_csr run_env run_cl (report_progress b ev) run_sign_request) w P"
proof -
  assume P: "P ''00000000-0000-0000-0000-0000000000ab'' w"
  let ?saved = "[(''result'', JStr ''saved''), (''uuid'', JStr ''00000000-0000-0000-0000-0000000000ab'')]"
  obtain data where data: "request_data CERT_ADD_PATH (Some (sign_payload run_sign_request [''sw''] [])) = Inr (Some data)"
    using run_sign_data by blast
  have uuid: "signed_uuid ?saved = Inr ''00000000-0000-0000-0000-0000000000ab''" by code_simp
  have request: "completes (request_json run_env run_cl (report_progress b ev) ''POST'' CERT_ADD_PATH
      (Some (sign_payload run_sign_request [''sw''] []))) w Q" if "Q ?saved w" for Q
    by (rule run_request_json [where t = "''add''" and members = ?saved, OF _ data])
       (simp_all add: run_json_def completes_progress CERT_ADD_PATH_def that)
  show ?thesis
    unfolding sign_csr_def run_sign_check
    by (rule completes_bind completes_pure request | simp only: uuid)+ (rule P)
qed

lemma run_get_certificate:
  "P (''C'' @ [newline]) w \<Longrightarrow>
     completes (get_certificate run_env run_cl ''00000000-0000-0000-0000-0000000000ab'') w P"
proof -
  assume P: "P (''C'' @ [newline]) w"
  let ?ok = "[(''status'', JStr ''ok''), (''payload'', JStr ''C'')]"
  let ?id = "''00000000-0000-0000-0000-0000000000ab''"
  have id: "normalize_uuid ?id = Some ?id" by code_simp
  have found: "certificate_text ?ok = Inr (''C'' @ [newline])"
    by (simp add: certificate_text_def dict_get_def isascii_def is_ascii_char_def strip_def rstrip_def lstrip_def
        isspace_def raise_if_def MAX_CERTIFICATE_PEM_BYTES_def)
  have request: "completes (request_json run_env run_cl (ret ()) ''POST'' (certificate_path ?id) (Some (JObj []))) w Q"
    if "Q ?ok w" for Q
    by (rule run_request_json [where t = "''cert''" and members = ?ok and data = "Some (dumps '', '' '': '' (JObj []))"])
       (simp_all add: run_json_def request_data_def Let_def certificate_path_def CERT_ADD_PATH_def that
          completes_pure raise_if_def)
  show ?thesis
    unfolding get_certificate_def id option.case
    by (rule completes_bind completes_pure request | simp only: found)+ (rule P)
qed

lemma run_sign:
  "completes (sign_pending_csr run_env b sample_switch run_name sample_csr run_settings (Some 9)) 1
     (\<lambda>pem w. w = 1 \<and> pem = ''C'' @ [newline])"
  unfolding sign_pending_csr_def run_settings_def
  by (rule completes_bind completes_seq completes_pure completes_progress run_retrieve_csr run_client
      run_resolve_ca run_sign_csr [simplified] run_get_certificate
    | simp add: isascii_def is_ascii_char_def newline_def del: One_nat_def)+

section \<open>Installation and the live check\<close>

lemma run_installed [simp]:
  "get_certificate_summary_entry installed_summary run_name =
     Inr \<lparr>entry_name = run_name, entry_usage = ''Web'', entry_expiration = ''2026/01/11'', entry_profile = ''p''\<rparr>"
proof -
  have "map (\<lambda>m. (group ''name'' m, group ''usage'' m, group ''expiration'' m, group ''profile'' m))
      (finditer (summary_entry_re run_name) installed_summary) = [(run_name, ''Web'', ''2026/01/11'', ''p'')]"
    by code_simp
  then show ?thesis
    by (auto simp: get_certificate_summary_entry_def)
qed

lemma run_prompts [simp]:
  "ends_with_expected_prompt CERTIFICATE_PASTE_PROMPT CERTIFICATE_PASTE_PROMPT"
  "ends_with_expected_prompt CERTIFICATE_REPLACEMENT_PROMPT CERTIFICATE_REPLACEMENT_PROMPT"
  "\<not> contains_obvious_cli_error []"
  "\<not> contains_obvious_cli_error ''Certificate Detail:''"
  "search certificate_detail_re ''Certificate Detail:'' \<noteq> None"
  by code_simp+

lemma run_prompt_sizes [simp]:
  "check_output_size CERTIFICATE_PASTE_PROMPT MAX_INSTALL_PROMPT_OUTPUT_BYTES label = Inr CERTIFICATE_PASTE_PROMPT"
  "check_output_size CERTIFICATE_REPLACEMENT_PROMPT MAX_INSTALL_PROMPT_OUTPUT_BYTES label =
     Inr CERTIFICATE_REPLACEMENT_PROMPT"
  "check_output_size ''Certificate Detail:'' MAX_CERTIFICATE_DETAIL_OUTPUT_BYTES label = Inr ''Certificate Detail:''"
  by (rule check_output_size_short;
      simp add: CERTIFICATE_PASTE_PROMPT_def CERTIFICATE_REPLACEMENT_PROMPT_def MAX_INSTALL_PROMPT_OUTPUT_BYTES_def
        MAX_CERTIFICATE_DETAIL_OUTPUT_BYTES_def)+

lemma run_folds [simp]:
  "casefold ''Web'' = ''web''" "casefold ''2026/01/11'' \<noteq> ''csr''"
  by code_simp+

lemma run_trust [simp]:
  "verify_issued_certificate_trust (crypto_lib run_env) sample_certificate sample_switch run_anchors = Inr ()"
proof -
  have "\<not> isl (parse_identity (sw_host sample_switch) ''switch host'')" by code_simp
  then obtain i where "parse_identity (sw_host sample_switch) ''switch host'' = Inr i"
    by (cases "parse_identity (sw_host sample_switch) ''switch host''") auto
  then show ?thesis
    by (simp add: verify_issued_certificate_trust_def run_env_def sample_crypto_def)
qed

lemma run_current [simp]: "require_current_certificate_validity sample_certificate 5 (Some 9) = Inr ()"
  by (simp add: require_current_certificate_validity_def sample_certificate_def microseconds_per_day_def)

lemma run_install_signed:
  "completes (install_signed_certificate run_env run_name pem ''p'') 1 (\<lambda>_ w. w = 2)"
  unfolding install_signed_certificate_def begin_installation_def installation_dialogue_def request_paste_def
    paste_certificate_def confirm_replacement_def leave_installation_def confirm_installation_def
    show_summary_def send_command_def send_command_timing_def send_certificate_pem_def config_mode_def
    exit_config_mode_def connection_poisoned_def
  by (rule run_steps completes_modify
    | simp add: SUMMARY_COMMAND_def run_name_not_summary INSTALL_COMMAND_def del: One_nat_def)+

lemma run_install:
  "P sample_certificate 2 \<Longrightarrow> isascii pem \<Longrightarrow>
     completes (install_pending_certificate run_env b sample_switch run_name pem sample_csr 10 run_anchors
       ''sha256'' (Some 9)) 1 P"
  unfolding install_pending_certificate_def install_session_def show_summary_def send_command_def
  by (rule run_steps run_session run_retrieve completes_modify completes_mono [OF run_install_signed]
    | assumption | simp add: sample_settings del: One_nat_def)+

lemma run_live:
  "P () w \<Longrightarrow> completes (verify_live_https_certificate run_env sample_switch run_anchors sample_certificate) w P"
proof -
  assume P: "P () w"
  have name: "ip_address ''sw'' = None" by code_simp
  have der: "x_der sample_certificate = ''D''" by (simp add: sample_certificate_def)
  have pem: "isascii (ca_pem run_anchors)" by (simp add: run_anchors_def isascii_def is_ascii_char_def)
  obtain n where rounds: "https_rounds HTTPS_VERIFICATION_WINDOW_SECONDS HTTPS_RETRY_DELAY_SECONDS = Suc n"
    by (simp add: https_rounds_def)
  show ?thesis
    unfolding verify_live_https_certificate_def verify_live_https_def rounds https_tls_context_def monotonic_def
      resolve_live_https_addresses_def stop_resolver_def receive_addresses_def
    by (rule run_steps
      | simp add: HTTPS_VERIFICATION_WINDOW_SECONDS_def HTTPS_RETRY_DELAY_SECONDS_def
          HTTPS_SOCKET_TIMEOUT_SECONDS_def HTTPS_RESOLVER_CLEANUP_MS_def Let_def name der pem newline_def P
          https_round_def https_attempt_def read_leaf_at_def live_https_timeout_def monotonic_def del: One_nat_def)+
qed

section \<open>The renewal\<close>

lemma run_renewal:
  "completes (renew_certificate run_env b sample_switch sample_csr run_settings run_anchors (Some 9)) 0
     (\<lambda>x w. x = run_name \<and> w = 2)"
proof -
  have sign: "completes (sign_pending_csr run_env b sample_switch run_name sample_csr run_settings (Some 9)) 1 P"
    if "P (''C'' @ [newline]) 1" for P
    by (rule completes_mono [OF run_sign]) (use that in simp)
  have ascii: "isascii (''C'' @ [newline])" by (simp add: isascii_def is_ascii_char_def newline_def)
  have fields: "os_lifetime_days run_settings = 10" "os_digest run_settings = ''sha256''"
    by (simp_all add: run_settings_def)
  have finish: "completes (finish_renewal run_env b sample_switch sample_csr run_settings run_anchors (Some 9) run_name)
      1 (\<lambda>x w. x = run_name \<and> w = 2)"
    unfolding finish_renewal_def fields
    by (rule run_steps sign run_install run_live ascii | simp del: One_nat_def)+
  show ?thesis
    unfolding renew_certificate_def
    by (rule run_steps completes_mono [OF run_preflight] completes_mono [OF run_generate] finish
      | elim conjE; simp del: One_nat_def | simp del: One_nat_def)+
qed

lemma run_reported:
  "\<exists>s'. json_renew run_env sample_switch sample_csr run_settings run_anchors (Some 9) run_start = (Inr (), s') \<and>
     item_outcome (item s') = SUCCESS_CHANGED"
proof -
  let ?s = "run_start\<lparr>item := (item run_start)\<lparr>item_stage := PREFLIGHT\<rparr>\<rparr>"
  have "world ?s = 0" by (simp add: run_start_def)
  with run_renewal [of True] obtain s' where
      "renew_certificate run_env True sample_switch sample_csr run_settings run_anchors (Some 9) ?s = (Inr run_name, s')"
    unfolding completes_def by blast
  then show ?thesis
    by (simp add: json_renew_def with_item_def modify_def seq_def bind_def outcome_of_def)
qed

theorem reported_success_is_renewed_witness:
  "renewed_since run_env sample_switch sample_csr run_settings run_anchors (Some 9) run_start
     (snd (json_renew run_env sample_switch sample_csr run_settings run_anchors (Some 9) run_start))"
proof -
  obtain s' where
      "json_renew run_env sample_switch sample_csr run_settings run_anchors (Some 9) run_start = (Inr (), s')"
      "item_outcome (item s') = SUCCESS_CHANGED"
    using run_reported by blast
  with reported_success_is_renewed [OF this] show ?thesis by simp
qed

end
