(* ===== verification/Startup.thy ===== *)
theory Startup
  imports Configuration
begin

text \<open>
  How an invocation starts (\<^verbatim>\<open>src/aruba_cert_renewer.py\<close>): the operation the arguments select, and
  the configuration, switches and material that \<^verbatim>\<open>_run_json\<close> and \<^verbatim>\<open>main\<close> load for it, in the same
  order, before anything else happens.
\<close>

datatype operation = Inspect | RenewDue | RenewNow | GenerateCsr | RetrieveCsr | SignCsr | Install

fun operation_name :: "operation \<Rightarrow> string" where
  "operation_name Inspect = ''inspect''"
| "operation_name RenewDue = ''renew_due''"
| "operation_name RenewNow = ''renew_now''"
| "operation_name GenerateCsr = ''generate_csr''"
| "operation_name RetrieveCsr = ''retrieve_csr''"
| "operation_name SignCsr = ''sign_csr''"
| "operation_name Install = ''install''"

definition json_operation :: "cli_args \<Rightarrow> operation" where
  "json_operation args =
     (if arg_renew_due args then RenewDue
      else if arg_renew args then RenewNow
      else if arg_generate_csr args then GenerateCsr
      else if arg_retrieve_csr args then RetrieveCsr
      else if arg_sign_csr args then SignCsr
      else if arg_install_certificate args then Install
      else Inspect)"

text \<open>
  The \<^verbatim>\<open>settings\<close> dictionary.  \<open>run_csr\<close> is the \<^verbatim>\<open>[csr]\<close> table, which the operations validate again; a
  part that the operation does not need stays \<^verbatim>\<open>None\<close>.
\<close>

record run_settings =
  run_csr :: json
  run_opnsense :: "opnsense_settings option"
  run_ca :: "ca_snapshot option"
  run_certificate_pem :: "string option"

definition needs_csr :: "operation \<Rightarrow> bool" where
  "needs_csr op = (op \<noteq> Inspect)"

definition needs_opnsense :: "operation \<Rightarrow> bool" where
  "needs_opnsense op = (op \<in> {RenewDue, RenewNow, SignCsr, Install})"

definition needs_ca :: "operation \<Rightarrow> bool" where
  "needs_ca op = (op \<in> {RenewDue, RenewNow, Install})"

definition needs_lock :: "operation \<Rightarrow> bool" where
  "needs_lock op = (op \<in> {RenewDue, RenewNow, GenerateCsr, SignCsr, Install})"

fun check_identities :: "switch list \<Rightarrow> unit res" where
  "check_identities [] = Inr ()"
| "check_identities (sw # sws) = res_bind (validate_switch_signing_identity sw) (\<lambda>_. check_identities sws)"

definition start_opnsense ::
  "operation \<Rightarrow> (string \<times> json) list \<Rightarrow> int \<Rightarrow> switch list \<Rightarrow> opnsense_settings option res" where
  "start_opnsense op config warning_days switches =
     (if needs_opnsense op then
        res_bind (get_opnsense_settings config) (\<lambda>opnsense.
        res_bind (if op = RenewDue then validate_automatic_renewal_window warning_days opnsense else Inr ())
          (\<lambda>_.
        res_bind (check_identities (if op = RenewDue then switches else take 1 switches)) (\<lambda>_.
          Inr (Some opnsense))))
      else Inr None)"

definition startup ::
  "'w env \<Rightarrow> cli_args \<Rightarrow> operation \<Rightarrow> ('w, int \<times> switch list \<times> run_settings) io" where
  "startup env args op =
     seq (validate_cli_args env args)
    (bind (load_config env (arg_config args)) (\<lambda>config.
     bind (validate_config env config (arg_config args)) (\<lambda>(warning_days, switches).
     bind (lift (select_switches switches (arg_switch_name args))) (\<lambda>switches.
     bind (if needs_csr op then bind (lift (get_csr_settings (JObj config))) (\<lambda>_. ret ()) else ret ()) (\<lambda>_.
     bind (lift (start_opnsense op config warning_days switches)) (\<lambda>opnsense.
     bind (if needs_ca op then
         bind (get_verification_ca_file env config (arg_config args)) (\<lambda>snapshot. ret (Some snapshot))
       else ret None) (\<lambda>ca.
     bind (if op = Install then
         bind (read_certificate_input env (case arg_certificate_input args of Some path \<Rightarrow> path | None \<Rightarrow> []))
           (\<lambda>pem. ret (Some pem))
       else ret None) (\<lambda>pem.
       ret (warning_days, switches,
         \<lparr>run_csr = (if needs_csr op then dict_get config ''csr'' else JNull), run_opnsense = opnsense,
          run_ca = ca, run_certificate_pem = pem\<rparr>)))))))))"

end
