(* ===== verification/JsonRun.thy ===== *)
theory JsonRun
  imports Renewal Startup
begin

text \<open>
  The structured run of \<^verbatim>\<open>--output json\<close> (\<^verbatim>\<open>src/aruba_cert_renewer.py\<close>): \<^verbatim>\<open>_json_explicit\<close>,
  \<^verbatim>\<open>_json_process_target\<close>, \<^verbatim>\<open>_run_json\<close> and \<^verbatim>\<open>json_main\<close>, from the arguments to the document that is
  printed.  Two locales carry what a run preserves, and give that it never asks the operator and that
  the reading operations are harmless; the theories \<open>JsonResults\<close> and \<open>JsonEffects\<close> follow a run
  through its targets.
\<close>

section \<open>Output files\<close>

text \<open>A file opened with mode \<^verbatim>\<open>x\<close> and written: one action, which may fail at any point.\<close>

definition write_certificate :: "'w env \<Rightarrow> string \<Rightarrow> string \<Rightarrow> ('w, unit) io" where
  "write_certificate env certificate_pem output_path =
     seq (act_unit env (WriteNewFile output_path certificate_pem))
       (print_terminal env (''Certificate written to '' @ output_path))"

definition write_or_print_csr :: "'w env \<Rightarrow> string \<Rightarrow> string option \<Rightarrow> ('w, unit) io" where
  "write_or_print_csr env csr_pem output_path =
     (case output_path of
        Some path \<Rightarrow>
          seq (act_unit env (WriteNewFile path csr_pem)) (print_terminal env (''CSR written to '' @ path))
      | None \<Rightarrow> act_unit env (Print csr_pem))"

section \<open>The explicit operations\<close>

text \<open>
  The arguments of an operation.  A part of the settings that startup did not load is \<^verbatim>\<open>None\<close>, which
  cannot be subscripted; an option that was not given fails the checks of an empty one.
\<close>

definition loaded :: "'a option \<Rightarrow> ('a \<Rightarrow> ('w, 'b) io) \<Rightarrow> ('w, 'b) io" where
  "loaded part f = (case part of None \<Rightarrow> fail TypeError '''' | Some x \<Rightarrow> f x)"

definition given :: "string option \<Rightarrow> string" where
  "given option = (case option of None \<Rightarrow> [] | Some t \<Rightarrow> t)"

definition json_event :: "progress_event \<Rightarrow> ('w, unit) io" where
  "json_event event = with_item (\<lambda>item. json_progress item event)"

text \<open>The end of an operation that succeeded.\<close>

definition completed :: "outcome \<Rightarrow> string \<Rightarrow> ('w, unit) io" where
  "completed result message = with_item (\<lambda>item. item\<lparr>item_outcome := result, item_message := message,
     item_stage := COMPLETED\<rparr>)"

definition json_generate :: "'w env \<Rightarrow> cli_args \<Rightarrow> switch \<Rightarrow> run_settings \<Rightarrow> ('w, unit) io" where
  "json_generate env args sw settings =
     seq (with_item (item_stage_update (\<lambda>_. CSR_GENERATION)))
    (bind (generate_csr env sw (given (arg_certificate_name args)) (run_csr settings)) (\<lambda>csr.
     seq (json_event CsrConfirmed)
    (seq (write_or_print_csr env csr (arg_csr_output args))
      (completed SUCCESS_PREPARED ''CSR generated and written to the requested file.''))))"

definition json_retrieve :: "'w env \<Rightarrow> cli_args \<Rightarrow> switch \<Rightarrow> run_settings \<Rightarrow> ('w, unit) io" where
  "json_retrieve env args sw settings =
     seq (json_event CsrRetrievalStarted)
    (bind (retrieve_csr env True sw (given (arg_certificate_name args)) (run_csr settings)) (\<lambda>csr.
     seq (json_event CsrRetrieved)
    (seq (write_or_print_csr env csr (arg_csr_output args))
      (completed SUCCESS_NO_CHANGE ''Pending CSR retrieved and written to the requested file.''))))"

text \<open>\<^verbatim>\<open>x509.load_pem_x509_certificate\<close>: the first certificate of the text.\<close>

definition load_certificate :: "crypto \<Rightarrow> string \<Rightarrow> certificate res" where
  "load_certificate lib certificate_pem =
     res_bind (load_certificates lib certificate_pem) (\<lambda>certificates.
       case certificates of [] \<Rightarrow> value_error '''' | certificate # _ \<Rightarrow> Inr certificate)"

text \<open>The file could not be written: the certificate exists, and the operation returns at once.\<close>

definition certificate_not_written :: "exn \<Rightarrow> ('w, unit) io" where
  "certificate_not_written error =
     (if isinstance error OSError then
        with_item (\<lambda>item. item\<lparr>item_outcome := FAILURE_PARTIAL, item_stage := FINALIZATION,
          item_reason_code := Some RECOVERY_REQUIRED,
          item_message := ''Issued certificate could not be written to the requested file.'',
          item_manual_recovery_required := True\<rparr>)
      else raise error)"

definition json_sign :: "'w env \<Rightarrow> cli_args \<Rightarrow> switch \<Rightarrow> run_settings \<Rightarrow> ('w, unit) io" where
  "json_sign env args sw settings =
     seq (with_item (item_stage_update (\<lambda>_. SIGNING)))
    (loaded (run_opnsense settings) (\<lambda>opnsense.
     bind (sign_pending_csr env True sw (given (arg_certificate_name args)) (run_csr settings) opnsense None)
       (\<lambda>certificate_pem.
     seq (with_item (set_milestone Csr CONFIRMED))
    (bind (lift (load_certificate (crypto_lib env) certificate_pem)) (\<lambda>certificate.
     seq (with_item (item_certificate_update (\<lambda>_. Some (json_certificate env certificate))))
    (bind (outcome_of (write_certificate env certificate_pem (given (arg_certificate_output args)))) (\<lambda>written.
       case written of
         Inl error \<Rightarrow> certificate_not_written error
       | Inr _ \<Rightarrow> completed SUCCESS_PREPARED
           ''Issued certificate validated and written to the requested file.'')))))))"

definition live_check_failed :: "exn \<Rightarrow> ('w, 'a) io" where
  "live_check_failed error =
     (if isinstance_any error [ValueError, OSError, SSLError] then
        fail LiveHTTPSVerificationError ''Live HTTPS verification failed''
      else raise error)"

definition json_install :: "'w env \<Rightarrow> cli_args \<Rightarrow> switch \<Rightarrow> run_settings \<Rightarrow> ('w, unit) io" where
  "json_install env args sw settings =
     seq (with_item (item_stage_update (\<lambda>_. INSTALLATION)))
    (loaded (run_opnsense settings) (\<lambda>opnsense. loaded (run_ca settings) (\<lambda>snapshot.
     loaded (run_certificate_pem settings) (\<lambda>certificate_pem.
     bind (install_pending_certificate env True sw (given (arg_certificate_name args)) certificate_pem
         (run_csr settings) (os_lifetime_days opnsense) snapshot (os_digest opnsense) None) (\<lambda>certificate.
     seq (json_event (InstallationConfirmed (json_certificate env certificate)))
    (seq (with_item (item_stage_update (\<lambda>_. LIVE_VERIFICATION)))
    (seq (try_except (verify_live_https_certificate env sw snapshot certificate) live_check_failed)
    (seq (json_event LiveTlsConfirmed)
      (completed SUCCESS_CHANGED ''Certificate installation verified by live HTTPS.'')))))))))"

text \<open>The report of an ordinary failure of an explicit operation.\<close>

definition json_explicit_failure :: "operation \<Rightarrow> switch_result \<Rightarrow> switch_result" where
  "json_explicit_failure op it =
     (if op = GenerateCsr \<and> item_milestones it Csr = CONFIRMED then
        it\<lparr>item_outcome := FAILURE_PARTIAL, item_reason_code := Some CSR_FAILED,
             item_message := ''CSR exists but could not be written to the requested file.'',
             item_manual_recovery_required := True\<rparr>
      else if op = SignCsr then json_failure it (new_exn CSRSigningError '''')
      else
        (let it = it\<lparr>item_outcome := json_failure_outcome it,
               item_reason_code := Some (if op = Install then VALIDATION_FAILED else CSR_FAILED)\<rparr>
         in if item_outcome it = FAILURE_PRE_ATTEMPT then
              it\<lparr>item_message := ''Operation failed before a new certificate state change.'',
                   item_manual_recovery_required :=
                     (item_milestones it Csr = CONFIRMED \<or> item_pending_csr_observed it)\<rparr>
            else
              it\<lparr>item_message := ''Operation failed after a state change; inspect switch.'',
                   item_manual_recovery_required := True\<rparr>))"

definition json_explicit_failed :: "operation \<Rightarrow> exn \<Rightarrow> ('w, unit) io" where
  "json_explicit_failed op error =
     (if isinstance_any error [CSRGenerationError, CertificateInstallationAttemptError,
           LiveHTTPSVerificationError] then
        with_item (\<lambda>item. json_failure item error)
      else if isinstance_any error [ValueError, OSError] then with_item (json_explicit_failure op)
      else raise error)"

definition json_explicit ::
  "'w env \<Rightarrow> cli_args \<Rightarrow> operation \<Rightarrow> switch \<Rightarrow> run_settings \<Rightarrow> ('w, unit) io" where
  "json_explicit env args op sw settings =
     (if op = RenewNow then
        loaded (run_opnsense settings) (\<lambda>opnsense. loaded (run_ca settings) (\<lambda>snapshot.
          json_renew env sw (run_csr settings) opnsense snapshot None))
      else
        try_except
          (if op = GenerateCsr then json_generate env args sw settings
           else if op = RetrieveCsr then json_retrieve env args sw settings
           else if op = SignCsr then json_sign env args sw settings
           else json_install env args sw settings)
          (json_explicit_failed op))"

section \<open>One target\<close>

definition json_process_target ::
  "'w env \<Rightarrow> cli_args \<Rightarrow> operation \<Rightarrow> switch \<Rightarrow> int \<Rightarrow> run_settings \<Rightarrow> ('w, unit) io" where
  "json_process_target env args op sw warning_days settings =
     (if op = Inspect \<or> op = RenewDue then
        seq (with_item (item_stage_update (\<lambda>_. INSPECTION)))
       (bind (check_switch env sw warning_days) (\<lambda>status.
          if status = ''error'' then
            with_item (\<lambda>item. item\<lparr>item_reason_code := Some INSPECTION_FAILED,
              item_message := ''Switch certificate inspection failed.''\<rparr>)
          else if status = ''renewal_due'' \<or> status = ''expired'' then
            seq (with_item (item_renewal_due_update (\<lambda>_. Some True)))
              (if op = Inspect then
                 with_item (\<lambda>item. item\<lparr>item_outcome := ATTENTION_DUE, item_stage := DECISION,
                   item_message := ''Certificate renewal attention is due.''\<rparr>)
               else loaded (run_opnsense settings) (\<lambda>opnsense. loaded (run_ca settings) (\<lambda>snapshot.
                 json_renew env sw (run_csr settings) opnsense snapshot (Some warning_days))))
          else if status = ''ok'' then
            with_item (\<lambda>item. item\<lparr>item_renewal_due := Some False, item_outcome := SUCCESS_NO_CHANGE,
              item_stage := COMPLETED, item_message := ''Certificate is healthy; no renewal required.''\<rparr>)
          else
            with_item (\<lambda>item. item\<lparr>item_reason_code := Some INSPECTION_FAILED,
              item_message := ''Switch certificate inspection returned an unknown status.''\<rparr>)))
      else json_explicit env args op sw settings)"

text \<open>What is reported of an exception that left the target.\<close>

definition json_release_failure :: "switch_result \<Rightarrow> switch_result" where
  "json_release_failure it =
     (let it =
        (if is_failure (item_outcome it) \<and> item_reason_code it \<noteq> None then
           it\<lparr>item_message := ''Operation failed and lock release failed; inspect state.''\<rparr>
         else
           it\<lparr>item_stage := LOCK, item_reason_code := Some LOCK_FAILED,
                item_message := ''Lifecycle lock release failed; inspect state before retrying.'',
                item_outcome := json_failure_outcome it\<rparr>)
      in it\<lparr>item_manual_recovery_required := True\<rparr>)"

definition json_lock_failure :: "exn \<Rightarrow> switch_result \<Rightarrow> switch_result" where
  "json_lock_failure error it =
     it\<lparr>item_outcome := FAILURE_PRE_ATTEMPT, item_stage := LOCK,
          item_reason_code := Some (if isinstance error LifecycleLockBusy then LOCK_BUSY else LOCK_FAILED),
          item_message := ''Lifecycle lock is busy or unavailable.''\<rparr>"

definition json_target_failed :: "exn \<Rightarrow> ('w, unit) io" where
  "json_target_failed error =
     (if isinstance error LifecycleLockReleaseError then with_item json_release_failure
      else if isinstance error LifecycleLockError then with_item (json_lock_failure error)
      else if isinstance error Exception then with_item (\<lambda>item. json_failure item error)
      else raise error)"

definition json_credentials_failure :: "switch_result \<Rightarrow> switch_result" where
  "json_credentials_failure it =
     it\<lparr>item_stage := CONFIGURATION, item_reason_code := Some CONFIG_INVALID,
          item_message := ''Switch credentials could not be loaded.''\<rparr>"

definition json_target ::
  "'w env \<Rightarrow> cli_args \<Rightarrow> operation \<Rightarrow> int \<Rightarrow> run_settings \<Rightarrow> switch \<Rightarrow> ('w, unit) io" where
  "json_target env args op warning_days settings sw =
     seq (with_item (\<lambda>_. new_switch_result (sw_name sw)))
    (bind (outcome_of (get_switch_credentials env sw (arg_config args) False)) (\<lambda>credentials.
       case credentials of
         Inl error \<Rightarrow>
           if isinstance error Exception then with_item json_credentials_failure else raise error
       | Inr _ \<Rightarrow>
           try_except
             (let work = json_process_target env args op sw warning_days settings
              in if needs_lock op then lifecycle_lock env (sw_host sw) work else work)
             json_target_failed))"

section \<open>The run\<close>

fun json_targets ::
  "'w env \<Rightarrow> cli_args \<Rightarrow> operation \<Rightarrow> int \<Rightarrow> run_settings \<Rightarrow> switch list \<Rightarrow> ('w, switch_result list) io" where
  "json_targets env args op warning_days settings [] = ret []"
| "json_targets env args op warning_days settings (sw # sws) =
     seq (json_target env args op warning_days settings sw)
    (bind (gets item) (\<lambda>result.
     bind (json_targets env args op warning_days settings sws) (\<lambda>results.
       ret (result # results))))"

definition startup_failure :: "exn \<Rightarrow> run_result \<Rightarrow> run_result" where
  "startup_failure error run =
     (if isinstance error ValueError then
        run\<lparr>run_outcome := FAILURE_PRE_ATTEMPT, run_reason_code := Some CONFIG_INVALID,
            run_message := ''Configuration or command validation failed.''\<rparr>
      else
        run\<lparr>run_outcome := FAILURE_PRE_ATTEMPT, run_reason_code := Some UNEXPECTED_FAILURE,
            run_message := ''Startup failed.''\<rparr>)"

definition run_json ::
  "'w env \<Rightarrow> cli_args \<Rightarrow> operation \<Rightarrow> run_result \<Rightarrow> ('w, run_result \<times> int) io" where
  "run_json env args op run0 =
     (let run = run0\<lparr>run_stage := CONFIGURATION\<rparr> in
      bind (outcome_of (startup env args op)) (\<lambda>started.
        case started of
          Inl error \<Rightarrow>
            if isinstance error Exception then ret (startup_failure error run, EXIT_ERROR) else raise error
        | Inr (warning_days, switches, settings) \<Rightarrow>
            bind (json_targets env args op warning_days settings switches) (\<lambda>results.
              let run = run\<lparr>run_results := results\<rparr> in ret (run, json_exit_code run))))"

text \<open>
  \<^verbatim>\<open>redirect_stdout\<close> and \<^verbatim>\<open>redirect_stderr\<close> to the null device: what is printed in between is accepted
  and goes nowhere.  The \<^verbatim>\<open>Print\<close> events of such a run are lines that nobody sees.
\<close>

definition discard_output :: "'w env \<Rightarrow> 'w env" where
  "discard_output env = env\<lparr>answer_text := (\<lambda>a w.
     case a of Print t \<Rightarrow> (Inr [], w) | PrintError t \<Rightarrow> (Inr [], w) | _ \<Rightarrow> answer_text env a w)\<rparr>"

definition with_null_device :: "'w env \<Rightarrow> ('w, 'a) io \<Rightarrow> ('w, 'a) io" where
  "with_null_device env body =
     bind (act_num env (OsOpen ''/dev/null'' [''O_WRONLY'', ''O_CREAT'', ''O_TRUNC'', ''O_CLOEXEC'']))
       (\<lambda>discard. try_finally body (\<lambda>failed. act_unit env (OsClose discard)))"

text \<open>\<^verbatim>\<open>attempt\<close> is the random identifier of the run, \<^verbatim>\<open>utc_now\<close> the time as the report writes it.\<close>

definition json_main :: "'w env \<Rightarrow> string \<Rightarrow> ('w \<Rightarrow> string) \<Rightarrow> cli_args \<Rightarrow> ('w, int) io" where
  "json_main env attempt utc_now args =
     (let op = json_operation args in
      bind (observe utc_now) (\<lambda>started.
      bind (with_null_device env
          (run_json (discard_output env) args op (new_run_result (operation_name op) attempt started)))
        (\<lambda>(run, exit_code).
      bind (observe utc_now) (\<lambda>now.
      seq (act_unit env (Print (to_json (finish now run))))
        (ret exit_code)))))"
section \<open>Rules for the lock\<close>

fun lock_action :: "action \<Rightarrow> bool" where
  "lock_action (OsOpen p fl) = True"
| "lock_action (OsOpenAt d p fl m) = True"
| "lock_action (OsFstat fd) = True"
| "lock_action (OsStatAt d p) = True"
| "lock_action (Flock fd) = True"
| "lock_action (OsClose fd) = True"
| "lock_action _ = False"

lemma lock_action_reads: "lock_action a \<Longrightarrow> reads_only a"
  by (cases a) (simp_all add: reads_only_def harmless_def)

lemma keeps_acquire:
  assumes "closed_under lock_action J"
  shows "keeps J (try_acquire env host)" "keeps J (close_descriptors env fds)"
proof -
  show "keeps J (try_acquire env host)"
    unfolding try_acquire_def open_lock_file_def acquire_lock_def
    by (intro keeps_intros keeps_actions [OF assms];
        auto intro!: keeps_intros keeps_actions [OF assms] split: prod.split)
  show "keeps J (close_descriptors env fds)"
    by (induction fds) (auto intro!: keeps_intros keeps_actions [OF assms])
qed

lemma close_triple:
  assumes "closed_under lock_action J"
  shows "triple J (close_descriptors env fds) (\<lambda>_. J) (\<lambda>_ s. J s \<and> \<not> close_raises_os_error env)"
proof (rule tripleI)
  fix s r s'
  assume "J s" and run: "close_descriptors env fds s = (r, s')"
  with keepsD [OF keeps_acquire(2) [OF assms]] have "J s'" by blast
  then show "case r of Inl e \<Rightarrow> J s' \<and> \<not> close_raises_os_error env | Inr x \<Rightarrow> J s'"
    using close_descriptors_run [OF _ run] by (auto split: sum.split)
qed

text \<open>
  The lock around a body: an exception is one of the acquisition, with the body not run, one of the
  body, the release error after a body that completed, or, where \<^verbatim>\<open>os.close\<close> misbehaves, any other.
\<close>

lemma triple_lock:
  assumes closed: "closed_under lock_action A" "closed_under lock_action B" "\<And>e. closed_under lock_action (X e)"
    and body: "triple A body (\<lambda>_. B) X" and acquire: "\<And>e s. A s \<Longrightarrow> X e s"
    and release: "\<And>e s. B s \<Longrightarrow> e = release_error \<or> \<not> close_raises_os_error env \<Longrightarrow> X e s"
    and other: "\<And>e e' s. X e s \<Longrightarrow> \<not> close_raises_os_error env \<Longrightarrow> X e' s"
  shows "triple A (lifecycle_lock env host body) (\<lambda>_. B) X"
proof -
  have work: "triple A (case acquired of Inl e \<Rightarrow> raise (as_lock_error e) | Inr u \<Rightarrow> body) (\<lambda>_. B) X"
    for acquired :: "unit res"
    by (cases acquired) (auto intro: triple_raise body acquire)
  have finished: "triple B (bind (close_descriptors env fds) (\<lambda>close_error.
      check (close_error \<noteq> None \<and> \<not> False) release_error)) (\<lambda>_. B) X" for fds
  proof (rule triple_bind)
    show "triple B (close_descriptors env fds) (\<lambda>_. B) X"
      by (rule triple_weaken [OF close_triple [OF closed(2)]]) (auto intro: release)
    show "triple B (check (close_error \<noteq> None \<and> \<not> False) release_error) (\<lambda>_. B) X" for close_error
      by (auto simp: triple_def post_check intro: release)
  qed
  have failed: "triple (X e) (bind (close_descriptors env fds) (\<lambda>close_error.
      check (close_error \<noteq> None \<and> \<not> True) release_error)) (\<lambda>_. X e) X" for e fds
  proof (rule triple_bind)
    show "triple (X e) (close_descriptors env fds) (\<lambda>_. X e) X"
      by (rule triple_weaken [OF close_triple [OF closed(3)]]) (auto intro: other)
  qed (auto simp: triple_def post_check)
  have around: "triple A (try_finally
        (case acquired of Inl e \<Rightarrow> raise (as_lock_error e) | Inr u \<Rightarrow> body)
        (\<lambda>failed. bind (close_descriptors env fds) (\<lambda>close_error.
           check (close_error \<noteq> None \<and> \<not> failed) release_error))) (\<lambda>_. B) X" for acquired :: "unit res" and fds
  proof (rule triple_try_finally [OF work])
    show "triple (X e) (bind (close_descriptors env fds) (\<lambda>close_error.
        check (close_error \<noteq> None \<and> \<not> True) release_error)) (\<lambda>_. X e) X" for e
      by (rule failed)
    show "triple B (bind (close_descriptors env fds) (\<lambda>close_error.
        check (close_error \<noteq> None \<and> \<not> False) release_error)) (\<lambda>_. B) X"
      by (rule finished)
  qed
  show ?thesis
    unfolding lifecycle_lock_def
    by (rule triple_bind_keeps [OF keeps_acquire(1) [OF closed(1)] acquire], assumption)
       (simp only: split_beta, rule around)
qed

section \<open>What a run preserves\<close>

text \<open>
  A property of the state that does not look at the report, through startup, credentials and the
  operations that only read.
\<close>

locale target_law = read_law J for J :: "'w st \<Rightarrow> bool" +
  assumes any_report: "J s \<Longrightarrow> J (s\<lparr>item := it\<rparr>)"
begin

lemma keeps_with_item: "keeps J (with_item f)"
  unfolding with_item_def by (rule keeps_modify) (rule any_report)

lemmas keeps_target_base = keeps_reading keeps_with_item

lemma reading_local: "harmless a \<Longrightarrow> \<not> asks_operator a \<Longrightarrow> reads_only a"
  by (simp add: reads_only_def)

lemma keeps_credentials: "keeps J (get_switch_credentials env sw config_file False)"
  by (rule credentials_silent) (rule session)

lemma keeps_startup: "keeps J (startup env args op)"
proof -
  have secure: "keeps J (read_secure_file env path source True n)" "keeps J (open_secure_file env path source True)"
    for path source n
    by (intro keeps_read_secure_file keeps_open_secure_file session)+
  have act: "keeps J (act_text env a)" "keeps J (act_num env a)" "keeps J (act_status env a)" "keeps J (act_unit env a)"
    if "harmless a" "\<not> asks_operator a" for a
    using that by (intro keeps_actions [OF reading] reading_local; simp)+
  note steps = keeps_intros secure act
  have arguments: "keeps J (validate_cli_args env args)"
    unfolding validate_cli_args_def refuse_existing_def path_exists_def
    by (intro steps) (simp_all add: harmless_def)
  have config: "keeps J (load_config env path)" "keeps J (validate_config env config path)" for path config
    unfolding load_config_def validate_config_def get_ssh_known_hosts_file_def Let_def
    by (intro steps; auto intro!: steps simp: harmless_def split: json.split list.split)+
  have ca: "keeps J (get_verification_ca_file env config path)" for config path
    unfolding get_verification_ca_file_def capture_verification_ca_def https_tls_context_def
    by (auto intro!: steps simp: harmless_def split: json.split)
  have certificate: "keeps J (read_certificate_input env path)" for path
    unfolding read_certificate_input_def read_certificate_bytes_def certificate_input_failed_def
    by (intro steps) (simp_all add: harmless_def)
  show ?thesis
    unfolding startup_def
    by (intro steps arguments config ca certificate; auto intro!: steps arguments config ca certificate
        split: prod.split)
qed

end

text \<open>The operations that only read, and the lock around any operation.\<close>

context target_law
begin

lemma keeps_outputs:
  "keeps J (write_or_print_csr env csr output)" "keeps J (write_certificate env pem path)"
  unfolding write_or_print_csr_def write_certificate_def
  by (intro keeps_target_base; simp add: reads_only_def harmless_def)+

lemma keeps_failures:
  "keeps J (json_explicit_failed op e)" "keeps J (json_target_failed e)" "keeps J (json_event ev)"
  "keeps J (completed result message)" "keeps J (certificate_not_written e)"
  unfolding json_explicit_failed_def json_target_failed_def json_event_def completed_def
    certificate_not_written_def
  by (intro keeps_target_base)+

lemma keeps_loaded: "(\<And>x. keeps J (f x)) \<Longrightarrow> keeps J (loaded part f)"
  unfolding loaded_def by (intro keeps_target_base)

lemma keeps_json_retrieve: "keeps J (json_retrieve env args sw settings)"
  unfolding json_retrieve_def
  by (intro keeps_target_base keeps_failures keeps_outputs keeps_retrieve)

lemma keeps_inspection: "keeps J (json_process_target env args Inspect sw warning_days settings)"
  unfolding json_process_target_def by (simp add: keeps_target_base keeps_check)

lemma keeps_retrieval: "keeps J (json_process_target env args RetrieveCsr sw warning_days settings)"
  unfolding json_process_target_def json_explicit_def
  by (simp add: keeps_target_base keeps_failures keeps_json_retrieve)

lemma keeps_lock_steps:
  "keeps J (try_acquire env host)" "keeps J (close_descriptors env fds)"
  by (intro keeps_acquire closed_under_weaken [OF reading lock_action_reads], assumption)+

lemma keeps_lock: "keeps J body \<Longrightarrow> keeps J (lifecycle_lock env host body)"
  unfolding lifecycle_lock_def
  by (intro keeps_bind keeps_lock_steps; auto intro!: keeps_target_base keeps_lock_steps split: prod.split)

lemma keeps_target_around:
  "keeps J (json_process_target env args op sw warning_days settings) \<Longrightarrow>
     keeps J (json_target env args op warning_days settings sw)"
  unfolding json_target_def Let_def
  by (intro keeps_target_base keeps_credentials keeps_lock keeps_failures)

lemma keeps_targets:
  "(\<And>sw. keeps J (json_target env args op warning_days settings sw)) \<Longrightarrow>
     keeps J (json_targets env args op warning_days settings sws)"
  by (induction sws) (simp_all add: keeps_intros)

lemma keeps_run:
  "(\<And>sw warning_days settings. keeps J (json_target env args op warning_days settings sw)) \<Longrightarrow>
     keeps J (run_json env args op run)"
  unfolding run_json_def Let_def
  by (intro keeps_intros keeps_startup; auto intro!: keeps_intros keeps_targets split: prod.split)

lemma keeps_main:
  assumes "\<And>sw warning_days settings. keeps J (json_target (discard_output env) args (json_operation args)
    warning_days settings sw)"
  shows "keeps J (json_main env attempt utc_now args)"
proof -
  have act: "keeps J (act_num env a)" "keeps J (act_unit env a)" if "harmless a" "\<not> asks_operator a" for a
    using that by (intro keeps_actions [OF reading] reading_local; simp)+
  show ?thesis
    unfolding json_main_def with_null_device_def Let_def
    by (intro keeps_intros act keeps_run assms; auto intro!: keeps_intros act simp: harmless_def split: prod.split)
qed

end

text \<open>The operations that change the switch or have a certificate issued.\<close>

locale change_law = run_law J + target_law J for J :: "'w st \<Rightarrow> bool"
begin

lemma keeps_json_renew: "keeps J (json_renew env sw settings opnsense snapshot warning_days)"
  unfolding json_renew_def by (intro keeps_target_base keeps_renew)

lemma keeps_process: "keeps J (json_process_target env args op sw warning_days settings)"
proof -
  have stages: "keeps J (json_generate env args sw settings)" "keeps J (json_sign env args sw settings)"
      "keeps J (json_install env args sw settings)"
    unfolding json_generate_def json_sign_def json_install_def live_check_failed_def
    by (intro keeps_target_base keeps_loaded keeps_outputs keeps_failures keeps_generate keeps_sign
        keeps_install keeps_live)+
  show ?thesis
    unfolding json_process_target_def json_explicit_def
    by (intro keeps_target_base keeps_check keeps_loaded keeps_json_renew keeps_failures stages keeps_json_retrieve)
qed

lemma keeps_any_run: "keeps J (json_main env attempt utc_now args)"
  by (intro keeps_main keeps_target_around keeps_process)

end

interpretation silent_run: change_law "appends (\<lambda>a. \<not> asks_operator a) s0" for s0
  by unfold_locales (simp add: appends_def)

interpretation reading_run: target_law "appends reads_only s0" for s0
  by unfold_locales (simp add: appends_def)

text \<open>
  A run with \<^verbatim>\<open>--output json\<close> never asks the operator: whatever the operation, the configuration
  and the answers of files, switches and services, it neither prompts for a name nor for a password.
\<close>

theorem json_run_never_prompts:
  "does (\<lambda>a. \<not> asks_operator a) (json_main env attempt utc_now args)"
  by (rule doesI) (rule silent_run.keeps_any_run)

text \<open>
  C14.  An inspection and the retrieval of a CSR are read-only: whatever happens, such a run sends
  nothing that can change a switch, no request to the certificate authority, and asks nobody.
\<close>

theorem read_only_run:
  assumes "json_operation args = Inspect \<or> json_operation args = RetrieveCsr"
  shows "does reads_only (json_main env attempt utc_now args)"
proof (rule doesI)
  fix s :: "'a st"
  from assms have "keeps (appends reads_only s)
      (json_process_target env args (json_operation args) sw warning_days settings)" for env :: "'a env"
      and sw warning_days settings
    using reading_run.keeps_inspection reading_run.keeps_retrieval by metis
  then show "keeps (appends reads_only s) (json_main env attempt utc_now args)"
    by (intro reading_run.keeps_main reading_run.keeps_target_around)
qed

definition sample_args :: cli_args where
  "sample_args = \<lparr>arg_config = ''c'', arg_json = True, arg_switch_name = None, arg_certificate_name = None,
     arg_generate_csr = False, arg_retrieve_csr = False, arg_sign_csr = False,
     arg_install_certificate = False, arg_renew = False, arg_renew_due = False, arg_csr_output = None,
     arg_certificate_output = None, arg_certificate_input = None\<rparr>"

theorem read_only_run_witness:
  "does reads_only (json_main lock_env ''a'' (\<lambda>_. '''') sample_args)"
  by (rule read_only_run) (simp add: sample_args_def json_operation_def)

end
