(* ===== verification/JsonResults.thy ===== *)
theory JsonResults
  imports JsonRun
begin

text \<open>
  The results of a structured run (\<^verbatim>\<open>src/aruba_cert_renewer.py\<close>, \<^verbatim>\<open>_run_json\<close>): every target ends with a
  finished report, whatever happens, and every selected switch has exactly one.
\<close>

section \<open>What a result holds\<close>

text \<open>
  A finished result: of its target, with a reason code exactly when it is a failure, and asking for
  manual recovery whenever something may have changed.
\<close>

definition finished_result :: "string \<Rightarrow> switch_result \<Rightarrow> bool" where
  "finished_result name it =
     (item_target it = name \<and> (is_failure (item_outcome it) \<longleftrightarrow> item_reason_code it \<noteq> None) \<and>
      (item_outcome it \<in> {FAILURE_PARTIAL, FAILURE_AMBIGUOUS} \<longrightarrow> item_manual_recovery_required it))"

text \<open>A result under way: nothing decided.\<close>

definition open_result :: "string \<Rightarrow> switch_result \<Rightarrow> bool" where
  "open_result name it =
     (item_target it = name \<and> item_outcome it = FAILURE_PRE_ATTEMPT \<and> item_reason_code it = None)"

abbreviation targets :: "string \<Rightarrow> 'w st \<Rightarrow> bool" where
  "targets name s \<equiv> item_target (item s) = name"

lemma not_failure_outcome: "\<not> is_failure (json_failure_outcome it) \<longleftrightarrow> False"
  using json_failure_outcome_cases(1) by simp

lemma finished_json_failure: "finished_result name (json_failure it e) = (item_target it = name)"
  by (auto simp: finished_result_def json_failure_def Let_def not_failure_outcome
      json_failure_outcome_cases(1))

lemma finished_explicit_failure:
  assumes "item_target it = name"
  shows "finished_result name (json_explicit_failure op it)"
proof (cases "op = SignCsr")
  case True
  with assms show ?thesis by (simp add: json_explicit_failure_def finished_json_failure)
next
  case False
  with assms json_failure_outcome_cases(1) [of it] show ?thesis
    by (simp add: json_explicit_failure_def finished_result_def Let_def)
qed

lemma finished_reports:
  "item_target it = name \<Longrightarrow> finished_result name (json_release_failure it)"
  "item_target it = name \<Longrightarrow> finished_result name (json_lock_failure e it)"
  "open_result name it \<Longrightarrow> finished_result name (json_credentials_failure it)"
  by (auto simp: json_release_failure_def json_lock_failure_def json_credentials_failure_def
      open_result_def finished_result_def json_failure_outcome_cases(1) Let_def)

lemma triple_with_item: "(\<And>s. A s \<Longrightarrow> B () (s\<lparr>item := f (item s)\<rparr>)) \<Longrightarrow> triple A (with_item f) B X"
  unfolding with_item_def by (rule triple_modify)

text \<open>What the operations do to a result under way.\<close>

interpretation under_way: run_law "\<lambda>s. open_result name (item s)" for name
  by unfold_locales (simp_all add: closed_under_def record_event_def open_result_def)

lemma open_targets: "open_result name it \<Longrightarrow> item_target it = name"
  by (simp add: open_result_def)

lemma finished_targets: "finished_result name it \<Longrightarrow> item_target it = name"
  by (simp add: finished_result_def)

lemma target_closed:
  "closed_under P (\<lambda>s. targets name s)" "closed_under P (\<lambda>s. finished_result name (item s))"
  "closed_under P (\<lambda>s. open_result name (item s))"
  by (simp_all add: closed_under_def record_event_def)

lemma keeps_open_item:
  "(\<And>it. open_result name it \<Longrightarrow> open_result name (f it)) \<Longrightarrow>
     keeps (\<lambda>s. open_result name (item s)) (with_item f)"
  unfolding with_item_def by (rule keeps_modify) simp

abbreviation (input) decides :: "string \<Rightarrow> ('w, unit) io \<Rightarrow> bool" where
  "decides name m \<equiv> triple (\<lambda>s. open_result name (item s)) m (\<lambda>_ s. finished_result name (item s))
     (\<lambda>_. targets name)"

lemma decides_completed: "\<not> is_failure result \<Longrightarrow> decides name (completed result message)"
  unfolding completed_def
  by (rule triple_with_item) (auto simp: open_result_def finished_result_def)

lemma decides_loaded: "(\<And>x. decides name (f x)) \<Longrightarrow> decides name (loaded part f)"
  by (cases part) (auto simp: loaded_def fail_def intro!: triple_raise open_targets)

lemma decides_seq: "keeps (\<lambda>s. open_result name (item s)) m \<Longrightarrow> decides name k \<Longrightarrow> decides name (seq m k)"
  by (rule triple_seq_keeps) (auto intro: open_targets)

lemma decides_bind:
  "keeps (\<lambda>s. open_result name (item s)) m \<Longrightarrow> (\<And>x. decides name (k x)) \<Longrightarrow> decides name (bind m k)"
  by (rule triple_bind_keeps) (auto intro: open_targets)

lemma keeps_open_event: "keeps (\<lambda>s. open_result name (item s)) (json_event ev)"
  unfolding json_event_def by (rule keeps_open_item) (simp add: open_result_def)

lemma keeps_open_outputs:
  "keeps (\<lambda>s. open_result name (item s)) (write_or_print_csr env csr output)"
  "keeps (\<lambda>s. open_result name (item s)) (write_certificate env pem path)"
  unfolding write_or_print_csr_def write_certificate_def
  by (intro keeps_intros keeps_actions [OF target_closed(3) [where P = "\<lambda>_. True"]]
      keeps_print [OF target_closed(3) [where P = "\<lambda>_. True"]] TrueI)+

lemmas open_steps = keeps_open_event keeps_open_outputs under_way.keeps_generate under_way.keeps_retrieve
  under_way.keeps_sign under_way.keeps_install under_way.keeps_live under_way.keeps_check keeps_pure
  keeps_outcome_of

lemma decides_stages:
  "decides name (json_generate env args sw settings)" "decides name (json_retrieve env args sw settings)"
  "decides name (json_sign env args sw settings)" "decides name (json_install env args sw settings)"
proof -
  have item: "keeps (\<lambda>s. open_result name (item s)) (with_item (item_stage_update f))"
      "keeps (\<lambda>s. open_result name (item s)) (with_item (item_certificate_update g))"
      "keeps (\<lambda>s. open_result name (item s)) (with_item (set_milestone n m))" for f g n m
    by (rule keeps_open_item; simp add: open_result_def)+
  have live: "keeps (\<lambda>s. open_result name (item s)) (try_except (verify_live_https_certificate env sw snapshot cert)
      live_check_failed)" for snapshot cert
    unfolding live_check_failed_def by (intro keeps_intros open_steps)
  have unwritten: "decides name (certificate_not_written e)" for e
    unfolding certificate_not_written_def
    by (intro triple_cond triple_with_item triple_raise) (auto simp: open_result_def finished_result_def)
  have written: "decides name (case w of Inl e \<Rightarrow> certificate_not_written e
      | Inr u \<Rightarrow> completed SUCCESS_PREPARED message)" for w :: "unit res" and message
    by (cases w) (simp_all add: unwritten decides_completed)
  show "decides name (json_generate env args sw settings)" "decides name (json_retrieve env args sw settings)"
      "decides name (json_sign env args sw settings)" "decides name (json_install env args sw settings)"
    unfolding json_generate_def json_retrieve_def json_sign_def json_install_def
    by (intro decides_seq decides_bind decides_loaded item live written open_steps decides_completed; simp)+
qed

lemma decides_renew: "decides name (json_renew env sw settings opnsense snapshot warning_days)"
proof -
  have ended: "decides name (case r of
      Inl error \<Rightarrow> if isinstance error Exception then with_item (\<lambda>it. json_failure it error) else raise error
    | Inr u \<Rightarrow> with_item (\<lambda>it. it\<lparr>item_outcome := SUCCESS_CHANGED, item_stage := COMPLETED,
        item_message := message\<rparr>))" for r :: "string res" and message
  proof (cases r)
    case (Inl e)
    then show ?thesis
      by (auto intro!: triple_cond triple_with_item triple_raise simp: finished_json_failure open_targets)
  next
    case (Inr u)
    then show ?thesis by (auto intro!: triple_with_item simp: open_result_def finished_result_def)
  qed
  show ?thesis
    unfolding json_renew_def
    by (intro decides_seq decides_bind keeps_open_item keeps_outcome_of under_way.keeps_renew ended)
       (simp add: open_result_def)
qed

lemma decides_explicit: "decides name (json_explicit env args op sw settings)"
proof -
  have handled: "triple (\<lambda>s. targets name s) (json_explicit_failed op e) (\<lambda>_ s. finished_result name (item s))
      (\<lambda>_. targets name)" for e
    unfolding json_explicit_failed_def
    by (intro triple_cond triple_with_item triple_raise) (simp_all add: finished_json_failure finished_explicit_failure)
  show ?thesis
    unfolding json_explicit_def
    by (intro triple_cond decides_loaded decides_renew triple_try_except [OF _ handled] decides_stages)
qed

lemma decides_process: "decides name (json_process_target env args op sw warning_days settings)"
  unfolding json_process_target_def
  by (intro triple_cond decides_seq decides_bind decides_explicit decides_loaded decides_renew open_steps
      keeps_open_item triple_with_item)
     (auto simp: open_result_def finished_result_def)

lemma decides_lock:
  assumes "decides name body"
  shows "decides name (lifecycle_lock env host body)"
  by (rule triple_lock [OF target_closed(3,2,1) assms]) (auto dest: open_targets finished_targets)

lemma json_target_reports:
  "triple (\<lambda>_. True) (json_target env args op warning_days settings sw)
     (\<lambda>_ s. finished_result (sw_name sw) (item s)) (\<lambda>e _. \<not> isinstance e Exception)"
proof -
  have session: "closed_under session_action (\<lambda>s. open_result name (item s))" for name
    by (simp add: closed_under_def record_event_def)
  have start: "triple (\<lambda>_. True) (with_item (\<lambda>_. new_switch_result (sw_name sw)))
      (\<lambda>_ s. open_result (sw_name sw) (item s)) (\<lambda>e _. \<not> isinstance e Exception)"
    by (rule triple_with_item) (simp add: open_result_def new_switch_result_def)
  have credentials: "triple (\<lambda>s. open_result (sw_name sw) (item s))
      (outcome_of (get_switch_credentials env sw config False))
      (\<lambda>_ s. open_result (sw_name sw) (item s)) (\<lambda>e _. \<not> isinstance e Exception)" for config
  proof -
    have "keeps (\<lambda>s. open_result (sw_name sw) (item s)) (get_switch_credentials env sw config False)"
      by (rule credentials_silent) (simp add: closed_under_def record_event_def)
    then show ?thesis
      by (auto simp: triple_def post_outcome_of dest: keeps_post elim: post_mono)
  qed
  have failed: "triple (targets (sw_name sw)) (json_target_failed e)
      (\<lambda>_ s. finished_result (sw_name sw) (item s)) (\<lambda>e _. \<not> isinstance e Exception)" for e
    unfolding json_target_failed_def
    by (intro triple_cond triple_with_item triple_raise) (simp_all add: finished_reports finished_json_failure)
  have work: "decides (sw_name sw)
      (if needs_lock op then lifecycle_lock env (sw_host sw) (json_process_target env args op sw warning_days settings)
       else json_process_target env args op sw warning_days settings)"
    by (intro triple_cond decides_lock decides_process)
  have attempt: "triple (\<lambda>s. open_result (sw_name sw) (item s)) (case r of
        Inl error \<Rightarrow>
          if isinstance error Exception then with_item json_credentials_failure else raise error
      | Inr u \<Rightarrow> try_except
          (if needs_lock op then lifecycle_lock env (sw_host sw) (json_process_target env args op sw warning_days settings)
           else json_process_target env args op sw warning_days settings) json_target_failed)
      (\<lambda>_ s. finished_result (sw_name sw) (item s)) (\<lambda>e _. \<not> isinstance e Exception)"
    for r :: "(string \<times> string) res"
  proof (cases r)
    case (Inl e)
    then show ?thesis by (auto intro!: triple_with_item triple_raise simp: finished_reports)
  next
    case (Inr u)
    then show ?thesis by (simp only: sum.case) (rule triple_try_except [OF work failed])
  qed
  show ?thesis
    unfolding json_target_def Let_def
    by (rule triple_seq [OF start], rule triple_bind [OF credentials], rule attempt)
qed

text \<open>
  Every target of a structured run ends with a finished report: of its own name, with a reason
  code exactly when it reports a failure, and with a call for manual recovery on every failure that
  is partial or ambiguous.  No ordinary exception leaves a target, whatever the operation and
  whatever files, switch, authority, network and lock answer.
\<close>

theorem json_target_always_reports:
  "case json_target env args op warning_days settings sw s of
     (Inl e, s') \<Rightarrow> \<not> isinstance e Exception
   | (Inr u, s') \<Rightarrow> finished_result (sw_name sw) (item s')"
proof -
  obtain r s' where run: "json_target env args op warning_days settings sw s = (r, s')"
    by (cases "json_target env args op warning_days settings sw s")
  from tripleD [OF json_target_reports TrueI this] show ?thesis by (simp add: run)
qed

section \<open>The results of a run\<close>

lemma json_targets_report:
  "triple (\<lambda>_. True) (json_targets env args op warning_days settings sws)
     (\<lambda>results _. list_all2 (\<lambda>sw it. finished_result (sw_name sw) it) sws results)
     (\<lambda>e _. \<not> isinstance e Exception)"
proof (induction sws)
  case (Cons sw sws)
  have rest: "triple (\<lambda>_. True) (bind (json_targets env args op warning_days settings sws)
      (\<lambda>results. ret (it # results)))
      (\<lambda>results _. list_all2 (\<lambda>sw it. finished_result (sw_name sw) it) (sw # sws) results)
      (\<lambda>e _. \<not> isinstance e Exception)" if "finished_result (sw_name sw) it" for it
    by (rule triple_bind [OF Cons.IH]) (auto intro!: triple_ret simp: that)
  show ?case
    unfolding json_targets.simps
  proof (rule triple_seq [OF json_target_reports], rule triple_gets)
    fix it
    show "triple (\<lambda>s. finished_result (sw_name sw) (item s) \<and> item s = it)
        (bind (json_targets env args op warning_days settings sws) (\<lambda>results. ret (it # results)))
        (\<lambda>results _. list_all2 (\<lambda>sw it. finished_result (sw_name sw) it) (sw # sws) results)
        (\<lambda>e _. \<not> isinstance e Exception)"
    proof (cases "finished_result (sw_name sw) it")
      case True
      show ?thesis by (rule triple_weaken [OF rest [OF True]]) simp_all
    next
      case False
      then show ?thesis by (auto simp: triple_def)
    qed
  qed
qed (simp add: triple_ret)

text \<open>
  C12.  The results of a structured run: when startup fails there are none, the run is a failure with
  a reason and the exit code is the error code; otherwise there is exactly one finished result for
  each selected switch, in the order of the configuration, and the exit code is computed from them.
  An ordinary exception never leaves the run.
\<close>

theorem run_json_reports_each_switch:
  "case run_json env args op (new_run_result name attempt started) s of
     (Inl e, s') \<Rightarrow> \<not> isinstance e Exception
   | (Inr (run, exit_code), s') \<Rightarrow>
       (case startup env args op s of
          (Inl e, s1) \<Rightarrow> run_results run = [] \<and> run_outcome run = FAILURE_PRE_ATTEMPT \<and>
            run_reason_code run \<noteq> None \<and> exit_code = EXIT_ERROR \<and> s' = s1
        | (Inr (warning_days, switches, settings), s1) \<Rightarrow>
            list_all2 (\<lambda>sw it. finished_result (sw_name sw) it) switches (run_results run) \<and>
            exit_code = json_exit_code run)"
proof -
  obtain r s1 where started: "startup env args op s = (r, s1)" by (cases "startup env args op s")
  show ?thesis
  proof (cases r)
    case (Inl e)
    with started show ?thesis
      by (simp add: run_json_def Let_def bind_def outcome_of_def ret_def raise_def startup_failure_def
          new_run_result_def)
  next
    case (Inr parts0)
    obtain warning_days switches settings where parts: "parts0 = (warning_days, switches, settings)"
      by (cases parts0)
    obtain rs s2 where run: "json_targets env args op warning_days settings switches s1 = (rs, s2)"
      by (cases "json_targets env args op warning_days settings switches s1")
    from tripleD [OF json_targets_report TrueI run] started Inr parts run show ?thesis
      by (cases rs) (simp_all add: run_json_def Let_def bind_def outcome_of_def ret_def)
  qed
qed

end
