(* ===== verification/JsonEffects.thy ===== *)
theory JsonEffects
  imports JsonResults
begin

text \<open>
  The effects of a structured run against its report: a target that is reported as untouched is
  untouched, and a target is changed only under the lifecycle lock of its host.
\<close>

section \<open>A target reported as untouched\<close>

text \<open>
  The actions with an effect outside: what changes the switch, and every request to the authority
  that carries data.  Looking up the CA carries none.
\<close>

fun submits :: "action \<Rightarrow> bool" where
  "submits (HttpRequest verb url data) = (data \<noteq> None)"
| "submits _ = False"

definition inert :: "action \<Rightarrow> bool" where
  "inert a = (\<not> changes_switch a \<and> \<not> submits a)"

abbreviation untouched_since :: "'w st \<Rightarrow> 'w st \<Rightarrow> bool" where
  "untouched_since s0 s \<equiv> appends inert s0 s"

lemma harmless_inert: "harmless a \<Longrightarrow> inert a"
  by (cases a) (simp_all add: harmless_def inert_def)

lemma quiet_untouched: "quiet_since s0 s \<Longrightarrow> untouched_since s0 s"
  using harmless_inert by (rule appends_mono [rotated])

text \<open>Either nothing happened, or the report knows of a change; and then it is no early failure.\<close>

definition told :: "'w st \<Rightarrow> 'w st \<Rightarrow> bool" where
  "told s0 s = (untouched_since s0 s \<or> item_change (item s) \<noteq> NO_CHANGE)"

definition reported :: "'w st \<Rightarrow> 'w st \<Rightarrow> bool" where
  "reported s0 s =
     (untouched_since s0 s \<or> item_change (item s) \<noteq> NO_CHANGE \<and> item_outcome (item s) \<noteq> FAILURE_PRE_ATTEMPT)"

lemma reported_quiet_reported: "reported_quiet s0 s \<Longrightarrow> reported s0 s"
  by (auto simp: reported_quiet_def reported_def quiet_untouched)

lemma quiet_reported: "quiet_since s0 s \<Longrightarrow> reported s0 (s\<lparr>item := it\<rparr>)"
  using quiet_untouched [of s0 s] by (simp add: reported_def appends_def)

lemma told_closed: "closed_under inert (told s0)"
  using appends_closed [of inert s0] by (fastforce simp: closed_under_def told_def record_event_def)

lemma change_persists: "item_change it \<noteq> NO_CHANGE \<Longrightarrow> item_change (json_progress it ev) \<noteq> NO_CHANGE"
  by (cases ev) (auto simp: Let_def)

interpretation told: read_law "told s0" for s0
proof unfold_locales
  show "closed_under reads_only (told s0)"
    by (rule closed_under_weaken [OF told_closed]) (simp add: reads_only_def harmless_inert)
qed (auto simp: told_def appends_def dest: change_persists)

lemma told_item:
  "(\<And>it. item_change it \<noteq> NO_CHANGE \<Longrightarrow> item_change (f it) \<noteq> NO_CHANGE) \<Longrightarrow> keeps (told s0) (with_item f)"
  unfolding with_item_def by (rule keeps_modify) (auto simp: told_def appends_def)

lemma told_event: "keeps (told s0) (json_event ev)"
  unfolding json_event_def by (rule told_item) (rule change_persists)

lemma told_outputs:
  "keeps (told s0) (write_or_print_csr env csr output)" "keeps (told s0) (write_certificate env pem path)"
  unfolding write_or_print_csr_def write_certificate_def
  by (intro keeps_intros keeps_actions [OF told_closed] keeps_print [OF told_closed]; simp add: inert_def)+

text \<open>A request without data leaves everything as it was; the dispatch of one with data is reported first.\<close>

lemma told_lookup: "keeps (told s0) (resolve_ca env cl description)"
proof -
  have "keeps (told s0) (request_json env cl (ret ()) verb path None)" for verb path
    unfolding request_json_def request_failed_def request_data_def
    by (auto intro!: keeps_intros keeps_actions [OF told_closed] keeps_bind_lift simp: inert_def)
  then show ?thesis unfolding resolve_ca_def by (intro keeps_intros)
qed

lemma told_changed: "item_change (item s) \<noteq> NO_CHANGE \<Longrightarrow> told s0 s"
  by (simp add: told_def)

lemma changed_always: "closed_under P (\<lambda>s. item_change (item s) \<noteq> NO_CHANGE)"
  by (simp add: closed_under_def record_event_def)

lemma told_sign_request:
  "triple (told s0) (sign_csr env cl (report_progress True IssuanceDispatched) r) (\<lambda>_. told s0) (\<lambda>_. told s0)"
proof -
  have dispatch: "triple (told s0) (report_progress True IssuanceDispatched)
      (\<lambda>_ s. item_change (item s) \<noteq> NO_CHANGE) (\<lambda>_. told s0)"
    by (simp add: report_progress_def triple_modify)
  have send: "triple (told s0) (seq (report_progress True IssuanceDispatched) (act_text env a)) (\<lambda>_. told s0) (\<lambda>_. told s0)"
    for a
  proof (rule triple_seq [OF dispatch])
    have "keeps (\<lambda>s. item_change (item s) \<noteq> NO_CHANGE) (act_text env a)"
      by (rule keeps_actions [OF changed_always [where P = "\<lambda>_. True"]]) simp
    then show "triple (\<lambda>s. item_change (item s) \<noteq> NO_CHANGE) (act_text env a) (\<lambda>_. told s0) (\<lambda>_. told s0)"
      by (rule triple_weaken [OF triple_keeps]) (auto simp: told_changed)
  qed
  have failed: "triple (told s0) (request_failed e) (\<lambda>_. told s0) (\<lambda>_. told s0)" for e
    unfolding request_failed_def by (intro triple_keeps keeps_intros)
  have request: "triple (told s0) (request_json env cl (report_progress True IssuanceDispatched) verb path payload)
      (\<lambda>_. told s0) (\<lambda>_. told s0)" for verb path payload
    unfolding request_json_def
    by (intro triple_bind_keeps keeps_pure triple_bind [OF triple_try_except [OF send failed]] triple_keeps)
  show ?thesis
    unfolding sign_csr_def
    by (intro triple_bind_keeps keeps_pure triple_bind [OF request] triple_keeps)
qed

lemma told_sign:
  "triple (told s0) (sign_pending_csr env True sw name settings opnsense remaining) (\<lambda>_. told s0) (\<lambda>_. told s0)"
proof -
  let ?changed = "\<lambda>s :: 'a st. item_change (item s) \<noteq> NO_CHANGE"
  have confirmed: "triple (told s0) (report_progress True IssuanceConfirmed) (\<lambda>_. ?changed) (\<lambda>_. told s0)"
    by (simp add: report_progress_def triple_modify)
  have fetch: "keeps ?changed (get_certificate env cl uuid)" for cl uuid
    unfolding get_certificate_def by (intro keeps_intros changed.keeps_request)
  have rest: "triple ?changed (bind (get_certificate env cl uuid) (\<lambda>certificate_pem.
      seq (report_progress True CertificateRetrieved)
     (bind (observe (now_utc env)) (\<lambda>now.
      bind (lift (validate_issued_certificate (crypto_lib env) certificate_pem csr sw
         (os_lifetime_days opnsense) (os_digest opnsense) now True remaining)) (\<lambda>_.
      seq (report_progress True IssuedValidated) (ret certificate_pem)))))) (\<lambda>_. told s0) (\<lambda>_. told s0)"
    for cl uuid csr
    by (rule triple_weaken [OF triple_keeps [where A = ?changed and X = "\<lambda>_. ?changed"]])
       (auto intro!: keeps_intros fetch changed.keeps_report simp: told_changed)
  show ?thesis
    unfolding sign_pending_csr_def
    by (intro triple_bind_keeps triple_seq_keeps keeps_pure told.keeps_report told.keeps_retrieve
        told.keeps_client told_lookup triple_bind [OF told_sign_request] triple_seq [OF confirmed] rest)
qed

text \<open>The exceptions of an explicit stage, and those that leave the target's operation.\<close>

definition stage_error :: "'w st \<Rightarrow> exn \<Rightarrow> 'w st \<Rightarrow> bool" where
  "stage_error s0 e s = (isinstance e Exception \<longrightarrow>
     told s0 s \<or> exn_class e = CSRGenerationError \<or> exn_class e = CertificateInstallationAttemptError)"

definition target_error :: "'w st \<Rightarrow> exn \<Rightarrow> 'w st \<Rightarrow> bool" where
  "target_error s0 e s = (isinstance e Exception \<longrightarrow>
     untouched_since s0 s \<or> item_change (item s) \<noteq> NO_CHANGE \<and> \<not> isinstance e ValueError)"

lemma told_stage_error: "told s0 s \<Longrightarrow> stage_error s0 e s"
  by (simp add: stage_error_def)

lemma quiet_told: "quiet_since s0 s \<Longrightarrow> told s0 s"
  by (simp add: told_def quiet_untouched)

lemma appends_with_item: "keeps (appends P s0) (with_item f)"
  unfolding with_item_def by (rule keeps_modify) (simp add: appends_def)

lemma triple_told: "triple (told s0) m (\<lambda>_. told s0) (\<lambda>_. told s0) \<Longrightarrow>
    triple (told s0) m (\<lambda>_. told s0) (stage_error s0)"
  by (erule triple_weaken) (auto intro: told_stage_error)

lemma triple_completed: "result \<noteq> FAILURE_PRE_ATTEMPT \<Longrightarrow>
    triple (told s0) (completed result message) (\<lambda>_. reported s0) X"
  unfolding completed_def
  by (rule triple_with_item) (auto simp: told_def reported_def appends_def)

lemma triple_loaded: "(\<And>x. triple A (f x) B X) \<Longrightarrow> (\<And>e s. A s \<Longrightarrow> X e s) \<Longrightarrow> triple A (loaded part f) B X"
  by (cases part) (auto simp: loaded_def fail_def intro!: triple_raise)

lemma event_changes:
  "ev = CsrConfirmed \<or> ev = InstallationConfirmed summary \<Longrightarrow>
     triple (\<lambda>_. True) (json_event ev) (\<lambda>_ s. item_change (item s) \<noteq> NO_CHANGE) X"
  unfolding json_event_def by (rule triple_with_item) auto

lemma generate_honest: "triple (quiet_since s0) (json_generate env args sw settings) (\<lambda>_. reported s0) (stage_error s0)"
proof -
  have generate: "triple (quiet_since s0) (generate_csr env sw name csr) (\<lambda>_ _. True) (stage_error s0)" for name csr
    by (rule triple_weaken [OF generate_csr_triple]) (auto simp: stage_error_def dest: quiet_told)
  have confirmed: "triple (\<lambda>_. True) (json_event CsrConfirmed) (\<lambda>_. told s0) (stage_error s0)"
    by (rule triple_weaken [OF event_changes]) (auto simp: told_changed)
  show ?thesis
    unfolding json_generate_def
    by (intro triple_seq_keeps [OF appends_with_item] triple_bind [OF generate] triple_seq [OF confirmed]
        triple_seq_keeps [OF told_outputs(1)] triple_completed)
       (auto intro: told_stage_error quiet_told)
qed

lemma retrieve_honest: "triple (told s0) (json_retrieve env args sw settings) (\<lambda>_. reported s0) (stage_error s0)"
  unfolding json_retrieve_def
  by (intro triple_seq_keeps triple_bind_keeps told_event told.keeps_retrieve told_outputs triple_completed)
     (auto intro: told_stage_error)

lemma sign_honest: "triple (told s0) (json_sign env args sw settings) (\<lambda>_. reported s0) (stage_error s0)"
proof -
  have item: "keeps (told s0) (with_item (item_stage_update f))"
      "keeps (told s0) (with_item (item_certificate_update g))"
      "keeps (told s0) (with_item (set_milestone n m))" for f g n m
    by (rule told_item; simp)+
  have unwritten: "triple (told s0) (certificate_not_written e) (\<lambda>_. reported s0) (stage_error s0)" for e
    unfolding certificate_not_written_def
    by (intro triple_cond triple_with_item triple_raise told_stage_error)
       (auto simp: told_def reported_def appends_def)
  have written: "triple (told s0) (case w of Inl e \<Rightarrow> certificate_not_written e
      | Inr u \<Rightarrow> completed SUCCESS_PREPARED message) (\<lambda>_. reported s0) (stage_error s0)"
    for w :: "unit res" and message
    by (cases w) (simp_all add: unwritten triple_completed)
  show ?thesis
    unfolding json_sign_def
    by (intro triple_seq_keeps triple_bind_keeps triple_loaded item keeps_pure keeps_outcome_of told_outputs
        triple_bind [OF triple_told [OF told_sign]] written)
       (auto intro: told_stage_error)
qed

lemma install_honest:
  assumes "closes_quietly env"
  shows "triple (quiet_since s0) (json_install env args sw settings) (\<lambda>_. reported s0) (stage_error s0)"
proof -
  let ?changed = "\<lambda>s :: 'a st. item_change (item s) \<noteq> NO_CHANGE"
  have install: "triple (quiet_since s0)
      (install_pending_certificate env True sw name pem csr lifetime snapshot digest remaining)
      (\<lambda>_ _. True) (stage_error s0)" for name pem csr lifetime snapshot digest remaining
  proof (rule tripleI)
    fix s r s'
    assume start: "quiet_since s0 s"
      and run: "install_pending_certificate env True sw name pem csr lifetime snapshot digest remaining s = (r, s')"
    from keepsD [OF local.keeps_install appends_refl run] have "appends (\<lambda>a. \<not> calls_authority a) s s'" .
    then have "unchanged_since s s' \<Longrightarrow> quiet_since s s'"
      unfolding harmless_def by (rule appends_conj [rotated])
    with start have "unchanged_since s s' \<Longrightarrow> told s0 s'"
      by (blast intro: quiet_told appends_trans)
    with run show "case r of Inl e \<Rightarrow> stage_error s0 e s' | Inr x \<Rightarrow> True"
      by (cases r) (auto simp: stage_error_def dest: install_pending_truth [OF assms])
  qed
  have confirmed: "triple (\<lambda>_. True) (json_event (InstallationConfirmed c)) (\<lambda>_. ?changed) (stage_error s0)" for c
    by (rule event_changes) simp
  have item: "keeps ?changed (with_item (item_stage_update f))" for f
    unfolding with_item_def by (rule keeps_modify) simp
  have event: "keeps ?changed (json_event ev)" for ev
    unfolding json_event_def with_item_def by (rule keeps_modify) (simp add: change_persists)
  have live: "keeps ?changed (try_except (verify_live_https_certificate env sw snapshot cert) live_check_failed)"
    for snapshot cert
    unfolding live_check_failed_def by (intro keeps_intros changed.keeps_live)
  have ends: "triple ?changed (completed SUCCESS_CHANGED message) (\<lambda>_. reported s0) (stage_error s0)" for message
    by (rule triple_weaken [OF triple_completed]) (auto simp: told_changed)
  show ?thesis
    unfolding json_install_def
    by (intro triple_seq_keeps [OF appends_with_item] triple_loaded triple_bind [OF install]
        triple_seq [OF confirmed] triple_seq_keeps [OF item] triple_seq_keeps [OF live]
        triple_seq_keeps [OF event] ends)
       (auto intro: told_stage_error quiet_told told_changed)
qed

lemma explicit_failure_change:
  "item_change it \<noteq> NO_CHANGE \<Longrightarrow> item_change (json_explicit_failure op it) \<noteq> NO_CHANGE \<and>
     item_outcome (json_explicit_failure op it) \<noteq> FAILURE_PRE_ATTEMPT"
proof (cases "op = SignCsr")
  case True
  assume changed: "item_change it \<noteq> NO_CHANGE"
  with True json_failure_pre_attempt(2) [of it "new_exn CSRSigningError ''''"]
    json_failure_change [of it "new_exn CSRSigningError ''''"]
  show ?thesis by (auto simp: json_explicit_failure_def)
next
  case False
  assume "item_change it \<noteq> NO_CHANGE"
  with False json_failure_outcome_cases(2) [of it] show ?thesis
    by (auto simp: json_explicit_failure_def Let_def)
qed

text \<open>What a program's own error makes of a report that knows of a change, and of one that must say so.\<close>

lemma json_failure_honest:
  assumes "item_change it \<noteq> NO_CHANGE \<and> \<not> isinstance e RenewalPreflightError \<and>
      exn_class e \<noteq> CSRGenerationPreAttemptError \<or>
    exn_class e = CSRGenerationError \<or> exn_class e = CertificateInstallationAttemptError"
  shows "item_change (json_failure it e) \<noteq> NO_CHANGE \<and> item_outcome (json_failure it e) \<noteq> FAILURE_PRE_ATTEMPT"
proof (cases "exn_class e = CSRGenerationError \<or> exn_class e = CertificateInstallationAttemptError")
  case True
  then show ?thesis by (auto simp: json_failure_def Let_def isinstance_def)
next
  case False
  with assms json_failure_pre_attempt [of it e] json_failure_change [of it e] show ?thesis by blast
qed

lemma explicit_failed_honest:
  "triple (stage_error s0 e) (json_explicit_failed op e) (\<lambda>_. reported s0) (target_error s0)"
proof (cases "isinstance e Exception")
  case False
  then have "\<not> isinstance e ValueError" "\<not> isinstance e OSError"
    using isinstance_ValueErrorD isinstance_OSErrorD by blast+
  moreover have "\<not> isinstance_any e [CSRGenerationError, CertificateInstallationAttemptError,
      LiveHTTPSVerificationError]"
    using False by (auto simp: isinstance_def)
  ultimately show ?thesis
    using False by (auto simp: json_explicit_failed_def target_error_def intro!: triple_raise)
next
  case True
  have own: "\<not> isinstance e RenewalPreflightError" "exn_class e \<noteq> CSRGenerationPreAttemptError"
    if "isinstance e CSRGenerationError \<or> isinstance e CertificateInstallationAttemptError \<or>
      isinstance e LiveHTTPSVerificationError"
    using that by (auto simp: isinstance_def)
  have failure: "reported s0 (s\<lparr>item := json_failure (item s) e\<rparr>)"
    if "stage_error s0 e s" "isinstance_any e [CSRGenerationError, CertificateInstallationAttemptError,
      LiveHTTPSVerificationError]" for s
    using that True own json_failure_honest [of "item s" e]
    by (auto simp: stage_error_def told_def reported_def appends_def)
  have ordinary: "reported s0 (s\<lparr>item := json_explicit_failure op (item s)\<rparr>)"
    if "stage_error s0 e s" "\<not> isinstance_any e [CSRGenerationError, CertificateInstallationAttemptError,
      LiveHTTPSVerificationError]" for s
    using that True explicit_failure_change [of "item s" op]
    by (auto simp: stage_error_def told_def reported_def appends_def isinstance_def)
  have other: "target_error s0 e s"
    if "stage_error s0 e s" "\<not> isinstance_any e [CSRGenerationError, CertificateInstallationAttemptError,
      LiveHTTPSVerificationError]" "\<not> isinstance_any e [ValueError, OSError]" for s
    using that by (auto simp: stage_error_def told_def target_error_def isinstance_def)
  show ?thesis
    unfolding json_explicit_failed_def
    by (intro triple_cond triple_with_item triple_raise) (auto intro: failure ordinary other)
qed

lemma quiet_target_error: "quiet_since s0 s \<Longrightarrow> target_error s0 e s"
  by (simp add: target_error_def quiet_untouched)

lemma explicit_honest:
  assumes "closes_quietly env" and "prints_ok env"
  shows "triple (quiet_since s0) (json_explicit env args op sw settings) (\<lambda>_. reported s0) (target_error s0)"
proof -
  have renew: "triple (quiet_since s0) (json_renew env sw csr opnsense snapshot warning_days)
      (\<lambda>_. reported s0) (target_error s0)" for csr opnsense snapshot warning_days
    by (rule triple_weaken [OF json_renew_triple [OF assms(2)]])
       (auto simp: target_error_def reported_quiet_reported)
  have told: "triple (quiet_since s0) m B X" if "triple (told s0) m B X" for m B X
    using that by (rule triple_weaken) (auto intro: quiet_told)
  show ?thesis
    unfolding json_explicit_def
    by (intro triple_cond triple_loaded renew triple_try_except [OF _ explicit_failed_honest]
        generate_honest told [OF retrieve_honest] told [OF sign_honest] install_honest assms)
       (auto intro: quiet_target_error)
qed

lemma process_honest:
  assumes "closes_quietly env" and "prints_ok env"
  shows "triple (quiet_since s0) (json_process_target env args op sw warning_days settings)
    (\<lambda>_. reported s0) (target_error s0)"
proof -
  have renew: "triple (quiet_since s0) (json_renew env sw csr opnsense snapshot warning_days)
      (\<lambda>_. reported s0) (target_error s0)" for csr opnsense snapshot warning_days
    by (rule triple_weaken [OF json_renew_triple [OF assms(2)]])
       (auto simp: target_error_def reported_quiet_reported)
  have verdict: "triple (quiet_since s0) (with_item f) (\<lambda>_. reported s0) (target_error s0)" for f
    by (rule triple_with_item) (rule quiet_reported)
  show ?thesis
    unfolding json_process_target_def
    by (intro triple_cond triple_seq_keeps triple_bind_keeps appends_with_item quiet.keeps_check verdict
        triple_loaded renew explicit_honest assms)
       (auto intro: quiet_target_error)
qed

lemma release_failure_honest:
  "item_change it \<noteq> NO_CHANGE \<and> item_outcome it \<noteq> FAILURE_PRE_ATTEMPT \<Longrightarrow>
     item_change (json_release_failure it) \<noteq> NO_CHANGE \<and>
     item_outcome (json_release_failure it) \<noteq> FAILURE_PRE_ATTEMPT"
  using json_failure_outcome_cases(2) [of it] by (auto simp: json_release_failure_def Let_def)

lemma target_failed_honest:
  "triple (\<lambda>s. target_error s0 e s \<or> e = release_error \<and> reported s0 s) (json_target_failed e)
     (\<lambda>_. reported s0) (\<lambda>e _. \<not> isinstance e Exception)"
proof -
  have untouched: "reported s0 (s\<lparr>item := it\<rparr>)" if "untouched_since s0 s" for s it
    using that by (simp add: reported_def appends_def)
  have lock: "isinstance e ValueError" if "isinstance e LifecycleLockError"
    using that by (cases "exn_class e") (simp_all add: isinstance_def)
  have release: "isinstance e LifecycleLockError" if "isinstance e LifecycleLockReleaseError"
    using that by (cases "exn_class e") (simp_all add: isinstance_def)
  have own: "isinstance release_error LifecycleLockReleaseError"
    by (simp add: release_error_def lock_error_def)
  have released: "reported s0 (s\<lparr>item := json_release_failure (item s)\<rparr>)"
    if "target_error s0 e s \<or> e = release_error \<and> reported s0 s" "isinstance e LifecycleLockReleaseError" for s
    using that untouched release lock isinstance_ValueErrorD [of e] release_failure_honest [of "item s"]
    by (auto simp: target_error_def reported_def appends_def)
  have locked: "reported s0 (s\<lparr>item := json_lock_failure e (item s)\<rparr>)"
    if "target_error s0 e s \<or> e = release_error \<and> reported s0 s"
      "\<not> isinstance e LifecycleLockReleaseError" "isinstance e LifecycleLockError" for s
    using that untouched lock own isinstance_ValueErrorD [of e] by (auto simp: target_error_def)
  have failed: "reported s0 (s\<lparr>item := json_failure (item s) e\<rparr>)"
    if "target_error s0 e s \<or> e = release_error \<and> reported s0 s"
      "\<not> isinstance e LifecycleLockReleaseError" "isinstance e Exception" for s
    using that untouched own json_failure_honest [of "item s" e] not_preflight [of e]
    by (auto simp: target_error_def reported_def appends_def)
  show ?thesis
    unfolding json_target_failed_def
    by (intro triple_cond triple_with_item triple_raise) (auto intro: released locked failed simp: own)
qed

lemma reported_closed: "closed_under inert (reported s0)"
  using appends_closed [of inert s0] by (fastforce simp: closed_under_def reported_def record_event_def)

lemma target_error_closed: "closed_under inert (target_error s0 e)"
  using appends_closed [of inert s0] by (fastforce simp: closed_under_def target_error_def record_event_def)

lemma lock_action_harmless: "lock_action a \<Longrightarrow> harmless a"
  by (cases a) (simp_all add: harmless_def)

lemma lock_action_inert: "lock_action a \<Longrightarrow> inert a"
  by (cases a) (simp_all add: inert_def)

lemma target_honest:
  assumes "closes_quietly env" and "prints_ok env" and "close_raises_os_error env"
  shows "triple (quiet_since s0) (json_target env args op warning_days settings sw)
    (\<lambda>_. reported s0) (\<lambda>e _. \<not> isinstance e Exception)"
proof -
  let ?error = "\<lambda>e s. target_error s0 e s \<or> e = release_error \<and> reported s0 s"
  let ?work = "json_process_target env args op sw warning_days settings"
  have closed: "closed_under lock_action (quiet_since s0)" "closed_under lock_action (reported s0)"
    by (rule closed_under_weaken [OF appends_closed lock_action_harmless], assumption,
        rule closed_under_weaken [OF reported_closed lock_action_inert], assumption)
  have closed_error: "closed_under lock_action (?error e)" for e
  proof (rule closed_under_disj)
    show "closed_under lock_action (target_error s0 e)"
      by (rule closed_under_weaken [OF target_error_closed lock_action_inert], assumption)
    show "closed_under lock_action (\<lambda>s. e = release_error \<and> reported s0 s)"
      using closed(2) by (simp add: closed_under_def)
  qed
  have work: "triple (quiet_since s0) ?work (\<lambda>_. reported s0) ?error"
    by (rule triple_weaken [OF process_honest [OF assms(1,2)]]) auto
  have locked: "triple (quiet_since s0) (lifecycle_lock env (sw_host sw) ?work) (\<lambda>_. reported s0) ?error"
    by (rule triple_lock [OF closed closed_error work])
       (auto intro: quiet_target_error simp: assms(3))
  have start: "triple (quiet_since s0) (outcome_of (get_switch_credentials env sw config False))
      (\<lambda>_. quiet_since s0) X" for config X
  proof -
    have "keeps (quiet_since s0) (get_switch_credentials env sw config False)"
      by (rule credentials_silent) (rule quiet.session)
    then show ?thesis by (auto simp: triple_def post_outcome_of dest: keeps_post elim: post_mono)
  qed
  have attempt: "triple (quiet_since s0) (case r of
        Inl error \<Rightarrow>
          if isinstance error Exception then with_item json_credentials_failure else raise error
      | Inr u \<Rightarrow> try_except (if needs_lock op then lifecycle_lock env (sw_host sw) ?work else ?work)
          json_target_failed)
      (\<lambda>_. reported s0) (\<lambda>e _. \<not> isinstance e Exception)" for r :: "(string \<times> string) res"
  proof (cases r)
    case (Inl e)
    then show ?thesis by (auto intro!: triple_with_item triple_raise quiet_reported)
  next
    case (Inr u)
    then show ?thesis
      by (simp only: sum.case) (intro triple_try_except [OF _ target_failed_honest] triple_cond locked work)
  qed
  show ?thesis
    unfolding json_target_def Let_def
    by (rule triple_seq [OF triple_with_item triple_bind [OF start attempt]]) (simp add: appends_def)
qed

lemma discard_output_simps [simp]:
  "prints_ok (discard_output env)" "closes_quietly (discard_output env) = closes_quietly env"
  "close_raises_os_error (discard_output env) = close_raises_os_error env"
  by (simp_all add: prints_ok_def discard_output_def closes_quietly_def close_raises_os_error_def)



section \<open>Changes happen under the lock\<close>

text \<open>
  \<open>lock_held\<close>: since \<open>s0\<close> the lock file of the host was opened and locked, and nothing before that
  could have changed a switch or asked the authority for anything.
\<close>

definition lock_held :: "'w env \<Rightarrow> string \<Rightarrow> 'w st \<Rightarrow> 'w st \<Rightarrow> bool" where
  "lock_held env host s0 s =
     (\<exists>before since filename directory_fd lock_fd t.
        trace s = trace s0 @ before @ (Flock lock_fd, Text t) # since \<and>
        list_all (\<lambda>ev. harmless (fst ev)) before \<and> lock_filename env host = Inr filename \<and>
        (OsOpenAt directory_fd filename lock_flags 384, Number lock_fd) \<in> set before)"

lemma lock_held_closed: "closed_under P (lock_held env host s0)"
  unfolding closed_under_def lock_held_def by (auto simp: record_event_def) blast

lemma acquired_lock_held:
  assumes "try_acquire env host s = (Inr (fds, Inr u), s')" and "quiet_since s0 s"
  shows "lock_held env host s0 s'"
proof -
  from assms(1) obtain d s1 filename l s2 where
      "act_num env (OsOpen LIFECYCLE_DIRECTORY directory_flags) s = (Inr d, s1)"
      "open_lock_file env host d s1 = (Inr (filename, l), s2)"
      "acquire_lock env d filename l s2 = (Inr (), s')"
    by (auto simp: try_acquire_def bind_Inr ret_Inr outcome_of_Inr case_sum_run case_prod_run)
  then obtain st0 st1 st2 st3 t where "lock_filename env host = Inr filename"
      "trace s' = trace s @ [(OsOpen LIFECYCLE_DIRECTORY directory_flags, Number d),
         (OsFstat d, Status st0), (OsOpenAt d filename lock_flags 384, Number l),
         (OsFstat l, Status st1), (Flock l, Text t), (OsFstat l, Status st2), (OsStatAt d filename, Status st3)]"
    by (fastforce simp: open_lock_file_def acquire_lock_def run_success try_except_raising
        flock_handler_raises split: if_splits)
  moreover from assms(2) obtain evs where "trace s = trace s0 @ evs" "list_all (\<lambda>ev. harmless (fst ev)) evs"
    by (auto simp: appends_def)
  ultimately show ?thesis
    unfolding lock_held_def
    by (intro exI [of _ "evs @ [(OsOpen LIFECYCLE_DIRECTORY directory_flags, Number d),
         (OsFstat d, Status st0), (OsOpenAt d filename lock_flags 384, Number l), (OsFstat l, Status st1)]"]
        exI [of _ "[(OsFstat l, Status st2), (OsStatAt d filename, Status st3)]"] exI [of _ filename]
        exI [of _ d] exI [of _ l] exI [of _ t])
       (auto simp: harmless_def)
qed

lemma lock_held_trace: "lock_held env host s0 s \<Longrightarrow> trace t = trace s \<Longrightarrow> lock_held env host s0 t"
  by (simp add: lock_held_def)

interpretation held: change_law "lock_held env host s0" for env :: "'w env" and host s0
  by unfold_locales (auto intro: lock_held_closed elim: lock_held_trace)

interpretation quiet_run: target_law "appends harmless s0" for s0
  by unfold_locales (simp add: appends_def)

lemma locked_body:
  assumes "keeps (lock_held env host s0) body"
  shows "triple (quiet_since s0) (lifecycle_lock env host body)
     (\<lambda>_ s. quiet_since s0 s \<or> lock_held env host s0 s) (\<lambda>_ s. quiet_since s0 s \<or> lock_held env host s0 s)"
proof -
  let ?safe = "\<lambda>s. quiet_since s0 s \<or> lock_held env host s0 s"
  have closing: "keeps ?safe (bind (close_descriptors env fds) (\<lambda>close_error.
      check (close_error \<noteq> None \<and> \<not> failed) release_error))" for fds failed
    by (intro keeps_intros keeps_acquire(2) closed_under_disj lock_held_closed
        closed_under_weaken [OF appends_closed lock_action_harmless])
  have around: "triple (\<lambda>s. case acquired of Inl e \<Rightarrow> quiet_since s0 s | Inr u \<Rightarrow> lock_held env host s0 s)
      (try_finally
        (case acquired of Inl e \<Rightarrow> raise (as_lock_error e)
         | Inr u \<Rightarrow> body)
        (\<lambda>failed. bind (close_descriptors env fds) (\<lambda>close_error.
           check (close_error \<noteq> None \<and> \<not> failed) release_error))) (\<lambda>_. ?safe) (\<lambda>_. ?safe)"
    for acquired :: "unit res" and fds
  proof (rule triple_try_finally [where B = "\<lambda>_. ?safe" and X = "\<lambda>_. ?safe"])
    show "triple (\<lambda>s. case acquired of Inl e \<Rightarrow> quiet_since s0 s | Inr u \<Rightarrow> lock_held env host s0 s)
        (case acquired of Inl e \<Rightarrow> raise (as_lock_error e)
         | Inr u \<Rightarrow> body) (\<lambda>_. ?safe) (\<lambda>_. ?safe)"
    proof (cases acquired)
      case (Inr u)
      then show ?thesis
        by (simp only: sum.case)
           (rule triple_weaken [OF triple_keeps [where X = "\<lambda>_. ?safe", OF assms]], auto)
    qed (simp add: triple_raise)
  qed (rule triple_keeps [OF closing], assumption)+
  show ?thesis
    unfolding lifecycle_lock_def
  proof (rule triple_bind)
    show "triple (quiet_since s0) (try_acquire env host)
        (\<lambda>r s. case snd r of Inl e \<Rightarrow> quiet_since s0 s | Inr u \<Rightarrow> lock_held env host s0 s) (\<lambda>_. ?safe)"
    proof (rule tripleI)
      fix s r s'
      assume quiet: "quiet_since s0 s" and run: "try_acquire env host s = (r, s')"
      from keepsD [OF quiet_run.keeps_lock_steps(1) quiet run] acquired_lock_held [OF _ quiet] run
      show "case r of Inl e \<Rightarrow> ?safe s'
        | Inr r \<Rightarrow> (case snd r of Inl e \<Rightarrow> quiet_since s0 s' | Inr u \<Rightarrow> lock_held env host s0 s')"
        by (auto split: sum.split)
    qed
    show "triple (\<lambda>s. case snd r of Inl e \<Rightarrow> quiet_since s0 s | Inr u \<Rightarrow> lock_held env host s0 s)
        (case r of (fds, acquired) \<Rightarrow> try_finally
          (case acquired of Inl e \<Rightarrow> raise (as_lock_error e)
           | Inr u \<Rightarrow> body)
          (\<lambda>failed. bind (close_descriptors env fds) (\<lambda>close_error.
             check (close_error \<noteq> None \<and> \<not> failed) release_error))) (\<lambda>_. ?safe) (\<lambda>_. ?safe)"
      for r :: "int list \<times> unit res"
      using around [of "snd r" "fst r"] by (simp only: split_beta)
  qed
qed

text \<open>
  C6.  A target is changed only under its lock: either nothing was sent in its run that could change
  the switch or ask the certificate authority for anything, or the lock file of this switch's host
  was locked before the first such action.
\<close>

theorem effects_under_lock:
  "case json_target env args op warning_days settings sw s of
     (r, s') \<Rightarrow> quiet_since s s' \<or> lock_held env (sw_host sw) s s'"
proof -
  let ?safe = "\<lambda>t. quiet_since s t \<or> lock_held env (sw_host sw) s t"
  have unlocked: "keeps (quiet_since s) (json_process_target env args op sw warning_days settings)"
    if "\<not> needs_lock op"
  proof -
    from that have "op = Inspect \<or> op = RetrieveCsr" by (cases op) (simp_all add: needs_lock_def)
    then show ?thesis using quiet_run.keeps_inspection quiet_run.keeps_retrieval by blast
  qed
  have item: "keeps ?safe (with_item f)" for f
    unfolding with_item_def
    by (rule keeps_modify) (auto simp: appends_def intro: lock_held_trace)
  have failed: "keeps ?safe (json_target_failed e)" for e
    unfolding json_target_failed_def by (intro keeps_intros item)
  have work: "triple (quiet_since s)
      (if needs_lock op then lifecycle_lock env (sw_host sw) (json_process_target env args op sw warning_days settings)
       else json_process_target env args op sw warning_days settings) (\<lambda>_. ?safe) (\<lambda>_. ?safe)"
    by (rule triple_cond [OF locked_body [OF held.keeps_process] triple_weaken [OF triple_keeps [where X = "\<lambda>_. ?safe", OF unlocked]]])
       auto
  have attempt: "triple (quiet_since s) (case r of
        Inl error \<Rightarrow>
          if isinstance error Exception then with_item json_credentials_failure else raise error
      | Inr u \<Rightarrow> try_except
          (if needs_lock op then lifecycle_lock env (sw_host sw) (json_process_target env args op sw warning_days settings)
           else json_process_target env args op sw warning_days settings)
          json_target_failed) (\<lambda>_. ?safe) (\<lambda>_. ?safe)" for r :: "(string \<times> string) res"
  proof (cases r)
    case (Inl e)
    then show ?thesis
      by (auto intro!: triple_weaken [OF triple_keeps [where X = "\<lambda>_. ?safe", OF appends_with_item]] triple_raise)
  next
    case (Inr u)
    then show ?thesis
      by (simp only: sum.case) (rule triple_try_except [OF work triple_keeps [OF failed]], assumption)
  qed
  have "triple (quiet_since s) (json_target env args op warning_days settings sw) (\<lambda>_. ?safe) (\<lambda>_. ?safe)"
    unfolding json_target_def Let_def
    by (intro triple_seq_keeps triple_bind_keeps appends_with_item keeps_outcome_of
        quiet_run.keeps_credentials attempt) auto
  then have safe: "triple (\<lambda>t. t = s) (json_target env args op warning_days settings sw) (\<lambda>_. ?safe) (\<lambda>_. ?safe)"
    by (rule triple_weaken) auto
  obtain r s' where run: "json_target env args op warning_days settings sw s = (r, s')"
    by (cases "json_target env args op warning_days settings sw s")
  from tripleD [OF safe refl run] run show ?thesis by (auto split: sum.splits)
qed

end
