(* ===== verification/HumanRun.thy ===== *)
theory HumanRun
  imports JsonEffects
begin

text \<open>
  The run without \<^verbatim>\<open>--output json\<close> (\<^verbatim>\<open>src/aruba_cert_renewer.py\<close>): \<^verbatim>\<open>renew_due_certificates\<close>,
  \<^verbatim>\<open>run_explicit_operation\<close> and \<^verbatim>\<open>main\<close>, with the lines they print.  \<open>switch_verdict\<close> and \<open>body_exit\<close> are
  the local variables \<^verbatim>\<open>result\<close> and \<^verbatim>\<open>body_result\<close> that the handlers of a failed release read.
\<close>

section \<open>Printing\<close>

fun print_lines :: "'w env \<Rightarrow> string list \<Rightarrow> ('w, unit) io" where
  "print_lines env [] = ret ()"
| "print_lines env (line # ls) = seq (print_terminal env line) (print_lines env ls)"

fun print_errors :: "'w env \<Rightarrow> string list \<Rightarrow> ('w, unit) io" where
  "print_errors env [] = ret ()"
| "print_errors env (line # ls) = seq (print_error env line) (print_errors env ls)"

definition print_run_start :: "'w env \<Rightarrow> string \<Rightarrow> ('w, unit) io" where
  "print_run_start env title =
     bind (observe (local_timestamp env)) (\<lambda>started_at.
       print_lines env [title, replicate (length title) CHR ''='', ''Check started:    '' @ started_at])"

definition print_summary :: "'w env \<Rightarrow> string list \<Rightarrow> ('w, unit) io" where
  "print_summary env results =
     bind (observe (local_timestamp env)) (\<lambda>completed_at.
       print_lines env ['''', ''Summary'', ''-------'',
         ''Switches checked: '' @ str_nat (length results),
         ''OK:               '' @ str_nat (count_list results ''ok''),
         ''Renewal due:      '' @ str_nat (count_list results ''renewal_due''),
         ''Expired:          '' @ str_nat (count_list results ''expired''),
         ''Errors:           '' @ str_nat (count_list results ''error''),
         '''', ''Check completed:  '' @ completed_at])"

definition print_renewal_summary :: "'w env \<Rightarrow> string list \<Rightarrow> ('w, unit) io" where
  "print_renewal_summary env results =
     bind (observe (local_timestamp env)) (\<lambda>completed_at.
       print_lines env ['''', ''Renewal summary'', ''---------------'',
         ''Switches processed: '' @ str_nat (length results),
         ''Healthy:             '' @ str_nat (count_list results ''healthy''),
         ''Renewed:             '' @ str_nat (count_list results ''renewed''),
         ''Errors:              '' @ str_nat (count_list results ''error''),
         '''', ''Check completed:     '' @ completed_at])"

definition get_exit_code :: "string list \<Rightarrow> int" where
  "get_exit_code results =
     (if ''error'' \<in> set results then EXIT_ERROR
      else if ''renewal_due'' \<in> set results \<or> ''expired'' \<in> set results then EXIT_WARNING
      else EXIT_OK)"

text \<open>\<^verbatim>\<open>RENEWAL_FAILURE_TYPES\<close>\<close>

definition RENEWAL_FAILURE_TYPES :: "exc_class list" where
  "RENEWAL_FAILURE_TYPES = [RenewalPreflightError, CSRGenerationPreAttemptError, CSRGenerationError,
     CSRSigningError, CertificatePreInstallationError, CertificateInstallationAttemptError,
     LiveHTTPSVerificationError]"

definition renewal_failure_lines :: "exn \<Rightarrow> string list" where
  "renewal_failure_lines error =
     (if isinstance error RenewalPreflightError then
        [''Error: Renewal preflight failed; no renewal change was '' @ ''attempted: '' @ exn_text error]
      else if isinstance error CSRGenerationPreAttemptError then
        [''Error: CSR generation failed before CSR creation was attempted; '' @
         ''no pending CSR was created: '' @ exn_text error]
      else if isinstance error CSRGenerationError then
        [''Error: '' @ exn_text error,
         ''CSR creation was attempted. No automatic cleanup was attempted; '' @
         ''use the explicit staged commands for diagnosis or recovery.'']
      else if isinstance error CSRSigningError then
        [''Error: CSR signing failed: '' @ exn_text error,
         ''No certificate installation or automatic OPNsense cleanup was attempted.'']
      else if isinstance error CertificatePreInstallationError then
        [''Error: Certificate installation did not begin: '' @ exn_text error,
         ''No automatic rollback was attempted.'']
      else if isinstance error CertificateInstallationAttemptError then
        [''Error: Post-install failure: '' @ exn_text error,
         ''No automatic rollback was attempted; inspect the switch manually.'']
      else if isinstance error LiveHTTPSVerificationError then
        [''Error: Post-install HTTPS verification failed. The certificate '' @
         ''may already be active and requires manual investigation: '' @ exn_text error,
         ''No automatic rollback was attempted.'']
      else [])"

definition report_renewal_failure :: "'w env \<Rightarrow> exn \<Rightarrow> ('w, unit) io" where
  "report_renewal_failure env error = print_errors env (renewal_failure_lines error)"

definition require_verification_ca_snapshot :: "ca_snapshot option \<Rightarrow> ca_snapshot res" where
  "require_verification_ca_snapshot snapshot =
     (case snapshot of
        None \<Rightarrow> value_error ''A captured verification CA snapshot is required''
      | Some s \<Rightarrow> Inr s)"

text \<open>\<^verbatim>\<open>type(error).__name__\<close> is not modelled beyond the class of the exception: it is a parameter.\<close>

definition unexpected_lines :: "(exc_class \<Rightarrow> string) \<Rightarrow> exn \<Rightarrow> string list" where
  "unexpected_lines class_name error =
     [''Error: Unexpected renewal failure '' @ ''('' @ class_name (exn_class error) @
        ''). Renewal state may be uncertain.'',
      ''No automatic retry, cleanup, or rollback was attempted; '' @
        ''inspect the switch and use the explicit staged commands '' @ ''if necessary.'']"

section \<open>Renewing what is due\<close>

definition verdict :: "string option \<Rightarrow> ('w, unit) io" where
  "verdict v = modify (\<lambda>s. s\<lparr>switch_verdict := v\<rparr>)"

definition no_renewal :: "'w env \<Rightarrow> string \<Rightarrow> ('w, unit) io" where
  "no_renewal env reason =
     seq (print_lines env [''Status:           ERROR'', ''Reason:           '' @ reason,
       ''Action:           No renewal attempted''])
       (verdict (Some ''error''))"

text \<open>The renewal of a switch that is due, with the lines for its failure.\<close>

definition renew_one ::
  "'w env \<Rightarrow> (exc_class \<Rightarrow> string) \<Rightarrow> int \<Rightarrow> json \<Rightarrow> opnsense_settings \<Rightarrow> ca_snapshot \<Rightarrow> switch \<Rightarrow>
     ('w, unit) io" where
  "renew_one env class_name warning_days csr opnsense snapshot sw =
     bind (outcome_of (renew_certificate env False sw csr opnsense snapshot (Some warning_days))) (\<lambda>r.
       case r of
         Inl error \<Rightarrow>
           if isinstance_any error RENEWAL_FAILURE_TYPES then
             seq (report_renewal_failure env error) (verdict (Some ''error''))
           else if isinstance error Exception then
             seq (print_errors env (unexpected_lines class_name error)) (verdict (Some ''error''))
           else raise error
       | Inr _ \<Rightarrow> verdict (Some ''renewed''))"

text \<open>The body under the lock.\<close>

definition renew_due_body ::
  "'w env \<Rightarrow> (exc_class \<Rightarrow> string) \<Rightarrow> int \<Rightarrow> json \<Rightarrow> opnsense_settings \<Rightarrow> ca_snapshot \<Rightarrow> switch \<Rightarrow>
     ('w, unit) io" where
  "renew_due_body env class_name warning_days csr opnsense snapshot sw =
     bind (outcome_of (check_switch env sw warning_days)) (\<lambda>r.
       case r of
         Inl error \<Rightarrow>
           if isinstance error Exception then no_renewal env (exn_text error) else raise error
       | Inr status \<Rightarrow>
           if status = ''ok'' then
             seq (print_terminal env ''Action:           No renewal required'') (verdict (Some ''healthy''))
           else if status \<noteq> ''renewal_due'' \<and> status \<noteq> ''expired'' then
             seq (print_terminal env ''Action:           No renewal attempted'') (verdict (Some ''error''))
           else
             seq (print_terminal env ''Action:           Renewing certificate'')
               (renew_one env class_name warning_days csr opnsense snapshot sw))"

text \<open>What is printed when the release of the lock failed, by the verdict reached before.\<close>

definition release_lines :: "string option \<Rightarrow> string list" where
  "release_lines result =
     (if result = Some ''renewed'' then
        [''Reason:           Lifecycle lock release failed after renewal. '' @
           ''Renewal may already have completed; inspect the switch manually'',
         ''Action:           No automatic retry, cleanup, or rollback'']
      else if result = Some ''healthy'' then
        [''Reason:           Certificate check completed; no renewal was '' @
           ''required, but lifecycle lock release failed'',
         ''Action:           Inspect local lifecycle lock state before retry'']
      else if result = Some ''error'' then
        [''Reason:           Switch check or renewal had already reported '' @
           ''an error; lifecycle lock release also failed'',
         ''Action:           Inspect switch and lifecycle lock state '' @
           ''manually before retry; no automatic retry, cleanup, or rollback'']
      else
        [''Reason:           Lifecycle lock release failed; the protected '' @
           ''operation outcome could not be confirmed'',
         ''Action:           Inspect switch and lifecycle lock state '' @
           ''manually before retry; no automatic retry, cleanup, or rollback''])"

definition renew_due_failed :: "'w env \<Rightarrow> switch \<Rightarrow> exn \<Rightarrow> ('w, unit) io" where
  "renew_due_failed env sw error =
     (if isinstance error LifecycleLockReleaseError then
        seq (print_terminal env ''Status:           ERROR'')
       (bind (gets switch_verdict) (\<lambda>result.
        seq (print_lines env (release_lines result)) (verdict (Some ''error''))))
      else if isinstance error LifecycleLockError then
        seq (print_switch_heading env sw) (no_renewal env (exn_text error))
      else raise error)"

definition renew_due_switch ::
  "'w env \<Rightarrow> (exc_class \<Rightarrow> string) \<Rightarrow> string \<Rightarrow> int \<Rightarrow> json \<Rightarrow> opnsense_settings \<Rightarrow> ca_snapshot \<Rightarrow> switch \<Rightarrow>
     ('w, unit) io" where
  "renew_due_switch env class_name config_file warning_days csr opnsense snapshot sw =
     seq (verdict None)
       (try_except
         (bind (outcome_of (get_switch_credentials env sw config_file True)) (\<lambda>credentials.
            case credentials of
              Inl error \<Rightarrow>
                if isinstance error ValueError then
                  seq (print_switch_heading env sw) (no_renewal env (exn_text error))
                else if isinstance error Exception then
                  seq (print_switch_heading env sw)
                    (no_renewal env ''Unexpected credential resolution failure'')
                else raise error
            | Inr _ \<Rightarrow>
                lifecycle_lock env (sw_host sw)
                  (renew_due_body env class_name warning_days csr opnsense snapshot sw)))
         (renew_due_failed env sw))"

fun renew_due_switches ::
  "'w env \<Rightarrow> (exc_class \<Rightarrow> string) \<Rightarrow> string \<Rightarrow> int \<Rightarrow> json \<Rightarrow> opnsense_settings \<Rightarrow> ca_snapshot \<Rightarrow> switch list \<Rightarrow>
     ('w, string list) io" where
  "renew_due_switches env class_name config_file warning_days csr opnsense snapshot [] = ret []"
| "renew_due_switches env class_name config_file warning_days csr opnsense snapshot (sw # sws) =
     seq (renew_due_switch env class_name config_file warning_days csr opnsense snapshot sw)
    (bind (gets switch_verdict) (\<lambda>result.
     bind (renew_due_switches env class_name config_file warning_days csr opnsense snapshot sws) (\<lambda>results.
       ret (case result of None \<Rightarrow> results | Some r \<Rightarrow> r # results))))"

definition renew_due_certificates ::
  "'w env \<Rightarrow> (exc_class \<Rightarrow> string) \<Rightarrow> switch list \<Rightarrow> string \<Rightarrow> int \<Rightarrow> run_settings \<Rightarrow> ('w, int) io" where
  "renew_due_certificates env class_name switches config_file warning_days settings =
     bind (lift (require_verification_ca_snapshot (run_ca settings))) (\<lambda>snapshot.
     loaded (run_opnsense settings) (\<lambda>opnsense.
     bind (lift (validate_automatic_renewal_window warning_days opnsense)) (\<lambda>_.
     seq (print_run_start env ''Aruba certificate renewal check'')
    (bind (renew_due_switches env class_name config_file warning_days (run_csr settings) opnsense snapshot switches)
       (\<lambda>results.
     seq (print_renewal_summary env results)
       (ret (if ''error'' \<in> set results then EXIT_ERROR else EXIT_OK)))))))"

section \<open>The explicit operations\<close>

text \<open>\<^verbatim>\<open>print_terminal(f"Error: {error}", file=sys.stderr)\<close> and the exit code of an error.\<close>

definition error_exit :: "'w env \<Rightarrow> string list \<Rightarrow> ('w, int) io" where
  "error_exit env ls = seq (print_errors env ls) (ret EXIT_ERROR)"

definition report_error :: "'w env \<Rightarrow> exn \<Rightarrow> ('w, int) io" where
  "report_error env error =
     (if isinstance_any error [ValueError, OSError] then error_exit env [''Error: '' @ exn_text error]
      else raise error)"

definition explicit_renew ::
  "'w env \<Rightarrow> switch \<Rightarrow> json \<Rightarrow> opnsense_settings \<Rightarrow> ca_snapshot \<Rightarrow> ('w, int) io" where
  "explicit_renew env sw csr opnsense snapshot =
     try_except (bind (renew_certificate env False sw csr opnsense snapshot None) (\<lambda>_. ret EXIT_OK))
       (\<lambda>error.
         if isinstance_any error RENEWAL_FAILURE_TYPES then
           seq (report_renewal_failure env error) (ret EXIT_ERROR)
         else raise error)"

definition pre_install_lines :: "exn \<Rightarrow> string list" where
  "pre_install_lines error =
     [''Error: Pre-install failure; the switch has not been modified: '' @ exn_text error]"

text \<open>The live check after an installation, and the lines that end it.\<close>

definition explicit_live ::
  "'w env \<Rightarrow> switch \<Rightarrow> ca_snapshot \<Rightarrow> certificate \<Rightarrow> ('w, int) io" where
  "explicit_live env sw snapshot cert =
     bind (outcome_of (verify_live_https_certificate env sw snapshot cert)) (\<lambda>r.
       case r of
         Inl error \<Rightarrow>
           if isinstance_any error [ValueError, OSError, SSLError] then
             error_exit env
               [''Error: Post-install HTTPS verification failed. The certificate '' @
                ''may already be active and requires manual investigation: '' @ exn_text error,
                ''No automatic rollback was attempted.'']
           else raise error
       | Inr _ \<Rightarrow>
           seq (print_lines env [''Live HTTPS certificate chain and hostname verified.'',
             ''Live HTTPS certificate matches the installed certificate.'',
             ''Certificate installation verified successfully.''])
             (ret EXIT_OK))"

definition explicit_install ::
  "'w env \<Rightarrow> cli_args \<Rightarrow> switch \<Rightarrow> json \<Rightarrow> opnsense_settings \<Rightarrow> ca_snapshot \<Rightarrow> string \<Rightarrow> ('w, int) io" where
  "explicit_install env args sw csr opnsense snapshot certificate_pem =
     bind (outcome_of (install_pending_certificate env False sw (given (arg_certificate_name args))
         certificate_pem csr (os_lifetime_days opnsense) snapshot (os_digest opnsense) None)) (\<lambda>r.
       case r of
         Inl error \<Rightarrow>
           if isinstance error CertificateInstallationAttemptError then
             error_exit env [''Error: Post-install failure: '' @ exn_text error,
               ''No automatic rollback was attempted; inspect the switch manually.'']
           else if isinstance_any error [ValueError, OSError] then
             error_exit env (pre_install_lines error)
           else raise error
       | Inr cert \<Rightarrow>
           seq (print_lines env
             [''Certificate validated against pending CSR for '' @ sw_name sw @ ''.'',
              ''Signed certificate installed on '' @ sw_name sw @ ''.''])
             (explicit_live env sw snapshot cert))"

definition explicit_sign ::
  "'w env \<Rightarrow> cli_args \<Rightarrow> switch \<Rightarrow> json \<Rightarrow> opnsense_settings \<Rightarrow> ('w, int) io" where
  "explicit_sign env args sw csr opnsense =
     try_except
       (bind (sign_pending_csr env False sw (given (arg_certificate_name args)) csr opnsense None)
         (\<lambda>certificate_pem.
        seq (write_certificate env certificate_pem (given (arg_certificate_output args)))
       (seq (print_lines env
           [''Pending CSR signed and issued certificate validated for '' @ sw_name sw @ ''.'',
            ''The certificate has not been installed on the switch.''])
         (ret EXIT_OK))))
       (report_error env)"

text \<open>The CSR could not be written.\<close>

definition csr_not_written :: "cli_args \<Rightarrow> exn \<Rightarrow> ('w, unit) io" where
  "csr_not_written args error =
     (if isinstance error OSError then
        (if arg_generate_csr args then
           fail CSRGenerationError (''CSR was generated and validated but could not be written '' @
             ''to '' @ given (arg_csr_output args) @ '': '' @ exn_text error @
             ''. The pending CSR remains on '' @ ''the switch and can be retrieved again'')
         else
           fail ValueError (''CSR was retrieved and validated but could not be written '' @
             ''to '' @ given (arg_csr_output args) @ '': '' @ exn_text error))
      else raise error)"

definition explicit_csr :: "'w env \<Rightarrow> cli_args \<Rightarrow> switch \<Rightarrow> json \<Rightarrow> ('w, int) io" where
  "explicit_csr env args sw csr =
     try_except
       (bind (if arg_generate_csr args then
            bind (generate_csr env sw (given (arg_certificate_name args)) csr) (\<lambda>csr_pem.
              seq (print_terminal env (''CSR generated and validated for '' @ sw_name sw @ ''.'')) (ret csr_pem))
          else
            bind (retrieve_csr env False sw (given (arg_certificate_name args)) csr) (\<lambda>csr_pem.
              seq (print_terminal env (''Pending CSR retrieved and validated for '' @ sw_name sw @ ''.''))
                (ret csr_pem))) (\<lambda>csr_pem.
        seq (try_except (write_or_print_csr env csr_pem (arg_csr_output args)) (csr_not_written args))
          (ret EXIT_OK)))
       (report_error env)"

definition run_explicit_operation ::
  "'w env \<Rightarrow> cli_args \<Rightarrow> switch \<Rightarrow> run_settings \<Rightarrow> ('w, int) io" where
  "run_explicit_operation env args sw settings =
     bind (if arg_renew args \<or> arg_install_certificate args then
         bind (lift (require_verification_ca_snapshot (run_ca settings))) (\<lambda>_. ret ())
       else ret ()) (\<lambda>_.
     bind (outcome_of (get_switch_credentials env sw (arg_config args) True)) (\<lambda>credentials.
       case credentials of
         Inl error \<Rightarrow>
           if isinstance error ValueError then error_exit env [''Error: '' @ exn_text error] else raise error
       | Inr _ \<Rightarrow>
           if arg_renew args then
             loaded (run_opnsense settings) (\<lambda>opnsense. loaded (run_ca settings) (\<lambda>snapshot.
               explicit_renew env sw (run_csr settings) opnsense snapshot))
           else if arg_install_certificate args then
             loaded (run_opnsense settings) (\<lambda>opnsense. loaded (run_ca settings) (\<lambda>snapshot.
             loaded (run_certificate_pem settings) (\<lambda>certificate_pem.
               explicit_install env args sw (run_csr settings) opnsense snapshot certificate_pem)))
           else if arg_sign_csr args then
             loaded (run_opnsense settings) (\<lambda>opnsense. explicit_sign env args sw (run_csr settings) opnsense)
           else explicit_csr env args sw (run_csr settings)))"

text \<open>The operation under the lock, and what is printed of an exception of the lock.\<close>

definition explicit_release_line :: "int option \<Rightarrow> string" where
  "explicit_release_line body_result =
     (if body_result = Some EXIT_OK then
        ''Error: Command body completed before lifecycle lock release '' @
        ''failed. The operation may already have changed device state; '' @
        ''inspect it before retry. No automatic retry, cleanup, or '' @ ''rollback was attempted.''
      else if body_result = Some EXIT_ERROR then
        ''Error: Operation had already reported an error; lifecycle lock '' @
        ''release also failed. Inspect local lifecycle lock state before '' @
        ''retry. No automatic retry, cleanup, or rollback was attempted.''
      else
        ''Error: Lifecycle lock release failed; command body outcome '' @
        ''could not be confirmed. Inspect device state before retry. '' @
        ''No automatic retry, cleanup, or rollback was attempted.'')"

definition explicit_failed :: "'w env \<Rightarrow> exn \<Rightarrow> ('w, int) io" where
  "explicit_failed env error =
     (if isinstance error LifecycleLockReleaseError then
        bind (gets body_exit) (\<lambda>body_result. error_exit env [explicit_release_line body_result])
      else if isinstance error LifecycleLockError then error_exit env [''Error: '' @ exn_text error]
      else raise error)"

definition run_explicit :: "'w env \<Rightarrow> cli_args \<Rightarrow> switch \<Rightarrow> run_settings \<Rightarrow> ('w, int) io" where
  "run_explicit env args sw settings =
     seq (modify (\<lambda>s. s\<lparr>body_exit := None\<rparr>))
       (try_except
         (if arg_renew args \<or> arg_install_certificate args \<or> arg_sign_csr args \<or> arg_generate_csr args then
            lifecycle_lock env (sw_host sw)
              (bind (run_explicit_operation env args sw settings) (\<lambda>exit_code.
               seq (modify (\<lambda>s. s\<lparr>body_exit := Some exit_code\<rparr>)) (ret exit_code)))
          else run_explicit_operation env args sw settings)
         (explicit_failed env))"

section \<open>The check of all switches\<close>

definition check_failed :: "'w env \<Rightarrow> switch \<Rightarrow> exn \<Rightarrow> ('w, string) io" where
  "check_failed env sw error =
     (if isinstance error ValueError then
        seq (print_switch_heading env sw)
       (seq (print_lines env [''Status:           ERROR'', ''Reason:           '' @ exn_text error])
         (ret ''error''))
      else raise error)"

definition check_one :: "'w env \<Rightarrow> string \<Rightarrow> int \<Rightarrow> switch \<Rightarrow> ('w, string) io" where
  "check_one env config_file warning_days sw =
     bind (outcome_of (get_switch_credentials env sw config_file True)) (\<lambda>credentials.
       case credentials of
         Inl error \<Rightarrow> check_failed env sw error
       | Inr _ \<Rightarrow> try_except (check_switch env sw warning_days) (check_failed env sw))"

fun check_switches :: "'w env \<Rightarrow> string \<Rightarrow> int \<Rightarrow> switch list \<Rightarrow> ('w, string list) io" where
  "check_switches env config_file warning_days [] = ret []"
| "check_switches env config_file warning_days (sw # sws) =
     bind (check_one env config_file warning_days sw) (\<lambda>status.
     bind (check_switches env config_file warning_days sws) (\<lambda>results.
       ret (status # results)))"

definition check_all :: "'w env \<Rightarrow> string \<Rightarrow> int \<Rightarrow> switch list \<Rightarrow> ('w, int) io" where
  "check_all env config_file warning_days switches =
     seq (print_run_start env ''Aruba certificate check'')
    (bind (check_switches env config_file warning_days switches) (\<lambda>results.
     seq (print_summary env results)
       (ret (get_exit_code results))))"

section \<open>The program\<close>

text \<open>
  After \<^verbatim>\<open>validate_cli_args\<close> at most one operation flag is set, so that the conditions on the flags
  are conditions on the operation.
\<close>

definition human_main :: "'w env \<Rightarrow> (exc_class \<Rightarrow> string) \<Rightarrow> cli_args \<Rightarrow> ('w, int) io" where
  "human_main env class_name args =
     bind (outcome_of (startup env args (json_operation args))) (\<lambda>started.
       case started of
         Inl error \<Rightarrow>
           if isinstance error ValueError then error_exit env [''Error: '' @ exn_text error] else raise error
       | Inr (warning_days, switches, settings) \<Rightarrow>
           if arg_renew_due args then
             renew_due_certificates env class_name switches (arg_config args) warning_days settings
           else if json_operation args \<noteq> Inspect then
             (case switches of
                [] \<Rightarrow> fail Exception ''list index out of range''
              | sw # _ \<Rightarrow> run_explicit env args sw settings)
           else check_all env (arg_config args) warning_days switches)"

text \<open>\<^verbatim>\<open>main\<close>: the structured run or this one.\<close>

definition main ::
  "'w env \<Rightarrow> string \<Rightarrow> ('w \<Rightarrow> string) \<Rightarrow> (exc_class \<Rightarrow> string) \<Rightarrow> cli_args \<Rightarrow> ('w, int) io" where
  "main env attempt utc_now class_name args =
     (if arg_json args then json_main env attempt utc_now args else human_main env class_name args)"

end
