(* ===== verification/HumanEffects.thy ===== *)
theory HumanEffects
  imports HumanRun
begin

text \<open>
  What a run without \<^verbatim>\<open>--output json\<close> does to the switches and the certificate authority, and that the
  verdicts it counts are true.  The interfaces \<open>human_law\<close> and \<open>human_change_law\<close> extend those of a
  renewal by the lines printed, the credentials asked for and the local variables of \<^verbatim>\<open>main\<close>.
\<close>

section \<open>What the lines printed and the credentials leave alone\<close>

definition human_action :: "action \<Rightarrow> bool" where
  "human_action a = (reads_only a \<or> asks_operator a)"

lemma human_action_harmless: "human_action a \<Longrightarrow> harmless a"
  by (cases a) (simp_all add: human_action_def reads_only_def harmless_def)

text \<open>
  A property that neither reading actions and prompts nor the local variables of \<^verbatim>\<open>main\<close> touch,
  through the parts that only look, print and ask.
\<close>

locale human_law = read_law J for J :: "'w st \<Rightarrow> bool" +
  assumes looking: "closed_under human_action J"
    and locals: "J s \<Longrightarrow> J (s\<lparr>switch_verdict := v, body_exit := b\<rparr>)"
begin

lemma keeps_shown: "keeps J (print_terminal env t)" "keeps J (print_error env t)"
  by (intro keeps_print [OF looking] keeps_print_error [OF looking];
      simp add: human_action_def reads_only_def harmless_def)+

lemma keeps_locals: "keeps J (verdict v)" "keeps J (modify (\<lambda>s. s\<lparr>body_exit := b\<rparr>))"
proof -
  have "J (s\<lparr>switch_verdict := v\<rparr>)" "J (s\<lparr>body_exit := b\<rparr>)" if "J s" for s
    using locals [OF that, where v = v and b = "body_exit s"]
      locals [OF that, where v = "switch_verdict s" and b = b] by simp_all
  then show "keeps J (verdict v)" "keeps J (modify (\<lambda>s. s\<lparr>body_exit := b\<rparr>))"
    unfolding verdict_def by (auto intro: keeps_modify)
qed

lemma keeps_lines: "keeps J (print_lines env ls)" "keeps J (print_errors env ls)"
  by (induction ls) (simp_all add: keeps_intros keeps_shown)

lemma keeps_asking: "keeps J (get_switch_credentials env sw config_file b)"
proof -
  have ask: "keeps J (act_text env (Prompt t))" "keeps J (act_text env (Getpass t))" for t
    by (intro keeps_actions [OF looking]; simp add: human_action_def)+
  show ?thesis
    unfolding get_switch_credentials_def ask_username_def ask_password_def read_password_file_def Let_def
    by (intro keeps_intros keeps_open_secure_file keeps_actions [OF session] session ask; simp)
qed

lemmas keeps_human = keeps_intros keeps_shown keeps_locals keeps_lines keeps_asking

lemma keeps_reports:
  "keeps J (no_renewal env reason)" "keeps J (report_renewal_failure env e)" "keeps J (error_exit env ls)"
  "keeps J (report_error env e)" "keeps J (explicit_failed env e)" "keeps J (renew_due_failed env sw e)"
  "keeps J (csr_not_written args e)"
  unfolding no_renewal_def report_renewal_failure_def error_exit_def report_error_def explicit_failed_def
    renew_due_failed_def csr_not_written_def print_switch_heading_def Let_def
  by (intro keeps_human)+

lemma keeps_written: "keeps J (write_or_print_csr env csr output)" "keeps J (write_certificate env pem path)"
  unfolding write_or_print_csr_def write_certificate_def
  by (intro keeps_human keeps_actions [OF reading]; simp add: reads_only_def harmless_def)+

lemma keeps_part: "(\<And>x. keeps J (f x)) \<Longrightarrow> keeps J (loaded part f)"
  unfolding loaded_def by (intro keeps_human)

text \<open>The retrieval of a CSR changes nothing either.\<close>

lemma keeps_retrieval_run:
  assumes "\<not> arg_renew args" "\<not> arg_install_certificate args" "\<not> arg_sign_csr args" "\<not> arg_generate_csr args"
  shows "keeps J (run_explicit_operation env args sw settings)"
  using assms unfolding run_explicit_operation_def explicit_csr_def
  by (simp add: keeps_human keeps_reports keeps_written keeps_retrieve)

end

text \<open>The operations of an explicit run and of \<^verbatim>\<open>--renew-due\<close>.\<close>

locale human_change_law = human_law J + run_law J for J :: "'w st \<Rightarrow> bool"
begin

lemma keeps_explicit: "keeps J (run_explicit_operation env args sw settings)"
proof -
  have install: "keeps J (explicit_install env args sw csr opnsense snapshot pem)" for csr opnsense snapshot pem
    unfolding explicit_install_def explicit_live_def
    by (intro keeps_human keeps_reports keeps_install keeps_live)
  have others: "keeps J (explicit_renew env sw csr opnsense snapshot)" "keeps J (explicit_sign env args sw csr opnsense)"
      "keeps J (explicit_csr env args sw csr)" for csr opnsense snapshot
    unfolding explicit_renew_def explicit_sign_def explicit_csr_def
    by (intro keeps_human keeps_reports keeps_written keeps_renew keeps_sign keeps_generate keeps_retrieve)+
  show ?thesis
    unfolding run_explicit_operation_def
    by (intro keeps_human keeps_reports keeps_part install others)
qed

lemma keeps_due_body: "keeps J (renew_due_body env class_name warning_days csr opnsense snapshot sw)"
  unfolding renew_due_body_def renew_one_def
  by (intro keeps_human keeps_reports keeps_check keeps_renew)

end

interpretation held_human: human_change_law "lock_held env host s0" for env :: "'w env" and host s0
  by unfold_locales (auto intro: lock_held_closed elim: lock_held_trace)

interpretation quiet_human: human_law "appends harmless s0" for s0
proof unfold_locales
  show "closed_under human_action (appends harmless s0)"
    by (rule closed_under_weaken [OF appends_closed human_action_harmless])
qed (simp add: appends_def)

text \<open>Either nothing happened yet, or the lock is held.\<close>

abbreviation safe_since :: "'w env \<Rightarrow> string \<Rightarrow> 'w st \<Rightarrow> 'w st \<Rightarrow> bool" where
  "safe_since env host s0 s \<equiv> quiet_since s0 s \<or> lock_held env host s0 s"

lemma keeps_either: "keeps J m \<Longrightarrow> keeps K m \<Longrightarrow> keeps (\<lambda>s. J s \<or> K s) m"
  unfolding keeps_def by (auto intro: post_mono)

lemma safe_around:
  assumes "triple (quiet_since s0) m (\<lambda>_. safe_since env host s0) (\<lambda>_. safe_since env host s0)"
    and "\<And>e. keeps (safe_since env host s0) (h e)"
  shows "triple (quiet_since s0) (try_except m h) (\<lambda>_. safe_since env host s0) (\<lambda>_. safe_since env host s0)"
  by (rule triple_try_except [OF assms(1) triple_keeps [OF assms(2)]])

lemma due_switch_safe:
  "triple (quiet_since s0) (renew_due_switch env class_name config_file warning_days csr opnsense snapshot sw)
     (\<lambda>_. safe_since env (sw_host sw) s0) (\<lambda>_. safe_since env (sw_host sw) s0)"
proof -
  have refused: "triple (quiet_since s0) (if isinstance e ValueError then
        seq (print_switch_heading env sw) (no_renewal env (exn_text e))
      else if isinstance e Exception then
        seq (print_switch_heading env sw) (no_renewal env ''Unexpected credential resolution failure'')
      else raise e) (\<lambda>_. safe_since env (sw_host sw) s0) (\<lambda>_. safe_since env (sw_host sw) s0)" for e
    by (rule triple_weaken [OF triple_keeps [where A = "quiet_since s0" and X = "\<lambda>_. quiet_since s0"]],
        unfold print_switch_heading_def Let_def)
       (auto intro!: quiet_human.keeps_human quiet_human.keeps_reports)
  have attempt: "triple (quiet_since s0) (case r of
        Inl e \<Rightarrow>
          if isinstance e ValueError then
            seq (print_switch_heading env sw) (no_renewal env (exn_text e))
          else if isinstance e Exception then
            seq (print_switch_heading env sw) (no_renewal env ''Unexpected credential resolution failure'')
          else raise e
      | Inr u \<Rightarrow> lifecycle_lock env (sw_host sw)
          (renew_due_body env class_name warning_days csr opnsense snapshot sw))
      (\<lambda>_. safe_since env (sw_host sw) s0) (\<lambda>_. safe_since env (sw_host sw) s0)"
    for r :: "(string \<times> string) res"
    by (cases r; simp only: sum.case) (rule refused locked_body [OF held_human.keeps_due_body])+
  have failed: "keeps (safe_since env (sw_host sw) s0) (renew_due_failed env sw e)" for e
    by (intro keeps_either quiet_human.keeps_reports held_human.keeps_reports)
  show ?thesis
    unfolding renew_due_switch_def
    by (intro triple_seq_keeps [OF quiet_human.keeps_locals(1)] safe_around triple_bind_keeps keeps_outcome_of
        quiet_human.keeps_asking failed attempt) auto
qed

lemma explicit_safe:
  "triple (quiet_since s0) (run_explicit env args sw settings)
     (\<lambda>_. safe_since env (sw_host sw) s0) (\<lambda>_. safe_since env (sw_host sw) s0)"
proof -
  have failed: "keeps (safe_since env (sw_host sw) s0) (explicit_failed env e)" for e
    by (intro keeps_either quiet_human.keeps_reports held_human.keeps_reports)
  have locked: "keeps (lock_held env (sw_host sw) s0) (bind (run_explicit_operation env args sw settings) (\<lambda>exit_code.
      seq (modify (\<lambda>s. s\<lparr>body_exit := Some exit_code\<rparr>)) (ret exit_code)))"
    by (intro held_human.keeps_human held_human.keeps_explicit)
  have unlocked: "triple (quiet_since s0) (run_explicit_operation env args sw settings)
      (\<lambda>_. safe_since env (sw_host sw) s0) (\<lambda>_. safe_since env (sw_host sw) s0)"
    if "\<not> (arg_renew args \<or> arg_install_certificate args \<or> arg_sign_csr args \<or> arg_generate_csr args)"
    using that
    by (intro triple_weaken [OF triple_keeps [where A = "quiet_since s0" and X = "\<lambda>_. quiet_since s0",
          OF quiet_human.keeps_retrieval_run]]) auto
  show ?thesis
    unfolding run_explicit_def
    by (intro triple_seq_keeps [OF quiet_human.keeps_locals(2)] safe_around triple_cond locked_body [OF locked]
        unlocked failed) auto
qed


section \<open>The verdicts of \<^verbatim>\<open>--renew-due\<close>\<close>

text \<open>A switch counted as renewed is renewed, and one counted as healthy was left alone.\<close>

definition truthful_verdict ::
  "'w env \<Rightarrow> int \<Rightarrow> json \<Rightarrow> opnsense_settings \<Rightarrow> ca_snapshot \<Rightarrow> switch \<Rightarrow> 'w st \<Rightarrow> 'w st \<Rightarrow> bool" where
  "truthful_verdict env warning_days csr opnsense snapshot sw s0 s =
     (if switch_verdict s = Some ''renewed'' then
        renewed_since env sw csr opnsense snapshot (Some warning_days) s0 s
      else if switch_verdict s = Some ''healthy'' then quiet_since s0 s
      else True)"

lemma keeps_both: "keeps J m \<Longrightarrow> keeps K m \<Longrightarrow> keeps (\<lambda>s. J s \<and> K s) m"
  unfolding keeps_def by (auto intro: post_conj)

interpretation idle_human: human_law "idle_since s0" for s0
proof unfold_locales
  show "closed_under human_action (idle_since s0)"
    by (rule closed_under_weaken [OF idle_closed]) (auto dest: human_action_harmless simp: harmless_def)
qed (simp add: idle_since_def in_phase_def)

abbreviation at_rest :: "'w st \<Rightarrow> 'w st \<Rightarrow> bool" where
  "at_rest s0 s \<equiv> idle_since s0 s \<and> quiet_since s0 s"

lemma verdict_error:
  "triple (\<lambda>_. True) (verdict (Some ''error'')) (\<lambda>_. truthful_verdict env warning_days csr opnsense snapshot sw s0) X"
  unfolding verdict_def by (rule triple_modify) (simp add: truthful_verdict_def)

lemma ends_in_error:
  "triple (\<lambda>_. True) (seq m (verdict (Some ''error'')))
     (\<lambda>_. truthful_verdict env warning_days csr opnsense snapshot sw s0) (\<lambda>_ _. True)"
  by (rule triple_seq [OF _ verdict_error], rule triple_keeps) (simp_all add: keeps_def post_def)

lemma no_renewal_error:
  "triple (\<lambda>_. True) (no_renewal env reason)
     (\<lambda>_. truthful_verdict env warning_days csr opnsense snapshot sw s0) (\<lambda>_ _. True)"
  unfolding no_renewal_def by (rule ends_in_error)

lemma renewed_trace:
  "renewed_since env sw csr opnsense snapshot remaining s0 s \<Longrightarrow> trace t = trace s \<Longrightarrow>
     renewed_since env sw csr opnsense snapshot remaining s0 t"
  by (simp add: renewed_since_def presented_def)

lemma renew_one_verdict:
  "triple (idle_since s0) (renew_one env class_name warning_days csr opnsense snapshot sw)
     (\<lambda>_. truthful_verdict env warning_days csr opnsense snapshot sw s0) (\<lambda>_ _. True)"
proof -
  have ended: "triple (\<lambda>s. case r of Inl e \<Rightarrow> True
        | Inr x \<Rightarrow> renewed_since env sw csr opnsense snapshot (Some warning_days) s0 s)
      (case r of
         Inl error \<Rightarrow>
           if isinstance_any error RENEWAL_FAILURE_TYPES then
             seq (report_renewal_failure env error) (verdict (Some ''error''))
           else if isinstance error Exception then
             seq (print_errors env (unexpected_lines class_name error)) (verdict (Some ''error''))
           else raise error
       | Inr _ \<Rightarrow> verdict (Some ''renewed''))
      (\<lambda>_. truthful_verdict env warning_days csr opnsense snapshot sw s0) (\<lambda>_ _. True)" for r :: "string res"
  proof (cases r)
    case (Inl e)
    then show ?thesis by (simp only: sum.case) (intro triple_cond ends_in_error triple_raise TrueI)
  next
    case (Inr x)
    then show ?thesis
      by (simp only: sum.case verdict_def)
         (rule triple_modify, auto simp: truthful_verdict_def elim: renewed_trace)
  qed
  show ?thesis
    unfolding renew_one_def by (rule triple_bind [OF triple_outcome_of [OF renew_renewed] ended])
qed

lemma due_body_verdict:
  "triple (at_rest s0) (renew_due_body env class_name warning_days csr opnsense snapshot sw)
     (\<lambda>_. truthful_verdict env warning_days csr opnsense snapshot sw s0) (\<lambda>_ _. True)"
proof -
  have check: "keeps (at_rest s0) (outcome_of (check_switch env sw warning_days))"
    by (intro keeps_outcome_of keeps_both idle.keeps_check quiet.keeps_check)
  have shown: "keeps (at_rest s0) (print_terminal env t)" for t
    by (intro keeps_both idle_human.keeps_shown quiet_human.keeps_shown)
  have healthy: "triple (at_rest s0) (verdict (Some ''healthy''))
      (\<lambda>_. truthful_verdict env warning_days csr opnsense snapshot sw s0) (\<lambda>_ _. True)"
    unfolding verdict_def by (rule triple_modify) (simp add: truthful_verdict_def appends_def)
  have renew: "triple (at_rest s0) (renew_one env class_name warning_days csr opnsense snapshot sw)
      (\<lambda>_. truthful_verdict env warning_days csr opnsense snapshot sw s0) (\<lambda>_ _. True)"
    by (rule triple_weaken [OF renew_one_verdict]) auto
  have anyway: "triple (at_rest s0) m B (\<lambda>_ _. True)" if "triple (\<lambda>_. True) m B (\<lambda>_ _. True)"
    for m :: "('a, unit) io" and B
    by (rule triple_weaken [OF that]) auto
  have branches: "triple (at_rest s0) (case r of
         Inl error \<Rightarrow>
           if isinstance error Exception then no_renewal env (exn_text error) else raise error
       | Inr status \<Rightarrow>
           if status = ''ok'' then
             seq (print_terminal env ''Action:           No renewal required'') (verdict (Some ''healthy''))
           else if status \<noteq> ''renewal_due'' \<and> status \<noteq> ''expired'' then
             seq (print_terminal env ''Action:           No renewal attempted'') (verdict (Some ''error''))
           else
             seq (print_terminal env ''Action:           Renewing certificate'')
               (renew_one env class_name warning_days csr opnsense snapshot sw))
      (\<lambda>_. truthful_verdict env warning_days csr opnsense snapshot sw s0) (\<lambda>_ _. True)" for r :: "string res"
  proof (cases r)
    case (Inl e)
    then show ?thesis
      by (simp only: sum.case) (intro triple_cond anyway [OF no_renewal_error] triple_raise TrueI)
  next
    case (Inr status)
    then show ?thesis
      by (simp only: sum.case)
         (intro triple_cond anyway [OF ends_in_error] triple_seq_keeps [OF shown] healthy renew TrueI)
  qed
  show ?thesis
    unfolding renew_due_body_def by (rule triple_bind_keeps [OF check TrueI branches])
qed

lemma truthful_verdict_closed:
  "closed_under harmless (truthful_verdict env warning_days csr opnsense snapshot sw s0)"
proof -
  note renewed = renewed_closed [unfolded closed_under_def, rule_format, OF TrueI]
  have verdict_kept: "switch_verdict (record_event e s) = switch_verdict s" for e and s :: "'a st"
    by (simp add: record_event_def)
  show ?thesis
    using renewed appends_closed [where P = harmless and s = s0]
    unfolding closed_under_def truthful_verdict_def by (auto simp: verdict_kept)
qed

lemma due_switch_verdict:
  "triple (at_rest s0) (renew_due_switch env class_name config_file warning_days csr opnsense snapshot sw)
     (\<lambda>_. truthful_verdict env warning_days csr opnsense snapshot sw s0) (\<lambda>_ _. True)"
proof -
  let ?ok = "truthful_verdict env warning_days csr opnsense snapshot sw s0"
  have start: "keeps (at_rest s0) (verdict None)"
    by (intro keeps_both idle_human.keeps_locals quiet_human.keeps_locals)
  have asked: "keeps (at_rest s0) (outcome_of (get_switch_credentials env sw config_file True))"
    by (intro keeps_outcome_of keeps_both idle_human.keeps_asking quiet_human.keeps_asking)
  have locked: "triple (at_rest s0) (lifecycle_lock env (sw_host sw)
      (renew_due_body env class_name warning_days csr opnsense snapshot sw)) (\<lambda>_. ?ok) (\<lambda>_ _. True)"
  proof (rule triple_lock [OF _ _ _ due_body_verdict])
    show "closed_under lock_action (at_rest s0)"
      by (intro closed_under_conj closed_under_weaken [OF idle_closed]
          closed_under_weaken [OF appends_closed lock_action_harmless])
         (auto dest: lock_action_harmless simp: harmless_def)
    show "closed_under lock_action ?ok"
      by (rule closed_under_weaken [OF truthful_verdict_closed lock_action_harmless])
  qed (simp_all add: closed_under_def)
  have error: "triple A (seq m (no_renewal env reason)) (\<lambda>_. ?ok) (\<lambda>_ _. True)" for A m reason
    by (rule triple_weaken [OF triple_seq [where B = "\<lambda>_. True", OF _ no_renewal_error]])
       (auto simp: triple_def post_def split: sum.split)
  have failed: "triple (\<lambda>_. True) (renew_due_failed env sw e) (\<lambda>_. ?ok) (\<lambda>_ _. True)" for e
    unfolding renew_due_failed_def
    by (intro triple_cond error triple_raise triple_seq [where B = "\<lambda>_. True"] triple_gets_any ends_in_error)
       (auto simp: triple_def post_def split: sum.split)
  have attempt: "triple (at_rest s0) (case r of
        Inl e \<Rightarrow>
          if isinstance e ValueError then
            seq (print_switch_heading env sw) (no_renewal env (exn_text e))
          else if isinstance e Exception then
            seq (print_switch_heading env sw) (no_renewal env ''Unexpected credential resolution failure'')
          else raise e
      | Inr u \<Rightarrow> lifecycle_lock env (sw_host sw)
          (renew_due_body env class_name warning_days csr opnsense snapshot sw))
      (\<lambda>_. ?ok) (\<lambda>_ _. True)" for r :: "(string \<times> string) res"
    by (cases r; simp only: sum.case) (intro triple_cond error triple_raise locked TrueI)+
  show ?thesis
    unfolding renew_due_switch_def
    by (intro triple_seq_keeps [OF start] triple_try_except [OF _ failed] triple_bind_keeps [OF asked] attempt TrueI)
qed

text \<open>
  C2.  The verdicts that \<^verbatim>\<open>--renew-due\<close> counts are true: a switch counted as renewed had a validated
  certificate installed through the whole dialogue and presented it live, and for one counted as
  healthy nothing was sent that could change it or ask the certificate authority for anything.
\<close>

theorem renew_due_verdict_true:
  "case renew_due_switch env class_name config_file warning_days csr opnsense snapshot sw s of
     (Inl e, s') \<Rightarrow> True
   | (Inr u, s') \<Rightarrow> truthful_verdict env warning_days csr opnsense snapshot sw s s'"
proof -
  obtain r s' where run:
      "renew_due_switch env class_name config_file warning_days csr opnsense snapshot sw s = (r, s')"
    by (cases "renew_due_switch env class_name config_file warning_days csr opnsense snapshot sw s")
  have "at_rest s s" by (simp add: idle_since_def in_phase_start)
  from tripleD [OF due_switch_verdict this run] run show ?thesis by (simp split: sum.split)
qed

end
