(* ===== verification/BoundedPacketizer.thy ===== *)
theory BoundedPacketizer
  imports Triples
begin

text \<open>
  The bounded SSH transport (\<^verbatim>\<open>src/bounded_paramiko.py\<close>): \<^verbatim>\<open>BoundedPacketizer\<close> holds the textual
  identification exchange and every binary packet to fixed limits.  Paramiko, its socket and the clock
  are the parameter \<open>'w peer\<close>; times are in milliseconds.  \<open>reads\<close> is not in the code: it lists the
  sizes that \<^verbatim>\<open>read_all\<close> handed on to Paramiko's own reading, and whether that read returned.
\<close>

section \<open>State\<close>

definition MAX_SSH_BANNER_LINE_BYTES :: int where "MAX_SSH_BANNER_LINE_BYTES = 255"

definition MAX_SSH_PRE_IDENTIFICATION_LINES :: int where "MAX_SSH_PRE_IDENTIFICATION_LINES = 99"

definition MAX_SSH_PREAUTH_TEXT_BYTES :: int where "MAX_SSH_PREAUTH_TEXT_BYTES = 25500"

definition MAX_SSH_PACKET_LENGTH :: int where "MAX_SSH_PACKET_LENGTH = 256 * 1024"

definition TEXT_READ_CHUNK_BYTES :: int where "TEXT_READ_CHUNK_BYTES = 128"

datatype phase = Header | Body | Mac | Complete

datatype packet_mode = Classic | Etm | Aead

text \<open>
  The attributes of Paramiko's packetizer that describe the inbound cipher; \<open>None\<close> is a value that
  is not of the type the code checks for.
\<close>

record inbound_cipher =
  block_size_in :: int
  mac_size_in :: "int option"
  etm_in :: "bool option"
  aead_in :: "bool option"

record 'w peer =
  socket_recv :: "int \<Rightarrow> 'w \<Rightarrow> string res \<times> 'w"
  clock :: "'w \<Rightarrow> int"
  packetizer_closed :: "'w \<Rightarrow> bool"
  close_packetizer :: "'w \<Rightarrow> unit res \<times> 'w"
  inbound :: "'w \<Rightarrow> inbound_cipher"
  vendor_read_all :: "int \<Rightarrow> bool \<Rightarrow> 'w \<Rightarrow> string res \<times> 'w"
  decode_text :: "string \<Rightarrow> string res"

record 'w packetizer =
  wire :: 'w
  remainder :: string
  text_bytes :: int
  pre_identification_lines :: int
  banner_limit_exceeded :: bool
  binary_packet_limit_exceeded :: bool
  packet_phase :: "phase option"
  packet_mode :: "packet_mode option"
  packet_block :: "int option"
  packet_mac :: "int option"
  packet_clear_length :: "int option"
  reads :: "(int \<times> bool) list"

type_synonym ('w, 'a) transport = "('w packetizer, 'a) eff"

definition new_packetizer :: "'w \<Rightarrow> 'w packetizer" where
  "new_packetizer w =
     \<lparr>wire = w, remainder = [], text_bytes = 0, pre_identification_lines = 0,
      banner_limit_exceeded = False, binary_packet_limit_exceeded = False, packet_phase = None,
      packet_mode = None, packet_block = None, packet_mac = None, packet_clear_length = None,
      reads = []\<rparr>"

text \<open>A call of the socket, of Paramiko or of the packetizer itself, which answers from the world.\<close>

definition on_wire :: "('w \<Rightarrow> 'a res \<times> 'w) \<Rightarrow> ('w, 'a) transport" where
  "on_wire f = (\<lambda>s. case f (wire s) of (r, w) \<Rightarrow> (r, s\<lparr>wire := w\<rparr>))"

section \<open>Identification lines\<close>

definition banner_limit :: "('w, 'a) transport" where
  "banner_limit =
     seq (modify (\<lambda>s. s\<lparr>banner_limit_exceeded := True\<rparr>))
       (raise (new_exn SSHBannerLimitError ''SSH banner resource limit exceeded''))"

text \<open>The length of what is taken of the bytes at hand: up to the newline, if there is one.\<close>

definition line_part :: "string \<Rightarrow> string" where
  "line_part buf =
     (if newline \<in> set buf then takeWhile (\<lambda>c. c \<noteq> newline) buf @ [newline] else buf)"

text \<open>
  The bytes at hand, taken into the line: the line is complete (\<open>True\<close>) when they hold a newline, and
  the bytes after it are kept for the next line.
\<close>

definition take_text :: "string \<Rightarrow> string \<Rightarrow> ('w, string \<times> bool) transport" where
  "take_text line buf =
     (if buf = [] then ret (line, False)
      else
        (let part = line_part buf; size = int (length part) in
         bind (gets text_bytes) (\<lambda>used.
           if size > MAX_SSH_BANNER_LINE_BYTES - int (length line)
              \<or> size > MAX_SSH_PREAUTH_TEXT_BYTES - used then banner_limit
           else
             seq (modify (\<lambda>s. s\<lparr>text_bytes := text_bytes s + size\<rparr>))
               (if newline \<in> set buf then
                  seq (modify (\<lambda>s. s\<lparr>remainder := drop (length part) buf\<rparr>)) (ret (line @ part, True))
                else ret (line @ part, False)))))"

text \<open>
  One \<^verbatim>\<open>recv\<close>: the bytes that came, or none with the time the wait began when the socket timed out
  and the wait goes on.
\<close>

definition receive_text ::
  "'w peer \<Rightarrow> int \<Rightarrow> int \<Rightarrow> int option \<Rightarrow> ('w, string \<times> int option) transport" where
  "receive_text peer timeout remaining start =
     bind (case start of None \<Rightarrow> gets (\<lambda>s. clock peer (wire s)) | Some t \<Rightarrow> ret t) (\<lambda>began.
     bind (outcome_of (on_wire (socket_recv peer (min TEXT_READ_CHUNK_BYTES remaining)))) (\<lambda>r.
       case r of
         Inl error \<Rightarrow>
           if isinstance error TimeoutError then
             bind (gets (\<lambda>s. packetizer_closed peer (wire s))) (\<lambda>closed.
             seq (check closed (new_exn EOFError ''''))
            (bind (gets (\<lambda>s. clock peer (wire s))) (\<lambda>now.
             seq (check (now - began \<ge> timeout) error)
               (ret ([], Some began)))))
           else raise error
       | Inr buf \<Rightarrow>
           seq (check (buf = []) (new_exn EOFError ''''))
          (bind (gets (\<lambda>s. packetizer_closed peer (wire s))) (\<lambda>closed.
           seq (check closed (new_exn EOFError ''''))
             (ret (buf, None))))))"

definition text_allowance :: "string \<Rightarrow> int \<Rightarrow> int" where
  "text_allowance line used =
     min (MAX_SSH_BANNER_LINE_BYTES - int (length line)) (MAX_SSH_PREAUTH_TEXT_BYTES - used)"

text \<open>The loop that gathers a line; \<open>None\<close> when the fuel is used up.\<close>

fun text_loop ::
  "nat \<Rightarrow> 'w peer \<Rightarrow> int \<Rightarrow> string \<Rightarrow> string \<Rightarrow> int option \<Rightarrow> ('w, string option) transport" where
  "text_loop 0 peer timeout line buf start = ret None"
| "text_loop (Suc fuel) peer timeout line buf start =
     bind (take_text line buf) (\<lambda>(line, complete).
       if complete then ret (Some line)
       else
         bind (gets text_bytes) (\<lambda>used.
           if text_allowance line used = 0 then banner_limit
           else
             bind (receive_text peer timeout (text_allowance line used) start) (\<lambda>(buf, start).
               text_loop fuel peer timeout line buf start)))"

definition text_rounds :: "int \<Rightarrow> nat" where
  "text_rounds timeout = 256 * (nat timeout + 2)"

text \<open>The line without its newline and a carriage return before it.\<close>

definition strip_line_end :: "string \<Rightarrow> string" where
  "strip_line_end line =
     (let raw = butlast line in if endswith raw [carriage_return] then butlast raw else raw)"

definition unending_line :: exn where
  "unending_line = new_exn BaseException ''the reading of a line did not end''"

definition packetizer_readline :: "'w peer \<Rightarrow> int \<Rightarrow> ('w, string) transport" where
  "packetizer_readline peer timeout =
     bind (gets remainder) (\<lambda>buf.
     seq (modify (\<lambda>s. s\<lparr>remainder := []\<rparr>))
    (bind (text_loop (text_rounds timeout) peer timeout [] buf None) (\<lambda>gathered.
       case gathered of
         None \<Rightarrow> raise unending_line
       | Some line \<Rightarrow>
           bind (lift (decode_text peer (strip_line_end line))) (\<lambda>decoded.
             if startswith decoded ''SSH-'' then ret decoded
             else
               bind (gets pre_identification_lines) (\<lambda>lines.
                 if lines \<ge> MAX_SSH_PRE_IDENTIFICATION_LINES then banner_limit
                 else
                   seq (modify (\<lambda>s. s\<lparr>pre_identification_lines := pre_identification_lines s + 1\<rparr>))
                     (ret decoded))))))"

section \<open>Binary packets\<close>

definition binary_limit :: "'w peer \<Rightarrow> ('w, 'a) transport" where
  "binary_limit peer =
     seq (modify (\<lambda>s. s\<lparr>binary_packet_limit_exceeded := True\<rparr>))
    (seq (try_except (on_wire (close_packetizer peer))
           (\<lambda>e. if isinstance e Exception then ret () else raise e))
       (raise (new_exn SSHBinaryPacketLimitError ''SSH binary packet resource limit exceeded'')))"

text \<open>Paramiko's \<^verbatim>\<open>Packetizer.read_all\<close>, noted in \<open>reads\<close>.\<close>

definition super_read_all :: "'w peer \<Rightarrow> int \<Rightarrow> bool \<Rightarrow> ('w, string) transport" where
  "super_read_all peer n check_rekey =
     bind (outcome_of (on_wire (vendor_read_all peer n check_rekey))) (\<lambda>r.
     seq (modify (\<lambda>s. s\<lparr>reads := reads s @ [(n, case r of Inl e \<Rightarrow> False | Inr x \<Rightarrow> True)]\<rparr>))
       (lift r))"

text \<open>What the code accepts as the state of an inbound cipher before a header.\<close>

definition header_refused :: "int \<Rightarrow> bool \<Rightarrow> inbound_cipher \<Rightarrow> bool" where
  "header_refused n check_rekey c =
     (\<not> check_rekey
      \<or> n \<noteq> block_size_in c
      \<or> block_size_in c \<notin> {8, 16}
      \<or> (case mac_size_in c of
           None \<Rightarrow> True
         | Some mac \<Rightarrow>
             \<not> (0 \<le> mac \<and> mac \<le> 64)
             \<or> (case (etm_in c, aead_in c) of
                  (Some etm, Some aead) \<Rightarrow> etm \<and> aead \<or> etm \<and> mac = 0 \<or> aead \<and> mac \<noteq> 16
                | _ \<Rightarrow> True)))"

definition mode_of :: "inbound_cipher \<Rightarrow> packet_mode" where
  "mode_of c =
     (if etm_in c = Some True then Etm else if aead_in c = Some True then Aead else Classic)"

text \<open>\<^verbatim>\<open>int.from_bytes(header[:4], "big")\<close>\<close>

definition big_endian :: "string \<Rightarrow> int" where
  "big_endian bs = foldl (\<lambda>n b. 256 * n + int (code b)) 0 bs"

definition read_header :: "'w peer \<Rightarrow> int \<Rightarrow> bool \<Rightarrow> ('w, string) transport" where
  "read_header peer n check_rekey =
     bind (gets (\<lambda>s. inbound peer (wire s))) (\<lambda>c.
       if header_refused n check_rekey c then binary_limit peer
       else
         bind (super_read_all peer n check_rekey) (\<lambda>header.
         seq (modify (\<lambda>s. s\<lparr>packet_block := Some (block_size_in c), packet_mac := mac_size_in c,
                packet_mode := Some (mode_of c)\<rparr>))
        (seq (if mode_of c = Classic then ret ()
              else
                seq (modify (\<lambda>s. s\<lparr>packet_clear_length := Some (big_endian (take 4 header))\<rparr>))
                  (if big_endian (take 4 header) > MAX_SSH_PACKET_LENGTH then binary_limit peer else ret ()))
        (seq (modify (\<lambda>s. s\<lparr>packet_phase := Some Body\<rparr>))
           (ret header)))))"

text \<open>The packet length field that a body request of \<open>n\<close> bytes implies.\<close>

definition length_field :: "int \<Rightarrow> int \<Rightarrow> int \<Rightarrow> packet_mode \<Rightarrow> int" where
  "length_field n block mac mode = n + block - 4 - (if mode = Etm then 0 else mac)"

definition read_body :: "'w peer \<Rightarrow> int \<Rightarrow> bool \<Rightarrow> ('w, string) transport" where
  "read_body peer n check_rekey =
     bind (gets (\<lambda>s. (packet_mode s, packet_block s, packet_mac s, packet_clear_length s))) (\<lambda>p.
       case p of
         (Some mode, Some block, Some mac, clear_length) \<Rightarrow>
           if check_rekey then binary_limit peer
           else
             (let field = length_field n block mac mode in
              if field < 5 \<or> field > MAX_SSH_PACKET_LENGTH
                 \<or> (clear_length \<noteq> None \<and> clear_length \<noteq> Some field) then binary_limit peer
              else
                bind (super_read_all peer n False) (\<lambda>body.
                seq (modify (\<lambda>s. s\<lparr>packet_phase := Some (if mode = Etm then Mac else Complete)\<rparr>))
                  (ret body)))
       | _ \<Rightarrow> binary_limit peer)"

definition read_mac :: "'w peer \<Rightarrow> int \<Rightarrow> bool \<Rightarrow> ('w, string) transport" where
  "read_mac peer n check_rekey =
     bind (gets packet_mac) (\<lambda>size.
       if check_rekey \<or> size \<noteq> Some n then binary_limit peer
       else
         bind (super_read_all peer n False) (\<lambda>mac.
         seq (modify (\<lambda>s. s\<lparr>packet_phase := Some Complete\<rparr>))
           (ret mac)))"

definition packetizer_read_all :: "'w peer \<Rightarrow> int \<Rightarrow> bool \<Rightarrow> ('w, string) transport" where
  "packetizer_read_all peer n check_rekey =
     bind (gets binary_packet_limit_exceeded) (\<lambda>exceeded.
       if exceeded \<or> n < 0 \<or> n > MAX_SSH_PACKET_LENGTH + 64 then binary_limit peer
       else
         bind (gets packet_phase) (\<lambda>phase.
           case phase of
             Some Header \<Rightarrow> read_header peer n check_rekey
           | Some Body \<Rightarrow> read_body peer n check_rekey
           | Some Mac \<Rightarrow> read_mac peer n check_rekey
           | Some Complete \<Rightarrow> binary_limit peer
           | None \<Rightarrow> if check_rekey then binary_limit peer else super_read_all peer n False))"

text \<open>
  Paramiko's \<^verbatim>\<open>Packetizer.read_message\<close> is not in the repository: it is any program that calls
  \<^verbatim>\<open>read_all\<close>, acts on what it returned or raised, and changes the world in between.
\<close>

datatype 'w vendor =
    Return "string res"
  | CallReadAll int bool "string res \<Rightarrow> 'w vendor"
  | Change "'w \<Rightarrow> 'w" "'w vendor"

primrec run_vendor :: "'w peer \<Rightarrow> 'w vendor \<Rightarrow> ('w, string) transport" where
  "run_vendor peer (Return r) = lift r"
| "run_vendor peer (CallReadAll n check_rekey k) =
     bind (outcome_of (packetizer_read_all peer n check_rekey)) (\<lambda>r. run_vendor peer (k r))"
| "run_vendor peer (Change f p) = seq (modify (\<lambda>s. s\<lparr>wire := f (wire s)\<rparr>)) (run_vendor peer p)"

definition forget_packet :: "'w packetizer \<Rightarrow> 'w packetizer" where
  "forget_packet s =
     s\<lparr>packet_phase := None, packet_mode := None, packet_block := None, packet_mac := None,
       packet_clear_length := None\<rparr>"

definition packetizer_read_message :: "'w peer \<Rightarrow> 'w vendor \<Rightarrow> ('w, string) transport" where
  "packetizer_read_message peer vendor =
     bind (gets (\<lambda>s. binary_packet_limit_exceeded s \<or> packet_phase s \<noteq> None)) (\<lambda>refused.
       if refused then binary_limit peer
       else
         seq (modify (\<lambda>s. s\<lparr>packet_phase := Some Header\<rparr>))
           (try_finally (run_vendor peer vendor) (\<lambda>failed. modify forget_packet)))"

section \<open>How much is read for one message\<close>

lemma post_on_wire [effect_simps]:
  "post (on_wire f) s Q = (case f (wire s) of (r, w) \<Rightarrow> Q r (s\<lparr>wire := w\<rparr>))"
  by (simp add: on_wire_def post_def split: prod.split)

definition paid :: "(int \<times> bool) list \<Rightarrow> int" where
  "paid rs = sum_list (map fst (filter snd rs))"

lemma paid_simps [simp]: "paid [] = 0" "paid (rs @ [(n, ok)]) = paid rs + (if ok then n else 0)"
  by (simp_all add: paid_def)

definition request_size :: "int \<Rightarrow> bool" where
  "request_size n = (0 \<le> n \<and> n \<le> MAX_SSH_PACKET_LENGTH + 64)"

abbreviation MESSAGE_BYTES :: int where
  "MESSAGE_BYTES \<equiv> 4 + MAX_SSH_PACKET_LENGTH + 64"

text \<open>What has been read of a message, by the phase of the packet.\<close>

definition phase_budget :: "'w packetizer \<Rightarrow> int \<Rightarrow> bool" where
  "phase_budget s amount =
     (if binary_packet_limit_exceeded s then amount \<le> MESSAGE_BYTES
      else
        (case packet_phase s of
           Some Header \<Rightarrow> amount = 0
         | Some Body \<Rightarrow>
             (case (packet_mode s, packet_block s, packet_mac s) of
                (Some mode, Some block, Some mac) \<Rightarrow>
                  block \<in> {8, 16} \<and> 0 \<le> mac \<and> mac \<le> 64 \<and> amount = block
              | _ \<Rightarrow> False)
         | Some Mac \<Rightarrow>
             (case packet_mac s of
                Some mac \<Rightarrow> 0 \<le> mac \<and> mac \<le> 64 \<and> amount \<le> 4 + MAX_SSH_PACKET_LENGTH
              | None \<Rightarrow> False)
         | Some Complete \<Rightarrow> amount \<le> MESSAGE_BYTES
         | None \<Rightarrow> False))"

definition message_budget :: "(int \<times> bool) list \<Rightarrow> 'w packetizer \<Rightarrow> bool" where
  "message_budget before s =
     (\<exists>new. reads s = before @ new \<and> list_all (\<lambda>(n, ok). request_size n) new \<and>
        phase_budget s (paid new))"

lemma phase_budget_total: "phase_budget s amount \<Longrightarrow> amount \<le> MESSAGE_BYTES"
  by (auto simp: phase_budget_def MAX_SSH_PACKET_LENGTH_def split: if_splits option.splits phase.splits)

lemma phase_budget_exceeded:
  "binary_packet_limit_exceeded s \<Longrightarrow> phase_budget s amount \<longleftrightarrow> amount \<le> MESSAGE_BYTES"
  by (simp add: phase_budget_def)

lemma phase_budget_frame [simp]:
  "phase_budget (s\<lparr>wire := w\<rparr>) = phase_budget s"
  "phase_budget (s\<lparr>reads := rs\<rparr>) = phase_budget s"
  by (rule ext, simp add: phase_budget_def split: option.split phase.split)+

lemma message_budget_limit: "keeps (message_budget before) (binary_limit peer)"
  unfolding binary_limit_def
  by (rule keepsI)
     (auto simp: effect_simps message_budget_def phase_budget_exceeded dest: phase_budget_total
       split: prod.split sum.split)

text \<open>A request to Paramiko, and what it leaves when it returns.\<close>

lemma message_budget_read:
  assumes "message_budget before s" and "request_size n"
    and "\<And>w new bs. reads s = before @ new \<Longrightarrow> phase_budget s (paid new) \<Longrightarrow>
      list_all (\<lambda>(n, ok). request_size n) new \<Longrightarrow>
      post (k bs) (s\<lparr>wire := w, reads := before @ new @ [(n, True)]\<rparr>) (\<lambda>r. message_budget before)"
  shows "post (bind (super_read_all peer n check_rekey) k) s (\<lambda>r. message_budget before)"
proof -
  from assms(1) obtain new where new: "reads s = before @ new"
      "list_all (\<lambda>(n, ok). request_size n) new" "phase_budget s (paid new)"
    by (auto simp: message_budget_def)
  have failed: "message_budget before (s\<lparr>wire := w, reads := before @ new @ [(n, False)]\<rparr>)" for w
    unfolding message_budget_def
    by (rule exI [where x = "new @ [(n, False)]"]) (use new assms(2) in simp)
  show ?thesis
    using new failed assms(3) [OF new(1,3,2)]
    by (simp add: super_read_all_def effect_simps split: prod.split sum.split)
qed

lemma limit_budget:
  assumes "reads s = before @ new" and "list_all (\<lambda>(n, ok). request_size n) new" and "paid new \<le> MESSAGE_BYTES"
  shows "post (binary_limit peer) s (\<lambda>r s'. isl r \<and> message_budget before s')"
  using assms
  by (auto simp: binary_limit_def effect_simps message_budget_def phase_budget_exceeded
      split: prod.split sum.split)

lemma post_limit: "message_budget before s \<Longrightarrow> post (binary_limit peer) s (\<lambda>r. message_budget before)"
  by (rule keeps_post [OF message_budget_limit])

lemma message_budgetI:
  "reads s = before @ new \<Longrightarrow> list_all (\<lambda>(n, ok). request_size n) new \<Longrightarrow> phase_budget s (paid new) \<Longrightarrow>
     message_budget before s"
  by (auto simp: message_budget_def)

lemma post_gets_bind: "post (k (f s)) s Q \<Longrightarrow> post (bind (gets f) k) s Q"
  by (simp add: effect_simps)

lemma header_budget:
  assumes "message_budget before s" and "\<not> binary_packet_limit_exceeded s"
    and "packet_phase s = Some Header" and "request_size n"
  shows "post (read_header peer n check_rekey) s (\<lambda>r. message_budget before)"
  unfolding read_header_def
proof (rule post_gets_bind)
  let ?c = "inbound peer (wire s)"
  show "post (if header_refused n check_rekey ?c then binary_limit peer
      else bind (super_read_all peer n check_rekey) (\<lambda>header.
         seq (modify (\<lambda>s. s\<lparr>packet_block := Some (block_size_in ?c), packet_mac := mac_size_in ?c,
                packet_mode := Some (mode_of ?c)\<rparr>))
        (seq (if mode_of ?c = Classic then ret ()
              else
                seq (modify (\<lambda>s. s\<lparr>packet_clear_length := Some (big_endian (take 4 header))\<rparr>))
                  (if big_endian (take 4 header) > MAX_SSH_PACKET_LENGTH then binary_limit peer else ret ()))
        (seq (modify (\<lambda>s. s\<lparr>packet_phase := Some Body\<rparr>))
           (ret header))))) s (\<lambda>r. message_budget before)"
  proof (cases "header_refused n check_rekey ?c")
    case True
    then show ?thesis by (simp add: post_limit [OF assms(1)])
  next
    case False
    then obtain mac where mac: "mac_size_in ?c = Some mac" "0 \<le> mac" "mac \<le> 64"
      and block: "n = block_size_in ?c" "block_size_in ?c \<in> {8, 16}"
      by (auto simp: header_refused_def split: option.splits)
    have small: "n \<le> MESSAGE_BYTES" and whole: "n \<in> {8, 16}"
      using block by (auto simp: MAX_SSH_PACKET_LENGTH_def)
    show ?thesis
      unfolding if_not_P [OF False]
    proof (rule message_budget_read [OF assms(1,4)])
      fix w new bs
      assume new: "reads s = before @ new" "phase_budget s (paid new)" "list_all (\<lambda>(n, ok). request_size n) new"
      with assms(2,3) have "paid new = 0" by (simp add: phase_budget_def)
      moreover have "list_all (\<lambda>(n, ok). request_size n) (new @ [(n, True)])" using new(3) assms(4) by simp
      moreover define t where "t = s\<lparr>wire := w, reads := before @ new @ [(n, True)],
          packet_block := Some n, packet_mac := Some mac, packet_mode := Some (mode_of ?c)\<rparr>"
      moreover have reads: "reads t = before @ (new @ [(n, True)])" by (simp add: t_def)
      ultimately have ready: "message_budget before (t\<lparr>packet_phase := Some Body\<rparr>)" 
         "message_budget before (t\<lparr>packet_clear_length := l, packet_phase := Some Body\<rparr>)"
         "post (binary_limit peer) (t\<lparr>packet_clear_length := l\<rparr>) (\<lambda>r s'. isl r \<and> message_budget before s')" for l
        using mac whole assms(2) small
        by (intro message_budgetI [where new = "new @ [(n, True)]"] limit_budget [where new = "new @ [(n, True)]"];
            force simp: phase_budget_def)+
      show "post (seq (modify (\<lambda>s. s\<lparr>packet_block := Some (block_size_in ?c), packet_mac := mac_size_in ?c,
                packet_mode := Some (mode_of ?c)\<rparr>))
        (seq (if mode_of ?c = Classic then ret ()
              else
                seq (modify (\<lambda>s. s\<lparr>packet_clear_length := Some (big_endian (take 4 bs))\<rparr>))
                  (if big_endian (take 4 bs) > MAX_SSH_PACKET_LENGTH then binary_limit peer else ret ()))
        (seq (modify (\<lambda>s. s\<lparr>packet_phase := Some Body\<rparr>))
           (ret bs)))) (s\<lparr>wire := w, reads := before @ new @ [(n, True)]\<rparr>) (\<lambda>r. message_budget before)"
        using ready(1) ready(2,3) [of "Some (big_endian (take 4 bs))"] block(1) mac(1)
        by (auto simp: effect_simps t_def elim!: post_mono split: sum.split)
    qed
  qed
qed

lemma body_budget:
  assumes "message_budget before s" and "\<not> binary_packet_limit_exceeded s"
    and "packet_phase s = Some Body" and "request_size n"
  shows "post (read_body peer n check_rekey) s (\<lambda>r. message_budget before)"
proof -
  from assms(1-3) obtain mode block mac where state: "packet_mode s = Some mode" "packet_block s = Some block"
      "packet_mac s = Some mac" and sizes: "block \<in> {8, 16}" "0 \<le> mac" "mac \<le> 64"
    by (auto simp: message_budget_def phase_budget_def split: option.splits)
  define refused where "refused = (let field = length_field n block mac mode in
      field < 5 \<or> field > MAX_SSH_PACKET_LENGTH
        \<or> (packet_clear_length s \<noteq> None \<and> packet_clear_length s \<noteq> Some field))"
  have read: "post (bind (super_read_all peer n False) (\<lambda>body.
        seq (modify (\<lambda>s. s\<lparr>packet_phase := Some (if mode = Etm then Mac else Complete)\<rparr>)) (ret body)))
      s (\<lambda>r. message_budget before)" if "\<not> refused"
  proof (rule message_budget_read [OF assms(1,4)])
    fix w new bs
    assume new: "reads s = before @ new" "phase_budget s (paid new)" "list_all (\<lambda>(n, ok). request_size n) new"
    with assms(2,3) state have "paid new = block" by (simp add: phase_budget_def)
    with that sizes have "phase_budget (s\<lparr>wire := w, reads := before @ new @ [(n, True)],
          packet_phase := Some (if mode = Etm then Mac else Complete)\<rparr>) (paid new + n)"
      using assms(2) state by (auto simp: refused_def Let_def length_field_def phase_budget_def)
    with new(3) assms(4) show "post (seq (modify (\<lambda>s. s\<lparr>packet_phase := Some (if mode = Etm then Mac else Complete)\<rparr>))
          (ret bs)) (s\<lparr>wire := w, reads := before @ new @ [(n, True)]\<rparr>) (\<lambda>r. message_budget before)"
      by (auto simp: effect_simps intro!: message_budgetI [where new = "new @ [(n, True)]"])
  qed
  then show ?thesis
    unfolding read_body_def using state
    by (intro post_gets_bind) (auto simp: refused_def Let_def intro: post_limit [OF assms(1)])
qed

lemma mac_budget:
  assumes "message_budget before s" and "\<not> binary_packet_limit_exceeded s"
    and "packet_phase s = Some Mac" and "request_size n"
  shows "post (read_mac peer n check_rekey) s (\<lambda>r. message_budget before)"
proof -
  from assms(1-3) obtain mac where state: "packet_mac s = Some mac" and size: "mac \<le> 64"
    by (auto simp: message_budget_def phase_budget_def split: option.splits)
  have read: "post (bind (super_read_all peer mac False) (\<lambda>bs.
        seq (modify (\<lambda>s. s\<lparr>packet_phase := Some Complete\<rparr>)) (ret bs))) s (\<lambda>r. message_budget before)"
    if "n = mac"
  proof (rule message_budget_read [OF assms(1)])
    show "request_size mac" using assms(4) that by simp
    fix w new bs
    assume new: "reads s = before @ new" "phase_budget s (paid new)" "list_all (\<lambda>(n, ok). request_size n) new"
    with assms(2,3) state have "paid new \<le> 4 + MAX_SSH_PACKET_LENGTH" by (simp add: phase_budget_def)
    with size have "phase_budget (s\<lparr>wire := w, reads := before @ new @ [(mac, True)],
          packet_phase := Some Complete\<rparr>) (paid new + mac)"
      using assms(2) by (simp add: phase_budget_def)
    with new(3) assms(4) that show "post (seq (modify (\<lambda>s. s\<lparr>packet_phase := Some Complete\<rparr>)) (ret bs))
          (s\<lparr>wire := w, reads := before @ new @ [(mac, True)]\<rparr>) (\<lambda>r. message_budget before)"
      by (auto simp: effect_simps intro!: message_budgetI [where new = "new @ [(mac, True)]"])
  qed
  then show ?thesis
    unfolding read_mac_def using state
    by (intro post_gets_bind) (auto intro: post_limit [OF assms(1)])
qed

lemma read_all_budget: "keeps (message_budget before) (packetizer_read_all peer n check_rekey)"
proof (rule keepsI)
  fix s :: "'a packetizer"
  assume budget: "message_budget before s"
  have phase: "packet_phase s \<noteq> None" if "\<not> binary_packet_limit_exceeded s"
    using budget that by (cases "packet_phase s") (auto simp: message_budget_def phase_budget_def)
  show "post (packetizer_read_all peer n check_rekey) s (\<lambda>r. message_budget before)"
  proof (cases "binary_packet_limit_exceeded s \<or> \<not> request_size n")
    case True
    then show ?thesis
      by (auto simp: packetizer_read_all_def request_size_def post_limit [OF budget] intro!: post_gets_bind)
  next
    case False
    then show ?thesis
      unfolding packetizer_read_all_def request_size_def
      using phase header_budget [OF budget] body_budget [OF budget] mac_budget [OF budget] post_limit [OF budget]
      by (intro post_gets_bind)
         (auto simp: request_size_def intro!: post_gets_bind split: option.split phase.split)
  qed
qed

lemma vendor_budget: "keeps (message_budget before) (run_vendor peer vendor)"
proof (induction vendor)
  case (CallReadAll n check_rekey k)
  then show ?case by (simp add: keeps_intros read_all_budget)
next
  case (Change f vendor)
  then show ?case by (auto simp: message_budget_def intro!: keeps_seq keeps_modify)
qed (simp add: keeps_intros)

lemma budget_read:
  "message_budget before s \<Longrightarrow>
     \<exists>new. reads s = before @ new \<and> list_all (\<lambda>(n, ok). request_size n) new \<and> paid new \<le> MESSAGE_BYTES"
  by (auto simp: message_budget_def dest!: phase_budget_total)

lemma limit_reads:
  "post (binary_limit peer) s (\<lambda>r s'. reads s' = reads s \<and> binary_packet_limit_exceeded s')"
  by (simp add: binary_limit_def effect_simps split: prod.split sum.split)

text \<open>
  C18.  However Paramiko reads a message, and whatever it does with exceptions, the bytes it is given
  for one message are bounded: every single request is of 0 to 262,208 bytes, the successful
  requests add up to at most 262,212 bytes, that is four bytes of length, a packet of the largest
  permitted length and a MAC; and once a limit was exceeded, nothing is read at all.
\<close>

theorem message_reads_bounded:
  "case packetizer_read_message peer vendor s of (r, s') \<Rightarrow>
     \<exists>new. reads s' = reads s @ new \<and> list_all (\<lambda>(n, ok). 0 \<le> n \<and> n \<le> 262208) new \<and> paid new \<le> 262212 \<and>
       (if binary_packet_limit_exceeded s then new = [] \<and> binary_packet_limit_exceeded s' else True)"
proof (cases "binary_packet_limit_exceeded s \<or> packet_phase s \<noteq> None")
  case True
  then have "post (packetizer_read_message peer vendor) s
      (\<lambda>r s'. reads s' = reads s \<and> binary_packet_limit_exceeded s')"
    unfolding packetizer_read_message_def by (intro post_gets_bind) (auto simp: limit_reads)
  then show ?thesis by (auto simp: post_def split: prod.splits)
next
  case False
  have "message_budget (reads s) (s\<lparr>packet_phase := Some Header\<rparr>)"
    using False by (intro message_budgetI [where new = "[]"]) (simp_all add: phase_budget_def)
  note post_mono [OF keeps_post [OF vendor_budget this] budget_read]
  then have "post (packetizer_read_message peer vendor) s (\<lambda>r s'. \<exists>new. reads s' = reads s @ new \<and>
      list_all (\<lambda>(n, ok). request_size n) new \<and> paid new \<le> MESSAGE_BYTES)"
    using False unfolding packetizer_read_message_def
    by (simp add: effect_simps forget_packet_def)
  with False show ?thesis
    by (simp add: post_def request_size_def MAX_SSH_PACKET_LENGTH_def)
qed

section \<open>The reviewed versions of the dependencies\<close>

text \<open>
  What Python's \<^verbatim>\<open>importlib.metadata\<close> and \<^verbatim>\<open>inspect\<close> say of the installed packages: versions, source
  texts, parameter names, and the digests of texts.
\<close>

record installed =
  version :: "string \<Rightarrow> string"
  getsource :: "string \<Rightarrow> string res"
  parameters :: "string \<Rightarrow> string list"
  sha256 :: "string \<Rightarrow> string"

text \<open>\<^verbatim>\<open>needle in text\<close>\<close>

fun occurs_in :: "string \<Rightarrow> string \<Rightarrow> bool" where
  "occurs_in needle [] = (needle = [])"
| "occurs_in needle (c # s) = (startswith (c # s) needle \<or> occurs_in needle s)"

definition READ_MESSAGE_SHA256 :: string where
  "READ_MESSAGE_SHA256 = ''d5d2c6765cab09ef3037d96dfce77bb42698a829605ea3e18ec7cfdb84b31b33''"

definition READ_ALL_SHA256 :: string where
  "READ_ALL_SHA256 = ''d6eccad5d1d31e066f42a826c3c515f60752da456065085d32054f2c863cf86a''"

definition SET_INBOUND_CIPHER_SHA256 :: string where
  "SET_INBOUND_CIPHER_SHA256 = ''6f797a65419ca6fa525a20464e42a7f4224c50413bf27e04dc4a6ea46e0bb0c4''"

definition transport_changed :: exn where
  "transport_changed = new_exn RuntimeError
     (''SSH transport changed; review the bounded Paramiko transport before use'')"

text \<open>The functions whose text is read, in the order of the code.\<close>

definition paramiko_functions :: "string list" where
  "paramiko_functions =
     [''SSHClient.connect'', ''Transport.__init__'', ''Transport._check_banner'', ''Transport.run'',
      ''Packetizer.__init__'', ''Packetizer.read_all'', ''Packetizer.read_message'',
      ''Packetizer.set_inbound_cipher'', ''Packetizer._read_timeout'', ''SSHClient_noauth._auth'',
      ''BaseConnection._build_ssh_client'', ''HPProcurveSSH._get_ssh_client_instance'']"

text \<open>What each text has to contain.\<close>

definition paramiko_markers :: "(string \<times> string) list" where
  "paramiko_markers =
     [(''SSHClient.connect'', ''transport_factory = Transport''),
      (''SSHClient.connect'', ''t = self._transport = transport_factory(''),
      (''SSHClient.connect'', ''gss_kex=gss_kex''),
      (''SSHClient.connect'', ''gss_deleg_creds=gss_deleg_creds''),
      (''SSHClient.connect'', ''disabled_algorithms=disabled_algorithms''),
      (''SSHClient.connect'', ''self._system_host_keys.get(server_hostkey_name)''),
      (''SSHClient.connect'', ''self._host_keys.get(server_hostkey_name)''),
      (''SSHClient.connect'', ''self._policy.missing_host_key(''),
      (''SSHClient.connect'', ''raise BadHostKeyException(''),
      (''SSHClient.connect'', ''self._auth(''),
      (''Transport.__init__'', ''self.packetizer = (packetizer_class or Packetizer)(sock)''),
      (''Transport._check_banner'', ''buf = self.packetizer.readline(timeout)''),
      (''Transport._check_banner'', ''if buf[:4] == \"SSH-\":''),
      (''Transport.run'', ''self._check_banner()''),
      (''Transport.run'', ''self.packetizer.read_message()''),
      (''Packetizer.__init__'', ''self.__socket = socket''),
      (''Packetizer.__init__'', ''self.__remainder = bytes()''),
      (''Packetizer.read_all'', ''self.__remainder[:n]''),
      (''Packetizer.read_all'', ''self.__remainder = self.__remainder[n:]''),
      (''Packetizer._read_timeout'', ''self.__socket.recv(128)''),
      (''Packetizer.read_all'', ''self.__socket.recv(n)''),
      (''SSHClient_noauth._auth'', ''transport.auth_none(username)''),
      (''BaseConnection._build_ssh_client'', ''self._get_ssh_client_instance()''),
      (''BaseConnection._build_ssh_client'', ''remote_conn_pre.load_system_host_keys()''),
      (''BaseConnection._build_ssh_client'', ''remote_conn_pre.load_host_keys(self.alt_key_file)''),
      (''BaseConnection._build_ssh_client'', ''remote_conn_pre.set_missing_host_key_policy(self.key_policy)''),
      (''HPProcurveSSH._get_ssh_client_instance'', ''return SSHClient_noauth()'')]"

text \<open>The texts of functions: \<^verbatim>\<open>OSError\<close> and \<^verbatim>\<open>TypeError\<close> count as drift.\<close>

fun sources_of :: "installed \<Rightarrow> exn \<Rightarrow> string list \<Rightarrow> (string \<times> string) list res" where
  "sources_of inst changed [] = Inr []"
| "sources_of inst changed (f # fs) =
     (case getsource inst f of
        Inl error \<Rightarrow> Inl (if isinstance_any error [OSError, TypeError] then changed else error)
      | Inr source \<Rightarrow> res_bind (sources_of inst changed fs) (\<lambda>sources. Inr ((f, source) # sources)))"

definition marked :: "(string \<times> string) list \<Rightarrow> string \<times> string \<Rightarrow> bool" where
  "marked sources marker =
     (case map_of sources (fst marker) of None \<Rightarrow> False | Some source \<Rightarrow> occurs_in (snd marker) source)"

definition digest_is :: "installed \<Rightarrow> (string \<times> string) list \<Rightarrow> string \<Rightarrow> string \<Rightarrow> bool" where
  "digest_is inst sources f digest =
     (case map_of sources f of None \<Rightarrow> False | Some source \<Rightarrow> sha256 inst source = digest)"

definition assert_paramiko_contract :: "installed \<Rightarrow> unit res" where
  "assert_paramiko_contract inst =
     raise_if (version inst ''paramiko'' \<noteq> ''4.0.0'' \<or> version inst ''netmiko'' \<noteq> ''4.8.0'') transport_changed
       (res_bind (sources_of inst transport_changed paramiko_functions) (\<lambda>sources.
          raise_if
            (\<not> (''transport_factory'' \<in> set (parameters inst ''SSHClient.connect'') \<and>
                ''packetizer_class'' \<in> set (parameters inst ''Transport.__init__'') \<and>
                list_all (marked sources) paramiko_markers \<and>
                digest_is inst sources ''Packetizer.read_message'' READ_MESSAGE_SHA256 \<and>
                digest_is inst sources ''Packetizer.read_all'' READ_ALL_SHA256 \<and>
                digest_is inst sources ''Packetizer.set_inbound_cipher'' SET_INBOUND_CIPHER_SHA256))
            transport_changed (Inr ())))"

section \<open>Connecting\<close>

text \<open>
  The client object: its transport with the packetizer, if that is a bounded one, and the transports
  that the code below gave up.  The flags of the packetizer are read once: Paramiko's thread does not
  change them while the connection is torn down.
\<close>

record 'w ssh_transport =
  transport_packetizer :: "'w packetizer option"
  transport_active :: bool

record 'w ssh_client =
  client_transport :: "'w ssh_transport option"
  dropped :: "'w ssh_transport list"

text \<open>
  The arguments that \<^verbatim>\<open>connect\<close> looks at: whether \<^verbatim>\<open>transport_factory\<close> is anything but \<open>None\<close>, and
  \<^verbatim>\<open>compress\<close> anything but \<open>False\<close>.
\<close>

record connect_arguments =
  has_transport_factory :: bool
  has_compression :: bool

text \<open>Paramiko's own \<^verbatim>\<open>connect\<close> and the two \<^verbatim>\<open>close\<close> methods, whose ordinary exceptions are dropped.\<close>

record 'w ssh_vendor =
  super_connect :: "('w ssh_client, unit) eff"
  close_transport_packetizer :: "('w ssh_client, unit) eff"
  close_transport_socket :: "('w ssh_client, unit) eff"

definition suppress_Exception :: "('s, unit) eff \<Rightarrow> ('s, unit) eff" where
  "suppress_Exception m = try_except m (\<lambda>e. if isinstance e Exception then ret () else raise e)"

definition bounded_of :: "'w ssh_client \<Rightarrow> 'w packetizer option" where
  "bounded_of client = Option.bind (client_transport client) transport_packetizer"

definition drop_transport :: "'w ssh_client \<Rightarrow> 'w ssh_client" where
  "drop_transport client =
     client\<lparr>client_transport := None,
       dropped := (case client_transport client of
         None \<Rightarrow> dropped client | Some t \<Rightarrow> t\<lparr>transport_active := False\<rparr> # dropped client)\<rparr>"

definition connect_failed :: "'w ssh_vendor \<Rightarrow> exn \<Rightarrow> ('w ssh_client, unit) eff" where
  "connect_failed vendor error =
     (if isinstance error Exception then
        bind (gets bounded_of) (\<lambda>packetizer.
          case packetizer of
            None \<Rightarrow> raise error
          | Some p \<Rightarrow>
              if \<not> (banner_limit_exceeded p \<or> binary_packet_limit_exceeded p) then raise error
              else
                seq (suppress_Exception (close_transport_packetizer vendor))
               (seq (suppress_Exception (close_transport_socket vendor))
               (seq (modify drop_transport)
                 (if binary_packet_limit_exceeded p then
                    raise (new_exn SSHBinaryPacketLimitError ''SSH binary packet resource limit exceeded'')
                  else raise (new_exn SSHBannerLimitError ''SSH banner resource limit exceeded'')))))
      else raise error)"

definition bounded_connect ::
  "installed \<Rightarrow> 'w ssh_vendor \<Rightarrow> connect_arguments \<Rightarrow> ('w ssh_client, unit) eff" where
  "bounded_connect inst vendor arguments =
     seq (lift (assert_paramiko_contract inst))
    (seq (check (has_transport_factory arguments)
           (new_exn ValueError ''A competing SSH transport factory is not supported''))
    (seq (check (has_compression arguments)
           (new_exn ValueError ''SSH compression requires a resource-policy review''))
       (try_except (super_connect vendor) (connect_failed vendor))))"

end
