(* ===== verification/IdentificationLines.thy ===== *)
theory IdentificationLines
  imports BoundedPacketizer
begin

text \<open>
  The textual part of the bounded transport against its specification: \<^verbatim>\<open>readline\<close> returns the lines of
  the byte stream, in bounded memory and from a bounded number of bytes, and its loop ends.
\<close>

section \<open>Identification lines are the lines of the stream\<close>

text \<open>
  What the socket promises: the bytes still to come are a stream, and \<^verbatim>\<open>recv(n)\<close> takes at most \<open>n\<close>
  bytes off its front, none when it raises.
\<close>

definition stream_peer :: "'w peer \<Rightarrow> ('w \<Rightarrow> string) \<Rightarrow> bool" where
  "stream_peer peer pending =
     (\<forall>n w. 0 < n \<longrightarrow>
        (case socket_recv peer n w of
           (Inl e, w') \<Rightarrow> pending w' = pending w
         | (Inr bs, w') \<Rightarrow> pending w = bs @ pending w' \<and> int (length bs) \<le> n))"

text \<open>The bytes not yet read as a line.\<close>

definition unread :: "('w \<Rightarrow> string) \<Rightarrow> 'w packetizer \<Rightarrow> string" where
  "unread pending s = remainder s @ pending (wire s)"

text \<open>
  Within the loop: \<open>stream\<close> is what was unread at its start, \<open>used\<close> the text read before; \<open>line\<close> and
  \<open>buf\<close> hold what was taken since.
\<close>

definition gathering ::
  "('w \<Rightarrow> string) \<Rightarrow> string \<Rightarrow> int \<Rightarrow> string \<Rightarrow> string \<Rightarrow> 'w packetizer \<Rightarrow> bool" where
  "gathering pending stream used line buf s =
     (stream = line @ buf @ pending (wire s) \<and> remainder s = [] \<and> newline \<notin> set line \<and>
      text_bytes s = used + int (length line) \<and> int (length line) \<le> MAX_SSH_BANNER_LINE_BYTES \<and>
      used + int (length line) + int (length buf) \<le> MAX_SSH_PREAUTH_TEXT_BYTES)"

definition gathered ::
  "('w \<Rightarrow> string) \<Rightarrow> string \<Rightarrow> int \<Rightarrow> string \<Rightarrow> 'w packetizer \<Rightarrow> bool" where
  "gathered pending stream used line s =
     (\<exists>part. line = part @ [newline] \<and> newline \<notin> set part \<and> stream = line @ unread pending s \<and>
        text_bytes s = used + int (length line) \<and> int (length line) \<le> MAX_SSH_BANNER_LINE_BYTES \<and>
        text_bytes s + int (length (remainder s)) \<le> MAX_SSH_PREAUTH_TEXT_BYTES)"

text \<open>However the loop ends, the bytes received fit the limit.\<close>

definition within_limit :: "('w \<Rightarrow> string) \<Rightarrow> string \<Rightarrow> int \<Rightarrow> 'w packetizer \<Rightarrow> bool" where
  "within_limit pending stream used s =
     (used + (int (length stream) - int (length (pending (wire s)))) \<le> MAX_SSH_PREAUTH_TEXT_BYTES)"

lemma gathering_within: "gathering pending stream used line buf s \<Longrightarrow> within_limit pending stream used s"
  by (auto simp: gathering_def within_limit_def)

lemma gathered_within: "gathered pending stream used line s \<Longrightarrow> within_limit pending stream used s"
  by (auto simp: gathered_def within_limit_def unread_def)

lemma triple_limit:
  "(\<And>s. A s \<Longrightarrow> within_limit pending stream used s) \<Longrightarrow>
     triple A banner_limit B (\<lambda>_. within_limit pending stream used)"
  by (auto simp: triple_def banner_limit_def effect_simps within_limit_def)

lemma line_part_split:
  assumes "newline \<in> set buf"
  obtains part where "line_part buf = part @ [newline]" "newline \<notin> set part"
    "buf = line_part buf @ drop (length (line_part buf)) buf"
proof
  let ?part = "takeWhile (\<lambda>c. c \<noteq> newline) buf"
  show "line_part buf = ?part @ [newline]" using assms by (simp add: line_part_def)
  show "newline \<notin> set ?part" by (auto dest: set_takeWhileD)
  have "dropWhile (\<lambda>c. c \<noteq> newline) buf \<noteq> []" using assms by (simp add: dropWhile_eq_Nil_conv)
  then obtain rest where "dropWhile (\<lambda>c. c \<noteq> newline) buf = newline # rest"
    using hd_dropWhile [of "\<lambda>c. c \<noteq> newline" buf] by (cases "dropWhile (\<lambda>c. c \<noteq> newline) buf") auto
  then have "buf = (?part @ [newline]) @ rest"
    using takeWhile_dropWhile_id [of "\<lambda>c. c \<noteq> newline" buf] by simp
  then show "buf = line_part buf @ drop (length (line_part buf)) buf"
    using \<open>line_part buf = ?part @ [newline]\<close> by (metis append_eq_conv_conj)
qed

lemma take_text_triple:
  "triple (gathering pending stream used line buf) (take_text line buf)
     (\<lambda>(line, complete) s.
        if complete then gathered pending stream used line s
        else gathering pending stream used line [] s)
     (\<lambda>_. within_limit pending stream used)"
proof (cases "newline \<in> set buf")
  case True
  from line_part_split [OF this] obtain part where part: "line_part buf = part @ [newline]"
      "newline \<notin> set part" "buf = part @ newline # drop (length part + 1) buf"
    by force
  show ?thesis
    using True part
    by (auto simp: triple_def take_text_def Let_def effect_simps banner_limit_def gathering_def
        gathered_def within_limit_def unread_def)
next
  case False
  then show ?thesis
    by (auto simp: triple_def take_text_def Let_def effect_simps banner_limit_def gathering_def
        within_limit_def line_part_def)
qed

lemma receive_text_triple:
  assumes "stream_peer peer pending" and "0 < remaining"
  shows "triple
    (\<lambda>s. gathering pending stream used line [] s \<and>
       remaining \<le> MAX_SSH_PREAUTH_TEXT_BYTES - text_bytes s)
    (receive_text peer timeout remaining start)
    (\<lambda>(buf, start). gathering pending stream used line buf)
    (\<lambda>_. within_limit pending stream used)"
proof -
  let ?n = "min TEXT_READ_CHUNK_BYTES remaining"
  let ?A = "\<lambda>s. gathering pending stream used line [] s \<and> remaining \<le> MAX_SSH_PREAUTH_TEXT_BYTES - text_bytes s"
  have n: "0 < ?n" "?n \<le> remaining" using assms(2) by (auto simp: TEXT_READ_CHUNK_BYTES_def)
  have received: "triple ?A (on_wire (socket_recv peer ?n)) (\<lambda>buf. gathering pending stream used line buf)
      (\<lambda>_. gathering pending stream used line [])"
  proof (rule tripleI)
    fix s r s'
    assume A: "?A s" and run: "on_wire (socket_recv peer ?n) s = (r, s')"
    obtain w where w: "socket_recv peer ?n (wire s) = (r, w)" "s' = s\<lparr>wire := w\<rparr>"
      using run by (auto simp: on_wire_def split: prod.splits)
    with assms(1) n(1) have "case r of Inl e \<Rightarrow> pending w = pending (wire s)
        | Inr bs \<Rightarrow> pending (wire s) = bs @ pending w \<and> int (length bs) \<le> ?n"
      unfolding stream_peer_def by (auto dest!: spec [where x = ?n] spec [where x = "wire s"] split: sum.splits)
    with A w(2) n(2) show "case r of Inl e \<Rightarrow> gathering pending stream used line [] s'
        | Inr buf \<Rightarrow> gathering pending stream used line buf s'"
      by (auto simp: gathering_def split: sum.splits)
  qed
  have rest: "triple (\<lambda>s. case r of Inl e \<Rightarrow> gathering pending stream used line [] s
        | Inr buf \<Rightarrow> gathering pending stream used line buf s)
      (case r of
         Inl error \<Rightarrow>
           if isinstance error TimeoutError then
             bind (gets (\<lambda>s. packetizer_closed peer (wire s))) (\<lambda>closed.
             seq (check closed (new_exn EOFError ''''))
            (bind (gets (\<lambda>s. clock peer (wire s))) (\<lambda>now.
             seq (check (now - began \<ge> timeout) error)
               (ret ([], Some began)))))
           else raise error
       | Inr buf \<Rightarrow>
           seq (check (buf = []) (new_exn EOFError ''''))
          (bind (gets (\<lambda>s. packetizer_closed peer (wire s))) (\<lambda>closed.
           seq (check closed (new_exn EOFError ''''))
             (ret (buf, None)))))
      (\<lambda>(buf, start). gathering pending stream used line buf) (\<lambda>_. within_limit pending stream used)" for r began
    by (cases r) (auto simp: triple_def effect_simps gathering_within)
  show ?thesis
    unfolding receive_text_def
    by (intro triple_bind_keeps [where A = ?A] triple_bind [OF triple_outcome_of [OF received]] rest)
       (auto simp: keeps_intros gathering_within intro!: keeps_case_option)
qed

lemma text_loop_triple:
  assumes "stream_peer peer pending"
  shows "triple (gathering pending stream used line buf) (text_loop fuel peer timeout line buf start)
    (\<lambda>r s. case r of None \<Rightarrow> within_limit pending stream used s
       | Some line \<Rightarrow> gathered pending stream used line s)
    (\<lambda>_. within_limit pending stream used)"
proof (induction fuel arbitrary: line buf start)
  case 0
  show ?case by (auto intro!: triple_ret gathering_within)
next
  case (Suc fuel)
  have more: "triple (gathering pending stream used line [])
      (bind (gets text_bytes) (\<lambda>u.
         if text_allowance line u = 0 then banner_limit
         else bind (receive_text peer timeout (text_allowance line u) start) (\<lambda>(buf, start).
           text_loop fuel peer timeout line buf start)))
      (\<lambda>r s. case r of None \<Rightarrow> within_limit pending stream used s
         | Some line \<Rightarrow> gathered pending stream used line s)
      (\<lambda>_. within_limit pending stream used)" for line start
  proof (rule triple_gets, rule triple_cond)
    fix u
    show "triple (\<lambda>s. gathering pending stream used line [] s \<and> text_bytes s = u) banner_limit
        (\<lambda>r s. case r of None \<Rightarrow> within_limit pending stream used s
           | Some line \<Rightarrow> gathered pending stream used line s) (\<lambda>_. within_limit pending stream used)"
      by (rule triple_limit) (auto dest: gathering_within)
    assume "text_allowance line u \<noteq> 0"
    show "triple (\<lambda>s. gathering pending stream used line [] s \<and> text_bytes s = u)
        (bind (receive_text peer timeout (text_allowance line u) start) (\<lambda>(buf, start).
           text_loop fuel peer timeout line buf start))
        (\<lambda>r s. case r of None \<Rightarrow> within_limit pending stream used s
           | Some line \<Rightarrow> gathered pending stream used line s) (\<lambda>_. within_limit pending stream used)"
    proof (cases "0 < text_allowance line u")
      case True
      show ?thesis
      proof (rule triple_bind)
        show "triple (\<lambda>s. gathering pending stream used line [] s \<and> text_bytes s = u)
            (receive_text peer timeout (text_allowance line u) start)
            (\<lambda>(buf, start). gathering pending stream used line buf) (\<lambda>_. within_limit pending stream used)"
          by (rule triple_weaken [OF receive_text_triple [OF assms True]]) (auto simp: text_allowance_def)
      qed (simp add: Suc.IH split: prod.split)
    next
      case False
      with \<open>text_allowance line u \<noteq> 0\<close> show ?thesis
        by (auto simp: triple_def gathering_def text_allowance_def)
    qed
  qed
  show ?case
    unfolding text_loop.simps
    by (rule triple_bind [OF take_text_triple]) (auto simp: triple_ret intro: more)
qed

text \<open>A line that was read, in terms of the stream.\<close>

definition text_within :: "'w packetizer \<Rightarrow> bool" where
  "text_within s = (text_bytes s + int (length (remainder s)) \<le> MAX_SSH_PREAUTH_TEXT_BYTES)"

definition line_read ::
  "'w peer \<Rightarrow> ('w \<Rightarrow> string) \<Rightarrow> 'w packetizer \<Rightarrow> string \<Rightarrow> 'w packetizer \<Rightarrow> bool" where
  "line_read peer pending s decoded s' =
     (\<exists>line. newline \<notin> set line \<and> unread pending s = line @ newline # unread pending s' \<and>
        decode_text peer (strip_line_end (line @ [newline])) = Inr decoded \<and>
        int (length line) < MAX_SSH_BANNER_LINE_BYTES \<and>
        text_bytes s' = text_bytes s + int (length line) + 1 \<and> text_within s')"

lemma readline_triple:
  assumes "stream_peer peer pending"
  shows "triple (\<lambda>s. s = s0 \<and> text_within s0) (packetizer_readline peer timeout)
    (line_read peer pending s0) (\<lambda>_. within_limit pending (unread pending s0) (text_bytes s0))"
proof -
  let ?X = "\<lambda>_::exn. within_limit pending (unread pending s0) (text_bytes s0)"
  let ?got = "gathered pending (unread pending s0) (text_bytes s0)"
  have within_frame: "within_limit pending (unread pending s0) (text_bytes s0) (s\<lparr>banner_limit_exceeded := b\<rparr>) =
      within_limit pending (unread pending s0) (text_bytes s0) s" for b s
    by (simp add: within_limit_def)
  have read: "line_read peer pending s0 d s \<and> line_read peer pending s0 d (s\<lparr>pre_identification_lines := n\<rparr>)"
    if "?got line s" "decode_text peer (strip_line_end line) = Inr d" for line d n s
    using that by (auto simp: gathered_def line_read_def text_within_def unread_def)
  have finish: "triple (?got line)
      (bind (lift (decode_text peer (strip_line_end line))) (\<lambda>decoded.
         if startswith decoded ''SSH-'' then ret decoded
         else
           bind (gets pre_identification_lines) (\<lambda>lines.
             if lines \<ge> MAX_SSH_PRE_IDENTIFICATION_LINES then banner_limit
             else
               seq (modify (\<lambda>s. s\<lparr>pre_identification_lines := pre_identification_lines s + 1\<rparr>))
                 (ret decoded)))) (line_read peer pending s0) ?X" for line
    by (auto simp: triple_def effect_simps banner_limit_def within_frame read dest: gathered_within split: sum.split)
  have loop: "triple (gathering pending (unread pending s0) (text_bytes s0) [] buf)
      (bind (text_loop (text_rounds timeout) peer timeout [] buf None) (\<lambda>gathered.
       case gathered of
         None \<Rightarrow> raise unending_line
       | Some line \<Rightarrow>
           bind (lift (decode_text peer (strip_line_end line))) (\<lambda>decoded.
             if startswith decoded ''SSH-'' then ret decoded
             else
               bind (gets pre_identification_lines) (\<lambda>lines.
                 if lines \<ge> MAX_SSH_PRE_IDENTIFICATION_LINES then banner_limit
                 else
                   seq (modify (\<lambda>s. s\<lparr>pre_identification_lines := pre_identification_lines s + 1\<rparr>))
                     (ret decoded))))) (line_read peer pending s0) ?X" for buf
    by (rule triple_bind [OF text_loop_triple [OF assms]]) (auto intro: triple_raise finish split: option.split)
  show ?thesis
    unfolding packetizer_readline_def
    by (rule triple_gets, rule triple_seq [OF _ loop], rule triple_modify)
       (auto simp: gathering_def unread_def text_within_def MAX_SSH_BANNER_LINE_BYTES_def)
qed

section \<open>The reading of a line ends\<close>

text \<open>What the socket promises of its timeouts: time passes until one is raised.\<close>

definition ticking_peer :: "'w peer \<Rightarrow> bool" where
  "ticking_peer peer =
     (\<forall>n w. case socket_recv peer n w of
        (Inl e, w') \<Rightarrow> (if isinstance e TimeoutError then clock peer w < clock peer w' else True)
      | (Inr bs, w') \<Rightarrow> True)"

lemma take_text_progress:
  "text_bytes s \<le> MAX_SSH_PREAUTH_TEXT_BYTES \<Longrightarrow> length line \<le> 255 \<Longrightarrow>
     post (take_text line buf) s (\<lambda>r s'. case r of
        Inl e \<Rightarrow> True
      | Inr (l, complete) \<Rightarrow> complete \<or>
          (wire s' = wire s \<and> text_bytes s' \<le> MAX_SSH_PREAUTH_TEXT_BYTES \<and> length l \<le> 255 \<and>
           (if buf = [] then l = line else length line < length l)))"
  by (auto simp: take_text_def Let_def effect_simps banner_limit_def line_part_def MAX_SSH_BANNER_LINE_BYTES_def)

text \<open>A wait that goes on has not used up its time.\<close>

definition waiting :: "'w peer \<Rightarrow> int \<Rightarrow> int option \<Rightarrow> 'w packetizer \<Rightarrow> bool" where
  "waiting peer timeout start s =
     (case start of
        None \<Rightarrow> True
      | Some began \<Rightarrow> began \<le> clock peer (wire s) \<and> clock peer (wire s) - began < timeout)"

lemma receive_progress:
  assumes "ticking_peer peer" and "waiting peer timeout start s"
  shows "post (receive_text peer timeout remaining start) s (\<lambda>r s'. case r of
        Inl e \<Rightarrow> True
      | Inr (buf, start') \<Rightarrow> text_bytes s' = text_bytes s \<and> waiting peer timeout start' s' \<and>
          (if buf = [] then
             start' = Some (case start of None \<Rightarrow> clock peer (wire s) | Some began \<Rightarrow> began) \<and>
             clock peer (wire s) < clock peer (wire s')
           else start' = None))"
proof -
  obtain r w where answer: "socket_recv peer (min TEXT_READ_CHUNK_BYTES remaining) (wire s) = (r, w)"
    by (cases "socket_recv peer (min TEXT_READ_CHUNK_BYTES remaining) (wire s)")
  with assms(1) have "clock peer (wire s) < clock peer w" if "r = Inl e" "isinstance e TimeoutError" for e
    using that unfolding ticking_peer_def
    by (auto dest!: spec [where x = "min TEXT_READ_CHUNK_BYTES remaining"] spec [where x = "wire s"])
  with answer assms(2) show ?thesis
    by (cases r; cases start) (auto simp: receive_text_def effect_simps waiting_def)
qed

text \<open>The rounds the loop can still make.\<close>

definition line_room :: "string \<Rightarrow> string \<Rightarrow> nat" where
  "line_room line buf = 255 - length line - (if buf = [] then 0 else 1)"

definition wait_left :: "'w peer \<Rightarrow> int \<Rightarrow> int option \<Rightarrow> 'w packetizer \<Rightarrow> nat" where
  "wait_left peer timeout start s =
     (case start of None \<Rightarrow> nat timeout + 2
      | Some began \<Rightarrow> nat timeout + 1 - nat (clock peer (wire s) - began))"

definition rounds_left :: "'w peer \<Rightarrow> int \<Rightarrow> string \<Rightarrow> string \<Rightarrow> int option \<Rightarrow> 'w packetizer \<Rightarrow> nat" where
  "rounds_left peer timeout line buf start s =
     line_room line buf * (nat timeout + 2) + wait_left peer timeout start s"

lemma wait_left_bounds:
  "waiting peer timeout start s \<Longrightarrow> 0 < wait_left peer timeout start s"
  "wait_left peer timeout start s \<le> nat timeout + 2"
  by (auto simp: wait_left_def waiting_def split: option.splits)

lemma fewer_lines: "a < b \<Longrightarrow> x \<le> t + 2 \<Longrightarrow> 0 < y \<Longrightarrow> a * (t + 2) + x < b * (t + 2) + (y::nat)"
proof -
  assume "a < b" "x \<le> t + 2" "0 < y"
  then have "(a + 1) * (t + 2) \<le> b * (t + 2)" by (intro mult_right_mono) auto
  with \<open>x \<le> t + 2\<close> \<open>0 < y\<close> show ?thesis by simp
qed

lemma rounds_decrease:
  assumes "if buf = [] then line' = line else length line < length line'" and "length line' < 255"
    and "waiting peer timeout start s" and "waiting peer timeout start' s'"
    and "if buf' = [] then start' = Some (case start of None \<Rightarrow> clock peer (wire s) | Some began \<Rightarrow> began) \<and>
             clock peer (wire s) < clock peer (wire s')
           else start' = None"
  shows "rounds_left peer timeout line' buf' start' s' < rounds_left peer timeout line buf start s"
proof (cases "buf' = []")
  case True
  have "wait_left peer timeout start' s' < wait_left peer timeout start s"
    using True assms(3-5) by (cases start) (auto simp: wait_left_def waiting_def)
  moreover have "line_room line' buf' * (nat timeout + 2) \<le> line_room line buf * (nat timeout + 2)"
    using True assms(1) by (intro mult_right_mono) (auto simp: line_room_def split: if_splits)
  ultimately show ?thesis by (simp add: rounds_left_def)
next
  case False
  have "line_room line' buf' < line_room line buf"
    using False assms(1,2) by (auto simp: line_room_def split: if_splits)
  then show ?thesis
    unfolding rounds_left_def by (rule fewer_lines) (simp_all only: wait_left_bounds(2) wait_left_bounds(1) [OF assms(3)])
qed

lemma text_loop_progress:
  assumes "ticking_peer peer"
  shows "text_bytes s \<le> MAX_SSH_PREAUTH_TEXT_BYTES \<Longrightarrow> length line \<le> 255 \<Longrightarrow> waiting peer timeout start s \<Longrightarrow>
    rounds_left peer timeout line buf start s \<le> fuel \<Longrightarrow>
    post (text_loop fuel peer timeout line buf start) s (\<lambda>r s'. r \<noteq> Inr None)"
proof (induction fuel arbitrary: line buf start s)
  case 0
  then show ?case using wait_left_bounds(1) [OF 0(3)] by (simp add: rounds_left_def)
next
  case (Suc fuel)
  have more: "post (bind (gets text_bytes) (\<lambda>u.
         if text_allowance line' u = 0 then banner_limit
         else bind (receive_text peer timeout (text_allowance line' u) start) (\<lambda>(buf, start).
           text_loop fuel peer timeout line' buf start))) t (\<lambda>r s'. r \<noteq> Inr None)"
    if t: "wire t = wire s" "text_bytes t \<le> MAX_SSH_PREAUTH_TEXT_BYTES" "length line' \<le> 255"
      "if buf = [] then line' = line else length line < length line'" for t line'
  proof (rule post_gets_bind, cases "text_allowance line' (text_bytes t) = 0")
    case True
    then show "post (if text_allowance line' (text_bytes t) = 0 then banner_limit
         else bind (receive_text peer timeout (text_allowance line' (text_bytes t)) start) (\<lambda>(buf, start).
           text_loop fuel peer timeout line' buf start)) t (\<lambda>r s'. r \<noteq> Inr None)"
      by (simp add: banner_limit_def effect_simps)
  next
    case False
    with t(2,3) have room: "length line' < 255"
      by (auto simp: text_allowance_def MAX_SSH_BANNER_LINE_BYTES_def)
    have wait: "waiting peer timeout start t" using Suc.prems(3) t(1) by (cases start) (simp_all add: waiting_def)
    have same: "rounds_left peer timeout line buf start t = rounds_left peer timeout line buf start s"
      using t(1) by (cases start) (simp_all add: rounds_left_def wait_left_def)
    have "post (receive_text peer timeout (text_allowance line' (text_bytes t)) start) t
        (\<lambda>r s'. case r of Inl e \<Rightarrow> True
           | Inr (buf', start') \<Rightarrow> post (text_loop fuel peer timeout line' buf' start') s' (\<lambda>r s'. r \<noteq> Inr None))"
    proof (rule post_mono [OF receive_progress [OF assms wait]])
      fix r :: "(string \<times> int option) res" and s' :: "'a packetizer"
      assume got: "case r of Inl e \<Rightarrow> True
        | Inr (buf', start') \<Rightarrow> text_bytes s' = text_bytes t \<and> waiting peer timeout start' s' \<and>
          (if buf' = [] then
             start' = Some (case start of None \<Rightarrow> clock peer (wire t) | Some began \<Rightarrow> began) \<and>
             clock peer (wire t) < clock peer (wire s')
           else start' = None)"
      show "case r of Inl e \<Rightarrow> True
        | Inr (buf', start') \<Rightarrow> post (text_loop fuel peer timeout line' buf' start') s' (\<lambda>r s'. r \<noteq> Inr None)"
      proof (cases r)
        case (Inr p)
        obtain buf' start' where p: "p = (buf', start')" by (cases p)
        from got Inr p have g: "text_bytes s' = text_bytes t" "waiting peer timeout start' s'"
            "if buf' = [] then
               start' = Some (case start of None \<Rightarrow> clock peer (wire t) | Some began \<Rightarrow> began) \<and>
               clock peer (wire t) < clock peer (wire s')
             else start' = None" by auto
        from rounds_decrease [OF t(4) room wait g(2,3)] same Suc.prems(4)
        have "rounds_left peer timeout line' buf' start' s' \<le> fuel" by simp
        with g t room show ?thesis by (simp add: Inr p Suc.IH)
      qed simp
    qed
    with False show "post (if text_allowance line' (text_bytes t) = 0 then banner_limit
         else bind (receive_text peer timeout (text_allowance line' (text_bytes t)) start) (\<lambda>(buf, start).
           text_loop fuel peer timeout line' buf start)) t (\<lambda>r s'. r \<noteq> Inr None)"
      by (auto simp: post_bind elim!: post_mono split: sum.splits)
  qed
  show ?case
    unfolding text_loop.simps post_bind
    by (rule post_mono [OF take_text_progress [OF Suc.prems(1,2)]])
       (auto simp: post_ret more simp del: text_loop.simps split: sum.splits prod.splits)
qed

text \<open>
  C24.  The loop that gathers a line always ends: when each timed-out \<^verbatim>\<open>recv\<close> takes some time, the
  rounds it is given are never used up, whatever the peer sends and however slowly.
\<close>

theorem readline_loop_ends:
  assumes "ticking_peer peer" and "text_within s"
  shows "fst (text_loop (text_rounds timeout) peer timeout [] buf None s) \<noteq> Inr None"
proof -
  have "rounds_left peer timeout [] buf None s \<le> text_rounds timeout"
    by (simp add: rounds_left_def text_rounds_def line_room_def wait_left_def)
  with assms have "post (text_loop (text_rounds timeout) peer timeout [] buf None) s (\<lambda>r s'. r \<noteq> Inr None)"
    by (intro text_loop_progress) (auto simp: waiting_def text_within_def)
  then show ?thesis by (simp add: post_def case_prod_unfold)
qed

text \<open>A socket that first times out and then gives out what it holds, at most so much at a time.\<close>

definition sample_peer :: "(int \<times> string) peer" where
  "sample_peer =
     \<lparr>socket_recv = (\<lambda>n (t, bs).
        if t = 0 then (Inl (new_exn TimeoutError ''''), (1, bs))
        else (Inr (take (nat n) bs), (t + 1, drop (nat n) bs))),
      clock = fst, packetizer_closed = (\<lambda>w. False), close_packetizer = (\<lambda>w. (Inr (), w)),
      inbound = (\<lambda>w. \<lparr>block_size_in = 8, mac_size_in = Some 0, etm_in = Some False, aead_in = Some False\<rparr>),
      vendor_read_all = (\<lambda>n check_rekey (t, bs). (Inr (take (nat n) bs), (t, drop (nat n) bs))),
      decode_text = Inr\<rparr>"

definition sample_packetizer :: "(int \<times> string) packetizer" where
  "sample_packetizer = new_packetizer (0, ''Welcome'' @ [newline] @ ''SSH-2.0-x'' @ [carriage_return, newline])"

lemma sample_ticking: "ticking_peer sample_peer"
  by (auto simp: ticking_peer_def sample_peer_def)

lemma sample_stream: "stream_peer sample_peer snd"
  by (auto simp: stream_peer_def sample_peer_def)

lemma sample_text_within: "text_within sample_packetizer"
  by (simp add: text_within_def sample_packetizer_def new_packetizer_def MAX_SSH_PREAUTH_TEXT_BYTES_def)

theorem readline_loop_ends_witness:
  "fst (text_loop (text_rounds 15000) sample_peer 15000 [] [] None sample_packetizer) \<noteq> Inr None"
  by (rule readline_loop_ends [OF sample_ticking sample_text_within])

text \<open>
  C19.  \<^verbatim>\<open>readline\<close> returns the lines of the byte stream, however the bytes arrive: the line ends at the
  first newline not yet read, everything after that newline is still to be read, and the line and all
  text read before fit their limits.
\<close>

theorem readline_first_line:
  assumes "stream_peer peer pending" and "text_within s"
    and "packetizer_readline peer timeout s = (Inr decoded, s')"
  shows "\<exists>line. newline \<notin> set line \<and> unread pending s = line @ newline # unread pending s' \<and>
    decode_text peer (strip_line_end (line @ [newline])) = Inr decoded \<and> length line < 255 \<and>
    text_bytes s' = text_bytes s + int (length line) + 1 \<and>
    text_bytes s' + int (length (remainder s')) \<le> 25500"
  using tripleD [OF readline_triple [OF assms(1)] _ assms(3)] assms(2)
  by (auto simp: line_read_def text_within_def MAX_SSH_BANNER_LINE_BYTES_def MAX_SSH_PREAUTH_TEXT_BYTES_def)

lemma sample_run: "fst (packetizer_readline sample_peer 2 sample_packetizer) = Inr ''Welcome''"
  by code_simp

theorem readline_first_line_witness:
  "\<exists>decoded s'. packetizer_readline sample_peer 2 sample_packetizer = (Inr decoded, s') \<and>
     (\<exists>line. newline \<notin> set line \<and> unread snd sample_packetizer = line @ newline # unread snd s' \<and>
       decode_text sample_peer (strip_line_end (line @ [newline])) = Inr decoded \<and> length line < 255 \<and>
       text_bytes s' = text_bytes sample_packetizer + int (length line) + 1 \<and>
       text_bytes s' + int (length (remainder s')) \<le> 25500)"
proof -
  obtain s' where run: "packetizer_readline sample_peer 2 sample_packetizer = (Inr ''Welcome'', s')"
    using sample_run by (cases "packetizer_readline sample_peer 2 sample_packetizer") auto
  from readline_first_line [OF sample_stream sample_text_within this] run show ?thesis by blast
qed

text \<open>
  Paramiko reads lines until one is the identification or none comes: any number of \<^verbatim>\<open>readline\<close> calls,
  each with its timeout, up to the first that raises.
\<close>

fun read_lines :: "'w peer \<Rightarrow> int list \<Rightarrow> ('w, string list) transport" where
  "read_lines peer [] = ret []"
| "read_lines peer (timeout # timeouts) =
     bind (packetizer_readline peer timeout) (\<lambda>line.
     bind (read_lines peer timeouts) (\<lambda>lines.
       ret (line # lines)))"

definition received :: "('w \<Rightarrow> string) \<Rightarrow> 'w \<Rightarrow> 'w packetizer \<Rightarrow> int" where
  "received pending w s = int (length (pending w)) - int (length (pending (wire s)))"

lemma read_lines_within:
  assumes "stream_peer peer pending"
  shows "triple (\<lambda>s. text_within s \<and> received pending w s \<le> text_bytes s + int (length (remainder s)))
    (read_lines peer timeouts)
    (\<lambda>_ s. received pending w s \<le> MAX_SSH_PREAUTH_TEXT_BYTES)
    (\<lambda>_ s. received pending w s \<le> MAX_SSH_PREAUTH_TEXT_BYTES)"
proof (induction timeouts)
  case Nil
  show ?case by (auto intro!: triple_ret simp: text_within_def)
next
  case (Cons timeout timeouts)
  have one: "triple (\<lambda>s. text_within s \<and> received pending w s \<le> text_bytes s + int (length (remainder s)))
      (packetizer_readline peer timeout)
      (\<lambda>_ s. text_within s \<and> received pending w s \<le> text_bytes s + int (length (remainder s)))
      (\<lambda>_ s. received pending w s \<le> MAX_SSH_PREAUTH_TEXT_BYTES)"
  proof (rule tripleI)
    fix s r s'
    assume s: "text_within s \<and> received pending w s \<le> text_bytes s + int (length (remainder s))"
      and run: "packetizer_readline peer timeout s = (r, s')"
    from s have "case r of Inl e \<Rightarrow> within_limit pending (unread pending s) (text_bytes s) s'
        | Inr d \<Rightarrow> line_read peer pending s d s'"
      using tripleD [OF readline_triple [OF assms] _ run] by blast
    with s show "case r of Inl e \<Rightarrow> received pending w s' \<le> MAX_SSH_PREAUTH_TEXT_BYTES
        | Inr x \<Rightarrow> text_within s' \<and> received pending w s' \<le> text_bytes s' + int (length (remainder s'))"
      by (cases r)
         (auto simp: within_limit_def line_read_def unread_def received_def dest!: arg_cong [where f = length])
  qed
  show ?case
    unfolding read_lines.simps
    by (rule triple_bind [OF one], rule triple_bind [OF Cons.IH]) (auto intro: triple_ret)
qed

text \<open>
  C23.  Before authentication a peer is given at most 25,500 bytes to identify itself: however many
  lines are read, with whatever timeouts, and whether or not one of them fails, no more is ever taken
  from the socket.
\<close>

theorem identification_bytes_bounded:
  assumes "stream_peer peer pending"
  shows "case read_lines peer timeouts (new_packetizer w) of (r, s') \<Rightarrow>
    int (length (pending w)) - int (length (pending (wire s'))) \<le> 25500"
proof -
  obtain r s' where run: "read_lines peer timeouts (new_packetizer w) = (r, s')"
    by (cases "read_lines peer timeouts (new_packetizer w)")
  from tripleD [OF read_lines_within [OF assms, of w] _ run] run show ?thesis
    by (auto simp: new_packetizer_def text_within_def received_def MAX_SSH_PREAUTH_TEXT_BYTES_def split: sum.splits)
qed

theorem identification_bytes_bounded_witness:
  "case read_lines sample_peer [15000, 2000] (new_packetizer (0, replicate 400 CHR ''x'')) of (r, s') \<Rightarrow>
     int (length (snd (0::int, replicate 400 CHR ''x''))) - int (length (snd (wire s'))) \<le> 25500"
  by (rule identification_bytes_bounded [OF sample_stream])

end
