(* ===== verification/AnsiGuard.thy ===== *)
theory AnsiGuard
  imports IpAddress
begin

text \<open>
  The check of \<^verbatim>\<open>BoundedArubaConnection.strip_ansi_escape_codes\<close> (\<^verbatim>\<open>src/bounded_netmiko.py\<close>) before
  Netmiko expands the escape code \<^verbatim>\<open>ESC [ count L\<close>: the decimal count is compared as text, so that no
  integer is built from it and nothing is allocated.  Text is a list of code points here, because the
  code accepts the decimal digits of every script; \<open>decimal\<close> stands for \<^verbatim>\<open>unicodedata.decimal\<close>, which
  also decides what the class \<^verbatim>\<open>\d\<close> matches.
\<close>

section \<open>Insert-line codes\<close>

type_synonym unicode = "nat list"

definition ESC :: nat where "ESC = 27"

definition LEFT_BRACKET :: nat where "LEFT_BRACKET = 91"

definition LETTER_L :: nat where "LETTER_L = 76"

definition ZERO :: nat where "ZERO = 48"

text \<open>
  \<^verbatim>\<open>ANSI_INSERT_LINE\<close> at the front of a text: the digits of its count, and the text after it.  The
  greedy run of digits is the only one the letter can follow.
\<close>

definition match_insert :: "(nat \<Rightarrow> nat option) \<Rightarrow> unicode \<Rightarrow> (unicode \<times> unicode) option" where
  "match_insert decimal t =
     (case t of
        a # b # rest \<Rightarrow>
          (let digits = takeWhile (\<lambda>c. decimal c \<noteq> None) rest in
           case drop (length digits) rest of
             c # after_match \<Rightarrow>
               if a = ESC \<and> b = LEFT_BRACKET \<and> digits \<noteq> [] \<and> c = LETTER_L then Some (digits, after_match)
               else None
           | [] \<Rightarrow> None)
      | _ \<Rightarrow> None)"

lemma match_insert_shorter: "match_insert decimal t = Some (digits, rest) \<Longrightarrow> length rest < length t"
proof -
  have shorter: "length cs < length t" if "drop n t = c # cs" for n c cs and t :: unicode
    using arg_cong [OF that, of length] by simp
  show "match_insert decimal t = Some (digits, rest) \<Longrightarrow> length rest < length t"
    by (auto simp: match_insert_def Let_def less_SucI split: list.splits if_splits dest!: shorter)
qed

text \<open>\<^verbatim>\<open>finditer\<close>: the digits of the matches, from left to right, which do not overlap.\<close>

function find_inserts :: "(nat \<Rightarrow> nat option) \<Rightarrow> unicode \<Rightarrow> unicode list" where
  "find_inserts decimal t =
     (case match_insert decimal t of
        Some (digits, rest) \<Rightarrow> digits # find_inserts decimal rest
      | None \<Rightarrow> (case t of [] \<Rightarrow> [] | c # t' \<Rightarrow> find_inserts decimal t'))"
  by pat_completeness auto
termination
  by (relation "measure (\<lambda>(decimal, t). length t)") (auto dest: match_insert_shorter)

declare find_inserts.simps [simp del]

section \<open>Decimal numbers as text\<close>

text \<open>The digit a matched character stands for.\<close>

definition digit_of :: "(nat \<Rightarrow> nat option) \<Rightarrow> nat \<Rightarrow> nat" where
  "digit_of decimal c = (case decimal c of None \<Rightarrow> 0 | Some d \<Rightarrow> d)"

text \<open>The digits in ASCII, without leading zeros but for a lone one.\<close>

definition plain_digits :: "(nat \<Rightarrow> nat option) \<Rightarrow> unicode \<Rightarrow> unicode" where
  "plain_digits decimal digits =
     (let ds = dropWhile (\<lambda>c. c = ZERO) (map (\<lambda>c. ZERO + digit_of decimal c) digits) in
      if ds = [] then [ZERO] else ds)"

text \<open>\<^verbatim>\<open>int(digits)\<close>\<close>

definition count_value :: "(nat \<Rightarrow> nat option) \<Rightarrow> unicode \<Rightarrow> nat" where
  "count_value decimal digits = foldl (\<lambda>n c. 10 * n + digit_of decimal c) 0 digits"

text \<open>Python's \<^verbatim>\<open>s < t\<close> on texts.\<close>

fun text_less :: "unicode \<Rightarrow> unicode \<Rightarrow> bool" where
  "text_less s [] = False"
| "text_less [] (d # t) = True"
| "text_less (c # s) (d # t) = (c < d \<or> c = d \<and> text_less s t)"

definition exceeds :: "unicode \<Rightarrow> unicode \<Rightarrow> bool" where
  "exceeds digits maximum_digits =
     (length digits > length maximum_digits \<or>
      (length digits = length maximum_digits \<and> text_less maximum_digits digits))"

text \<open>The comparison of digits decides the comparison of numbers.\<close>

fun digits_value :: "unicode \<Rightarrow> nat" where
  "digits_value [] = 0"
| "digits_value (c # cs) = (c - ZERO) * 10 ^ length cs + digits_value cs"

definition ascii_digits :: "unicode \<Rightarrow> bool" where
  "ascii_digits cs = list_all (\<lambda>c. ZERO \<le> c \<and> c < ZERO + 10) cs"

definition no_leading_zero :: "unicode \<Rightarrow> bool" where
  "no_leading_zero cs = (cs \<noteq> [] \<and> (hd cs \<noteq> ZERO \<or> length cs = 1))"

lemma digits_value_bound: "ascii_digits cs \<Longrightarrow> digits_value cs < 10 ^ length cs"
proof (induction cs)
  case (Cons c cs)
  then have "c - ZERO \<le> 9" and less: "digits_value cs < 10 ^ length cs" by (auto simp: ascii_digits_def)
  from \<open>c - ZERO \<le> 9\<close> have "(c - ZERO) * 10 ^ length cs \<le> 9 * 10 ^ length cs" by (rule mult_right_mono) simp
  with less show ?case unfolding digits_value.simps length_Cons power_Suc by linarith
qed simp

lemma digits_value_large:
  assumes "ascii_digits cs" and "no_leading_zero cs" and "1 < length cs"
  shows "10 ^ (length cs - 1) \<le> digits_value cs"
proof -
  obtain c ds where cs: "cs = c # ds" using assms(3) by (cases cs) auto
  with assms have "1 \<le> c - ZERO" by (auto simp: ascii_digits_def no_leading_zero_def)
  then have "1 * 10 ^ length ds \<le> (c - ZERO) * 10 ^ length ds" by (rule mult_right_mono) simp
  then have "10 ^ length ds \<le> digits_value (c # ds)"
    unfolding digits_value.simps by (intro trans_le_add1) simp
  with cs show ?thesis by simp
qed

lemma text_less_value:
  "length a = length b \<Longrightarrow> ascii_digits a \<Longrightarrow> ascii_digits b \<Longrightarrow>
     text_less a b \<longleftrightarrow> digits_value a < digits_value b"
proof (induction a b rule: list_induct2)
  case (Cons c cs d ds)
  then have same: "text_less cs ds \<longleftrightarrow> digits_value cs < digits_value ds"
    and bounds: "digits_value cs < 10 ^ length ds" "digits_value ds < 10 ^ length ds"
      and zero: "ZERO \<le> c" "ZERO \<le> d"
    using digits_value_bound [of cs] digits_value_bound [of ds] by (auto simp: ascii_digits_def)
  have jump: "x * 10 ^ n + v < y * 10 ^ n + (w::nat)" if "x < y" "v < 10 ^ n" for x y v w n :: nat
  proof -
    have "(x + 1) * 10 ^ n \<le> y * 10 ^ n" using that(1) by (intro mult_right_mono) auto
    with that(2) show ?thesis by simp
  qed
  show ?case
  proof (cases c d rule: linorder_cases)
    case less
    then have "c - ZERO < d - ZERO" using zero by simp
    from jump [OF this bounds(1)] less Cons.hyps show ?thesis by simp
  next
    case equal
    with same Cons.hyps show ?thesis by simp
  next
    case greater
    then have "d - ZERO < c - ZERO" using zero by simp
    from jump [OF this bounds(2), of "digits_value cs"] greater Cons.hyps show ?thesis by simp
  qed
qed simp

lemma exceeds_value:
  assumes "ascii_digits a" "ascii_digits b" "no_leading_zero a" "no_leading_zero b"
  shows "exceeds a b \<longleftrightarrow> digits_value b < digits_value a"
proof -
  have shorter: "digits_value x < digits_value y"
    if "ascii_digits x" "ascii_digits y" "no_leading_zero x" "no_leading_zero y" "length x < length y" for x y
  proof -
    have "1 < length y" using that by (cases x) (auto simp: no_leading_zero_def)
    note digits_value_large [OF that(2,4) this]
    moreover have "(10::nat) ^ length x \<le> 10 ^ (length y - 1)" using that(5) by (intro power_increasing) auto
    ultimately show ?thesis using digits_value_bound [OF that(1)] by linarith
  qed
  show ?thesis
    using shorter [of a b] shorter [of b a] text_less_value [of b a] assms
    by (cases "length a" "length b" rule: linorder_cases) (auto simp: exceeds_def)
qed

lemma digits_value_append: "digits_value (xs @ [c]) = 10 * digits_value xs + (c - ZERO)"
  by (induction xs) (simp_all add: algebra_simps)

lemma digits_value_zeros: "digits_value (dropWhile (\<lambda>c. c = ZERO) cs) = digits_value cs"
  by (induction cs) auto

text \<open>What \<^verbatim>\<open>unicodedata.decimal\<close> returns is a digit.\<close>

definition decimal_digits :: "(nat \<Rightarrow> nat option) \<Rightarrow> bool" where
  "decimal_digits decimal = (\<forall>c. digit_of decimal c < 10)"

lemma count_value_digits:
  "digits_value (map (\<lambda>c. ZERO + digit_of decimal c) digits) = count_value decimal digits"
  by (induction digits rule: rev_induct) (simp_all add: count_value_def digits_value_append)

lemma plain_digits_value: "digits_value (plain_digits decimal digits) = count_value decimal digits"
  using digits_value_zeros [of "map (\<lambda>c. ZERO + digit_of decimal c) digits"]
  by (cases "dropWhile (\<lambda>c. c = ZERO) (map (\<lambda>c. ZERO + digit_of decimal c) digits)")
     (simp_all add: plain_digits_def Let_def count_value_digits del: dropWhile_eq_Nil_conv)

lemma plain_digits_form:
  assumes "decimal_digits decimal"
  shows "ascii_digits (plain_digits decimal digits)" "no_leading_zero (plain_digits decimal digits)"
proof -
  let ?ds = "dropWhile (\<lambda>c. c = ZERO) (map (\<lambda>c. ZERO + digit_of decimal c) digits)"
  have "ascii_digits ?ds"
    using assms by (auto simp: ascii_digits_def list_all_iff decimal_digits_def dest!: set_dropWhileD)
  then show "ascii_digits (plain_digits decimal digits)"
    by (simp add: plain_digits_def Let_def ascii_digits_def)
  show "no_leading_zero (plain_digits decimal digits)"
    using hd_dropWhile [of "\<lambda>c. c = ZERO"] by (auto simp: plain_digits_def Let_def no_leading_zero_def)
qed

text \<open>\<^verbatim>\<open>str(n)\<close> as code points.\<close>

definition str_digits :: "nat \<Rightarrow> unicode" where
  "str_digits n = map code (str_nat n)"

lemma str_digits_value: "digits_value (str_digits n) = n"
proof (induction n rule: str_nat.induct)
  case (1 n)
  have digit: "code (digit_char d) - ZERO = d" if "d < 10" for d
    using that by (simp add: digit_char_def code_def ZERO_def)
  show ?case
    using 1 digit [of n] digit [of "n mod 10"] unfolding str_digits_def
    by (subst str_nat.simps) (simp add: digits_value_append)
qed

lemma str_digits_form: "ascii_digits (str_digits n)" "no_leading_zero (str_digits n)"
proof -
  show "ascii_digits (str_digits n)"
    using str_nat_all_digits [of n]
    by (auto simp: ascii_digits_def str_digits_def list_all_iff is_digit_def in_range_def code_def ZERO_def)
  show "no_leading_zero (str_digits n)"
  proof (cases "n = 0")
    case True
    then show ?thesis by (simp add: no_leading_zero_def str_digits_def str_nat.simps)
  next
    case False
    from str_nat_leading [OF this] have "code (hd (str_nat n)) \<noteq> code CHR ''0''"
      by (metis code_def of_char_eq_iff)
    then show ?thesis
      by (simp add: no_leading_zero_def str_digits_def hd_map ZERO_def code_def)
  qed
qed

section \<open>The check before the expansion\<close>

text \<open>
  The text with the other codes already removed fits the remaining budget once its insert-line codes
  are expanded: every one of them becomes as many newlines as the first one's count says.
\<close>

definition expansion_allowed :: "(nat \<Rightarrow> nat option) \<Rightarrow> nat \<Rightarrow> nat \<Rightarrow> unicode \<Rightarrow> int \<Rightarrow> bool" where
  "expansion_allowed decimal digits_threshold newline_length safe remaining =
     (case find_inserts decimal safe of
        [] \<Rightarrow> True
      | first_digits # others \<Rightarrow>
          (let match_count = length (first_digits # others);
               matched_length = sum_list (map (\<lambda>ds. length ds + 3) (first_digits # others));
               base = int (length safe) - int matched_length;
               unit = match_count * newline_length
           in if base > remaining \<or> unit = 0 then False
              else
                (let maximum_digits = str_digits (nat ((remaining - base) div int unit)) in
                 \<not> (length first_digits > digits_threshold) \<and>
                 \<not> exceeds (plain_digits decimal first_digits) maximum_digits)))"

text \<open>
  C25.  The digit-wise check is exact: for a count of an accepted number of digits, the text is let
  through exactly when its expansion fits the remaining budget, as computed with integers.
\<close>

theorem expansion_allowed_iff:
  assumes "decimal_digits decimal" and "find_inserts decimal safe = first # others" and "0 < newline_length"
  shows "expansion_allowed decimal digits_threshold newline_length safe remaining \<longleftrightarrow>
    length first \<le> digits_threshold \<and>
    int (length safe) - int (sum_list (map (\<lambda>ds. length ds + 3) (first # others)))
      + int (count_value decimal first) * int (length (first # others) * newline_length) \<le> remaining"
proof -
  define base where "base = int (length safe) - int (sum_list (map (\<lambda>ds. length ds + 3) (first # others)))"
  define unit where "unit = length (first # others) * newline_length"
  define count where "count = count_value decimal first"
  have unit: "0 < unit" using assms(3) by (simp add: unit_def)
  have exceeds: "exceeds (plain_digits decimal first) (str_digits m) \<longleftrightarrow> m < count" for m
    using exceeds_value [OF plain_digits_form(1) [OF assms(1)] str_digits_form(1) plain_digits_form(2) [OF assms(1)]
        str_digits_form(2)]
    by (simp add: plain_digits_value str_digits_value count_def)
  have fits: "\<not> nat ((remaining - base) div int unit) < count \<longleftrightarrow> base + int count * int unit \<le> remaining"
    if "base \<le> remaining"
  proof -
    from that have "0 \<le> remaining - base" by simp
    then obtain k where k: "remaining - base = int k" by (rule nonneg_int_cases)
    have "nat (int k div int unit) = k div unit" by (metis nat_int zdiv_int)
    moreover have "k div unit < count \<longleftrightarrow> k < count * unit" using unit by (rule div_less_iff_less_mult)
    moreover have "k < count * unit \<longleftrightarrow> int k < int count * int unit" by (metis of_nat_less_iff of_nat_mult)
    ultimately show ?thesis using k by (metis add.commute diff_less_eq linorder_not_less)
  qed
  have "expansion_allowed decimal digits_threshold newline_length safe remaining \<longleftrightarrow>
      base \<le> remaining \<and> length first \<le> digits_threshold \<and> \<not> nat ((remaining - base) div int unit) < count"
    unfolding expansion_allowed_def assms(2) list.case Let_def base_def [symmetric] unit_def [symmetric] exceeds
    using unit by auto
  moreover have "base \<le> remaining" if "base + int count * int unit \<le> remaining"
  proof -
    have "0 \<le> int count * int unit" by simp
    with that show ?thesis by linarith
  qed
  ultimately show ?thesis
    using fits unfolding base_def [symmetric] unit_def [symmetric] count_def [symmetric] by blast
qed

text \<open>Decimal digits of two scripts.\<close>

definition sample_decimal :: "nat \<Rightarrow> nat option" where
  "sample_decimal c =
     (if 48 \<le> c \<and> c < 58 then Some (c - 48) else if 1632 \<le> c \<and> c < 1642 then Some (c - 1632) else None)"

lemma sample_decimal_digits: "decimal_digits sample_decimal"
  by (auto simp: decimal_digits_def digit_of_def sample_decimal_def split: if_splits)

lemma sample_inserts: "find_inserts sample_decimal [65, 27, 91, 48, 1635, 76, 66, 27, 91, 57, 76] = [[48, 1635], [57]]"
  by (simp add: find_inserts.simps match_insert_def sample_decimal_def ESC_def LEFT_BRACKET_def LETTER_L_def)

theorem expansion_allowed_iff_witness:
  "expansion_allowed sample_decimal 640 1 [65, 27, 91, 48, 1635, 76, 66, 27, 91, 57, 76] 8 \<longleftrightarrow>
    length [48, 1635::nat] \<le> 640 \<and>
    int (length [65, 27, 91, 48, 1635, 76, 66, 27, 91, 57, 76::nat])
      - int (sum_list (map (\<lambda>ds. length ds + 3) [[48, 1635], [57::nat]]))
      + int (count_value sample_decimal [48, 1635]) * int (length [[48, 1635], [57::nat]] * 1) \<le> 8"
  by (rule expansion_allowed_iff [OF sample_decimal_digits sample_inserts]) simp

end
