(* ===== verification/BoundedChannel.thy ===== *)
theory BoundedChannel
  imports AnsiGuard BoundedPacketizer OutputPolicy
begin

text \<open>
  The bounded channel of the switch connection (\<^verbatim>\<open>src/bounded_netmiko.py\<close>): \<^verbatim>\<open>BoundedSSHChannel\<close> counts the
  raw bytes it reads against a budget, \<^verbatim>\<open>BoundedArubaConnection\<close> the text that Netmiko makes of them, and
  a connection that went over a budget is closed and never used again.  Netmiko and the transport are
  the parameter \<open>'w netmiko\<close>.
\<close>

section \<open>State\<close>

definition SETUP_READ_BYTES :: int where "SETUP_READ_BYTES = 32 * 1024"

text \<open>
  The connection with its channel: whether the channel is the bounded one, its limits and what was used
  of them, whether it is poisoned (the flag of the channel and that of the connection), whether the
  connection still refers to its client, whether a budget is open, and the text that Netmiko retained.
  \<open>raw_bytes\<close> is not in the code: it counts the bytes ever received.
\<close>

record 'w channel =
  network :: 'w
  bounded_installed :: bool
  raw_limit :: int
  raw_used :: int
  processed_limit :: int
  processed_used :: int
  channel_flag :: bool
  connection_flag :: bool
  remote_open :: bool
  budget_active :: bool
  retained :: unicode
  raw_bytes :: int

type_synonym ('w, 'a) channel_io = "('w channel, 'a) eff"

text \<open>
  What the code uses of Netmiko: the state of the transport below while the connection refers to it,
  whether the channel has its connection, \<^verbatim>\<open>recv_ready\<close> and \<^verbatim>\<open>recv\<close> of the channel, the decoding that ignores errors, Netmiko's own \<^verbatim>\<open>strip_ansi_escape_codes\<close>, the closing of
  the connection, and the buffer size.
\<close>

record 'w netmiko =
  binary_overflow :: "'w \<Rightarrow> bool"
  channel_connected :: "'w \<Rightarrow> bool"
  recv_ready :: "'w \<Rightarrow> bool res \<times> 'w"
  recv :: "int \<Rightarrow> 'w \<Rightarrow> string res \<times> 'w"
  decode_ignore :: "string \<Rightarrow> unicode"
  vendor_strip_ansi :: "unicode \<Rightarrow> unicode res"
  close_connections :: "'w \<Rightarrow> 'w"
  MAX_BUFFER :: int
  decimal_of :: "nat \<Rightarrow> nat option"
  str_digits_check_threshold :: nat

definition on_network :: "('w \<Rightarrow> 'a res \<times> 'w) \<Rightarrow> ('w, 'a) channel_io" where
  "on_network f = (\<lambda>s. case f (network s) of (r, w) \<Rightarrow> (r, s\<lparr>network := w\<rparr>))"

definition read_budget_exceeded :: exn where
  "read_budget_exceeded = new_exn SSHOutputLimitError ''SSH read budget exceeded''"

definition binary_limit_exceeded :: exn where
  "binary_limit_exceeded = new_exn SSHBinaryPacketLimitError ''SSH binary packet resource limit exceeded''"

section \<open>Poisoning\<close>

text \<open>\<^verbatim>\<open>_dispose_poisoned\<close>: ordinary exceptions of the two \<^verbatim>\<open>close\<close> calls are dropped.\<close>

definition dispose_poisoned :: "'w netmiko \<Rightarrow> ('w, unit) channel_io" where
  "dispose_poisoned env =
     modify (\<lambda>s. s\<lparr>connection_flag := True, remote_open := False,
       network := close_connections env (network s)\<rparr>)"

definition connection_healthy :: "'w netmiko \<Rightarrow> ('w, unit) channel_io" where
  "connection_healthy env =
     bind (gets (\<lambda>s. remote_open s \<and> binary_overflow env (network s))) (\<lambda>overflow.
       if overflow then seq (dispose_poisoned env) (raise binary_limit_exceeded)
       else bind (gets connection_flag) (\<lambda>poisoned. check poisoned read_budget_exceeded))"

definition channel_healthy :: "'w netmiko \<Rightarrow> ('w, unit) channel_io" where
  "channel_healthy env =
     seq (connection_healthy env)
       (bind (gets channel_flag) (\<lambda>poisoned. check poisoned read_budget_exceeded))"

definition poison :: "'w netmiko \<Rightarrow> ('w, unit) channel_io" where
  "poison env = seq (modify (\<lambda>s. s\<lparr>channel_flag := True\<rparr>)) (dispose_poisoned env)"

definition poison_and_raise :: "'w netmiko \<Rightarrow> ('w, 'a) channel_io" where
  "poison_and_raise env = seq (poison env) (raise read_budget_exceeded)"

text \<open>The property \<^verbatim>\<open>poisoned\<close>.\<close>

definition connection_is_poisoned :: "'w netmiko \<Rightarrow> ('w, bool) channel_io" where
  "connection_is_poisoned env =
     bind (gets (\<lambda>s. remote_open s \<and> binary_overflow env (network s))) (\<lambda>overflow.
     seq (if overflow then dispose_poisoned env else ret ())
       (gets connection_flag))"

section \<open>Reading\<close>

text \<open>\<^verbatim>\<open>BoundedSSHChannel.read_buffer\<close>: the bytes received are charged before they are decoded.\<close>

definition charge_raw :: "'w netmiko \<Rightarrow> string \<Rightarrow> ('w, unicode) channel_io" where
  "charge_raw env bs =
     (if bs = [] then raise (new_exn ReadException ''Channel stream closed by remote device.'')
      else
        seq (modify (\<lambda>s. s\<lparr>raw_used := raw_used s + int (length bs)\<rparr>))
       (bind (gets (\<lambda>s. raw_used s > raw_limit s)) (\<lambda>over.
          if over then poison_and_raise env else ret (decode_ignore env bs))))"

definition receive_raw :: "'w netmiko \<Rightarrow> ('w, unicode) channel_io" where
  "receive_raw env =
     bind (gets (\<lambda>s. min (MAX_BUFFER env) (raw_limit s - raw_used s + 1))) (\<lambda>size.
     bind (try_finally
         (bind (on_network (recv env size)) (\<lambda>bs.
            seq (modify (\<lambda>s. s\<lparr>raw_bytes := raw_bytes s + int (length bs)\<rparr>)) (ret bs)))
         (\<lambda>failed. channel_healthy env))
       (charge_raw env))"

definition read_buffer :: "'w netmiko \<Rightarrow> ('w, unicode) channel_io" where
  "read_buffer env =
     seq (channel_healthy env)
    (bind (gets (\<lambda>s. channel_connected env (network s))) (\<lambda>there.
       if \<not> there then
         raise (new_exn ReadException ''Attempt to read, but there is no active channel.'')
       else
         bind (on_network (recv_ready env)) (\<lambda>ready.
           if \<not> ready then ret [] else receive_raw env)))"

text \<open>
  \<^verbatim>\<open>BoundedSSHChannel.read_channel\<close> and \<^verbatim>\<open>write_channel\<close> around Netmiko's own: an error of Netmiko's is
  replaced by that of the poisoned channel, if it is poisoned.
\<close>

definition guarded :: "'w netmiko \<Rightarrow> ('w, 'a) channel_io \<Rightarrow> ('w, 'a) channel_io" where
  "guarded env m =
     seq (channel_healthy env)
    (bind (try_except m (\<lambda>e.
         if isinstance e SSHBinaryPacketLimitError then raise e
         else if isinstance e Exception then seq (channel_healthy env) (raise e)
         else raise e)) (\<lambda>result.
     seq (channel_healthy env)
       (ret result)))"

section \<open>Escape codes\<close>

definition charge_processed :: "'w netmiko \<Rightarrow> int \<Rightarrow> ('w, unit) channel_io" where
  "charge_processed env amount =
     bind (gets (\<lambda>s. amount < 0 \<or> processed_used s + amount > processed_limit s)) (\<lambda>over.
       if over then poison_and_raise env
       else modify (\<lambda>s. s\<lparr>processed_used := processed_used s + amount\<rparr>))"

text \<open>
  The first private-use character that is not in the text, which stands for the letter L meanwhile.
\<close>

function unused_from :: "nat \<Rightarrow> unicode \<Rightarrow> nat option" where
  "unused_from c t =
     (if 0x110000 \<le> c then None else if c \<in> set t then unused_from (c + 1) t else Some c)"
  by pat_completeness auto
termination
  by (relation "measure (\<lambda>(c, t). 0x110000 - c)") auto

declare unused_from.simps [simp del]

definition replace_char :: "nat \<Rightarrow> nat \<Rightarrow> unicode \<Rightarrow> unicode" where
  "replace_char old new t = map (\<lambda>c. if c = old then new else c) t"

text \<open>
  The text with the other codes removed: Netmiko's method is called with every L hidden, so that it
  expands nothing.
\<close>

definition without_other_codes :: "'w netmiko \<Rightarrow> unicode \<Rightarrow> unicode res" where
  "without_other_codes env t =
     (if LETTER_L \<in> set t then
        (case unused_from 0xF0000 t of
           None \<Rightarrow> Inl (new_exn StopIteration '''')
         | Some sentinel \<Rightarrow>
             res_bind (vendor_strip_ansi env (replace_char LETTER_L sentinel t)) (\<lambda>safe.
               Inr (replace_char sentinel LETTER_L safe)))
      else Inr t)"

definition strip_ansi_escape_codes :: "'w netmiko \<Rightarrow> unicode \<Rightarrow> ('w, unicode) channel_io" where
  "strip_ansi_escape_codes env t =
     seq (connection_healthy env)
    (bind (lift (without_other_codes env t)) (\<lambda>safe.
     bind (gets (\<lambda>s. processed_limit s - processed_used s)) (\<lambda>remaining.
       if \<not> expansion_allowed (decimal_of env) (str_digits_check_threshold env) 1 safe remaining then
         poison_and_raise env
       else
         bind (lift (vendor_strip_ansi env t)) (\<lambda>output.
         seq (charge_processed env (int (length output)))
           (ret output)))))"

section \<open>Budgets\<close>

text \<open>
  The bytes of the UTF-8 encoding of a text; text that was decoded from bytes has no surrogates, so that
  encoding it does not fail.
\<close>

definition utf8_bytes :: "unicode \<Rightarrow> int" where
  "utf8_bytes t =
     int (sum_list (map (\<lambda>c. if c < 0x80 then 1 else if c < 0x800 then 2 else if c < 0x10000 then 3 else 4) t))"

text \<open>
  The \<^verbatim>\<open>finally\<close> clause of \<^verbatim>\<open>read_budget\<close>, with the values saved before.  \<open>handling\<close>: an exception is
  being handled, that of the body or one of the caller's, so that this clause raises none of its own.
\<close>

definition close_budget ::
  "'w netmiko \<Rightarrow> bool \<Rightarrow> int \<times> int \<times> int \<times> int \<Rightarrow> ('w, unit) channel_io" where
  "close_budget env handling saved =
     (case saved of (old_limit, old_used, old_processed_limit, old_processed_used) \<Rightarrow>
       seq (modify (\<lambda>s. s\<lparr>raw_limit := old_limit, raw_used := old_used + utf8_bytes (retained s),
              processed_limit := old_processed_limit,
              processed_used := old_processed_used + int (length (retained s)), budget_active := False\<rparr>))
      (bind (gets (\<lambda>s. \<not> channel_flag s \<and> (raw_used s > raw_limit s \<or> processed_used s > processed_limit s)))
        (\<lambda>over.
          if over then seq (poison env) (if handling then ret () else raise read_budget_exceeded)
          else ret ())))"

definition open_budget :: "'w netmiko \<Rightarrow> int \<Rightarrow> ('w, unit) channel_io" where
  "open_budget env limit =
     bind (gets (\<lambda>s. utf8_bytes (retained s) > limit \<or> int (length (retained s)) > limit)) (\<lambda>over.
       if over then poison_and_raise env
       else
         modify (\<lambda>s. s\<lparr>budget_active := True, raw_limit := limit, raw_used := utf8_bytes (retained s),
           processed_limit := limit, processed_used := int (length (retained s))\<rparr>))"

definition with_read_budget ::
  "'w netmiko \<Rightarrow> bool \<Rightarrow> int \<Rightarrow> ('w, 'a) channel_io \<Rightarrow> ('w, 'a) channel_io" where
  "with_read_budget env handling limit body =
     seq (connection_healthy env)
    (seq (check (limit \<le> 0) (new_exn ValueError ''SSH read budget must be a positive integer''))
    (bind (gets budget_active) (\<lambda>active.
     seq (check active (new_exn RuntimeError ''Nested SSH read budgets are not supported''))
    (bind (gets bounded_installed) (\<lambda>installed.
     seq (check (\<not> installed) (new_exn RuntimeError ''Bounded SSH channel is missing''))
    (bind (gets (\<lambda>s. (raw_limit s, raw_used s, processed_limit s, processed_used s))) (\<lambda>saved.
     seq (open_budget env limit)
       (try_finally body (\<lambda>failed. close_budget env (handling \<or> failed) saved)))))))))"

section \<open>The operations of the connection\<close>

text \<open>
  \<^verbatim>\<open>write_channel\<close>, \<^verbatim>\<open>send_command\<close>, \<^verbatim>\<open>send_command_timing\<close>, \<^verbatim>\<open>config_mode\<close> and \<^verbatim>\<open>exit_config_mode\<close>
  of the connection: Netmiko's own, on a healthy connection.
\<close>

definition healthy_then :: "'w netmiko \<Rightarrow> ('w, 'a) channel_io \<Rightarrow> ('w, 'a) channel_io" where
  "healthy_then env m = seq (connection_healthy env) m"

definition connection_read_channel ::
  "'w netmiko \<Rightarrow> bool \<Rightarrow> ('w, unicode) channel_io \<Rightarrow> ('w, unicode) channel_io" where
  "connection_read_channel env ansi_escape_codes super_read =
     seq (connection_healthy env)
    (bind (gets (\<lambda>s. length (retained s))) (\<lambda>kept.
     bind super_read (\<lambda>output.
     seq (if ansi_escape_codes then ret ()
          else charge_processed env (int (length output) - int kept))
       (ret output))))"

text \<open>
  \<^verbatim>\<open>disconnect\<close>; \<open>end_session\<close> closes the session log and removes the log filter, with ordinary
  exceptions of the former dropped.
\<close>

definition connection_disconnect ::
  "'w netmiko \<Rightarrow> ('w \<Rightarrow> 'w) \<Rightarrow> ('w, unit) channel_io \<Rightarrow> ('w, unit) channel_io" where
  "connection_disconnect env end_session super_disconnect =
     bind (connection_is_poisoned env) (\<lambda>poisoned.
       if poisoned then
         seq (dispose_poisoned env) (modify (\<lambda>s. s\<lparr>network := end_session (network s)\<rparr>))
       else super_disconnect)"

text \<open>\<^verbatim>\<open>special_login_handler\<close>, which Netmiko calls before it first reads, installs the channel.\<close>

definition install_channel :: "'w channel \<Rightarrow> 'w channel" where
  "install_channel s =
     s\<lparr>bounded_installed := True, raw_limit := SETUP_READ_BYTES, raw_used := 0,
       processed_limit := SETUP_READ_BYTES, processed_used := 0, channel_flag := False\<rparr>"

definition special_login_handler ::
  "'w netmiko \<Rightarrow> bool \<Rightarrow> string \<Rightarrow> string \<Rightarrow> ('w, unit) channel_io" where
  "special_login_handler env plain_channel return_text response_return =
     (if \<not> plain_channel then
        seq (dispose_poisoned env) (raise (new_exn RuntimeError ''Netmiko channel construction changed''))
      else if return_text \<noteq> [newline] \<or> response_return \<noteq> [newline] then
        seq (dispose_poisoned env) (raise (new_exn RuntimeError ''Netmiko newline handling changed''))
      else modify install_channel)"

datatype ssh_client_class = BoundedSSHClient | BoundedSSHClientNoAuth

definition get_ssh_client_instance :: "bool \<Rightarrow> bool \<Rightarrow> string \<Rightarrow> ssh_client_class" where
  "get_ssh_client_instance use_keys allow_agent password =
     (if \<not> use_keys \<and> \<not> allow_agent \<and> password = '''' then BoundedSSHClientNoAuth else BoundedSSHClient)"

section \<open>The reviewed Netmiko\<close>

definition ANSI_METHOD_SHA256 :: string where
  "ANSI_METHOD_SHA256 = ''f5e982ea02e8e69fe0af518fb9ac95f0ab1c0ff4f925065c17d662c84f1b677c''"

definition netmiko_changed :: exn where
  "netmiko_changed = new_exn RuntimeError
     (''Netmiko transport changed; review the bounded SSH channel before use'')"

definition netmiko_functions :: "string list" where
  "netmiko_functions =
     [''BaseConnection.establish_connection'', ''SSHChannel.read_channel'', ''SSHChannel.read_buffer'',
      ''BaseConnection.strip_ansi_escape_codes'']"

definition netmiko_markers :: "(string \<times> string) list" where
  "netmiko_markers =
     [(''BaseConnection.establish_connection'',
       ''self.channel = SSHChannel(conn=self.remote_conn, encoding=self.encoding)''),
      (''BaseConnection.establish_connection'', ''self.special_login_handler()''),
      (''SSHChannel.read_channel'', ''self.read_buffer()''),
      (''SSHChannel.read_buffer'', ''self.remote_conn.recv(MAX_BUFFER)''),
      (''SSHChannel.read_buffer'', ''outbuf.decode(self.encoding, \"ignore\")''),
      (''BaseConnection.strip_ansi_escape_codes'',
       ''code_insert_line = chr(27) + r\"'' @ [backslash] @ ''[('' @ [backslash] @ ''d+)L\"''),
      (''BaseConnection.strip_ansi_escape_codes'',
       ''insert_line_match = re.search(code_insert_line, output)''),
      (''BaseConnection.strip_ansi_escape_codes'', ''count = int(insert_line_match.group(1))''),
      (''BaseConnection.strip_ansi_escape_codes'',
       ''output = re.sub(code_insert_line, count * self.RETURN, output)'')]"

text \<open>\<^verbatim>\<open>text.index(needle)\<close>\<close>

fun index_of :: "string \<Rightarrow> string \<Rightarrow> nat option" where
  "index_of needle [] = (if needle = [] then Some 0 else None)"
| "index_of needle (c # s) =
     (if startswith (c # s) needle then Some 0 else map_option Suc (index_of needle s))"

definition in_order :: "string \<Rightarrow> string \<Rightarrow> string \<Rightarrow> bool" where
  "in_order source a b =
     (case (index_of a source, index_of b source) of (Some i, Some j) \<Rightarrow> i < j | _ \<Rightarrow> False)"

text \<open>
  \<open>subclass\<close> and \<open>has_handler\<close>: \<^verbatim>\<open>HPProcurveSSH\<close> derives from \<^verbatim>\<open>BaseConnection\<close> and has the method
  \<^verbatim>\<open>special_login_handler\<close>.
\<close>

definition assert_netmiko_contract :: "installed \<Rightarrow> bool \<Rightarrow> bool \<Rightarrow> unit res" where
  "assert_netmiko_contract inst subclass has_handler =
     raise_if (version inst ''netmiko'' \<noteq> ''4.8.0'') netmiko_changed
       (res_bind (sources_of inst netmiko_changed netmiko_functions) (\<lambda>sources.
          raise_if
            (\<not> (subclass \<and> list_all (marked sources) netmiko_markers \<and>
                (case map_of sources ''BaseConnection.establish_connection'' of
                   None \<Rightarrow> False
                 | Some establish \<Rightarrow>
                     in_order establish ''self.channel = SSHChannel('' ''self.special_login_handler()'') \<and>
                digest_is inst sources ''BaseConnection.strip_ansi_escape_codes'' ANSI_METHOD_SHA256 \<and>
                has_handler))
            netmiko_changed (Inr ())))"

text \<open>The constructor: both contracts first, then Netmiko's own connecting.\<close>

definition aruba_connection ::
  "installed \<Rightarrow> bool \<Rightarrow> bool \<Rightarrow> ('w, unit) channel_io \<Rightarrow> ('w, unit) channel_io" where
  "aruba_connection inst subclass has_handler super_init =
     seq (lift (assert_netmiko_contract inst subclass has_handler))
    (seq (lift (assert_paramiko_contract inst))
    (seq (modify (\<lambda>s. s\<lparr>connection_flag := False\<rparr>))
       super_init))"

section \<open>What any use of the connection can do\<close>

text \<open>
  Netmiko's methods are not in the repository: they are any program that reads from the channel, strips
  escape codes, retains text, opens budgets and acts on what it got, with the world changing in between.
\<close>

datatype 'w program =
    Finish "unicode res"
  | ReadBuffer "unicode res \<Rightarrow> 'w program"
  | StripAnsi unicode "unicode res \<Rightarrow> 'w program"
  | Retain unicode "'w program"
  | ChangeNetwork "'w \<Rightarrow> 'w" "'w program"
  | InBudget bool int "'w program" "unicode res \<Rightarrow> 'w program"

primrec run_program :: "'w netmiko \<Rightarrow> 'w program \<Rightarrow> ('w, unicode) channel_io" where
  "run_program env (Finish r) = lift r"
| "run_program env (ReadBuffer k) = bind (outcome_of (read_buffer env)) (\<lambda>r. run_program env (k r))"
| "run_program env (StripAnsi t k) =
     bind (outcome_of (strip_ansi_escape_codes env t)) (\<lambda>r. run_program env (k r))"
| "run_program env (Retain t p) = seq (modify (\<lambda>s. s\<lparr>retained := t\<rparr>)) (run_program env p)"
| "run_program env (ChangeNetwork f p) =
     seq (modify (\<lambda>s. s\<lparr>network := f (network s)\<rparr>)) (run_program env p)"
| "run_program env (InBudget handling limit p k) =
     bind (outcome_of (with_read_budget env handling limit (run_program env p))) (\<lambda>r.
       run_program env (k r))"

lemma post_on_network [effect_simps]:
  "post (on_network f) s Q = (case f (network s) of (r, w) \<Rightarrow> Q r (s\<lparr>network := w\<rparr>))"
  by (simp add: on_network_def post_def split: prod.split)

text \<open>
  What holds of the state of a connection and no step of poisoning or checking changes: it does not
  depend on the world below, and poisoning establishes it.
\<close>

locale connection_law =
  fixes J :: "'w channel \<Rightarrow> bool"
  assumes network_law: "J s \<Longrightarrow> J (s\<lparr>network := w\<rparr>)"
    and poison_law: "J s \<Longrightarrow> J (s\<lparr>connection_flag := True, remote_open := False, network := w\<rparr>)"
    and flag_law: "J s \<Longrightarrow> J (s\<lparr>channel_flag := True, connection_flag := True, remote_open := False, network := w\<rparr>)"
begin

lemma keeps_dispose: "keeps J (dispose_poisoned env)"
  unfolding dispose_poisoned_def by (rule keeps_modify) (rule poison_law)

lemma keeps_healthy: "keeps J (connection_healthy env)" "keeps J (channel_healthy env)"
  unfolding channel_healthy_def connection_healthy_def by (intro keeps_intros keeps_dispose)+

lemma keeps_poison: "keeps J (poison env)" "keeps J (poison_and_raise env)"
proof -
  show "keeps J (poison env)"
    by (rule keepsI) (simp add: poison_def dispose_poisoned_def effect_simps flag_law)
  then show "keeps J (poison_and_raise env)" unfolding poison_and_raise_def by (intro keeps_intros)
qed

end


section \<open>The raw bytes of a budget\<close>

text \<open>What the socket promises: \<^verbatim>\<open>recv(n)\<close> returns at most \<open>n\<close> bytes.\<close>

definition bounded_recv :: "'w netmiko \<Rightarrow> bool" where
  "bounded_recv env =
     (0 \<le> MAX_BUFFER env \<and>
      (\<forall>n w. case recv env n w of (Inl e, w') \<Rightarrow> True | (Inr bs, w') \<Rightarrow> int (length bs) \<le> max 0 n))"

text \<open>
  Since the budget was opened, with \<open>start\<close> bytes received before: what was received was charged, until
  the connection is poisoned; the read that poisons it goes at most one byte over.
\<close>

definition spent :: "int \<Rightarrow> int \<Rightarrow> 'w channel \<Rightarrow> bool" where
  "spent start limit s =
     (budget_active s \<and> raw_limit s = limit \<and> raw_bytes s - start \<le> limit + 1 \<and>
      (connection_flag s \<or> (raw_bytes s - start \<le> raw_used s \<and> raw_used s \<le> limit)))"

interpretation spending: connection_law "spent start limit" for start limit
  by unfold_locales (auto simp: spent_def)

lemma healthy_unflagged:
  assumes "spent start limit s"
  shows "post (channel_healthy env) s (\<lambda>r s'. spent start limit s' \<and>
    (case r of Inl e \<Rightarrow> True | Inr u \<Rightarrow> \<not> connection_flag s' \<and> \<not> channel_flag s' \<and> s' = s))"
  using assms
  by (auto simp: channel_healthy_def connection_healthy_def dispose_poisoned_def effect_simps spent_def
      split: sum.split)

lemma receive_raw_spent:
  assumes "bounded_recv env" and "spent start limit s" and "\<not> connection_flag s" and "\<not> channel_flag s"
  shows "post (receive_raw env) s (\<lambda>r. spent start limit)"
proof -
  let ?n = "min (MAX_BUFFER env) (raw_limit s - raw_used s + 1)"
  obtain r w where answer: "recv env ?n (network s) = (r, w)" by (cases "recv env ?n (network s)")
  have n: "0 \<le> ?n" and fit: "raw_used s + ?n \<le> limit + 1"
    using assms by (auto simp: bounded_recv_def spent_def)
  show ?thesis
  proof (cases r)
    case (Inl e)
    have t: "spent start limit (s\<lparr>network := w\<rparr>)" by (rule spending.network_law [OF assms(2)])
    have "post (channel_healthy env) (s\<lparr>network := w\<rparr>) (\<lambda>r. spent start limit)"
      by (rule keeps_post [OF spending.keeps_healthy(2) t])
    then show ?thesis
      using answer by (auto simp: Inl receive_raw_def effect_simps elim!: post_mono split: sum.split)
  next
    case (Inr bs)
    have size: "int (length bs) \<le> ?n"
      using assms(1) n answer Inr unfolding bounded_recv_def
      by (auto dest!: spec [where x = ?n] spec [where x = "network s"])
    let ?t = "s\<lparr>network := w, raw_bytes := raw_bytes s + int (length bs)\<rparr>"
    have healthy: "post (channel_healthy env) ?t (\<lambda>r s'. case r of
          Inl e \<Rightarrow> spent start limit s'
        | Inr u \<Rightarrow> s' = ?t)"
      using assms(2-4) size fit
      by (auto simp: channel_healthy_def connection_healthy_def dispose_poisoned_def effect_simps spent_def
          split: sum.split)
    have rest: "post (charge_raw env bs) ?t (\<lambda>r. spent start limit)"
      using assms(2-4) size fit
      by (auto simp: charge_raw_def effect_simps poison_and_raise_def poison_def dispose_poisoned_def spent_def)
    from healthy show ?thesis
      unfolding receive_raw_def
      by (intro post_gets_bind)
         (auto simp: post_bind post_try_finally post_on_network answer Inr post_seq post_modify post_ret
           elim!: post_mono split: sum.splits intro: rest)
  qed
qed

lemma read_buffer_spent:
  assumes "bounded_recv env"
  shows "keeps (spent start limit) (read_buffer env)"
proof (rule keepsI)
  fix s :: "'a channel"
  assume s: "spent start limit s"
  have ready: "post (bind (gets (\<lambda>s. channel_connected env (network s))) (\<lambda>there.
       if \<not> there then
         raise (new_exn ReadException ''Attempt to read, but there is no active channel.'')
       else
         bind (on_network (recv_ready env)) (\<lambda>ready.
           if \<not> ready then ret [] else receive_raw env))) s (\<lambda>r. spent start limit)" if "\<not> connection_flag s" "\<not> channel_flag s"
    using that s spending.network_law [OF s]
    by (auto simp: effect_simps intro!: receive_raw_spent [OF assms] split: prod.split sum.split)
  show "post (read_buffer env) s (\<lambda>r. spent start limit)"
    unfolding read_buffer_def post_seq
    by (rule post_mono [OF healthy_unflagged [OF s]]) (auto split: sum.splits intro: ready)
qed

lemma strip_keeps:
  assumes "connection_law J" and "\<And>s n. J s \<Longrightarrow> J (s\<lparr>processed_used := n\<rparr>)"
  shows "keeps J (strip_ansi_escape_codes env t)"
  unfolding strip_ansi_escape_codes_def charge_processed_def
  by (intro keeps_intros connection_law.keeps_healthy [OF assms(1)] connection_law.keeps_poison [OF assms(1)]
      keeps_modify assms(2))

lemma nested_keeps:
  assumes "connection_law J" and "\<And>s. J s \<Longrightarrow> budget_active s"
  shows "keeps J (with_read_budget env handling limit body)"
proof (rule keepsI)
  fix s
  assume "J s"
  show "post (with_read_budget env handling limit body) s (\<lambda>r. J)"
    unfolding with_read_budget_def post_seq
    by (rule keeps_then [OF connection_law.keeps_healthy(1) [OF assms(1)] \<open>J s\<close>])
       (auto simp: effect_simps dest: assms(2) split: sum.split)
qed

lemma program_spent:
  assumes "bounded_recv env"
  shows "keeps (spent start limit) (run_program env p)"
proof (induction p)
  case (InBudget handling l p k)
  have "keeps (spent start limit) (with_read_budget env handling l (run_program env p))"
    by (rule nested_keeps [OF spending.connection_law_axioms]) (simp add: spent_def)
  then show ?case using InBudget by (simp add: keeps_intros)
next
  case (StripAnsi t k)
  have "keeps (spent start limit) (strip_ansi_escape_codes env t)"
    by (rule strip_keeps [OF spending.connection_law_axioms]) (simp add: spent_def)
  then show ?case using StripAnsi by (simp add: keeps_intros)
next
  case (Retain t p)
  have "keeps (spent start limit) (modify (\<lambda>s. s\<lparr>retained := t\<rparr>))"
    by (rule keeps_modify) (simp add: spent_def)
  then show ?case using Retain by (auto intro: keeps_seq)
next
  case (ChangeNetwork f p)
  then show ?case by (auto intro!: keeps_seq keeps_modify spending.network_law)
qed (simp_all add: keeps_intros read_buffer_spent [OF assms])

lemma utf8_bytes_nonneg: "0 \<le> utf8_bytes t"
  by (simp add: utf8_bytes_def)

lemma closing_bytes: "keeps (\<lambda>t. raw_bytes t = n) (close_budget env handling saved)"
  by (rule keepsI)
     (auto simp: close_budget_def poison_def dispose_poisoned_def effect_simps split: prod.split)

lemma connection_healthy_same:
  "post (connection_healthy env) s (\<lambda>r s'. raw_bytes s' = raw_bytes s \<and> raw_limit s' = raw_limit s \<and>
     processed_limit s' = processed_limit s \<and> budget_active s' = budget_active s \<and>
     (case r of Inl e \<Rightarrow> True | Inr u \<Rightarrow> \<not> connection_flag s' \<and> s' = s))"
  by (auto simp: connection_healthy_def dispose_poisoned_def effect_simps split: sum.split)

lemma opened_spent:
  "0 < limit \<Longrightarrow> post (open_budget env limit) s (\<lambda>r s'. raw_bytes s' = raw_bytes s \<and>
     (case r of Inl e \<Rightarrow> True | Inr u \<Rightarrow> spent (raw_bytes s) limit s'))"
  using utf8_bytes_nonneg [of "retained s"]
  by (auto simp: open_budget_def poison_and_raise_def poison_def dispose_poisoned_def effect_simps spent_def
      split: sum.split)

lemma budget_bytes:
  assumes "keeps (spent (raw_bytes s) limit) body"
  shows "post (with_read_budget env handling limit body) s
    (\<lambda>r s'. raw_bytes s' - raw_bytes s \<le> max 0 (limit + 1))"
proof -
  have inside: "post (try_finally body (\<lambda>failed. close_budget env (handling \<or> failed) saved)) t
      (\<lambda>r s'. raw_bytes s' - raw_bytes s \<le> limit + 1)" if "spent (raw_bytes s) limit t" for saved t
    unfolding post_try_finally
  proof (rule post_mono [OF keeps_post [OF assms that]])
    fix r and u :: "'a channel"
    assume "spent (raw_bytes s) limit u"
    then have "raw_bytes u - raw_bytes s \<le> limit + 1" by (simp add: spent_def)
    then show "post (close_budget env (handling \<or> (case r of Inl e \<Rightarrow> True | Inr x \<Rightarrow> False)) saved) u
        (\<lambda>r' s''. case r' of
           Inl e' \<Rightarrow> raw_bytes s'' - raw_bytes s \<le> limit + 1
         | Inr _ \<Rightarrow> raw_bytes s'' - raw_bytes s \<le> limit + 1)"
      by (intro post_mono [OF keeps_post [OF closing_bytes refl]]) (auto split: sum.split)
  qed
  have opened: "post (seq (open_budget env limit)
       (try_finally body (\<lambda>failed. close_budget env (handling \<or> failed) saved))) s
      (\<lambda>r s'. raw_bytes s' - raw_bytes s \<le> limit + 1)" if "0 < limit" for saved
    unfolding post_seq
    by (rule post_mono [OF opened_spent [OF that]]) (use that in \<open>auto elim!: post_mono [OF inside] split: sum.splits\<close>)
  show ?thesis
    unfolding with_read_budget_def post_seq [of "connection_healthy env"]
    by (rule post_mono [OF connection_healthy_same])
       (auto simp: post_seq [of "check b e" for b e] post_check post_bind [of "gets f" for f] post_gets
         intro: opened split: sum.splits)
qed

text \<open>
  C20.  Within one budget of \<open>limit\<close> bytes the switch can make the program receive at most \<open>limit + 1\<close>
  bytes, whatever Netmiko does with the channel: it may read as often as it likes, ignore exceptions and
  try to open further budgets.
\<close>

theorem budget_bounds_raw_bytes:
  assumes "bounded_recv env"
  shows "case with_read_budget env handling limit (run_program env p) s of (r, s') \<Rightarrow>
    raw_bytes s' - raw_bytes s \<le> max 0 (limit + 1)"
  using budget_bytes [OF program_spent [OF assms]] by (simp add: post_def)

text \<open>A switch that sends more than it was asked for: every read returns what it may.\<close>

definition sample_netmiko :: "unit netmiko" where
  "sample_netmiko =
     \<lparr>binary_overflow = (\<lambda>w. False), channel_connected = (\<lambda>w. True), recv_ready = (\<lambda>w. (Inr True, w)),
      recv = (\<lambda>n w. (Inr (replicate (nat n) CHR ''x''), w)), decode_ignore = map code, vendor_strip_ansi = Inr,
      close_connections = (\<lambda>w. w), MAX_BUFFER = 65535, decimal_of = sample_decimal,
      str_digits_check_threshold = 640\<rparr>"

definition sample_channel :: "unit channel" where
  "sample_channel =
     \<lparr>network = (), bounded_installed = True, raw_limit = SETUP_READ_BYTES, raw_used = 0,
      processed_limit = SETUP_READ_BYTES, processed_used = 0, channel_flag = False, connection_flag = False,
      remote_open = True, budget_active = False, retained = [], raw_bytes = 0\<rparr>"

lemma sample_recv: "bounded_recv sample_netmiko"
  by (simp add: bounded_recv_def sample_netmiko_def)

theorem budget_bounds_raw_bytes_witness:
  "case with_read_budget sample_netmiko False 12
      (run_program sample_netmiko (ReadBuffer (\<lambda>r. ReadBuffer Finish))) sample_channel of (r, s') \<Rightarrow>
    raw_bytes s' - raw_bytes sample_channel \<le> max 0 (12 + 1)"
  by (rule budget_bounds_raw_bytes [OF sample_recv])


section \<open>A poisoned connection\<close>

interpretation silenced: connection_law "\<lambda>s. connection_flag s \<and> raw_bytes s = n" for n
  by unfold_locales simp_all

lemma silenced_stops:
  assumes "connection_flag s"
  shows "post (connection_healthy env) s (\<lambda>r s'. isl r \<and> connection_flag s' \<and> raw_bytes s' = raw_bytes s)"
  using assms by (simp add: connection_healthy_def dispose_poisoned_def effect_simps)

lemma silenced_keeps:
  fixes m :: "('w, unit) channel_io" and k :: "('w, 'a) channel_io"
  assumes "\<And>s. connection_flag s \<Longrightarrow>
    post m s (\<lambda>r s'. isl r \<and> connection_flag s' \<and> raw_bytes s' = raw_bytes s)"
  shows "keeps (\<lambda>s. connection_flag s \<and> raw_bytes s = n) (seq m k)"
proof (rule keepsI)
  fix s :: "'w channel"
  assume "connection_flag s \<and> raw_bytes s = n"
  then show "post (seq m k) s (\<lambda>r s'. connection_flag s' \<and> raw_bytes s' = n)"
    unfolding post_seq by (intro post_mono [OF assms]) (auto split: sum.split)
qed

lemma silenced_operations:
  "keeps (\<lambda>s. connection_flag s \<and> raw_bytes s = n) (read_buffer env)"
  "keeps (\<lambda>s. connection_flag s \<and> raw_bytes s = n) (strip_ansi_escape_codes env t)"
  "keeps (\<lambda>s. connection_flag s \<and> raw_bytes s = n) (with_read_budget env handling limit body)"
proof -
  have channel: "post (channel_healthy env) s (\<lambda>r s'. isl r \<and> connection_flag s' \<and> raw_bytes s' = raw_bytes s)"
    if "connection_flag s" for s
    unfolding channel_healthy_def post_seq
    by (rule post_mono [OF silenced_stops [OF that]]) (auto split: sum.split)
  show "keeps (\<lambda>s. connection_flag s \<and> raw_bytes s = n) (read_buffer env)"
    unfolding read_buffer_def by (rule silenced_keeps [OF channel])
  show "keeps (\<lambda>s. connection_flag s \<and> raw_bytes s = n) (strip_ansi_escape_codes env t)"
    unfolding strip_ansi_escape_codes_def by (rule silenced_keeps [OF silenced_stops])
  show "keeps (\<lambda>s. connection_flag s \<and> raw_bytes s = n) (with_read_budget env handling limit body)"
    unfolding with_read_budget_def by (rule silenced_keeps [OF silenced_stops])
qed

lemma silenced_program: "keeps (\<lambda>s. connection_flag s \<and> raw_bytes s = n) (run_program env p)"
proof (induction p)
  case (InBudget handling l p k)
  then show ?case by (simp add: keeps_intros silenced_operations)
next
  case (Retain t p)
  then show ?case by (auto intro!: keeps_seq keeps_modify)
next
  case (ChangeNetwork f p)
  then show ?case by (auto intro!: keeps_seq keeps_modify)
qed (simp_all add: keeps_intros silenced_operations)

text \<open>
  C21.  A poisoned connection stays poisoned and receives nothing any more, whatever Netmiko calls.
\<close>

theorem poisoned_receives_nothing:
  "case run_program env p s of (r, s') \<Rightarrow>
     if connection_flag s then connection_flag s' \<and> raw_bytes s' = raw_bytes s else True"
  using keeps_post [OF silenced_program [of "raw_bytes s" env p], of s] by (auto simp: post_def split: prod.splits)

end
