(* ===== verification/CiPolicy.thy ===== *)
theory CiPolicy
  imports Json Regex
begin

text \<open>
  The policies of the continuous integration (\<^verbatim>\<open>scripts/ci_policy.py\<close> and
  \<^verbatim>\<open>scripts/release_qualification.py\<close>): which changes need the container checks, and when the results
  of all jobs let a pull request or a release through.  The text scanner of \<^verbatim>\<open>json.loads\<close> is the
  parameter \<open>scan\<close>.  Bytes are characters below code point 256.
\<close>

section \<open>UTF-8\<close>

text \<open>
  What \<^verbatim>\<open>bytes.decode("utf-8")\<close> accepts.  A path is kept as its bytes: decoding leaves every ASCII
  character alone and maps nothing else to one, so that the checks, which are on ASCII characters only,
  see the same on the bytes.
\<close>

definition continuation_byte :: "char \<Rightarrow> bool" where
  "continuation_byte c = (0x80 \<le> code c \<and> code c \<le> 0xBF)"

text \<open>The bounds of the second byte of a sequence, by the first.\<close>

definition second_byte :: "nat \<Rightarrow> char \<Rightarrow> bool" where
  "second_byte lead c =
     ((if lead = 0xE0 then 0xA0 else if lead = 0xF0 then 0x90 else 0x80) \<le> code c \<and>
      code c \<le> (if lead = 0xED then 0x9F else if lead = 0xF4 then 0x8F else 0xBF))"

fun valid_utf8 :: "string \<Rightarrow> bool" where
  "valid_utf8 [] = True"
| "valid_utf8 (a # s) =
     (if code a < 0x80 then valid_utf8 s
      else if 0xC2 \<le> code a \<and> code a \<le> 0xDF then
        (case s of b # s' \<Rightarrow> continuation_byte b \<and> valid_utf8 s' | _ \<Rightarrow> False)
      else if 0xE0 \<le> code a \<and> code a \<le> 0xEF then
        (case s of b # c # s' \<Rightarrow> second_byte (code a) b \<and> continuation_byte c \<and> valid_utf8 s' | _ \<Rightarrow> False)
      else if 0xF0 \<le> code a \<and> code a \<le> 0xF4 then
        (case s of
           b # c # d # s' \<Rightarrow>
             second_byte (code a) b \<and> continuation_byte c \<and> continuation_byte d \<and> valid_utf8 s'
         | _ \<Rightarrow> False)
      else False)"

section \<open>Changed paths\<close>

definition MAX_INPUT :: nat where "MAX_INPUT = 8 * 1024 * 1024"

abbreviation policy_error :: "string \<Rightarrow> 'a res" where
  "policy_error t \<equiv> Inl (new_exn PolicyError t)"

definition DOC_FILES :: "string list" where
  "DOC_FILES = [''README.md'', ''CONTRIBUTING.md'', ''CHANGELOG.md'']"

definition change_statuses :: "string list" where
  "change_statuses = [''A'', ''M'', ''D'', ''T'', ''U'', ''X'', ''B'']"

definition path_refused :: "string \<Rightarrow> bool" where
  "path_refused path =
     (path = [] \<or> 4096 < length path \<or> startswith path ''/''
      \<or> list_ex (\<lambda>part. part \<in> {'''', ''.'', ''..''}) (split_on CHR ''/'' path)
      \<or> list_ex is_control path)"

definition documentation_path :: "string \<Rightarrow> bool" where
  "documentation_path path =
     (path \<in> set DOC_FILES \<or> (startswith path ''docs/'' \<and> endswith path ''.md''))"

text \<open>\<^verbatim>\<open>zip(fields[::2], fields[1::2])\<close> for an even number of fields.\<close>

fun field_pairs :: "'a list \<Rightarrow> ('a \<times> 'a) list" where
  "field_pairs (x # y # xs) = (x, y) # field_pairs xs"
| "field_pairs _ = []"

text \<open>The loop over the records; \<open>required\<close> is what was found so far.\<close>

fun check_changes :: "bool \<Rightarrow> (string \<times> string) list \<Rightarrow> bool res" where
  "check_changes required [] = Inr required"
| "check_changes required ((status, path) # records) =
     raise_if (status \<notin> set change_statuses)
       (new_exn PolicyError ''unexpected change status; rename detection must be off'')
    (raise_if (\<not> valid_utf8 path) (new_exn PolicyError ''changed path is not UTF-8'')
    (raise_if (path_refused path) (new_exn PolicyError ''invalid changed path'')
       (check_changes
          (required \<or> (status \<noteq> ''A'' \<and> status \<noteq> ''M'') \<or> \<not> documentation_path path) records)))"

definition containers_required :: "string \<Rightarrow> bool res" where
  "containers_required changes =
     (if MAX_INPUT < length changes then policy_error ''changed-path input exceeds the limit''
      else if changes = [] then Inr True
      else if last changes \<noteq> nul then policy_error ''changed-path input is not NUL terminated''
      else
        (let fields = split_on nul (butlast changes) in
         if odd (length fields) \<or> 20000 < length fields then policy_error ''invalid changed-path record count''
         else check_changes False (field_pairs fields)))"

section \<open>Job results\<close>

definition REQUIRED_JOBS :: "string list" where
  "REQUIRED_JOBS = [''changes'', ''actions'', ''markdown'', ''python_lint'', ''python_tests'', ''security'']"

text \<open>\<^verbatim>\<open>isinstance(job, dict) and set(job) == {"result", "outputs"} and isinstance(job["outputs"], dict)\<close>\<close>

definition job_record :: "json \<Rightarrow> bool" where
  "job_record job =
     (case job of
        JObj ps \<Rightarrow> keys ps = {''result'', ''outputs''} \<and> is_dict (dict_get ps ''outputs'')
      | _ \<Rightarrow> False)"

text \<open>\<^verbatim>\<open>needs[name]["result"]\<close> and \<^verbatim>\<open>needs[name]["outputs"]\<close>, of job records.\<close>

definition member :: "json \<Rightarrow> string \<Rightarrow> json" where
  "member value key = (case value of JObj ps \<Rightarrow> dict_get ps key | _ \<Rightarrow> JNull)"

definition job_result :: "(string \<times> json) list \<Rightarrow> string \<Rightarrow> json" where
  "job_result needs name = member (dict_get needs name) ''result''"

definition job_output :: "(string \<times> json) list \<Rightarrow> string \<Rightarrow> string \<Rightarrow> json" where
  "job_output needs name key = member (member (dict_get needs name) ''outputs'') key"

fun check_records :: "(string \<times> json) list \<Rightarrow> unit res" where
  "check_records [] = Inr ()"
| "check_records ((name, job) # jobs) =
     (if \<not> job_record job then policy_error (''invalid job record: '' @ name) else check_records jobs)"

fun check_required_jobs :: "(string \<times> json) list \<Rightarrow> string list \<Rightarrow> unit res" where
  "check_required_jobs needs [] = Inr ()"
| "check_required_jobs needs (name # names) =
     (if \<not> py_eq (job_result needs name) (JStr ''success'') then
        policy_error (''required job did not succeed: '' @ name)
      else if name \<noteq> ''changes'' \<and> \<not> py_eq (job_output needs name ''passed'') (JStr ''true'') then
        policy_error (''internal checks did not all succeed: '' @ name)
      else check_required_jobs needs names)"

definition check_deployment :: "(string \<times> json) list \<Rightarrow> unit res" where
  "check_deployment needs =
     (let relevant = job_output needs ''changes'' ''containers'' in
      if py_eq relevant (JStr ''true'') then
        (if \<not> py_eq (job_result needs ''deployment'') (JStr ''success'')
            \<or> \<not> py_eq (job_output needs ''deployment'' ''passed'') (JStr ''true'') then
           policy_error ''required container validation did not succeed''
         else Inr ())
      else if py_eq relevant (JStr ''false'') then
        (if \<not> py_eq (job_result needs ''deployment'') (JStr ''skipped'')
            \<or> truthy (member (dict_get needs ''deployment'') ''outputs'') then
           policy_error ''unexpected result for inapplicable container validation''
         else Inr ())
      else policy_error ''invalid container relevance output'')"

definition parse_needs :: "(string \<Rightarrow> json res) \<Rightarrow> string \<Rightarrow> json res" where
  "parse_needs scan raw =
     (case res_bind (scan raw) (reject_duplicates (new_exn PolicyError ''duplicate result key'')) of
        Inl error \<Rightarrow>
          Inl (if isinstance_any error [ValueError, RecursionError]
               then new_exn PolicyError ''invalid job-result JSON'' else error)
      | Inr needs \<Rightarrow> Inr needs)"

definition validate_gate :: "(string \<Rightarrow> json res) \<Rightarrow> string \<Rightarrow> unit res" where
  "validate_gate scan raw =
     raise_if (MAX_INPUT < utf8_len raw) (new_exn PolicyError ''job results exceed the limit'')
       (res_bind (parse_needs scan raw) (\<lambda>parsed.
          case parsed of
            JObj needs \<Rightarrow>
              raise_if (keys needs \<noteq> set REQUIRED_JOBS \<union> {''deployment''})
                (new_exn PolicyError ''missing or unexpected required jobs'')
             (res_bind (check_records needs) (\<lambda>_.
              res_bind (check_required_jobs needs REQUIRED_JOBS) (\<lambda>_.
                check_deployment needs)))
          | _ \<Rightarrow> policy_error ''missing or unexpected required jobs''))"

text \<open>\<^verbatim>\<open>main\<close>: the exit code and the line printed; a file that cannot be read is an \<^verbatim>\<open>OSError\<close>.\<close>

datatype policy_command = Changes "string res" | Gate string

definition policy_blocked :: "exn \<Rightarrow> (int \<times> string) res" where
  "policy_blocked error =
     (if isinstance_any error [PolicyError, OSError] then
        Inr (1, ''CI policy blocked: '' @
          (if isinstance error PolicyError then exn_text error else ''unreadable policy input''))
      else Inl error)"

definition ci_policy_main :: "(string \<Rightarrow> json res) \<Rightarrow> policy_command \<Rightarrow> (int \<times> string) res" where
  "ci_policy_main scan command =
     (case
        (case command of
           Changes source \<Rightarrow>
             res_bind source (\<lambda>content.
             res_bind (containers_required (take (MAX_INPUT + 1) content)) (\<lambda>required.
               Inr (''containers='' @ (if required then ''true'' else ''false''))))
         | Gate needs \<Rightarrow>
             res_bind (validate_gate scan needs) (\<lambda>_. Inr ''Every required CI check passed.'')) of
        Inl error \<Rightarrow> policy_blocked error
      | Inr line \<Rightarrow> Inr (0, line))"

section \<open>Release qualification\<close>

definition RELEASE_REQUIRED :: "string list" where
  "RELEASE_REQUIRED =
     [''actions'', ''markdown'', ''python_lint'', ''python_tests'', ''security'', ''container_lint'']"

definition sha_re :: re where
  "sha_re = rep 40 (Cls is_lower_hex)"

definition qualified_job :: "json \<Rightarrow> bool" where
  "qualified_job job =
     (case job of
        JObj ps \<Rightarrow>
          keys ps = {''result'', ''outputs''} \<and> py_eq (dict_get ps ''result'') (JStr ''success'') \<and>
          py_eq (dict_get ps ''outputs'') (JObj [(''passed'', JStr ''true'')])
      | _ \<Rightarrow> False)"

definition validate_qualification :: "(string \<Rightarrow> json res) \<Rightarrow> string \<Rightarrow> string \<Rightarrow> unit res" where
  "validate_qualification scan raw source_sha =
     raise_if (65536 < utf8_len raw \<or> \<not> fullmatch sha_re source_sha)
       (new_exn ValueError ''invalid qualification input'')
       (res_bind (res_bind (scan raw) (reject_duplicates (new_exn ValueError ''duplicate job result'')))
         (\<lambda>parsed.
          case parsed of
            JObj needs \<Rightarrow>
              raise_if (keys needs \<noteq> set RELEASE_REQUIRED)
                (new_exn ValueError ''missing or unexpected qualification job'')
             (raise_if (\<not> list_all (\<lambda>p. qualified_job (snd p)) needs)
                (new_exn ValueError ''every qualification job must explicitly pass'')
                (Inr ()))
          | _ \<Rightarrow> value_error ''missing or unexpected qualification job''))"

definition qualification_main :: "(string \<Rightarrow> json res) \<Rightarrow> string \<Rightarrow> string \<Rightarrow> (int \<times> string list) res" where
  "qualification_main scan needs source_sha =
     (case validate_qualification scan needs source_sha of
        Inl error \<Rightarrow>
          if isinstance_any error [ValueError, RecursionError] then
            Inr (1, [''Release qualification blocked: incomplete or invalid results.''])
          else Inl error
      | Inr _ \<Rightarrow> Inr (0, [''passed=true'', ''source_sha='' @ source_sha]))"

section \<open>When the container checks are skipped\<close>

text \<open>The format of \<^verbatim>\<open>git diff --name-status -z\<close>.\<close>

definition change_records :: "(string \<times> string) list \<Rightarrow> string" where
  "change_records records = concat (map (\<lambda>(status, path). status @ [nul] @ path @ [nul]) records)"

definition documentation_change :: "string \<times> string \<Rightarrow> bool" where
  "documentation_change record =
     (case record of (status, path) \<Rightarrow>
        status \<in> {''A'', ''M''} \<and> valid_utf8 path \<and> \<not> path_refused path \<and> documentation_path path)"

definition record_fields :: "('a \<times> 'a) list \<Rightarrow> 'a list" where
  "record_fields records = concat (map (\<lambda>(x, y). [x, y]) records)"

lemma field_pairs_record_fields: "field_pairs (record_fields records) = records"
  by (induction records) (auto simp: record_fields_def)

lemma record_fields_field_pairs: "even (length fields) \<Longrightarrow> record_fields (field_pairs fields) = fields"
  by (induction fields rule: field_pairs.induct) (auto simp: record_fields_def)

lemma length_record_fields: "length (record_fields records) = 2 * length records"
  by (induction records) (auto simp: record_fields_def)

lemma change_records_fields:
  "records \<noteq> [] \<Longrightarrow> change_records records = join [nul] (record_fields records) @ [nul]"
proof (induction records)
  case (Cons r records)
  obtain s p where r: "r = (s, p)" by (cases r)
  show ?case
  proof (cases records)
    case Nil
    then show ?thesis by (simp add: r change_records_def record_fields_def)
  next
    case (Cons q qs)
    then have "record_fields records \<noteq> []" by (cases q) (simp add: record_fields_def)
    with Cons.IH Cons show ?thesis
      by (cases "record_fields records") (auto simp: r change_records_def record_fields_def)
  qed
qed simp

lemma check_changes_skipped:
  "check_changes required records = Inr False \<longleftrightarrow> \<not> required \<and> list_all documentation_change records"
  by (induction required records rule: check_changes.induct)
     (auto simp: documentation_change_def change_statuses_def)

lemma documentation_fields:
  "list_all documentation_change records \<Longrightarrow> f \<in> set (record_fields records) \<Longrightarrow> nul \<notin> set f"
proof -
  have nul: "is_control nul" by (simp add: is_control_def nul_def code_def)
  assume "list_all documentation_change records" and "f \<in> set (record_fields records)"
  then obtain s p where "(s, p) \<in> set records" "f = s \<or> f = p" "documentation_change (s, p)"
    by (auto simp: record_fields_def list_all_iff)
  then have f: "f = s \<or> f = p" and s: "s = ''A'' \<or> s = ''M''" and p: "\<not> list_ex is_control p"
    by (simp_all add: documentation_change_def path_refused_def)
  from p nul have "nul \<notin> set p" by (auto simp: list_ex_iff)
  moreover from s have "nul \<notin> set s" by (elim disjE) (simp_all add: nul_def)
  ultimately show "nul \<notin> set f" using f by blast
qed

text \<open>
  C34.  The container checks are skipped for exactly the pull requests whose changes are 1 to 10,000
  added or modified documentation files, each with a plain relative path: any other status or path, and
  any malformed or empty input, requires them or is refused.
\<close>

theorem containers_skipped_iff:
  "containers_required changes = Inr False \<longleftrightarrow>
     length changes \<le> MAX_INPUT \<and>
     (\<exists>records. records \<noteq> [] \<and> length records \<le> 10000 \<and> changes = change_records records \<and>
        list_all documentation_change records)"
proof
  assume skipped: "containers_required changes = Inr False"
  define fields where "fields = split_on nul (butlast changes)"
  from skipped have c: "length changes \<le> MAX_INPUT" "changes \<noteq> []" "last changes = nul" "even (length fields)"
      "length fields \<le> 20000" "check_changes False (field_pairs fields) = Inr False"
    by (auto simp: containers_required_def fields_def Let_def split: if_splits)
  let ?records = "field_pairs fields"
  have fields: "record_fields ?records = fields" by (rule record_fields_field_pairs [OF c(4)])
  have "length fields \<noteq> 0" by (simp add: fields_def)
  with fields length_record_fields [of ?records] c(5) have size: "?records \<noteq> []" "length ?records \<le> 10000"
    by auto
  have "changes = join [nul] fields @ [nul]"
    using c(2,3) by (metis append_butlast_last_id fields_def join_split_on)
  with fields change_records_fields [OF size(1)] have "changes = change_records ?records" by simp
  with c size check_changes_skipped show "length changes \<le> MAX_INPUT \<and> (\<exists>records. records \<noteq> [] \<and>
      length records \<le> 10000 \<and> changes = change_records records \<and> list_all documentation_change records)"
    by blast
next
  assume "length changes \<le> MAX_INPUT \<and> (\<exists>records. records \<noteq> [] \<and> length records \<le> 10000 \<and>
      changes = change_records records \<and> list_all documentation_change records)"
  then obtain records where r: "length changes \<le> MAX_INPUT" "records \<noteq> []" "length records \<le> 10000"
      "changes = change_records records" "list_all documentation_change records" by blast
  have changes: "changes = join [nul] (record_fields records) @ [nul]"
    using r(4) change_records_fields [OF r(2)] by simp
  have "record_fields records \<noteq> []" using length_record_fields [of records] r(2) by auto
  then have "split_on nul (join [nul] (record_fields records)) = record_fields records"
    using documentation_fields [OF r(5)] by (rule split_on_join)
  with changes r show "containers_required changes = Inr False"
    by (simp add: containers_required_def Let_def length_record_fields field_pairs_record_fields
        check_changes_skipped)
qed

section \<open>When a gate passes\<close>

text \<open>
  What has to be true of the results: every required job, and every check inside it, succeeded, and the
  containers were validated unless they were skipped because no change needed them.
\<close>

definition job_passed :: "(string \<times> json) list \<Rightarrow> string \<Rightarrow> bool" where
  "job_passed needs name = (job_result needs name = JStr ''success'' \<and> job_output needs name ''passed'' = JStr ''true'')"

definition gate_ok :: "(string \<times> json) list \<Rightarrow> bool" where
  "gate_ok needs =
     (keys needs = set REQUIRED_JOBS \<union> {''deployment''} \<and>
      list_all (\<lambda>p. job_record (snd p)) needs \<and>
      job_result needs ''changes'' = JStr ''success'' \<and>
      list_all (job_passed needs) [''actions'', ''markdown'', ''python_lint'', ''python_tests'', ''security''] \<and>
      (if job_output needs ''changes'' ''containers'' = JStr ''true'' then job_passed needs ''deployment''
       else job_output needs ''changes'' ''containers'' = JStr ''false'' \<and>
         job_result needs ''deployment'' = JStr ''skipped'' \<and>
         \<not> truthy (member (dict_get needs ''deployment'') ''outputs'')))"

lemma check_records_iff: "check_records jobs = Inr () \<longleftrightarrow> list_all (\<lambda>p. job_record (snd p)) jobs"
  by (induction jobs rule: check_records.induct) auto

text \<open>
  C33.  The gate of a pull request passes exactly when the results are a JSON object without repeated
  keys, within the size limit, in which every required job and every check inside it succeeded and the
  container validation succeeded or was skipped because no change needed it.
\<close>

theorem gate_passes_iff:
  "validate_gate scan raw = Inr () \<longleftrightarrow>
     utf8_len raw \<le> MAX_INPUT \<and>
     (\<exists>needs. scan raw = Inr (JObj needs) \<and> unique_keys (JObj needs) \<and> gate_ok needs)"
proof -
  have parsed: "parse_needs scan raw = Inr needs \<longleftrightarrow> scan raw = Inr needs \<and> unique_keys needs" for needs
    by (auto simp: parse_needs_def res_bind_def reject_duplicates_iff split: sum.splits if_splits)
  have required: "check_required_jobs needs REQUIRED_JOBS = Inr () \<longleftrightarrow>
      job_result needs ''changes'' = JStr ''success'' \<and>
      list_all (job_passed needs) [''actions'', ''markdown'', ''python_lint'', ''python_tests'', ''security'']" for needs
    by (simp add: REQUIRED_JOBS_def job_passed_def)
  have deployment: "check_deployment needs = Inr () \<longleftrightarrow>
      (if job_output needs ''changes'' ''containers'' = JStr ''true'' then job_passed needs ''deployment''
       else job_output needs ''changes'' ''containers'' = JStr ''false'' \<and>
         job_result needs ''deployment'' = JStr ''skipped'' \<and>
         \<not> truthy (member (dict_get needs ''deployment'') ''outputs''))" for needs
    by (simp add: check_deployment_def job_passed_def Let_def)
  have checks: "keys needs = set REQUIRED_JOBS \<union> {''deployment''} \<and> check_records needs = Inr () \<and>
      check_required_jobs needs REQUIRED_JOBS = Inr () \<and> check_deployment needs = Inr () \<longleftrightarrow> gate_ok needs" for needs
    unfolding gate_ok_def required deployment check_records_iff by blast
  have "validate_gate scan raw = Inr () \<longleftrightarrow> utf8_len raw \<le> MAX_INPUT \<and>
      (\<exists>needs. parse_needs scan raw = Inr (JObj needs) \<and> keys needs = set REQUIRED_JOBS \<union> {''deployment''} \<and>
        check_records needs = Inr () \<and> check_required_jobs needs REQUIRED_JOBS = Inr () \<and>
        check_deployment needs = Inr ())"
  proof (cases "parse_needs scan raw")
    case (Inr v)
    then show ?thesis by (cases v) (auto simp: validate_gate_def res_bind_Inr_iff not_less)
  qed (simp add: validate_gate_def)
  then show ?thesis by (simp only: parsed checks conj_assoc)
qed

end
