(* ===== verification/ReleaseTag.thy ===== *)
theory ReleaseTag
  imports CiPolicy
begin

text \<open>
  The identity of a release (\<^verbatim>\<open>scripts/validate_release_tag.py\<close> and
  \<^verbatim>\<open>scripts/verify_release_signature.py\<close>): the syntax of its tag, the tag reference and the annotated tag
  object as GitHub reports them, and the signed tag object itself with the status lines of GnuPG.
  SHA-1, GnuPG, the file system and the text scanner of JSON are parameters.
\<close>

section \<open>Tag metadata\<close>

definition MAX_INPUT_BYTES :: int where "MAX_INPUT_BYTES = 1024 * 1024"

abbreviation tag_error :: "string \<Rightarrow> 'a res" where
  "tag_error t \<equiv> Inl (new_exn ReleaseTagValidationError t)"

text \<open>\<^verbatim>\<open>RELEASE_TAG_PATTERN\<close>\<close>

definition number_re :: re where
  "number_re = Alt (lit ''0'') (Cat (Cls (in_range CHR ''1'' CHR ''9'')) (Star (Cls is_digit)))"

definition release_tag_re :: re where
  "release_tag_re =
     cats [lit ''v'', number_re, lit ''.'', number_re, lit ''.'', number_re,
       Opt (cats [lit ''-'', Plus (Cls is_alnum), Star (Cat (Cls (any_of ''.-'')) (Plus (Cls is_alnum)))])]"

definition validate_release_version :: "string \<Rightarrow> bool res" where
  "validate_release_version tag_name =
     (if \<not> fullmatch release_tag_re tag_name then tag_error ''release tag has unsupported syntax''
      else Inr (CHR ''-'' \<in> set tag_name))"

text \<open>\<^verbatim>\<open>container.get(key)\<close> that has to be an object.\<close>

definition required_object :: "(string \<times> json) list \<Rightarrow> string \<Rightarrow> (string \<times> json) list res" where
  "required_object container key =
     (case dict_get container key of
        JObj ps \<Rightarrow> Inr ps
      | _ \<Rightarrow> tag_error (key @ '' must be an object''))"

definition required_sha :: "json \<Rightarrow> string \<Rightarrow> string res" where
  "required_sha value description =
     (case value of
        JStr s \<Rightarrow>
          if fullmatch sha_re s then Inr s else tag_error (description @ '' must be a full commit SHA'')
      | _ \<Rightarrow> tag_error (description @ '' must be a full commit SHA''))"

definition validate_tag_ref :: "(string \<times> json) list \<Rightarrow> string \<Rightarrow> string res" where
  "validate_tag_ref ref_document expected_tag =
     res_bind (validate_release_version expected_tag) (\<lambda>_.
     raise_if (\<not> py_eq (dict_get ref_document ''ref'') (JStr (''refs/tags/'' @ expected_tag)))
       (new_exn ReleaseTagValidationError ''Git tag ref name does not match the release'')
    (res_bind (required_object ref_document ''object'') (\<lambda>target.
     raise_if (\<not> py_eq (dict_get target ''type'') (JStr ''tag''))
       (new_exn ReleaseTagValidationError ''release ref does not point to an annotated tag'')
       (required_sha (dict_get target ''sha'') ''annotated tag object SHA''))))"

definition validate_tag_object :: "(string \<times> json) list \<Rightarrow> string \<Rightarrow> string \<Rightarrow> string res" where
  "validate_tag_object tag_document expected_tag expected_tag_sha =
     res_bind (validate_release_version expected_tag) (\<lambda>_.
     res_bind (required_sha (JStr expected_tag_sha) ''expected tag object SHA'') (\<lambda>expected_tag_sha.
     raise_if (\<not> py_eq (dict_get tag_document ''tag'') (JStr expected_tag))
       (new_exn ReleaseTagValidationError ''annotated tag object name does not match the release'')
    (raise_if (\<not> py_eq (dict_get tag_document ''sha'') (JStr expected_tag_sha))
       (new_exn ReleaseTagValidationError ''annotated tag object SHA does not match the tag ref'')
    (res_bind (required_object tag_document ''object'') (\<lambda>target.
     raise_if (\<not> py_eq (dict_get target ''type'') (JStr ''commit''))
       (new_exn ReleaseTagValidationError ''annotated release tag does not point directly to a commit'')
    (res_bind (required_object tag_document ''verification'') (\<lambda>verification.
     raise_if (dict_get verification ''verified'' \<noteq> JBool True)
       (new_exn ReleaseTagValidationError ''annotated release tag is not verified'')
    (raise_if (\<not> py_eq (dict_get verification ''reason'') (JStr ''valid''))
       (new_exn ReleaseTagValidationError ''annotated release tag verification reason is not valid'')
       (required_sha (dict_get target ''sha'') ''release commit SHA'')))))))))"

text \<open>
  \<^verbatim>\<open>load_json_object\<close>: \<open>stat_size\<close> is the size of the file and \<open>document\<close> its text as \<^verbatim>\<open>json.load\<close>
  parses it, each of which may raise.
\<close>

definition load_json_object :: "int res \<Rightarrow> json res \<Rightarrow> string \<Rightarrow> (string \<times> json) list res" where
  "load_json_object stat_size document description =
     (case stat_size of
        Inl error \<Rightarrow>
          if isinstance error OSError then tag_error (description @ '' is not readable'') else Inl error
      | Inr octets \<Rightarrow>
          if octets = 0 then tag_error (description @ '' is empty'')
          else if octets > MAX_INPUT_BYTES then tag_error (description @ '' exceeds the size limit'')
          else
            (case res_bind document
                (reject_duplicates (new_exn ReleaseTagValidationError ''JSON contains a duplicate object key'')) of
               Inl error \<Rightarrow>
                 if isinstance_any error [OSError, UnicodeDecodeError, JSONDecodeError] then
                   tag_error (description @ '' is not valid UTF-8 JSON'')
                 else Inl error
             | Inr value \<Rightarrow>
                 (case value of
                    JObj ps \<Rightarrow> Inr ps
                  | _ \<Rightarrow> tag_error (description @ '' must be a JSON object''))))"

datatype tag_command =
    Version string
  | Ref string "int res" "json res"
  | Tag string string "int res" "json res"

text \<open>\<^verbatim>\<open>main\<close>: the exit code and the line printed, on the output or the error output.\<close>

definition release_tag_main :: "tag_command \<Rightarrow> (int \<times> string) res" where
  "release_tag_main command =
     (case
        (case command of
           Version tag \<Rightarrow>
             res_bind (validate_release_version tag) (\<lambda>pre. Inr (if pre then ''true'' else ''false''))
         | Ref tag octets document \<Rightarrow>
             res_bind (load_json_object octets document ''Git tag ref response'') (\<lambda>ps. validate_tag_ref ps tag)
         | Tag tag sha octets document \<Rightarrow>
             res_bind (load_json_object octets document ''annotated tag response'') (\<lambda>ps.
               validate_tag_object ps tag sha)) of
        Inl error \<Rightarrow>
          if isinstance error ReleaseTagValidationError then
            Inr (1, ''Release tag validation failed: '' @ exn_text error)
          else Inl error
      | Inr result \<Rightarrow> Inr (0, result))"

section \<open>The signed tag object\<close>

definition APPROVED_PRIMARY :: string where
  "APPROVED_PRIMARY = ''02EBB31CC0032A86C2C0401A1534542E61DC82D3''"

definition MAX_TAG_BYTES :: nat where "MAX_TAG_BYTES = 1024 * 1024"

definition fingerprint_re :: re where
  "fingerprint_re = rep 40 (Cls (\<lambda>c. is_digit c \<or> in_range CHR ''A'' CHR ''F'' c))"

definition SIGNATURE_START :: string where
  "SIGNATURE_START = ''-----BEGIN PGP SIGNATURE-----'' @ [newline]"

definition SIGNATURE_END :: string where
  "SIGNATURE_END = ''-----END PGP SIGNATURE-----'' @ [newline]"

definition BAD_STATUS :: "string list" where
  "BAD_STATUS =
     [''BADSIG'', ''ERRSIG'', ''EXPSIG'', ''EXPKEYSIG'', ''REVKEYSIG'', ''NO_PUBKEY'', ''KEYEXPIRED'',
      ''KEYREVOKED'', ''SIGEXPIRED'', ''FAILURE'', ''ERROR'', ''NODATA'']"

abbreviation signature_error :: "string \<Rightarrow> 'a res" where
  "signature_error t \<equiv> Inl (new_exn SignatureError t)"

text \<open>\<^verbatim>\<open>raw.partition(sep)\<close>: the text before the first separator, whether there is one, and the rest.\<close>

fun partition_text :: "string \<Rightarrow> string \<Rightarrow> string \<times> bool \<times> string" where
  "partition_text sep [] = (if sep = [] then ([], True, []) else ([], False, []))"
| "partition_text sep (c # s) =
     (if startswith (c # s) sep then ([], True, drop (length sep) (c # s))
      else (case partition_text sep s of (before, there, rest) \<Rightarrow> (c # before, there, rest)))"

text \<open>\<^verbatim>\<open>raw.split(sep)\<close> for a separator of any length but 0, and \<^verbatim>\<open>raw.count(sep)\<close>.\<close>

function split_text :: "string \<Rightarrow> string \<Rightarrow> string list" where
  "split_text sep s =
     (case partition_text sep s of
        (before, there, rest) \<Rightarrow>
          if there \<and> length rest < length s then before # split_text sep rest else [s])"
  by pat_completeness auto
termination
  by (relation "measure (\<lambda>(sep, s). length s)") auto

declare split_text.simps [simp del]

definition count_text :: "string \<Rightarrow> string \<Rightarrow> nat" where
  "count_text sep s = length (split_text sep s) - 1"

text \<open>Git's object identifier of the tag.\<close>

definition tag_object_id :: "(string \<Rightarrow> string) \<Rightarrow> string \<Rightarrow> string" where
  "tag_object_id sha1 raw = sha1 (''tag '' @ str_nat (length raw) @ [nul] @ raw)"

definition split_tag ::
  "(string \<Rightarrow> string) \<Rightarrow> string \<Rightarrow> string \<Rightarrow> string \<Rightarrow> string \<Rightarrow> (string \<times> string) res" where
  "split_tag sha1 raw tag tag_sha source_sha =
     (if \<not> fullmatch sha_re tag_sha \<or> \<not> fullmatch sha_re source_sha then
        signature_error ''expected identities must be full Git object IDs''
      else if raw = [] \<or> MAX_TAG_BYTES < length raw then
        signature_error ''tag object is empty or oversized''
      else if tag_object_id sha1 raw \<noteq> tag_sha then
        signature_error ''tag bytes do not match the expected object ID''
      else
        (let (headers, separator, _) = partition_text [newline, newline] raw;
             expected = [''object '' @ source_sha, ''type commit'', ''tag '' @ tag];
             ls = split_on newline headers
         in
         if \<not> separator \<or> length ls \<noteq> 4 \<or> take 3 ls \<noteq> expected \<or> \<not> startswith (ls ! 3) ''tagger '' then
           signature_error ''tag headers do not match the release identity''
         else if count_text SIGNATURE_START raw \<noteq> 1 \<or> count_text SIGNATURE_END raw \<noteq> 1
             \<or> \<not> endswith raw SIGNATURE_END then
           signature_error ''tag must contain exactly one terminal OpenPGP signature''
         else
           (case split_text SIGNATURE_START raw of
              [payload, signature] \<Rightarrow>
                if \<not> endswith payload [newline] then
                  signature_error ''tag signature is not on a separate line''
                else Inr (payload, SIGNATURE_START @ signature)
            | _ \<Rightarrow> value_error ''too many values to unpack'')))"

section \<open>The status of the verification\<close>

text \<open>\<^verbatim>\<open>str.splitlines()\<close>, below code point 256.\<close>

definition line_boundary :: "char \<Rightarrow> bool" where
  "line_boundary c = (code c \<in> {10, 11, 12, 13, 28, 29, 30, 133})"

fun splitlines :: "string \<Rightarrow> string list" where
  "splitlines [] = []"
| "splitlines (c # s) =
     (if c = carriage_return \<and> (case s of d # _ \<Rightarrow> d = newline | [] \<Rightarrow> False) then [] # splitlines (tl s)
      else if line_boundary c then [] # splitlines s
      else (case splitlines s of [] \<Rightarrow> [[c]] | l # ls \<Rightarrow> (c # l) # ls))"

text \<open>\<^verbatim>\<open>str.split()\<close>: the runs of characters that are not white space.\<close>

function words_of :: "string \<Rightarrow> string list" where
  "words_of s =
     (case dropWhile isspace s of
        [] \<Rightarrow> []
      | t \<Rightarrow> takeWhile (\<lambda>c. \<not> isspace c) t # words_of (dropWhile (\<lambda>c. \<not> isspace c) t))"
  by pat_completeness auto
termination
proof (relation "measure length")
  fix s x xs
  assume t: "dropWhile isspace s = x # xs"
  have "length (x # xs) \<le> length s" by (metis length_dropWhile_le t)
  moreover have "\<not> isspace x" using hd_dropWhile [of isspace s] t by simp
  moreover have "length (dropWhile (\<lambda>c. \<not> isspace c) xs) \<le> length xs" by (rule length_dropWhile_le)
  ultimately show "(dropWhile (\<lambda>c. \<not> isspace c) (x # xs), s) \<in> measure length" by simp
qed simp

declare words_of.simps [simp del]

definition gnupg_prefix :: string where "gnupg_prefix = ''[GNUPG:] ''"

definition removeprefix :: "string \<Rightarrow> string \<Rightarrow> string" where
  "removeprefix prefix s = (if startswith s prefix then drop (length prefix) s else s)"

definition status_records :: "string \<Rightarrow> string list list" where
  "status_records text = map (\<lambda>line. words_of (removeprefix gnupg_prefix line)) (splitlines text)"

definition count_keyword :: "string \<Rightarrow> string list list \<Rightarrow> nat" where
  "count_keyword keyword records = length (filter (\<lambda>r. r ! 0 = keyword) records)"

text \<open>\<open>status\<close>: the status lines decoded, or the error of decoding them.\<close>

definition approved_signature :: "string res \<Rightarrow> string res" where
  "approved_signature status =
     (case status of
        Inl error \<Rightarrow>
          if isinstance_any error [UnicodeDecodeError, UnicodeEncodeError] then
            signature_error ''invalid signature status encoding''
          else Inl error
      | Inr text \<Rightarrow>
          (let records = status_records text in
           if list_ex (\<lambda>line. \<not> startswith line gnupg_prefix) (splitlines text)
              \<or> list_ex (\<lambda>r. r = [] \<or> r ! 0 \<in> set BAD_STATUS) records then
             signature_error ''signature verification reported an error''
           else
             (case filter (\<lambda>r. r ! 0 = ''VALIDSIG'') records of
                [record] \<Rightarrow>
                  if length record \<noteq> 11 \<or> count_keyword ''GOODSIG'' records \<noteq> 1
                     \<or> count_keyword ''NEWSIG'' records \<noteq> 1 then
                    signature_error ''exactly one valid, current signature is required''
                  else if \<not> fullmatch fingerprint_re (record ! 1) \<or> record ! 10 \<noteq> APPROVED_PRIMARY
                     \<or> record ! 8 \<notin> {''8'', ''9'', ''10''} \<or> record ! 9 \<noteq> ''00'' then
                    signature_error ''signature is outside the approved signer or algorithm policy''
                  else Inr (record ! 10)
              | _ \<Rightarrow> signature_error ''exactly one valid, current signature is required'')))"

text \<open>
  What \<^verbatim>\<open>verify\<close> uses of GnuPG and the file system: the reviewed public key, read up to 65,537 bytes;
  the exit status of the import of that key into an empty home directory; and the exit status and
  status lines of the verification of a detached signature over a payload.
\<close>

record gnupg =
  public_key_file :: "string res"
  import_status :: "string \<Rightarrow> int res"
  verify_status :: "string \<Rightarrow> string \<Rightarrow> (int \<times> string res) res"

definition verify_release ::
  "(string \<Rightarrow> string) \<Rightarrow> gnupg \<Rightarrow> string \<Rightarrow> string \<Rightarrow> string \<Rightarrow> string \<Rightarrow> string res" where
  "verify_release sha1 gpg raw tag tag_sha source_sha =
     res_bind (split_tag sha1 raw tag tag_sha source_sha) (\<lambda>(payload, signature).
     res_bind (public_key_file gpg) (\<lambda>key_text.
     let public_key = take 65537 key_text in
     raise_if (65536 < length public_key \<or> \<not> startswith public_key ''-----BEGIN PGP PUBLIC KEY BLOCK-----'')
       (new_exn SignatureError ''reviewed public key is missing or invalid'')
    (res_bind (import_status gpg public_key) (\<lambda>imported.
     raise_if (imported \<noteq> 0) (new_exn SignatureError ''cannot import reviewed public signing key'')
    (res_bind (verify_status gpg payload signature) (\<lambda>(returncode, status).
     raise_if (returncode \<noteq> 0) (new_exn SignatureError ''OpenPGP signature verification failed'')
       (approved_signature status)))))))"

text \<open>\<^verbatim>\<open>main\<close>: the exit code and the line printed.\<close>

definition release_signature_main ::
  "(string \<Rightarrow> string) \<Rightarrow> gnupg \<Rightarrow> string res \<Rightarrow> string \<Rightarrow> string \<Rightarrow> string \<Rightarrow> (int \<times> string) res" where
  "release_signature_main sha1 gpg tag_file tag tag_sha source_sha =
     (case
        res_bind tag_file (\<lambda>content.
          verify_release sha1 gpg (take (MAX_TAG_BYTES + 1) content) tag tag_sha source_sha) of
        Inl error \<Rightarrow>
          if isinstance_any error [SignatureError, OSError, SubprocessError] then
            Inr (1, ''Release signature blocked: '' @
              (if isinstance error SignatureError then exn_text error else ''verification unavailable''))
          else Inl error
      | Inr signer \<Rightarrow> Inr (0, ''Approved release signer: '' @ signer))"

section \<open>What a validated tag is\<close>

lemma partition_text_some:
  "partition_text sep s = (before, True, rest) \<Longrightarrow> sep \<noteq> [] \<Longrightarrow> s = before @ sep @ rest"
  by (induction s arbitrary: before)
     (auto simp: startswith_iff split: if_splits prod.splits)

lemma partition_text_none:
  "partition_text sep s = (before, False, rest) \<Longrightarrow> before = s"
  by (induction s arbitrary: before) (auto split: if_splits prod.splits)

lemma split_text_pair:
  assumes "split_text sep s = [a, b]" and "sep \<noteq> []"
  shows "s = a @ sep @ b"
proof -
  obtain before there rest where p: "partition_text sep s = (before, there, rest)"
    by (cases "partition_text sep s")
  from assms(1) p have there: "there" "before = a" "split_text sep rest = [b]"
    by (subst (asm) split_text.simps, auto split: if_splits)+
  obtain before' there' rest' where q: "partition_text sep rest = (before', there', rest')"
    by (cases "partition_text sep rest")
  have "rest = b"
  proof (cases "there' \<and> length rest' < length rest")
    case True
    then have "split_text sep rest = before' # split_text sep rest'"
      using q by (subst split_text.simps) simp
    moreover have "split_text sep rest' \<noteq> []" by (subst split_text.simps) (auto split: prod.split)
    ultimately show ?thesis using there(3) by auto
  next
    case False
    then have "split_text sep rest = [rest]" using q by (subst split_text.simps) auto
    with there(3) show ?thesis by simp
  qed
  with partition_text_some [of sep s a rest] p there assms(2) show ?thesis by simp
qed

lemma endswith_append: "endswith (x @ y) e \<Longrightarrow> length e \<le> length y \<Longrightarrow> endswith y e"
  by (auto simp: endswith_iff append_eq_append_conv2)


text \<open>A release's tag object, under a function that stands for SHA-1.\<close>

definition sample_tag_body :: string where
  "sample_tag_body =
     join [newline] [''object '' @ replicate 40 CHR ''a'', ''type commit'', ''tag v1.2.3'', ''tagger x''] @
     [newline, newline] @ ''Release'' @ [newline]"

definition sample_tag :: string where
  "sample_tag = sample_tag_body @ SIGNATURE_START @ ''abc'' @ [newline] @ SIGNATURE_END"


end
