(* ===== verification/VulnerabilityGate.thy ===== *)
theory VulnerabilityGate
  imports CiPolicy BaseUrl "HOL-Library.List_Lexorder" "HOL-Library.Char_ord" "HOL-Library.Product_Lexorder"
    "HOL-Library.AList" "HOL-Library.Multiset"
begin

text \<open>
  The vulnerability gate of the container image (\<^verbatim>\<open>scripts/compare_container_vulnerabilities.py\<close>): the
  findings of two Trivy reports, the comparison that tells introduced from inherited findings, the
  reviewed exceptions, and the verdict.  The scanner of JSON, \<^verbatim>\<open>dpkg\<close> and the date of today are
  parameters.
\<close>

section \<open>Findings\<close>

text \<open>\<^verbatim>\<open>FindingIdentity\<close>, a frozen data class with the order of its fields.\<close>

datatype finding_identity =
  FindingIdentity (result_class: string) (result_type: string) (target: string)
    (vulnerability_id: string) (package_name: string) (package_id: string)
    (package_path: string) (installed_version: string)

fun identity_key :: "finding_identity \<Rightarrow> string list" where
  "identity_key (FindingIdentity c t g v n i p w) = [c, t, g, v, n, i, p, w]"

lemma identity_key_eq_iff: "identity_key a = identity_key b \<longleftrightarrow> a = b"
  by (cases a; cases b) auto

instantiation finding_identity :: linorder
begin

definition less_eq_finding_identity :: "finding_identity \<Rightarrow> finding_identity \<Rightarrow> bool" where
  "less_eq_finding_identity a b = (identity_key a \<le> identity_key b)"

definition less_finding_identity :: "finding_identity \<Rightarrow> finding_identity \<Rightarrow> bool" where
  "less_finding_identity a b = (identity_key a < identity_key b)"

instance
  by standard
    (auto simp: less_eq_finding_identity_def less_finding_identity_def identity_key_eq_iff [symmetric])

end

datatype finding = Finding (identity: finding_identity) (severity: string) (fixed_version: string)

record package_upgrade =
  upgrade_upstream :: finding
  upgrade_derivative :: finding

datatype image_exception =
  ImageException (exception_identifier: string) (upstream_image: string) (platform: string)
    (exception_finding: finding) (owner: string) (reviewed_by: string) (reviewed_on: date)
    (expires_on: date) (tracking_url: string) (exposure: string) (reason_text: string)
    (mitigation: string)

record comparison =
  introduced :: "finding list"
  inherited :: "finding list"
  removed :: "finding list"
  accepted :: "image_exception list"
  package_upgrades :: "package_upgrade list"

definition unexcepted_fixable :: "comparison \<Rightarrow> finding list" where
  "unexcepted_fixable c =
     (let accepted = map exception_finding (accepted c) in
      filter (\<lambda>finding. fixed_version finding \<noteq> [] \<and> finding \<notin> set accepted) (inherited c))"

definition blocked :: "comparison \<Rightarrow> bool" where
  "blocked c = (introduced c \<noteq> [] \<or> unexcepted_fixable c \<noteq> [])"

section \<open>Reading a report\<close>

abbreviation report_error :: "string \<Rightarrow> 'a res" where
  "report_error t \<equiv> Inl (new_exn InvalidReportError t)"

definition MAX_REPORT_BYTES :: int where "MAX_REPORT_BYTES = 128 * 1024 * 1024"
definition MAX_EXCEPTION_BYTES :: int where "MAX_EXCEPTION_BYTES = 1024 * 1024"
definition MAX_EXCEPTION_DAYS :: int where "MAX_EXCEPTION_DAYS = 90"

definition BLOCKING_SEVERITIES :: "string list" where
  "BLOCKING_SEVERITIES = [''HIGH'', ''CRITICAL'']"

text \<open>
  \<open>stat_size\<close> is the size of the file and \<open>document\<close> its text as \<^verbatim>\<open>json.load\<close> parses it, each of
  which may raise.
\<close>

definition load_report :: "int res \<Rightarrow> json res \<Rightarrow> string \<Rightarrow> int \<Rightarrow> (string \<times> json) list res" where
  "load_report stat_size document role maximum =
     (case stat_size of
        Inl error \<Rightarrow>
          if isinstance error OSError then report_error (role @ '' report is not readable'') else Inl error
      | Inr octets \<Rightarrow>
          if octets = 0 then report_error (role @ '' report is empty'')
          else if octets > maximum then report_error (role @ '' report exceeds the size limit'')
          else
            (case res_bind document
                (reject_duplicates (new_exn InvalidReportError ''JSON contains a duplicate object key'')) of
               Inl error \<Rightarrow>
                 if isinstance_any error [OSError, UnicodeDecodeError, JSONDecodeError] then
                   report_error (role @ '' report is not valid UTF-8 JSON'')
                 else Inl error
             | Inr value \<Rightarrow>
                 (case value of
                    JObj ps \<Rightarrow> Inr ps
                  | _ \<Rightarrow> report_error (role @ '' report must be a JSON object''))))"

definition required_text :: "json \<Rightarrow> string \<Rightarrow> string res" where
  "required_text value description =
     (case value of
        JStr s \<Rightarrow> if s = [] then report_error (description @ '' must be non-empty text'') else Inr s
      | _ \<Rightarrow> report_error (description @ '' must be non-empty text''))"

definition optional_text :: "(string \<times> json) list \<Rightarrow> string \<Rightarrow> string \<Rightarrow> string res" where
  "optional_text container key description =
     (case map_of container key of
        None \<Rightarrow> Inr []
      | Some (JStr s) \<Rightarrow> Inr s
      | _ \<Rightarrow> report_error (description @ '' must be text when present''))"

definition os_target :: "(string \<times> json) list \<Rightarrow> string res" where
  "os_target report =
     (case dict_get report ''Metadata'' of
        JObj metadata \<Rightarrow>
          (case dict_get metadata ''OS'' of
             JObj operating_system \<Rightarrow>
               res_bind (required_text (dict_get operating_system ''Family'') ''Metadata.OS.Family'') (\<lambda>family.
               res_bind (required_text (dict_get operating_system ''Name'') ''Metadata.OS.Name'') (\<lambda>name.
                 Inr (''os:'' @ family @ ''/'' @ name)))
           | _ \<Rightarrow> report_error ''OS findings require object Metadata.OS'')
      | _ \<Rightarrow> report_error ''OS findings require object Metadata'')"

type_synonym findings = "(finding_identity \<times> finding) list"

text \<open>The body of the loop over the vulnerabilities of one result; \<open>context\<close> is its class, type and target.\<close>

definition read_vulnerability :: "string \<Rightarrow> string \<times> string \<times> string \<Rightarrow> string \<Rightarrow> json \<Rightarrow> finding res" where
  "read_vulnerability role context place vulnerability =
     (case vulnerability of
        JObj ps \<Rightarrow>
          res_bind (required_text (dict_get ps ''Severity'') ''finding Severity'') (\<lambda>level.
          raise_if (level \<notin> set BLOCKING_SEVERITIES)
            (new_exn InvalidReportError
              (role @ '' report contains a finding outside the requested HIGH/CRITICAL severity scope''))
         (case context of (class_text, type_text, stable_target) \<Rightarrow>
          res_bind (required_text (dict_get ps ''VulnerabilityID'') ''finding VulnerabilityID'') (\<lambda>vulnerability.
          res_bind (required_text (dict_get ps ''PkgName'') ''finding PkgName'') (\<lambda>name.
          res_bind (optional_text ps ''PkgID'' ''finding PkgID'') (\<lambda>package.
          res_bind (optional_text ps ''PkgPath'' ''finding PkgPath'') (\<lambda>path.
          res_bind (required_text (dict_get ps ''InstalledVersion'') ''finding InstalledVersion'') (\<lambda>installed.
          res_bind (optional_text ps ''FixedVersion'' ''finding FixedVersion'') (\<lambda>fixed.
            Inr (Finding
              (FindingIdentity class_text type_text stable_target vulnerability name package path installed)
              level fixed)))))))))
      | _ \<Rightarrow> report_error (role @ place @ '' must be an object''))"

definition add_finding :: "string \<Rightarrow> findings \<Rightarrow> finding \<Rightarrow> findings res" where
  "add_finding role normalized finding =
     (case map_of normalized (identity finding) of
        Some previous \<Rightarrow>
          if previous \<noteq> finding then report_error (role @ '' report contains conflicting duplicate findings'')
          else Inr normalized
      | None \<Rightarrow> Inr (normalized @ [(identity finding, finding)]))"

fun read_vulnerabilities ::
  "string \<Rightarrow> string \<times> string \<times> string \<Rightarrow> nat \<Rightarrow> nat \<Rightarrow> json list \<Rightarrow> findings \<Rightarrow> findings res" where
  "read_vulnerabilities role context result_index finding_index [] normalized = Inr normalized"
| "read_vulnerabilities role context result_index finding_index (v # vs) normalized =
     res_bind (read_vulnerability role context
         ('' result '' @ str_nat result_index @ '' finding '' @ str_nat finding_index) v) (\<lambda>finding.
     res_bind (add_finding role normalized finding) (\<lambda>normalized.
       read_vulnerabilities role context result_index (Suc finding_index) vs normalized))"

definition read_result ::
  "(string \<times> json) list \<Rightarrow> string \<Rightarrow> nat \<Rightarrow> json \<Rightarrow> findings \<Rightarrow> findings res" where
  "read_result report role result_index result normalized =
     (case result of
        JObj ps \<Rightarrow>
          res_bind (required_text (dict_get ps ''Target'') ''result Target'') (\<lambda>target_text.
          res_bind (required_text (dict_get ps ''Class'') ''result Class'') (\<lambda>class_text.
          res_bind (required_text (dict_get ps ''Type'') ''result Type'') (\<lambda>type_text.
          res_bind (if class_text = ''os-pkgs'' then os_target report else Inr target_text) (\<lambda>stable_target.
            case dict_get_default ps ''Vulnerabilities'' (JList []) of
              JList vulnerabilities \<Rightarrow>
                read_vulnerabilities role (class_text, type_text, stable_target) result_index 0
                  vulnerabilities normalized
            | _ \<Rightarrow> report_error (role @ '' result '' @ str_nat result_index @
                '' Vulnerabilities must be an array'')))))
      | _ \<Rightarrow> report_error (role @ '' result '' @ str_nat result_index @ '' must be an object''))"

fun read_results ::
  "(string \<times> json) list \<Rightarrow> string \<Rightarrow> nat \<Rightarrow> json list \<Rightarrow> findings \<Rightarrow> findings res" where
  "read_results report role result_index [] normalized = Inr normalized"
| "read_results report role result_index (r # rs) normalized =
     res_bind (read_result report role result_index r normalized)
       (read_results report role (Suc result_index) rs)"

definition is_json_bool :: "json \<Rightarrow> bool" where
  "is_json_bool value = (case value of JBool _ \<Rightarrow> True | _ \<Rightarrow> False)"

definition normalize_findings :: "(string \<times> json) list \<Rightarrow> string \<Rightarrow> findings res" where
  "normalize_findings report role =
     (let schema_version = dict_get report ''SchemaVersion'' in
      if is_json_bool schema_version \<or> \<not> py_eq schema_version (JInt 2) then
        report_error (role @ '' report does not use Trivy schema version 2'')
      else if \<not> py_eq (dict_get report ''ArtifactType'') (JStr ''container_image'') then
        report_error (role @ '' report is not a container-image report'')
      else
        (case map_of report ''Results'' of
           None \<Rightarrow> report_error (role @ '' report is missing Results'')
         | Some (JList results) \<Rightarrow>
             if results = [] then report_error (role @ '' report Results must not be empty'')
             else read_results report role 0 results []
         | _ \<Rightarrow> report_error (role @ '' report Results must be an array'')))"

section \<open>Comparing two reports\<close>

text \<open>\<^verbatim>\<open>_finding_sort_key\<close>: a tuple of a number and eight texts.\<close>

definition finding_sort_key :: "finding \<Rightarrow> nat \<times> string list" where
  "finding_sort_key finding =
     (let i = identity finding in
      (if severity finding = ''CRITICAL'' then 0 else 1,
       [vulnerability_id i, package_name i, installed_version i, result_class i, result_type i, target i,
        package_id i, package_path i]))"

definition debian_upgrade_scope :: "finding_identity \<Rightarrow> finding_identity option" where
  "debian_upgrade_scope i =
     (if result_class i \<noteq> ''os-pkgs'' \<or> result_type i \<noteq> ''debian'' \<or> \<not> startswith (target i) ''os:debian/''
         \<or> package_id i \<noteq> package_name i @ ''@'' @ installed_version i
      then None
      else Some (FindingIdentity (result_class i) (result_type i) (target i) (vulnerability_id i)
        (package_name i) [] (package_path i) []))"

definition debian_version_re :: re where
  "debian_version_re =
     cats [Opt (cats [Plus (Cls is_digit), lit '':'']), Cls is_digit,
       Star (Cls (\<lambda>c. is_alnum c \<or> any_of ''.+:~-'' c))]"

text \<open>
  \<open>dpkg\<close> is what \<^verbatim>\<open>dpkg --compare-versions a gt b\<close> does: its exit status and what it wrote to its
  error output, or the exception of running it.  The cache in front of it cannot be seen.
\<close>

type_synonym dpkg = "string \<Rightarrow> string \<Rightarrow> (int \<times> string) res"

definition debian_version_increased :: "dpkg \<Rightarrow> string \<Rightarrow> string \<Rightarrow> bool res" where
  "debian_version_increased dpkg derivative upstream =
     raise_if (list_ex (\<lambda>version. 256 < length version \<or> \<not> fullmatch debian_version_re version)
         [derivative, upstream])
       (new_exn InvalidReportError ''invalid Debian package version for comparison'')
       (case dpkg derivative upstream of
          Inl error \<Rightarrow>
            if isinstance_any error [OSError, TimeoutExpired] then
              report_error ''Debian version comparison is unavailable''
            else Inl error
        | Inr (returncode, stderr) \<Rightarrow>
            if returncode \<notin> {0, 1} \<or> stderr \<noteq> [] then
              report_error ''Debian version comparison failed closed''
            else Inr (returncode = 0))"

type_synonym groups = "(finding_identity \<times> finding_identity list) list"

definition add_candidate :: "groups \<Rightarrow> finding_identity \<Rightarrow> groups" where
  "add_candidate groups i =
     (case debian_upgrade_scope i of
        None \<Rightarrow> groups
      | Some scope \<Rightarrow>
          AList.update scope
            ((case map_of groups scope of None \<Rightarrow> [] | Some candidates \<Rightarrow> candidates) @ [i]) groups)"

definition upgrade_candidates :: "finding_identity list \<Rightarrow> groups" where
  "upgrade_candidates identities = foldl add_candidate [] (sort identities)"

text \<open>What the loop over the shared scopes changes; the sets of keys are lists without repetition.\<close>

record partition =
  introduced_keys :: "finding_identity list"
  removed_keys :: "finding_identity list"
  inherited_keys :: "finding_identity list"
  upgrades :: "package_upgrade list"

definition upgrade_scope ::
  "dpkg \<Rightarrow> findings \<Rightarrow> findings \<Rightarrow> finding_identity list \<Rightarrow> finding_identity list \<Rightarrow> partition \<Rightarrow> partition res" where
  "upgrade_scope dpkg derivative upstream current previous p =
     (case (current, previous) of
        ([new_key], [old_key]) \<Rightarrow>
          if new_key \<notin> set (introduced_keys p) \<or> old_key \<notin> set (removed_keys p) then Inr p
          else
            (let new = the (map_of derivative new_key); old = the (map_of upstream old_key) in
             if (severity new, fixed_version new) \<noteq> (severity old, fixed_version old) then Inr p
             else
               res_bind (debian_version_increased dpkg (installed_version new_key) (installed_version old_key))
                 (\<lambda>increased.
                  if \<not> increased then Inr p
                  else Inr (p\<lparr>introduced_keys := remove1 new_key (introduced_keys p),
                         removed_keys := remove1 old_key (removed_keys p),
                         inherited_keys := inherited_keys p @ [new_key],
                         upgrades := upgrades p @ [\<lparr>upgrade_upstream = old, upgrade_derivative = new\<rparr>]\<rparr>)))
      | _ \<Rightarrow> Inr p)"

fun upgrade_scopes ::
  "dpkg \<Rightarrow> findings \<Rightarrow> findings \<Rightarrow> groups \<Rightarrow> groups \<Rightarrow> finding_identity list \<Rightarrow> partition \<Rightarrow> partition res" where
  "upgrade_scopes dpkg derivative upstream current previous [] p = Inr p"
| "upgrade_scopes dpkg derivative upstream current previous (scope # scopes) p =
     res_bind (upgrade_scope dpkg derivative upstream (the (map_of current scope)) (the (map_of previous scope)) p)
       (upgrade_scopes dpkg derivative upstream current previous scopes)"

definition findings_of :: "findings \<Rightarrow> finding_identity list \<Rightarrow> finding list" where
  "findings_of normalized ids = sort_key finding_sort_key (map (\<lambda>key. the (map_of normalized key)) ids)"

definition compare_findings :: "dpkg \<Rightarrow> findings \<Rightarrow> findings \<Rightarrow> comparison res" where
  "compare_findings dpkg derivative upstream =
     (let derivative_keys = map fst derivative;
          upstream_keys = map fst upstream;
          shared = filter (\<lambda>key. key \<in> set upstream_keys) derivative_keys
      in
      raise_if (list_ex (\<lambda>key. map_of derivative key \<noteq> map_of upstream key) shared)
        (new_exn InvalidReportError ''shared finding metadata differs between scan reports'')
        (let derivative_groups = upgrade_candidates derivative_keys;
             upstream_groups = upgrade_candidates upstream_keys;
             scopes = sort (filter (\<lambda>scope. scope \<in> set (map fst upstream_groups)) (map fst derivative_groups))
         in
         res_bind (upgrade_scopes dpkg derivative upstream derivative_groups upstream_groups scopes
             \<lparr>introduced_keys = filter (\<lambda>key. key \<notin> set upstream_keys) derivative_keys,
              removed_keys = filter (\<lambda>key. key \<notin> set derivative_keys) upstream_keys,
              inherited_keys = shared, upgrades = []\<rparr>) (\<lambda>p.
           Inr \<lparr>introduced = findings_of derivative (introduced_keys p),
                inherited = findings_of derivative (inherited_keys p),
                removed = findings_of upstream (removed_keys p),
                accepted = [], package_upgrades = upgrades p\<rparr>)))"

definition compare_reports ::
  "dpkg \<Rightarrow> (string \<times> json) list \<Rightarrow> (string \<times> json) list \<Rightarrow> comparison res" where
  "compare_reports dpkg derivative_report upstream_report =
     res_bind (normalize_findings derivative_report ''derivative'') (\<lambda>derivative.
     res_bind (normalize_findings upstream_report ''upstream'') (\<lambda>upstream.
       compare_findings dpkg derivative upstream))"

section \<open>Reviewed exceptions\<close>

definition exact_fields :: "json \<Rightarrow> string list \<Rightarrow> string \<Rightarrow> (string \<times> json) list res" where
  "exact_fields value expected description =
     (case value of
        JObj ps \<Rightarrow>
          if keys ps \<noteq> set expected then report_error (description @ '' has missing or unexpected fields'')
          else Inr ps
      | _ \<Rightarrow> report_error (description @ '' has missing or unexpected fields''))"

definition review_text :: "json \<Rightarrow> string \<Rightarrow> bool \<Rightarrow> string res" where
  "review_text value description may_be_empty =
     (case value of
        JStr s \<Rightarrow>
          if 2048 < length s \<or> s \<noteq> strip s \<or> \<not> may_be_empty \<and> s = [] \<or> list_ex is_control s then
            report_error (description @ '' must be bounded plain text'')
          else Inr s
      | _ \<Rightarrow> report_error (description @ '' must be bounded plain text''))"

definition iso_date_re :: re where
  "iso_date_re = cats [rep 4 (Cls is_digit), lit ''-'', rep 2 (Cls is_digit), lit ''-'', rep 2 (Cls is_digit)]"

definition review_date :: "json \<Rightarrow> string \<Rightarrow> date res" where
  "review_date value description =
     (case value of
        JStr s \<Rightarrow>
          if \<not> fullmatch iso_date_re s then report_error (description @ '' must be a YYYY-MM-DD date'')
          else
            (case read_date CHR ''-'' s of
               None \<Rightarrow> report_error (description @ '' is not a calendar date'')
             | Some d \<Rightarrow> Inr d)
      | _ \<Rightarrow> report_error (description @ '' must be a YYYY-MM-DD date''))"

definition pinned_image_re :: re where
  "pinned_image_re =
     cats [Cls is_alnum, Star (Cls (\<lambda>c. is_alnum c \<or> any_of ''._:/-'' c)), lit ''@sha256:'',
       rep 64 (Cls is_lower_hex)]"

definition platform_re :: re where
  "platform_re =
     (let word = Plus (Cls (\<lambda>c. is_lower c \<or> is_digit c)) in
      cats [lit ''linux/'', word, Opt (cats [lit ''/'', word])])"

definition scan_context :: "string \<Rightarrow> string \<Rightarrow> unit res" where
  "scan_context image_name platform_text =
     (if \<not> fullmatch pinned_image_re image_name then
        report_error ''exception context requires a digest-pinned upstream image''
      else if \<not> fullmatch platform_re platform_text then
        report_error ''exception context requires an exact Linux platform''
      else Inr ())"

text \<open>\<^verbatim>\<open>SplitResult.username\<close> and \<^verbatim>\<open>SplitResult.password\<close>, empty when absent.\<close>

definition userinfo :: "string \<Rightarrow> string" where
  "userinfo netloc =
     (if CHR ''@'' \<in> set netloc then take (length netloc - length (after_last CHR ''@'' netloc) - 1) netloc
      else [])"

definition valid_link :: "string \<Rightarrow> bool" where
  "valid_link url =
     (let netloc = url_netloc url in
      netloc_ok netloc \<and> url_scheme url = ''https'' \<and> url_hostname netloc \<noteq> None \<and>
      before_char CHR '':'' (userinfo netloc) = [] \<and> after_char CHR '':'' (userinfo netloc) = [])"

definition exception_id_re :: re where
  "exception_id_re =
     cats [lit ''EX-'', Cls (\<lambda>c. is_upper c \<or> is_digit c),
       upto_rep 63 (Cls (\<lambda>c. is_upper c \<or> is_digit c \<or> c = CHR ''-''))]"

definition text_fields :: "string list" where
  "text_fields = [''identifier'', ''upstream_image'', ''platform'', ''owner'', ''reviewed_by'', ''tracking_url'',
     ''exposure'', ''reason'', ''mitigation'']"

definition identity_fields :: "string list" where
  "identity_fields = [''result_class'', ''result_type'', ''target'', ''vulnerability_id'', ''package_name'',
     ''package_id'', ''package_path'', ''installed_version'']"

definition field_of :: "(string \<times> string) list \<Rightarrow> string \<Rightarrow> string" where
  "field_of texts key = (case map_of texts key of None \<Rightarrow> [] | Some text \<Rightarrow> text)"

definition read_identity :: "(string \<times> json) list \<Rightarrow> finding_identity res" where
  "read_identity raw_identity =
     res_bind (res_map (\<lambda>(key, value).
         res_bind (review_text value (''exception finding '' @ key) (key \<in> {''package_id'', ''package_path''}))
           (\<lambda>text. Inr (key, text))) raw_identity) (\<lambda>texts.
       Inr (FindingIdentity (field_of texts ''result_class'') (field_of texts ''result_type'')
         (field_of texts ''target'') (field_of texts ''vulnerability_id'') (field_of texts ''package_name'')
         (field_of texts ''package_id'') (field_of texts ''package_path'')
         (field_of texts ''installed_version'')))"

definition read_exception_finding :: "json \<Rightarrow> finding res" where
  "read_exception_finding value =
     res_bind (exact_fields value [''identity'', ''severity'', ''fixed_version''] ''exception finding'') (\<lambda>finding_data.
     res_bind (exact_fields (dict_get finding_data ''identity'') identity_fields ''exception finding identity'')
       (\<lambda>raw_identity.
     res_bind (read_identity raw_identity) (\<lambda>i.
     res_bind (review_text (dict_get finding_data ''severity'') ''exception severity'' False) (\<lambda>level.
     raise_if (level \<notin> set BLOCKING_SEVERITIES)
       (new_exn InvalidReportError ''exceptions apply only to HIGH/CRITICAL findings'')
       (res_bind (review_text (dict_get finding_data ''fixed_version'') ''exception fixed_version'' False)
         (\<lambda>fixed. Inr (Finding i level fixed)))))))"

text \<open>
  One entry of the registry.  \<open>order\<close> is the order in which the interpreter visits the names of the text
  fields, a set of strings: it decides only which of several errors is reported.
\<close>

definition read_exception :: "string list \<Rightarrow> date \<Rightarrow> json \<Rightarrow> image_exception res" where
  "read_exception order today raw =
     res_bind (exact_fields raw (text_fields @ [''finding'', ''reviewed_on'', ''expires_on'']) ''exception'') (\<lambda>entry.
     res_bind (res_map (\<lambda>key.
         res_bind (review_text (dict_get entry key) (''exception '' @ key) False) (\<lambda>text. Inr (key, text))) order)
       (\<lambda>texts.
     raise_if (\<not> fullmatch exception_id_re (field_of texts ''identifier''))
       (new_exn InvalidReportError ''exception identifier must start with EX- and be unique'')
    (res_bind (scan_context (field_of texts ''upstream_image'') (field_of texts ''platform'')) (\<lambda>_.
     raise_if (\<not> valid_link (field_of texts ''tracking_url''))
       (new_exn InvalidReportError ''exception tracking_url must be an HTTPS remediation link'')
    (res_bind (read_exception_finding (dict_get entry ''finding'')) (\<lambda>finding.
     res_bind (review_date (dict_get entry ''reviewed_on'') ''reviewed_on'') (\<lambda>reviewed.
     res_bind (review_date (dict_get entry ''expires_on'') ''expires_on'') (\<lambda>expires.
     raise_if (date_less today reviewed \<or> \<not> date_less today expires)
       (new_exn InvalidReportError ''exception review is in the future or has expired'')
    (raise_if (\<not> (0 < toordinal expires - toordinal reviewed \<and>
         toordinal expires - toordinal reviewed \<le> MAX_EXCEPTION_DAYS))
       (new_exn InvalidReportError ''exception lifetime must be between 1 and 90 days'')
       (Inr (ImageException (field_of texts ''identifier'') (field_of texts ''upstream_image'')
         (field_of texts ''platform'') finding (field_of texts ''owner'') (field_of texts ''reviewed_by'')
         reviewed expires (field_of texts ''tracking_url'') (field_of texts ''exposure'')
         (field_of texts ''reason'') (field_of texts ''mitigation''))))))))))))"

definition exception_scope :: "image_exception \<Rightarrow> string \<times> string \<times> finding_identity" where
  "exception_scope e = (upstream_image e, platform e, identity (exception_finding e))"

fun read_exceptions ::
  "string list \<Rightarrow> date \<Rightarrow> json list \<Rightarrow> image_exception list \<Rightarrow> image_exception list res" where
  "read_exceptions order today [] result = Inr result"
| "read_exceptions order today (raw # entries) result =
     res_bind (read_exception order today raw) (\<lambda>e.
     raise_if (exception_identifier e \<in> set (map exception_identifier result) \<or> exception_scope e \<in> set (map exception_scope result))
       (new_exn InvalidReportError ''duplicate exception identifier or finding scope'')
       (read_exceptions order today entries (result @ [e])))"

definition is_json_int :: "json \<Rightarrow> bool" where
  "is_json_int value = (case value of JInt _ \<Rightarrow> True | _ \<Rightarrow> False)"

definition load_exceptions :: "string list \<Rightarrow> date \<Rightarrow> int res \<Rightarrow> json res \<Rightarrow> image_exception list res" where
  "load_exceptions order today stat_size document =
     res_bind (load_report stat_size document ''exception'' MAX_EXCEPTION_BYTES) (\<lambda>policy.
     res_bind (exact_fields (JObj policy) [''schema_version'', ''exceptions''] ''exception registry'') (\<lambda>policy.
     raise_if (\<not> is_json_int (dict_get policy ''schema_version'') \<or> dict_get policy ''schema_version'' \<noteq> JInt 1)
       (new_exn InvalidReportError ''unsupported exception registry schema'')
       (case dict_get policy ''exceptions'' of
          JList entries \<Rightarrow>
            if 256 < length entries then report_error ''exception registry must contain at most 256 entries''
            else
              res_bind (read_exceptions order today entries []) (\<lambda>result. Inr (sort_key exception_identifier result))
        | _ \<Rightarrow> report_error ''exception registry must contain at most 256 entries'')))"

definition apply_exceptions ::
  "comparison \<Rightarrow> image_exception list \<Rightarrow> string \<Rightarrow> string \<Rightarrow> comparison res" where
  "apply_exceptions c exceptions image_name platform_text =
     res_bind (scan_context image_name platform_text) (\<lambda>_.
       Inr (c\<lparr>accepted := filter (\<lambda>e. upstream_image e = image_name \<and> platform e = platform_text \<and>
           exception_finding e \<in> set (inherited c) \<and> fixed_version (exception_finding e) \<noteq> []) exceptions\<rparr>))"

section \<open>The verdict\<close>

definition format_finding :: "finding \<Rightarrow> string" where
  "format_finding finding =
     (let i = identity finding in
      ''  '' @ join '' | ''
        ([severity finding,
          ''vulnerability='' @ quoted (vulnerability_id i),
          ''package='' @ quoted (package_name i),
          ''installed='' @ quoted (installed_version i),
          ''fixed='' @ (if fixed_version finding \<noteq> [] then quoted (fixed_version finding) else ''<none>''),
          ''class='' @ quoted (result_class i),
          ''type='' @ quoted (result_type i),
          ''target='' @ quoted (target i)]
         @ (if package_id i \<noteq> [] then [''package_id='' @ quoted (package_id i)] else [])
         @ (if package_path i \<noteq> [] then [''package_path='' @ quoted (package_path i)] else [])))"

definition format_category :: "string \<Rightarrow> finding list \<Rightarrow> string list" where
  "format_category heading fs =
     (heading @ '': '' @ str_nat (length fs)) # map format_finding fs"

definition format_upgrade :: "package_upgrade \<Rightarrow> string list" where
  "format_upgrade u =
     [format_finding (upgrade_derivative u),
      ''  previous_upstream_version='' @ quoted (installed_version (identity (upgrade_upstream u)))]"

definition format_exception :: "image_exception \<Rightarrow> string list" where
  "format_exception e =
     [format_finding (exception_finding e),
      ''  exception='' @ quoted (exception_identifier e) @ '' | owner='' @ quoted (owner e) @ '' | reviewed_by='' @
        quoted (reviewed_by e) @ '' | expires_on='' @ write_date ''-'' (expires_on e) @ '' | tracking='' @
        quoted (tracking_url e)]"

definition render_comparison :: "comparison \<Rightarrow> string" where
  "render_comparison c =
     join [newline]
       (format_category ''Introduced derivative-only HIGH/CRITICAL findings'' (introduced c)
        @ format_category ''Inherited HIGH/CRITICAL findings requiring impact review'' (inherited c)
        @ format_category ''Unexcepted fixable inherited HIGH/CRITICAL findings'' (unexcepted_fixable c)
        @ format_category ''Removed upstream-only HIGH/CRITICAL findings'' (removed c)
        @ [''Inherited Debian findings carried through package upgrades: '' @ str_nat (length (package_upgrades c))]
        @ concat (map format_upgrade (package_upgrades c))
        @ [''Reviewed inherited finding exceptions applied: '' @ str_nat (length (accepted c))]
        @ concat (map format_exception (accepted c))
        @ [if blocked c then
             ''BLOCKED: introduced or unexcepted fixable inherited HIGH/CRITICAL findings were found.''
           else ''PASS: no introduced or unexcepted fixable inherited HIGH/CRITICAL findings were found.''])"

text \<open>
  \<^verbatim>\<open>main\<close>: the exit code and what is printed.  \<open>registry\<close> is the file of the exceptions, if one is
  named, with the image and the platform on the command line.
\<close>

definition verdict ::
  "dpkg \<Rightarrow> string list \<Rightarrow> date \<Rightarrow> int res \<times> json res \<Rightarrow> int res \<times> json res \<Rightarrow> (int res \<times> json res) option \<Rightarrow>
   string \<Rightarrow> string \<Rightarrow> comparison res" where
  "verdict dpkg order today derivative upstream registry image_name platform_text =
     res_bind (load_report (fst derivative) (snd derivative) ''derivative'' MAX_REPORT_BYTES) (\<lambda>derivative_report.
     res_bind (load_report (fst upstream) (snd upstream) ''upstream'' MAX_REPORT_BYTES) (\<lambda>upstream_report.
     res_bind (compare_reports dpkg derivative_report upstream_report) (\<lambda>c.
       case registry of
         None \<Rightarrow> Inr c
       | Some (octets, document) \<Rightarrow>
           res_bind (load_exceptions order today octets document) (\<lambda>exceptions.
             apply_exceptions c exceptions image_name platform_text))))"

definition vulnerability_main ::
  "dpkg \<Rightarrow> string list \<Rightarrow> date \<Rightarrow> int res \<times> json res \<Rightarrow> int res \<times> json res \<Rightarrow> (int res \<times> json res) option \<Rightarrow>
   string \<Rightarrow> string \<Rightarrow> (int \<times> string) res" where
  "vulnerability_main dpkg order today derivative upstream registry image_name platform_text =
     (case verdict dpkg order today derivative upstream registry image_name platform_text of
        Inl error \<Rightarrow>
          if isinstance error InvalidReportError then
            Inr (2, ''Comparison failed closed: '' @ exn_text error)
          else Inl error
      | Inr c \<Rightarrow> Inr (if blocked c then 1 else 0, render_comparison c))"

section \<open>What a comparison accounts for\<close>

definition normal :: "findings \<Rightarrow> bool" where
  "normal fs = (distinct (map fst fs) \<and> list_all (\<lambda>(key, finding). key = identity finding) fs)"

lemma add_finding_normal:
  "add_finding role fs finding = Inr fs' \<Longrightarrow> normal fs \<Longrightarrow> normal fs'"
  by (auto simp: add_finding_def normal_def map_of_eq_None_iff split: option.splits if_splits)

lemma read_vulnerabilities_normal:
  "read_vulnerabilities role context i j vs fs = Inr fs' \<Longrightarrow> normal fs \<Longrightarrow> normal fs'"
  by (induction role "context" i j vs fs rule: read_vulnerabilities.induct)
     (auto simp: res_bind_Inr_iff dest: add_finding_normal)

lemma read_result_normal:
  assumes "read_result report role i r fs = Inr fs'" and "normal fs"
  shows "normal fs'"
proof (cases r)
  case (JObj ps)
  with assms show ?thesis
    by (cases "dict_get_default ps ''Vulnerabilities'' (JList [])")
       (auto simp: read_result_def res_bind_Inr_iff dest: read_vulnerabilities_normal)
qed (use assms in \<open>simp_all add: read_result_def\<close>)

lemma read_results_normal:
  "read_results report role i rs fs = Inr fs' \<Longrightarrow> normal fs \<Longrightarrow> normal fs'"
  by (induction report role i rs fs rule: read_results.induct)
     (auto simp: res_bind_Inr_iff dest: read_result_normal)

lemma normalize_findings_normal: "normalize_findings report role = Inr fs \<Longrightarrow> normal fs"
  by (auto simp: normalize_findings_def Let_def normal_def [of "[]"] split: if_splits option.splits json.splits
      dest: read_results_normal)

lemma normal_map_of: "normal fs \<Longrightarrow> map_of fs key = Some f \<longleftrightarrow> f \<in> set (map snd fs) \<and> key = identity f"
  by (force simp: normal_def list_all_iff)

lemma normal_findings_map:
  "normal fs \<Longrightarrow> map (\<lambda>key. the (map_of fs key)) (map fst fs) = map snd fs"
  by (auto simp: normal_def)

text \<open>The candidates of a scope.\<close>

definition candidates :: "groups \<Rightarrow> finding_identity \<Rightarrow> finding_identity list" where
  "candidates groups scope = (case map_of groups scope of None \<Rightarrow> [] | Some ids \<Rightarrow> ids)"

lemma candidates_add:
  "candidates (add_candidate groups i) scope =
     candidates groups scope @ (if debian_upgrade_scope i = Some scope then [i] else [])"
  by (auto simp: candidates_def add_candidate_def update_conv' split: option.splits)

lemma candidates_foldl:
  "candidates (foldl add_candidate groups ids) scope =
     candidates groups scope @ filter (\<lambda>i. debian_upgrade_scope i = Some scope) ids"
  by (induction ids arbitrary: groups) (auto simp: candidates_add)

lemma upgrade_candidates_single:
  assumes "map_of (upgrade_candidates ids) scope = Some [i]"
  shows "i \<in> set ids \<and> debian_upgrade_scope i = Some scope \<and>
    (\<forall>j\<in>set ids. debian_upgrade_scope j = Some scope \<longrightarrow> j = i)"
proof -
  have "filter (\<lambda>i. debian_upgrade_scope i = Some scope) (sort ids) = [i]"
    using assms candidates_foldl [of "[]" "sort ids" scope]
    by (simp add: candidates_def upgrade_candidates_def)
  then have "set (filter (\<lambda>i. debian_upgrade_scope i = Some scope) (sort ids)) = {i}" by simp
  then show ?thesis by auto
qed

text \<open>
  A justified upgrade: both findings are those of the only package of their scope in their report, they
  agree but for its version, and \<^verbatim>\<open>dpkg\<close> says that the version increased.
\<close>

definition justified_upgrade :: "dpkg \<Rightarrow> findings \<Rightarrow> findings \<Rightarrow> package_upgrade \<Rightarrow> bool" where
  "justified_upgrade dpkg derivative upstream u =
     (let new = upgrade_derivative u; old = upgrade_upstream u; scope = debian_upgrade_scope (identity new) in
      new \<in> set (map snd derivative) \<and> old \<in> set (map snd upstream) \<and>
      scope \<noteq> None \<and> debian_upgrade_scope (identity old) = scope \<and>
      severity new = severity old \<and> fixed_version new = fixed_version old \<and>
      dpkg (installed_version (identity new)) (installed_version (identity old)) = Inr (0, []) \<and>
      list_all (\<lambda>f. debian_upgrade_scope (identity f) = scope \<longrightarrow> f = new) (map snd derivative) \<and>
      list_all (\<lambda>f. debian_upgrade_scope (identity f) = scope \<longrightarrow> f = old) (map snd upstream))"

definition accounted :: "dpkg \<Rightarrow> findings \<Rightarrow> findings \<Rightarrow> partition \<Rightarrow> bool" where
  "accounted dpkg derivative upstream p =
     (mset (introduced_keys p) + mset (inherited_keys p) = mset (map fst derivative) \<and>
      set (introduced_keys p) \<inter> set (map fst upstream) = {} \<and>
      list_all (justified_upgrade dpkg derivative upstream) (upgrades p) \<and>
      list_all (\<lambda>key. key \<in> set (map fst upstream)
        \<or> key \<in> set (map (\<lambda>u. identity (upgrade_derivative u)) (upgrades p))) (inherited_keys p))"

lemma debian_version_increased_True:
  "debian_version_increased dpkg new old = Inr True \<Longrightarrow> dpkg new old = Inr (0, [])"
  by (auto simp: debian_version_increased_def split: sum.splits if_splits)

lemma upgrade_scope_accounted:
  assumes "upgrade_scope dpkg derivative upstream current previous p = Inr p'"
    and p: "accounted dpkg derivative upstream p"
    and normal: "normal derivative" "normal upstream"
    and current: "map_of (upgrade_candidates (map fst derivative)) scope = Some current"
    and previous: "map_of (upgrade_candidates (map fst upstream)) scope = Some previous"
    and sub: "set (introduced_keys p) \<subseteq> set (map fst derivative)" "set (removed_keys p) \<subseteq> set (map fst upstream)"
  shows "accounted dpkg derivative upstream p' \<and> set (introduced_keys p') \<subseteq> set (map fst derivative) \<and>
    set (removed_keys p') \<subseteq> set (map fst upstream)"
proof (cases "p' = p")
  case False
  with assms(1) obtain new_key old_key where lists: "current = [new_key]" "previous = [old_key]"
    by (auto simp: upgrade_scope_def split: list.splits)
  let ?new = "the (map_of derivative new_key)" and ?old = "the (map_of upstream old_key)"
  from assms(1) False lists have keys: "new_key \<in> set (introduced_keys p)" "old_key \<in> set (removed_keys p)"
    and same: "severity ?new = severity ?old" "fixed_version ?new = fixed_version ?old"
    and dpkg: "debian_version_increased dpkg (installed_version new_key) (installed_version old_key) = Inr True"
    and p': "p' = p\<lparr>introduced_keys := remove1 new_key (introduced_keys p),
      removed_keys := remove1 old_key (removed_keys p), inherited_keys := inherited_keys p @ [new_key],
      upgrades := upgrades p @ [\<lparr>upgrade_upstream = ?old, upgrade_derivative = ?new\<rparr>]\<rparr>"
    by (auto simp: upgrade_scope_def Let_def res_bind_Inr_iff split: if_splits)
  have only: "?new \<in> set (map snd derivative)" "identity ?new = new_key" "?old \<in> set (map snd upstream)"
      "identity ?old = old_key"
    using keys sub normal_map_of [OF normal(1)] normal_map_of [OF normal(2)]
    by (metis map_of_eq_None_iff option.exhaust_sel subsetD list.set_map)+
  have scope: "debian_upgrade_scope new_key = Some scope" "debian_upgrade_scope old_key = Some scope"
      "\<forall>f\<in>set (map snd derivative). debian_upgrade_scope (identity f) = Some scope \<longrightarrow> f = ?new"
      "\<forall>f\<in>set (map snd upstream). debian_upgrade_scope (identity f) = Some scope \<longrightarrow> f = ?old"
    using upgrade_candidates_single [of "map fst derivative" scope new_key]
      upgrade_candidates_single [of "map fst upstream" scope old_key] current previous lists
      normal_map_of [OF normal(1)] normal_map_of [OF normal(2)]
    by (metis option.sel list.set_map map_of_eq_None_iff option.distinct(1))+
  have "justified_upgrade dpkg derivative upstream \<lparr>upgrade_upstream = ?old, upgrade_derivative = ?new\<rparr>"
    using only scope same debian_version_increased_True [OF dpkg]
    by (simp add: justified_upgrade_def Let_def list_all_iff)
  moreover have "mset (remove1 new_key (introduced_keys p)) + mset (inherited_keys p @ [new_key]) =
      mset (introduced_keys p) + mset (inherited_keys p)"
    using keys(1) by simp
  ultimately show ?thesis
    using p only set_remove1_subset [of new_key "introduced_keys p"] sub
      set_remove1_subset [of old_key "removed_keys p"]
    unfolding accounted_def p' by (simp del: mset_append mset_remove1 mset_map) (auto simp: list_all_iff)
qed (use p sub in simp)

lemma upgrade_scopes_accounted:
  "upgrade_scopes dpkg derivative upstream (upgrade_candidates (map fst derivative))
       (upgrade_candidates (map fst upstream)) scopes p = Inr p' \<Longrightarrow>
     accounted dpkg derivative upstream p \<Longrightarrow> normal derivative \<Longrightarrow> normal upstream \<Longrightarrow>
     set (introduced_keys p) \<subseteq> set (map fst derivative) \<Longrightarrow> set (removed_keys p) \<subseteq> set (map fst upstream) \<Longrightarrow>
     set scopes \<subseteq> dom (map_of (upgrade_candidates (map fst derivative))) \<inter>
       dom (map_of (upgrade_candidates (map fst upstream))) \<Longrightarrow>
     accounted dpkg derivative upstream p'"
proof (induction scopes arbitrary: p)
  case (Cons scope scopes)
  then obtain current previous where
    groups: "map_of (upgrade_candidates (map fst derivative)) scope = Some current"
      "map_of (upgrade_candidates (map fst upstream)) scope = Some previous"
    by (auto simp: dom_def)
  with Cons.prems(1) obtain q where
    q: "upgrade_scope dpkg derivative upstream current previous p = Inr q"
    and rest: "upgrade_scopes dpkg derivative upstream (upgrade_candidates (map fst derivative))
       (upgrade_candidates (map fst upstream)) scopes q = Inr p'"
    by (auto simp: res_bind_Inr_iff)
  from upgrade_scope_accounted [OF q Cons.prems(2-4) groups Cons.prems(5,6)] Cons.prems(3,4,7)
  show ?case by (intro Cons.IH [OF rest]) auto
qed simp

lemma compare_findings_accounted:
  assumes "compare_findings dpkg derivative upstream = Inr c" and normal: "normal derivative" "normal upstream"
  obtains p where "accounted dpkg derivative upstream p"
    and "introduced c = findings_of derivative (introduced_keys p)"
    and "inherited c = findings_of derivative (inherited_keys p)"
    and "package_upgrades c = upgrades p" and "accepted c = []"
    and "\<forall>key\<in>set (map fst derivative) \<inter> set (map fst upstream). map_of derivative key = map_of upstream key"
proof -
  let ?shared = "filter (\<lambda>key. key \<in> set (map fst upstream)) (map fst derivative)"
  let ?p = "\<lparr>introduced_keys = filter (\<lambda>key. key \<notin> set (map fst upstream)) (map fst derivative),
      removed_keys = filter (\<lambda>key. key \<notin> set (map fst derivative)) (map fst upstream),
      inherited_keys = ?shared, upgrades = []\<rparr>"
  let ?scopes = "sort (filter (\<lambda>scope. scope \<in> set (map fst (upgrade_candidates (map fst upstream))))
      (map fst (upgrade_candidates (map fst derivative))))"
  from assms(1) obtain p where
    p: "upgrade_scopes dpkg derivative upstream (upgrade_candidates (map fst derivative))
       (upgrade_candidates (map fst upstream)) ?scopes ?p = Inr p"
    and c: "introduced c = findings_of derivative (introduced_keys p)"
      "inherited c = findings_of derivative (inherited_keys p)"
      "package_upgrades c = upgrades p" "accepted c = []"
    and same: "\<not> list_ex (\<lambda>key. map_of derivative key \<noteq> map_of upstream key) ?shared"
    by (auto simp: compare_findings_def Let_def res_bind_Inr_iff)
  have parts: "mset (filter (\<lambda>x. \<not> P x) xs) + mset (filter P xs) = mset xs"
    for P and xs :: "finding_identity list" by (induction xs) auto
  have "accounted dpkg derivative upstream ?p"
    unfolding accounted_def partition.simps parts by (auto simp: list_all_iff)
  then have "accounted dpkg derivative upstream p"
    by (rule upgrade_scopes_accounted [OF p]) (use normal in \<open>auto simp: dom_map_of_conv_image_fst\<close>)
  moreover have "\<forall>key\<in>set (map fst derivative) \<inter> set (map fst upstream). map_of derivative key = map_of upstream key"
    using same unfolding list_ex_iff by fastforce
  ultimately show thesis using c that by blast
qed

lemma mset_findings_of: "mset (findings_of fs ids) = image_mset (\<lambda>key. the (map_of fs key)) (mset ids)"
  by (simp add: findings_of_def)

lemma set_findings_of: "set (findings_of fs ids) = (\<lambda>key. the (map_of fs key)) ` set ids"
  by (simp add: findings_of_def)

lemma compare_findings_sound:
  assumes "compare_findings dpkg derivative upstream = Inr c" and normal: "normal derivative" "normal upstream"
  shows "mset (introduced c @ inherited c) = mset (map snd derivative) \<and>
    list_all (\<lambda>f. identity f \<notin> set (map fst upstream)) (introduced c) \<and>
    list_all (\<lambda>f. f \<in> set (map snd upstream) \<or> f \<in> set (map upgrade_derivative (package_upgrades c))) (inherited c) \<and>
    list_all (justified_upgrade dpkg derivative upstream) (package_upgrades c) \<and> accepted c = []"
proof -
  obtain p where p: "accounted dpkg derivative upstream p" and i: "introduced c = findings_of derivative (introduced_keys p)"
    and h: "inherited c = findings_of derivative (inherited_keys p)"
    and u: "package_upgrades c = upgrades p" "accepted c = []"
    and same: "\<forall>key\<in>set (map fst derivative) \<inter> set (map fst upstream). map_of derivative key = map_of upstream key"
    by (rule compare_findings_accounted [OF assms])
  let ?find = "\<lambda>key. the (map_of derivative key)"
  have keys: "mset (introduced_keys p) + mset (inherited_keys p) = mset (map fst derivative)"
    using p by (simp add: accounted_def)
  then have "image_mset ?find (mset (introduced_keys p) + mset (inherited_keys p)) =
      mset (map ?find (map fst derivative))" by (metis mset_map)
  then have "mset (introduced c @ inherited c) = mset (map snd derivative)"
    by (simp only: i h mset_append mset_findings_of image_mset_union normal_findings_map [OF normal(1)])
  moreover have sub: "set (introduced_keys p) \<union> set (inherited_keys p) = set (map fst derivative)"
    using keys by (metis set_mset_mset set_mset_union)
  then have find: "identity (?find key) = key \<and> ?find key \<in> set (map snd derivative)"
    if "key \<in> set (introduced_keys p) \<union> set (inherited_keys p)" for key
    using that normal_map_of [OF normal(1)] by (metis map_of_eq_None_iff option.exhaust_sel list.set_map)
  have "list_all (\<lambda>f. identity f \<notin> set (map fst upstream)) (introduced c)"
    using p find by (auto simp: i set_findings_of list_all_iff accounted_def)
  moreover have "list_all (\<lambda>f. f \<in> set (map snd upstream) \<or> f \<in> set (map upgrade_derivative (package_upgrades c)))
      (inherited c)"
    unfolding list_all_iff h set_findings_of
  proof safe
    fix key
    assume key: "key \<in> set (inherited_keys p)"
      and new: "?find key \<notin> set (map upgrade_derivative (package_upgrades c))"
    show "?find key \<in> set (map snd upstream)"
    proof (cases "key \<in> set (map fst upstream)")
      case True
      with key sub same have "map_of upstream key = map_of derivative key" by (metis IntI UnI2)
      moreover have "map_of derivative key = Some (?find key)"
        using key sub by (metis UnI2 list.set_map map_of_eq_None_iff option.exhaust_sel)
      ultimately show ?thesis using normal_map_of [OF normal(2)] by metis
    next
      case False
      with p key obtain w where w: "w \<in> set (upgrades p)" "key = identity (upgrade_derivative w)"
        by (auto simp: accounted_def list_all_iff)
      with p have "upgrade_derivative w \<in> set (map snd derivative)"
        by (auto simp: accounted_def list_all_iff justified_upgrade_def Let_def)
      with w(2) have "map_of derivative key = Some (upgrade_derivative w)"
        by (simp add: normal_map_of [OF normal(1)] del: set_map)
      with w(1) new u show ?thesis by simp
    qed
  qed
  ultimately show ?thesis using p u by (simp add: accounted_def)
qed

text \<open>
  C32.  A comparison accounts for every finding of the derivative image once: it is introduced, and then
  the upstream image has no finding of that identity; or it is inherited, and then the upstream image has
  exactly the same finding or it belongs to the only version of a Debian package that \<^verbatim>\<open>dpkg\<close> calls newer
  than the only upstream version with the same finding.
\<close>

theorem comparison_accounts_for_findings:
  assumes "compare_reports dpkg derivative_report upstream_report = Inr c"
  shows "\<exists>derivative upstream.
    normalize_findings derivative_report ''derivative'' = Inr derivative \<and>
    normalize_findings upstream_report ''upstream'' = Inr upstream \<and>
    mset (introduced c @ inherited c) = mset (map snd derivative) \<and>
    list_all (\<lambda>f. identity f \<notin> set (map fst upstream)) (introduced c) \<and>
    list_all (\<lambda>f. f \<in> set (map snd upstream) \<or> f \<in> set (map upgrade_derivative (package_upgrades c))) (inherited c) \<and>
    list_all (justified_upgrade dpkg derivative upstream) (package_upgrades c)"
proof -
  from assms obtain derivative upstream where
    n: "normalize_findings derivative_report ''derivative'' = Inr derivative"
      "normalize_findings upstream_report ''upstream'' = Inr upstream"
    and c: "compare_findings dpkg derivative upstream = Inr c"
    by (auto simp: compare_reports_def res_bind_Inr_iff)
  with compare_findings_sound [OF c] normalize_findings_normal [OF n(1)] normalize_findings_normal [OF n(2)]
  show ?thesis by blast
qed

section \<open>What the verdict means\<close>

text \<open>An exception that is in force on a day.\<close>

definition in_force :: "date \<Rightarrow> image_exception \<Rightarrow> bool" where
  "in_force today e =
     (\<not> date_less today (reviewed_on e) \<and> date_less today (expires_on e) \<and>
      toordinal (expires_on e) - toordinal (reviewed_on e) \<in> {1..90})"

lemma read_exception_in_force: "read_exception order today raw = Inr e \<Longrightarrow> in_force today e"
  by (auto simp: read_exception_def res_bind_Inr_iff in_force_def MAX_EXCEPTION_DAYS_def)

lemma read_exceptions_in_force:
  "read_exceptions order today entries result = Inr es \<Longrightarrow> list_all (in_force today) result \<Longrightarrow>
     list_all (in_force today) es"
  by (induction order today entries result rule: read_exceptions.induct)
     (auto simp: res_bind_Inr_iff dest: read_exception_in_force)

lemma load_exceptions_in_force:
  assumes "load_exceptions order today octets document = Inr es"
  shows "list_all (in_force today) es"
proof -
  from assms obtain policy entries result where "dict_get policy ''exceptions'' = JList entries"
    and "read_exceptions order today entries [] = Inr result" and es: "es = sort_key exception_identifier result"
    unfolding load_exceptions_def res_bind_Inr_iff raise_if_Inr_iff
    by (elim exE conjE) (auto simp: res_bind_Inr_iff split: json.splits if_splits)
  then have "list_all (in_force today) result" by (auto dest: read_exceptions_in_force)
  then show ?thesis by (simp add: es list_all_iff)
qed

lemma load_report_document: "load_report octets document role maximum = Inr ps \<Longrightarrow> document = Inr (JObj ps)"
  by (auto simp: load_report_def reject_duplicates_iff res_bind_def split: sum.splits if_splits json.splits)

text \<open>
  A finding that is no reason to block: the upstream image has it, exactly or before an upgrade of the
  package, and a fixable one has a reviewed exception for this image and platform that is in force.
\<close>

definition tolerable ::
  "dpkg \<Rightarrow> findings \<Rightarrow> findings \<Rightarrow> date \<Rightarrow> image_exception list \<Rightarrow> string \<Rightarrow> string \<Rightarrow> finding \<Rightarrow> bool" where
  "tolerable dpkg derivative upstream today exceptions image_name platform_text finding =
     ((finding \<in> set (map snd upstream) \<or>
       (\<exists>old. justified_upgrade dpkg derivative upstream \<lparr>upgrade_upstream = old, upgrade_derivative = finding\<rparr>)) \<and>
      (fixed_version finding = [] \<or>
       list_ex (\<lambda>e. exception_finding e = finding \<and> upstream_image e = image_name \<and> platform e = platform_text \<and>
         in_force today e) exceptions))"

text \<open>What a passing run was given: two reports, and the exceptions when a registry is named.\<close>

lemma passing_findings:
  assumes c: "compare_findings dpkg derivative upstream = Inr c" and normal: "normal derivative" "normal upstream"
    and es: "list_all (in_force today) es"
    and passed: "\<not> blocked (c\<lparr>accepted := filter (\<lambda>e. upstream_image e = image_name \<and> platform e = platform_text \<and>
      exception_finding e \<in> set (inherited c) \<and> fixed_version (exception_finding e) \<noteq> []) es\<rparr>)"
  shows "list_all (tolerable dpkg derivative upstream today es image_name platform_text) (map snd derivative)"
  unfolding list_all_iff
proof
  fix f
  assume f: "f \<in> set (map snd derivative)"
  note sound = compare_findings_sound [OF c normal]
  from passed have "introduced c = []" by (simp add: blocked_def)
  with sound f have inherited: "f \<in> set (inherited c)" by (metis append_Nil set_mset_mset)
  have "f \<in> set (map snd upstream) \<or>
      (\<exists>old. justified_upgrade dpkg derivative upstream \<lparr>upgrade_upstream = old, upgrade_derivative = f\<rparr>)"
  proof (cases "f \<in> set (map snd upstream)")
    case False
    with sound inherited obtain u where u: "u \<in> set (package_upgrades c)" "f = upgrade_derivative u"
      by (auto simp: list_all_iff)
    with sound have "justified_upgrade dpkg derivative upstream u" by (simp add: list_all_iff)
    with u(2) have "justified_upgrade dpkg derivative upstream
        \<lparr>upgrade_upstream = upgrade_upstream u, upgrade_derivative = f\<rparr>" by (cases u) simp
    then show ?thesis by blast
  qed simp
  moreover have "fixed_version f = [] \<or> list_ex (\<lambda>e. exception_finding e = f \<and> upstream_image e = image_name \<and>
      platform e = platform_text \<and> in_force today e) es"
    using passed inherited es
    by (auto simp: blocked_def unexcepted_fixable_def Let_def filter_empty_conv list_ex_iff list_all_iff)
  ultimately show "tolerable dpkg derivative upstream today es image_name platform_text f"
    by (simp add: tolerable_def)
qed

text \<open>
  C31.  When the gate passes, every HIGH or CRITICAL finding of the derivative image is one the upstream
  image has too, exactly or before an upgrade of its Debian package, and every one of them that has a fix
  is covered by a reviewed exception for this very image and platform, which is in force today and for at
  most 90 days.
\<close>

theorem passing_gate_is_justified:
  assumes "vulnerability_main dpkg order today (derivative_size, derivative_document)
    (upstream_size, upstream_document) registry image_name platform_text = Inr (0, line)"
  shows "\<exists>derivative_report upstream_report derivative upstream exceptions.
    derivative_document = Inr (JObj derivative_report) \<and> upstream_document = Inr (JObj upstream_report) \<and>
    normalize_findings derivative_report ''derivative'' = Inr derivative \<and>
    normalize_findings upstream_report ''upstream'' = Inr upstream \<and>
    (case registry of
       None \<Rightarrow> exceptions = []
     | Some (octets, document) \<Rightarrow> load_exceptions order today octets document = Inr exceptions) \<and>
    list_all (tolerable dpkg derivative upstream today exceptions image_name platform_text) (map snd derivative)"
proof -
  from assms obtain v where v: "verdict dpkg order today (derivative_size, derivative_document)
      (upstream_size, upstream_document) registry image_name platform_text = Inr v" and passed: "\<not> blocked v"
    by (auto simp: vulnerability_main_def split: sum.splits if_splits)
  from v obtain derivative_report upstream_report derivative upstream c where
    reports: "derivative_document = Inr (JObj derivative_report)" "upstream_document = Inr (JObj upstream_report)"
    and n: "normalize_findings derivative_report ''derivative'' = Inr derivative"
      "normalize_findings upstream_report ''upstream'' = Inr upstream"
    and c: "compare_findings dpkg derivative upstream = Inr c"
    and rest: "(case registry of None \<Rightarrow> Inr c | Some (octets, document) \<Rightarrow>
        res_bind (load_exceptions order today octets document) (\<lambda>exceptions.
          apply_exceptions c exceptions image_name platform_text)) = Inr v"
    by (auto simp: verdict_def compare_reports_def res_bind_Inr_iff dest!: load_report_document)
  note normal = n [THEN normalize_findings_normal]
  obtain es where es: "case registry of None \<Rightarrow> es = []
      | Some (octets, document) \<Rightarrow> load_exceptions order today octets document = Inr es"
    and v: "v = c\<lparr>accepted := filter (\<lambda>e. upstream_image e = image_name \<and> platform e = platform_text \<and>
        exception_finding e \<in> set (inherited c) \<and> fixed_version (exception_finding e) \<noteq> []) es\<rparr>"
  proof (cases registry)
    case None
    with rest compare_findings_sound [OF c normal] that [of "[]"] show thesis by (cases c) simp
  next
    case (Some r)
    with rest that show thesis by (cases r) (auto simp: res_bind_Inr_iff apply_exceptions_def)
  qed
  from es have "list_all (in_force today) es"
    by (auto dest: load_exceptions_in_force split: option.splits prod.splits)
  from passing_findings [OF c normal this] passed v
  have "list_all (tolerable dpkg derivative upstream today es image_name platform_text) (map snd derivative)"
    by simp
  with reports n es show ?thesis by blast
qed

section \<open>A passing run\<close>

text \<open>An upgraded Debian package with a fixable finding, and the registry that excepts it.\<close>

definition sample_report :: "string \<Rightarrow> (string \<times> json) list" where
  "sample_report version =
     [(''SchemaVersion'', JInt 2), (''ArtifactType'', JStr ''container_image''),
      (''Metadata'', JObj [(''OS'', JObj [(''Family'', JStr ''debian''), (''Name'', JStr ''12'')])]),
      (''Results'', JList [JObj [(''Target'', JStr ''image''), (''Class'', JStr ''os-pkgs''), (''Type'', JStr ''debian''),
        (''Vulnerabilities'', JList [JObj [(''VulnerabilityID'', JStr ''CVE-1''), (''PkgName'', JStr ''zlib''),
          (''PkgID'', JStr (''zlib@'' @ version)), (''InstalledVersion'', JStr version),
          (''FixedVersion'', JStr ''3''), (''Severity'', JStr ''HIGH'')]])]])]"

definition sample_finding :: "string \<Rightarrow> finding" where
  "sample_finding version =
     Finding (FindingIdentity ''os-pkgs'' ''debian'' ''os:debian/12'' ''CVE-1'' ''zlib'' (''zlib@'' @ version) [] version)
       ''HIGH'' ''3''"

definition sample_dpkg :: dpkg where
  "sample_dpkg new old = Inr (if new = ''2'' \<and> old = ''1'' then 0 else 1, [])"

definition sample_comparison :: comparison where
  "sample_comparison = \<lparr>introduced = [], inherited = [sample_finding ''2''], removed = [], accepted = [],
     package_upgrades = [\<lparr>upgrade_upstream = sample_finding ''1'', upgrade_derivative = sample_finding ''2''\<rparr>]\<rparr>"

lemma sample_normalized:
  "normalize_findings (sample_report ''2'') role = Inr [(identity (sample_finding ''2''), sample_finding ''2'')]"
  "normalize_findings (sample_report ''1'') role = Inr [(identity (sample_finding ''1''), sample_finding ''1'')]"
  by (simp_all add: sample_report_def sample_finding_def normalize_findings_def Let_def dict_get_def is_json_bool_def
      py_eq.simps num_eq_def scaled_eq_def read_result_def required_text_def os_target_def dict_get_default_def
      read_vulnerability_def BLOCKING_SEVERITIES_def optional_text_def add_finding_def raise_if_def)

lemma sample_compared: "compare_reports sample_dpkg (sample_report ''2'') (sample_report ''1'') = Inr sample_comparison"
proof -
  have "fullmatch debian_version_re ''1''" "fullmatch debian_version_re ''2''" by code_simp+
  then have newer: "debian_version_increased sample_dpkg ''2'' ''1'' = Inr True"
    by (simp add: debian_version_increased_def sample_dpkg_def raise_if_def)
  show ?thesis
    by (simp add: compare_reports_def sample_normalized compare_findings_def Let_def raise_if_def
        upgrade_candidates_def add_candidate_def debian_upgrade_scope_def sample_finding_def upgrade_scope_def
        newer findings_of_def sample_comparison_def)
qed

theorem comparison_accounts_for_findings_witness:
  "\<exists>derivative upstream.
    normalize_findings (sample_report ''2'') ''derivative'' = Inr derivative \<and>
    normalize_findings (sample_report ''1'') ''upstream'' = Inr upstream \<and>
    list_all (justified_upgrade sample_dpkg derivative upstream) (package_upgrades sample_comparison)"
  using comparison_accounts_for_findings [OF sample_compared] by blast

definition sample_image :: string where
  "sample_image = ''debian@sha256:'' @ replicate 64 CHR ''a''"

definition sample_registry :: json where
  "sample_registry =
     JObj [(''schema_version'', JInt 1), (''exceptions'', JList [JObj
       [(''identifier'', JStr ''EX-1''), (''upstream_image'', JStr sample_image), (''platform'', JStr ''linux/amd64''),
        (''finding'', JObj [(''identity'', JObj
           [(''result_class'', JStr ''os-pkgs''), (''result_type'', JStr ''debian''), (''target'', JStr ''os:debian/12''),
            (''vulnerability_id'', JStr ''CVE-1''), (''package_name'', JStr ''zlib''), (''package_id'', JStr ''zlib@2''),
            (''package_path'', JStr []), (''installed_version'', JStr ''2'')]),
          (''severity'', JStr ''HIGH''), (''fixed_version'', JStr ''3'')]),
        (''owner'', JStr ''ops''), (''reviewed_by'', JStr ''sec''), (''reviewed_on'', JStr ''2026-01-01''),
        (''expires_on'', JStr ''2026-03-01''), (''tracking_url'', JStr ''https://h/1''), (''exposure'', JStr ''none''),
        (''reason'', JStr ''wait''), (''mitigation'', JStr ''none'')]])]"

definition sample_exception :: image_exception where
  "sample_exception = ImageException ''EX-1'' sample_image ''linux/amd64'' (sample_finding ''2'') ''ops'' ''sec''
     (Date 2026 1 1) (Date 2026 3 1) ''https://h/1'' ''none'' ''wait'' ''none''"

lemma sample_id: "fullmatch exception_id_re ''EX-1''"
  by code_simp

lemma sample_platform: "fullmatch platform_re ''linux/amd64''"
  by code_simp

lemma sample_pinned: "fullmatch pinned_image_re sample_image"
  by code_simp

lemma sample_link: "valid_link ''https://h/1''"
  by code_simp

lemma sample_dates:
  "review_date (JStr ''2026-01-01'') d = Inr (Date 2026 1 1)"
  "review_date (JStr ''2026-03-01'') d = Inr (Date 2026 3 1)"
proof -
  have "fullmatch iso_date_re ''2026-01-01''" "fullmatch iso_date_re ''2026-03-01''"
    by code_simp+
  moreover have "read_date CHR ''-'' ''2026-01-01'' = Some (Date 2026 1 1)"
    "read_date CHR ''-'' ''2026-03-01'' = Some (Date 2026 3 1)"
    by code_simp+
  ultimately show "review_date (JStr ''2026-01-01'') d = Inr (Date 2026 1 1)"
    "review_date (JStr ''2026-03-01'') d = Inr (Date 2026 3 1)"
    by (simp_all add: review_date_def)
qed

lemma sample_period:
  "toordinal (Date 2026 3 1) - toordinal (Date 2026 1 1) = 59" "toordinal (Date 2026 1 1) < toordinal (Date 2026 3 1)"
  by code_simp+

lemma sample_finding_read:
  "read_exception_finding (JObj [(''identity'', JObj
       [(''result_class'', JStr ''os-pkgs''), (''result_type'', JStr ''debian''), (''target'', JStr ''os:debian/12''),
        (''vulnerability_id'', JStr ''CVE-1''), (''package_name'', JStr ''zlib''), (''package_id'', JStr ''zlib@2''),
        (''package_path'', JStr []), (''installed_version'', JStr ''2'')]),
      (''severity'', JStr ''HIGH''), (''fixed_version'', JStr ''3'')]) = Inr (sample_finding ''2'')"
  by (simp add: read_exception_finding_def exact_fields_def keys_def dict_get_def identity_fields_def read_identity_def
      review_text_def strip_def lstrip_def rstrip_def isspace_def is_control_def code_def field_of_def
      BLOCKING_SEVERITIES_def sample_finding_def raise_if_def insert_commute)

lemma sample_exceptions:
  "load_exceptions text_fields (Date 2026 1 10) (Inr 900) (Inr sample_registry) = Inr [sample_exception]"
proof -
  have texts: "strip sample_image = sample_image" "\<not> list_ex is_control sample_image" "length sample_image = 78"
    "sample_image \<noteq> []" by code_simp+
  have unique: "unique_keys sample_registry" by (simp add: sample_registry_def)
  then have loaded: "load_report (Inr 900) (Inr sample_registry) ''exception'' MAX_EXCEPTION_BYTES =
      Inr (case sample_registry of JObj ps \<Rightarrow> ps)"
    by (simp add: load_report_def MAX_EXCEPTION_BYTES_def reject_duplicates_iff sample_registry_def)
  show ?thesis
    unfolding load_exceptions_def loaded
    by (simp add: sample_registry_def exact_fields_def keys_def dict_get_def is_json_int_def raise_if_def
        read_exception_def text_fields_def review_text_def texts sample_id sample_pinned sample_platform scan_context_def
        strip_def lstrip_def rstrip_def isspace_def is_control_def code_def field_of_def sample_link
        sample_finding_read sample_dates sample_period [simplified] texts(1) [unfolded strip_def lstrip_def rstrip_def]
        date_less_def MAX_EXCEPTION_DAYS_def sample_exception_def
        insert_commute)
qed

theorem passing_gate_is_justified_witness:
  "\<exists>upstream derivative.
    normalize_findings (sample_report ''2'') ''derivative'' = Inr derivative \<and>
    list_all (tolerable sample_dpkg derivative upstream (Date 2026 1 10) [sample_exception] sample_image ''linux/amd64'')
      (map snd derivative)"
proof -
  have loaded: "load_report (Inr 900) (Inr (JObj (sample_report version))) role MAX_REPORT_BYTES =
      Inr (sample_report version)" for version role
    by (simp add: load_report_def MAX_REPORT_BYTES_def reject_duplicates_iff sample_report_def)
  have "vulnerability_main sample_dpkg text_fields (Date 2026 1 10) (Inr 900, Inr (JObj (sample_report ''2'')))
      (Inr 900, Inr (JObj (sample_report ''1''))) (Some (Inr 900, Inr sample_registry)) sample_image ''linux/amd64'' =
      Inr (0, render_comparison (sample_comparison\<lparr>accepted := [sample_exception]\<rparr>))"
    by (simp add: vulnerability_main_def verdict_def loaded sample_compared sample_exceptions [simplified] apply_exceptions_def
        scan_context_def sample_pinned sample_platform sample_exception_def sample_comparison_def sample_finding_def
        blocked_def unexcepted_fixable_def)
  from passing_gate_is_justified [OF this] sample_exceptions show ?thesis by auto
qed

end
