(* ===== verification/ArchivePreflight.thy ===== *)
theory ArchivePreflight
  imports CiPolicy Calendar
begin

text \<open>
  The first check of a release candidate (\<^verbatim>\<open>_preflight_archive\<close> of \<^verbatim>\<open>scripts/release_candidate.py\<close>): the
  bounded reader, the fields of a tar header, PAX metadata and the walk over the blocks of the archive,
  before \<^verbatim>\<open>tarfile\<close> parses it.  Bytes are characters below code point 256; the decompressors are
  parameters.
\<close>

section \<open>Limits\<close>

definition ARCHIVE_MAX_BYTES :: int where "ARCHIVE_MAX_BYTES = 1024 * 1024 * 1024"
definition ARCHIVE_MEMBER_MAX :: int where "ARCHIVE_MEMBER_MAX = 1024"
definition TAR_EXTENSION_MAX_BYTES :: int where "TAR_EXTENSION_MAX_BYTES = 64 * 1024"
definition TAR_EXTENSIONS_TOTAL_MAX_BYTES :: int where "TAR_EXTENSIONS_TOTAL_MAX_BYTES = 256 * 1024"
definition TAR_EXTENSION_COUNT_MAX :: int where "TAR_EXTENSION_COUNT_MAX = 2 * ARCHIVE_MEMBER_MAX"
definition TAR_CONSECUTIVE_EXTENSION_MAX :: int where "TAR_CONSECUTIVE_EXTENSION_MAX = 4"
definition TAR_PAX_RECORD_MAX :: int where "TAR_PAX_RECORD_MAX = 4 * ARCHIVE_MEMBER_MAX"
definition TAR_PAX_GLOBAL_RECORD_MAX :: int where "TAR_PAX_GLOBAL_RECORD_MAX = 64"
definition TAR_TRAILING_MAX_BYTES :: int where "TAR_TRAILING_MAX_BYTES = 1024 * 1024"

abbreviation candidate_error :: "string \<Rightarrow> 'a res" where
  "candidate_error t \<equiv> Inl (new_exn CandidateError t)"

section \<open>The bounded reader\<close>

text \<open>
  \<^verbatim>\<open>_BoundedReader\<close> over a binary file object: the bytes still to come, what follows them (\<open>None\<close> for the
  end of the file, else the exception a corrupt archive raises there), and its two counters.  Like a
  buffered file, a read returns what was asked for unless the stream ends before.
\<close>

record reader =
  available :: string
  failure :: "exn option"
  maximum :: int
  consumed :: int

definition source_read :: "nat \<Rightarrow> (reader, string) eff" where
  "source_read n = (\<lambda>r.
     if n \<le> length (available r) then (Inr (take n (available r)), r\<lparr>available := drop n (available r)\<rparr>)
     else
       (case failure r of
          None \<Rightarrow> (Inr (available r), r\<lparr>available := []\<rparr>)
        | Some e \<Rightarrow> (Inl e, r\<lparr>available := []\<rparr>)))"

definition read_bounded :: "int \<Rightarrow> (reader, string) eff" where
  "read_bounded octets = (\<lambda>r.
     if octets < 0 then (candidate_error ''unbounded archive read is forbidden'', r)
     else
       (case source_read (nat (min octets (maximum r - consumed r + 1))) r of
          (Inl e, r) \<Rightarrow> (Inl e, r)
        | (Inr raw, r) \<Rightarrow>
            (let r = r\<lparr>consumed := consumed r + int (length raw)\<rparr> in
             if consumed r > maximum r then
               (candidate_error ''expanded candidate archive exceeds its safety bound'', r)
             else (Inr raw, r))))"

lemma source_read_Inr:
  "source_read n r = (Inr raw, r') \<Longrightarrow>
     available r = raw @ available r' \<and> failure r' = failure r \<and> maximum r' = maximum r \<and>
     consumed r' = consumed r \<and> length raw \<le> n"
  by (auto simp: source_read_def split: if_splits option.splits)

lemma read_bounded_Inr:
  assumes "read_bounded octets r = (Inr raw, r')"
  shows "available r = raw @ available r' \<and> failure r' = failure r \<and> maximum r' = maximum r \<and>
    consumed r' = consumed r + int (length raw) \<and> consumed r' \<le> maximum r \<and> int (length raw) \<le> octets"
proof -
  from assms obtain r1 where s: "source_read (nat (min octets (maximum r - consumed r + 1))) r = (Inr raw, r1)"
    and r': "r' = r1\<lparr>consumed := consumed r1 + int (length raw)\<rparr>" "consumed r' \<le> maximum r'" "0 \<le> octets"
    by (auto simp: read_bounded_def Let_def split: if_splits prod.splits sum.splits)
  from source_read_Inr [OF s] r' show ?thesis by (auto simp: le_nat_iff)
qed

lemma read_bounded_shorter:
  "read_bounded octets r = (Inr raw, r') \<Longrightarrow> raw \<noteq> [] \<Longrightarrow> length (available r') < length (available r)"
  by (drule read_bounded_Inr) auto

text \<open>\<^verbatim>\<open>_read_exact\<close> and \<^verbatim>\<open>_skip_exact\<close>\<close>

definition truncated :: "string \<Rightarrow> 'a res" where
  "truncated name = candidate_error (''candidate archive is truncated in '' @ name)"

function read_exact :: "int \<Rightarrow> string \<Rightarrow> (reader, string) eff" where
  "read_exact remaining name r =
     (if remaining = 0 then (Inr [], r)
      else
        (case read_bounded (min remaining (64 * 1024)) r of
           (Inl e, r') \<Rightarrow> (Inl e, r')
         | (Inr chunk, r') \<Rightarrow>
             if chunk = [] then (truncated name, r')
             else
               (case read_exact (remaining - int (length chunk)) name r' of
                  (Inl e, r'') \<Rightarrow> (Inl e, r'')
                | (Inr chunks, r'') \<Rightarrow> (Inr (chunk @ chunks), r''))))"
  by pat_completeness auto
termination
  by (relation "measure (\<lambda>(_, _, r). length (available r))") (auto dest!: sym [THEN read_bounded_shorter])

declare read_exact.simps [simp del]

function skip_exact :: "int \<Rightarrow> string \<Rightarrow> (reader, unit) eff" where
  "skip_exact remaining name r =
     (if remaining = 0 then (Inr (), r)
      else
        (case read_bounded (min remaining (64 * 1024)) r of
           (Inl e, r') \<Rightarrow> (Inl e, r')
         | (Inr chunk, r') \<Rightarrow>
             if chunk = [] then (truncated name, r')
             else skip_exact (remaining - int (length chunk)) name r'))"
  by pat_completeness auto
termination
  by (relation "measure (\<lambda>(_, _, r). length (available r))") (auto dest!: sym [THEN read_bounded_shorter])

declare skip_exact.simps [simp del]

section \<open>Fields of a tar header\<close>

definition slice :: "nat \<Rightarrow> nat \<Rightarrow> 'a list \<Rightarrow> 'a list" where
  "slice i j xs = take (j - i) (drop i xs)"

definition from_base :: "int \<Rightarrow> int list \<Rightarrow> int" where
  "from_base b ds = foldl (\<lambda>n d. n * b + d) 0 ds"

definition is_octal :: "char \<Rightarrow> bool" where
  "is_octal c = in_range CHR ''0'' CHR ''7'' c"

definition is_blank :: "char \<Rightarrow> bool" where
  "is_blank c = (c = CHR '' '')"

definition tar_number :: "string \<Rightarrow> string \<Rightarrow> int res" where
  "tar_number raw name =
     (if raw \<noteq> [] \<and> 0x80 \<le> code (hd raw) then
        (if 0x40 \<le> code (hd raw) mod 0x80 then candidate_error (''negative tar '' @ name @ '' is forbidden'')
         else Inr (from_base 256 (int (code (hd raw) mod 0x80) # map (\<lambda>c. int (code c)) (tl raw))))
      else
        (let value = dropWhile is_blank (rev (dropWhile (\<lambda>c. c = nul \<or> is_blank c) (rev raw))) in
         if value = [] then Inr 0
         else if list_ex (\<lambda>c. \<not> is_octal c) value then candidate_error (''invalid tar '' @ name)
         else Inr (from_base 8 (map (\<lambda>c. int (digit_value c)) value))))"

definition byte_sum :: "string \<Rightarrow> int" where
  "byte_sum bs = sum_list (map (\<lambda>c. int (code c)) bs)"

text \<open>The checks of one header: its size field and its kind.\<close>

definition tar_header :: "string \<Rightarrow> (int \<times> string) res" where
  "tar_header header =
     res_bind (tar_number (slice 148 156 header) ''checksum'') (\<lambda>stored_checksum.
     raise_if (byte_sum (take 148 header) + 8 * 32 + byte_sum (drop 156 header) \<noteq> stored_checksum)
       (new_exn CandidateError ''candidate archive tar checksum is invalid'')
       (res_bind (tar_number (slice 124 136 header) ''member size'') (\<lambda>size.
          Inr (size, slice 156 157 header))))"

section \<open>PAX metadata\<close>

definition malformed_pax :: "'a res" where
  "malformed_pax = candidate_error ''candidate archive contains malformed PAX metadata''"

text \<open>
  One record at the start of the rest of the metadata: its number of bytes, key and value.  A text that is
  valid UTF-8 is kept as its bytes.
\<close>

definition pax_record :: "string \<Rightarrow> (int \<times> string \<times> string) res" where
  "pax_record rest =
     (let length_raw = takeWhile (\<lambda>c. \<not> is_blank c) rest in
      if length_raw = rest \<or> length_raw = [] \<or> \<not> list_all is_digit length_raw
         \<or> int (length length_raw) > int (length (str_int TAR_EXTENSION_MAX_BYTES)) then malformed_pax
      else
        (let size = int_of_digits length_raw in
         if size \<le> length length_raw + 2 \<or> size > length rest \<or> rest ! (size - 1) \<noteq> newline then malformed_pax
         else
           (let record = slice (length length_raw + 1) (size - 1) rest in
            if CHR ''='' \<notin> set record then malformed_pax
            else
              (let key = takeWhile (\<lambda>c. c \<noteq> CHR ''='') record;
                   value = drop (length key + 1) record
               in
               if \<not> valid_utf8 key \<or> \<not> valid_utf8 value then
                 candidate_error ''candidate archive PAX metadata is not UTF-8''
               else Inr (int size, key, value)))))"

lemma pax_record_size:
  "pax_record rest = Inr (n, key, value) \<Longrightarrow> 0 < n \<and> n \<le> int (length rest)"
  by (auto simp: pax_record_def malformed_pax_def Let_def split: if_splits)

text \<open>\<^verbatim>\<open>_pax_values\<close>: the rest of the metadata and the values so far.\<close>

function pax_values_from :: "(string \<times> string) list \<Rightarrow> string \<Rightarrow> (string \<times> string) list res" where
  "pax_values_from values rest =
     (if rest = [] then Inr values
      else
        (case pax_record rest of
           Inl e \<Rightarrow> Inl e
         | Inr (record_size, key, value) \<Rightarrow>
             if key = [] \<or> key \<in> set (map fst values) \<or> startswith key ''GNU.sparse'' then
               candidate_error ''candidate archive contains ambiguous PAX metadata''
             else pax_values_from (values @ [(key, value)]) (drop (nat record_size) rest)))"
  by pat_completeness auto
termination
  by (relation "measure (\<lambda>(_, rest). length rest)") (auto dest!: pax_record_size)

declare pax_values_from.simps [simp del]

definition pax_values :: "string \<Rightarrow> ((string \<times> string) list \<times> int) res" where
  "pax_values raw =
     res_bind (pax_values_from [] raw) (\<lambda>values. Inr (values, int (length values)))"

section \<open>The walk over the blocks\<close>

record preflight =
  member_count :: int
  extension_count :: int
  consecutive_extension_count :: int
  extension_total :: int
  pax_record_count :: int
  global_pax_record_count :: int
  global_pax :: "string \<rightharpoonup> string"
  next_pax :: "string \<rightharpoonup> string"
  zero_blocks :: nat

definition new_preflight :: preflight where
  "new_preflight = \<lparr>member_count = 0, extension_count = 0, consecutive_extension_count = 0, extension_total = 0,
     pax_record_count = 0, global_pax_record_count = 0, global_pax = Map.empty, next_pax = Map.empty,
     zero_blocks = 0\<rparr>"

definition extension_kinds :: "string list" where
  "extension_kinds = [''x'', ''X'', ''g'', ''L'', ''K'']"

text \<open>The counters of an extension header, checked before its content is read.\<close>

definition count_extension :: "int \<Rightarrow> preflight \<Rightarrow> preflight res" where
  "count_extension octets p =
     (let p = p\<lparr>extension_count := extension_count p + 1,
            consecutive_extension_count := consecutive_extension_count p + 1\<rparr> in
      raise_if (extension_count p > TAR_EXTENSION_COUNT_MAX)
        (new_exn CandidateError ''candidate archive tar extension count exceeds its bound'')
     (raise_if (consecutive_extension_count p > TAR_CONSECUTIVE_EXTENSION_MAX)
        (new_exn CandidateError ''candidate archive consecutive tar extensions exceed their bound'')
     (raise_if (octets > TAR_EXTENSION_MAX_BYTES)
        (new_exn CandidateError ''candidate archive tar extension exceeds its safety bound'')
        (let p = p\<lparr>extension_total := extension_total p + octets\<rparr> in
         raise_if (extension_total p > TAR_EXTENSIONS_TOTAL_MAX_BYTES)
           (new_exn CandidateError ''candidate archive tar extensions exceed their total bound'')
           (Inr p)))))"

text \<open>What the content of an extension changes.\<close>

definition long_name :: "string \<Rightarrow> preflight \<Rightarrow> preflight res" where
  "long_name extension p =
     (let name = rev (dropWhile (\<lambda>c. c = nul) (rev extension)) in
      raise_if (\<not> valid_utf8 name) (new_exn CandidateError ''candidate archive long name is not UTF-8'')
     (raise_if (name = [] \<or> int (length name) > TAR_EXTENSION_MAX_BYTES)
        (new_exn CandidateError ''candidate archive long name is invalid'')
        (Inr (p\<lparr>next_pax := (next_pax p)(''path'' \<mapsto> name)\<rparr>))))"

definition pax_extension :: "bool \<Rightarrow> string \<Rightarrow> preflight \<Rightarrow> preflight res" where
  "pax_extension global extension p =
     res_bind (pax_values extension) (\<lambda>(values, record_count).
     let p = p\<lparr>pax_record_count := pax_record_count p + record_count\<rparr> in
     raise_if (pax_record_count p > TAR_PAX_RECORD_MAX)
       (new_exn CandidateError ''candidate archive PAX record count exceeds its bound'')
       (if global then
          (let p = p\<lparr>global_pax_record_count := global_pax_record_count p + record_count\<rparr> in
           raise_if (global_pax_record_count p > TAR_PAX_GLOBAL_RECORD_MAX)
             (new_exn CandidateError ''candidate archive global PAX record count exceeds its bound'')
             (Inr (p\<lparr>global_pax := global_pax p ++ map_of values\<rparr>)))
        else Inr (p\<lparr>next_pax := next_pax p ++ map_of values\<rparr>)))"

definition apply_extension :: "string \<Rightarrow> string \<Rightarrow> preflight \<Rightarrow> preflight res" where
  "apply_extension kind extension p =
     (if kind = ''K'' then candidate_error ''candidate archive contains a long link''
      else if kind = ''L'' then long_name extension p
      else pax_extension (kind = ''g'') extension p)"

definition read_extension :: "string \<Rightarrow> int \<Rightarrow> preflight \<Rightarrow> (reader, preflight) eff" where
  "read_extension kind octets p =
     bind (lift (count_extension octets p)) (\<lambda>p.
     bind (read_exact octets ''tar extension'') (\<lambda>extension.
     seq (skip_exact ((- octets) mod 512) ''tar extension padding'')
       (lift (apply_extension kind extension p))))"

text \<open>A member: a PAX size replaces the size of the header.\<close>

definition pax_size_re :: re where
  "pax_size_re = Alt (lit ''0'') (Cat (Cls (in_range CHR ''1'' CHR ''9'')) (Star (Cls is_digit)))"

definition member_size :: "preflight \<Rightarrow> int \<Rightarrow> int res" where
  "member_size p octets =
     (case (case next_pax p ''size'' of None \<Rightarrow> global_pax p ''size'' | Some text \<Rightarrow> Some text) of
        None \<Rightarrow> Inr octets
      | Some pax_size \<Rightarrow>
          if length pax_size > length (str_int ARCHIVE_MAX_BYTES) \<or> \<not> fullmatch pax_size_re pax_size then
            candidate_error ''candidate archive PAX size is invalid''
          else Inr (int (int_of_digits pax_size)))"

definition read_member :: "int \<Rightarrow> preflight \<Rightarrow> (reader, preflight) eff" where
  "read_member octets p =
     (let counted = p\<lparr>consecutive_extension_count := 0, member_count := member_count p + 1\<rparr> in
      seq (check (member_count counted > ARCHIVE_MEMBER_MAX)
        (new_exn CandidateError ''candidate archive member count exceeds its bound''))
     (bind (lift (member_size counted octets)) (\<lambda>octets.
      seq (check (octets > ARCHIVE_MAX_BYTES)
        (new_exn CandidateError ''candidate archive member exceeds its safety bound''))
     (seq (skip_exact octets ''tar member'')
     (seq (skip_exact ((- octets) mod 512) ''tar member padding'')
        (ret (counted\<lparr>next_pax := Map.empty\<rparr>)))))))"

text \<open>The padding after the two zero blocks.\<close>

function read_trailing :: "int \<Rightarrow> (reader, unit) eff" where
  "read_trailing trailing_size r =
     (case read_bounded (64 * 1024) r of
        (Inl e, r') \<Rightarrow> (Inl e, r')
      | (Inr trailing, r') \<Rightarrow>
          if trailing = [] then (Inr (), r')
          else
            (let trailing_size = trailing_size + int (length trailing) in
             if trailing_size > TAR_TRAILING_MAX_BYTES then
               (candidate_error ''candidate archive trailing padding exceeds its bound'', r')
             else if list_ex (\<lambda>c. c \<noteq> nul) trailing then
               (candidate_error ''candidate archive has data after its end marker'', r')
             else read_trailing trailing_size r'))"
  by pat_completeness auto
termination
  by (relation "measure (\<lambda>(_, r). length (available r))") (auto dest!: sym [THEN read_bounded_shorter])

declare read_trailing.simps [simp del]

text \<open>One round of the loop: \<open>None\<close> where it leaves the loop.\<close>

definition preflight_header :: "string \<Rightarrow> preflight \<Rightarrow> (reader, preflight) eff" where
  "preflight_header header p =
     bind (lift (tar_header header)) (\<lambda>(octets, kind).
       if kind \<in> set extension_kinds then read_extension kind octets p
       else if kind = ''S'' then
         raise (new_exn CandidateError ''candidate archive contains unsupported sparse metadata'')
       else read_member octets p)"

definition preflight_block :: "preflight \<Rightarrow> (reader, preflight option) eff" where
  "preflight_block p =
     bind (read_bounded 512) (\<lambda>header.
       if header = [] then raise (new_exn CandidateError ''candidate archive has no complete end marker'')
       else if length header \<noteq> 512 then
         raise (new_exn CandidateError ''candidate archive has a truncated tar header'')
       else if header = replicate 512 nul then
         (if zero_blocks p + 1 = 2 then bind (read_trailing 0) (\<lambda>_. ret None)
          else ret (Some (p\<lparr>zero_blocks := zero_blocks p + 1\<rparr>)))
       else if zero_blocks p \<noteq> 0 then
         raise (new_exn CandidateError ''candidate archive has an invalid end marker'')
       else bind (preflight_header header p) (\<lambda>p. ret (Some p)))"

section \<open>What the operations read\<close>

text \<open>\<open>reads r bs r'\<close>: the bytes \<open>bs\<close> were taken from the stream, within its limit.\<close>

definition reads :: "reader \<Rightarrow> string \<Rightarrow> reader \<Rightarrow> bool" where
  "reads r bs r' =
     (available r = bs @ available r' \<and> failure r' = failure r \<and> maximum r' = maximum r \<and>
      consumed r' = consumed r + int (length bs) \<and> (bs \<noteq> [] \<longrightarrow> consumed r' \<le> maximum r))"

lemma reads_refl [simp]: "reads r [] r"
  by (simp add: reads_def)

lemma reads_append: "reads r bs r' \<Longrightarrow> reads r' cs r'' \<Longrightarrow> reads r (bs @ cs) r''"
  by (auto simp: reads_def)

lemma reads_length: "reads r bs r' \<Longrightarrow> length (available r) = length bs + length (available r')"
  by (auto simp: reads_def)

lemma read_bounded_reads:
  "read_bounded octets r = (Inr raw, r') \<Longrightarrow> reads r raw r' \<and> int (length raw) \<le> octets \<and> consumed r' \<le> maximum r"
  by (drule read_bounded_Inr) (simp add: reads_def)

lemma read_exact_reads:
  "read_exact n name r = (Inr raw, r') \<Longrightarrow> reads r raw r' \<and> int (length raw) = n"
proof (induction n name r arbitrary: raw r' rule: read_exact.induct)
  case (1 n name r)
  show ?case
  proof (cases "n = 0")
    case True
    with "1.prems" show ?thesis by (simp add: read_exact.simps [of 0])
  next
    case False
    with "1.prems" obtain chunk r1 rest where
      c: "read_bounded (min n (64 * 1024)) r = (Inr chunk, r1)" "chunk \<noteq> []"
        "read_exact (n - int (length chunk)) name r1 = (Inr rest, r')" "raw = chunk @ rest"
      by (subst (asm) read_exact.simps)
         (auto simp: truncated_def split: prod.splits sum.splits if_splits)
    from "1.IH" [OF False c(1) [symmetric] refl c(2) c(3)] read_bounded_reads [OF c(1)] c(4) show ?thesis
      by (auto intro: reads_append)
  qed
qed

lemma skip_exact_reads:
  "skip_exact n name r = (Inr u, r') \<Longrightarrow> \<exists>raw. reads r raw r' \<and> int (length raw) = n"
proof (induction n name r arbitrary: r' rule: skip_exact.induct)
  case (1 n name r)
  show ?case
  proof (cases "n = 0")
    case True
    with "1.prems" show ?thesis by (auto simp: skip_exact.simps [of 0])
  next
    case False
    with "1.prems" obtain chunk r1 where
      c: "read_bounded (min n (64 * 1024)) r = (Inr chunk, r1)" "chunk \<noteq> []"
        "skip_exact (n - int (length chunk)) name r1 = (Inr u, r')"
      by (subst (asm) skip_exact.simps)
         (auto simp: truncated_def split: prod.splits sum.splits if_splits)
    from "1.IH" [OF False c(1) [symmetric] refl c(2) c(3)] obtain rest where
      "reads r1 rest r'" "int (length rest) = n - int (length chunk)" by blast
    with read_bounded_reads [OF c(1)] have "reads r (chunk @ rest) r' \<and> int (length (chunk @ rest)) = n"
      by (auto intro: reads_append)
    then show ?thesis by blast
  qed
qed

text \<open>The padding: only zero bytes, up to the end of the stream.\<close>

lemma source_read_end: "source_read n r = (Inr [], r') \<Longrightarrow> 0 < n \<Longrightarrow> available r = [] \<and> failure r = None"
  by (auto simp: source_read_def split: if_splits option.splits)

lemma read_bounded_end:
  assumes "read_bounded octets r = (Inr [], r')" and "0 < octets" and "consumed r \<le> maximum r"
  shows "available r = [] \<and> failure r = None \<and> available r' = []"
proof -
  from assms(1) obtain r1 where "source_read (nat (min octets (maximum r - consumed r + 1))) r = (Inr [], r1)"
    by (auto simp: read_bounded_def Let_def split: if_splits prod.splits sum.splits)
  then have "available r = [] \<and> failure r = None" by (rule source_read_end) (use assms in auto)
  with read_bounded_Inr [OF assms(1)] show ?thesis by simp
qed

lemma read_trailing_reads:
  "read_trailing t r = (Inr u, r') \<Longrightarrow> consumed r \<le> maximum r \<Longrightarrow> t \<le> TAR_TRAILING_MAX_BYTES \<Longrightarrow>
     \<exists>raw. reads r raw r' \<and> list_all (\<lambda>c. c = nul) raw \<and> t + int (length raw) \<le> TAR_TRAILING_MAX_BYTES \<and>
       available r' = [] \<and> failure r = None"
proof (induction t r arbitrary: r' rule: read_trailing.induct)
  case (1 t r)
  from "1.prems"(1) obtain chunk r1 where c: "read_bounded (64 * 1024) r = (Inr chunk, r1)"
    by (subst (asm) read_trailing.simps) (auto split: prod.splits sum.splits)
  note b = read_bounded_reads [OF c]
  show ?case
  proof (cases "chunk = []")
    case True
    with "1.prems"(1) c have "r' = r1" by (subst (asm) read_trailing.simps) simp
    with read_bounded_end [OF c [unfolded True]] "1.prems" b True show ?thesis by (intro exI [of _ "[]"]) auto
  next
    case False
    with "1.prems"(1) c have k: "\<not> t + int (length chunk) > TAR_TRAILING_MAX_BYTES"
        "\<not> list_ex (\<lambda>c. c \<noteq> nul) chunk" "read_trailing (t + int (length chunk)) r1 = (Inr u, r')"
      by (subst (asm) (1) read_trailing.simps, simp add: Let_def split: if_splits)+
    have "consumed r1 \<le> maximum r1" using read_bounded_Inr [OF c] by simp
    from "1.IH" [OF c [symmetric] refl False refl k(1,2) k(3) this] k(1) obtain raw where
      "reads r1 raw r'" "list_all (\<lambda>c. c = nul) raw"
      "t + int (length chunk) + int (length raw) \<le> TAR_TRAILING_MAX_BYTES" "available r' = []" "failure r1 = None"
      by auto
    with b k(2) read_bounded_Inr [OF c] show ?thesis
      by (intro exI [of _ "chunk @ raw"]) (auto simp: list_all_iff list_ex_iff intro: reads_append)
  qed
qed

lemma bind_Inr_iff: "bind m f s = (Inr y, s') \<longleftrightarrow> (\<exists>x t. m s = (Inr x, t) \<and> f x t = (Inr y, s'))"
  by (auto simp: bind_def split: prod.splits sum.splits)

lemma seq_Inr_iff: "seq m k s = (Inr y, s') \<longleftrightarrow> (\<exists>t. m s = (Inr (), t) \<and> k t = (Inr y, s'))"
  by (simp add: seq_def bind_Inr_iff)

lemma check_Inr_iff: "check b e s = (Inr u, s') \<longleftrightarrow> \<not> b \<and> s' = s"
  by (auto simp: check_def ret_def raise_def)

lemma lift_Inr_iff: "lift x s = (Inr y, s') \<longleftrightarrow> x = Inr y \<and> s' = s"
  by (auto simp: lift_def)

lemma ret_Inr_iff: "ret x s = (Inr y, s') \<longleftrightarrow> y = x \<and> s' = s"
  by (auto simp: ret_def)

lemma raise_not_Inr: "raise e s = (Inr y, s') \<longleftrightarrow> False"
  by (auto simp: raise_def)

lemmas effect_Inr_iff = bind_Inr_iff seq_Inr_iff check_Inr_iff lift_Inr_iff ret_Inr_iff raise_not_Inr

text \<open>The bytes of an extension or a member: a whole number of blocks.\<close>

definition padded :: "int \<Rightarrow> int" where
  "padded octets = octets + (- octets) mod 512"

lemma padded_blocks: "512 dvd padded octets"
  by (simp add: padded_def dvd_eq_mod_eq_0 mod_add_right_eq)

lemma read_extension_reads:
  assumes "read_extension kind octets p r = (Inr p', r')"
  shows "\<exists>extension padding q. reads r (extension @ padding) r' \<and> int (length extension) = octets \<and>
    int (length (extension @ padding)) = padded octets \<and> count_extension octets p = Inr q \<and>
    apply_extension kind extension q = Inr p'"
proof -
  from assms obtain q r1 r2 extension where c: "count_extension octets p = Inr q"
    and e: "read_exact octets ''tar extension'' r = (Inr extension, r1)"
    and s: "skip_exact ((- octets) mod 512) ''tar extension padding'' r1 = (Inr (), r2)"
    and a: "apply_extension kind extension q = Inr p'" "r' = r2"
    by (auto simp: read_extension_def effect_Inr_iff)
  from skip_exact_reads [OF s] obtain padding where
    "reads r1 padding r2" "int (length padding) = (- octets) mod 512" by blast
  with read_exact_reads [OF e] c a show ?thesis
    by (intro exI [of _ extension] exI [of _ padding] exI [of _ q]) (auto simp: padded_def intro: reads_append)
qed

lemma member_size_counters [simp]:
  "member_size (p\<lparr>consecutive_extension_count := m, member_count := n\<rparr>) octets = member_size p octets"
  by (simp add: member_size_def cong: option.case_cong)

lemma read_member_reads:
  assumes "read_member octets p r = (Inr p', r')"
  shows "\<exists>content n. reads r content r' \<and> member_size p octets = Inr n \<and> n \<le> ARCHIVE_MAX_BYTES \<and>
    int (length content) = padded n \<and> member_count p' = member_count p + 1 \<and> member_count p' \<le> ARCHIVE_MEMBER_MAX \<and>
    extension_count p' = extension_count p \<and> extension_total p' = extension_total p \<and> zero_blocks p' = zero_blocks p"
proof -
  from assms obtain n r1 r2 where n: "member_size (p\<lparr>consecutive_extension_count := 0, member_count := member_count p + 1\<rparr>) octets = Inr n"
    and c: "member_count p + 1 \<le> ARCHIVE_MEMBER_MAX" "n \<le> ARCHIVE_MAX_BYTES"
    and s: "skip_exact n ''tar member'' r = (Inr (), r1)"
      "skip_exact ((- n) mod 512) ''tar member padding'' r1 = (Inr (), r2)" "r' = r2"
    and p': "p' = p\<lparr>consecutive_extension_count := 0, member_count := member_count p + 1, next_pax := Map.empty\<rparr>"
    by (auto simp: read_member_def Let_def effect_Inr_iff)
  from skip_exact_reads [OF s(1)] skip_exact_reads [OF s(2)] obtain content padding where
    "reads r content r1" "int (length content) = n" "reads r1 padding r2" "int (length padding) = (- n) mod 512"
    by blast
  with n c s(3) p' show ?thesis
    by (intro exI [of _ "content @ padding"] exI [of _ n])
       (auto simp: padded_def intro: reads_append)
qed

lemma count_extension_Inr:
  "count_extension octets p = Inr q \<Longrightarrow>
     q = p\<lparr>extension_count := extension_count p + 1, consecutive_extension_count := consecutive_extension_count p + 1,
       extension_total := extension_total p + octets\<rparr> \<and>
     extension_count q \<le> TAR_EXTENSION_COUNT_MAX \<and> consecutive_extension_count q \<le> TAR_CONSECUTIVE_EXTENSION_MAX \<and>
     octets \<le> TAR_EXTENSION_MAX_BYTES \<and> extension_total q \<le> TAR_EXTENSIONS_TOTAL_MAX_BYTES"
  by (auto simp: count_extension_def Let_def)

lemma apply_extension_Inr:
  "apply_extension kind extension p = Inr q \<Longrightarrow>
     member_count q = member_count p \<and> extension_count q = extension_count p \<and>
     extension_total q = extension_total p \<and> zero_blocks q = zero_blocks p \<and> kind \<noteq> ''K''"
  by (auto simp: apply_extension_def long_name_def pax_extension_def Let_def res_bind_Inr_iff split: if_splits)

lemma preflight_header_reads:
  assumes "preflight_header header p r = (Inr p', r')"
  shows "\<exists>content octets kind. reads r content r' \<and> 512 dvd length content \<and> tar_header header = Inr (octets, kind) \<and>
    kind \<noteq> ''K'' \<and> kind \<noteq> ''S'' \<and> zero_blocks p' = zero_blocks p \<and>
    (if kind \<in> set extension_kinds then
       octets \<le> TAR_EXTENSION_MAX_BYTES \<and> int (length content) = padded octets \<and>
       extension_count p' = extension_count p + 1 \<and> extension_count p' \<le> TAR_EXTENSION_COUNT_MAX \<and>
       extension_total p' = extension_total p + octets \<and> extension_total p' \<le> TAR_EXTENSIONS_TOTAL_MAX_BYTES \<and>
       member_count p' = member_count p
     else
       member_count p' = member_count p + 1 \<and> member_count p' \<le> ARCHIVE_MEMBER_MAX \<and>
       extension_count p' = extension_count p \<and> extension_total p' = extension_total p)"
proof -
  from assms obtain octets kind where h: "tar_header header = Inr (octets, kind)" and s: "kind \<noteq> ''S''"
    and body: "(if kind \<in> set extension_kinds then read_extension kind octets p else read_member octets p) r = (Inr p', r')"
    by (auto simp: preflight_header_def effect_Inr_iff extension_kinds_def split: if_splits)
  have blocks: "512 dvd length content" if "int (length content) = padded n" for content :: string and n
    using padded_blocks [of n] that by (metis int_dvd_int_iff of_nat_numeral)
  show ?thesis
  proof (cases "kind \<in> set extension_kinds")
    case True
    with read_extension_reads [of kind octets p r p' r'] body obtain content q where
      "reads r content r'" "int (length content) = padded octets" and q: "count_extension octets p = Inr q"
      and a: "\<exists>extension. apply_extension kind extension q = Inr p'"
      by fastforce
    with h s True count_extension_Inr [OF q] blocks show ?thesis
      by (intro exI [of _ content] exI [of _ octets] exI [of _ kind]) (auto dest!: apply_extension_Inr)
  next
    case False
    with read_member_reads [of octets p r p' r'] body obtain content n where
      "reads r content r'" "int (length content) = padded n" "member_count p' = member_count p + 1"
      "member_count p' \<le> ARCHIVE_MEMBER_MAX" "extension_count p' = extension_count p"
      "extension_total p' = extension_total p" "zero_blocks p' = zero_blocks p"
      by fastforce
    moreover from False have "kind \<noteq> ''K''" by (auto simp: extension_kinds_def)
    ultimately show ?thesis
      using h s False blocks
      by (intro exI [of _ content] exI [of _ octets] exI [of _ kind]) simp
  qed
qed

text \<open>The rounds of the loop.\<close>

lemma preflight_block_next:
  assumes "preflight_block p r = (Inr (Some p'), r')"
  shows "\<exists>header r1. length header = 512 \<and> reads r header r1 \<and> consumed r1 \<le> maximum r \<and>
    (if header = replicate 512 nul then r' = r1 \<and> p' = p\<lparr>zero_blocks := zero_blocks p + 1\<rparr> \<and> zero_blocks p \<noteq> 1
     else zero_blocks p = 0 \<and> preflight_header header p r1 = (Inr p', r'))"
proof -
  from assms obtain header r1 where h: "read_bounded 512 r = (Inr header, r1)" and "length header = 512"
    and "if header = replicate 512 nul then r' = r1 \<and> p' = p\<lparr>zero_blocks := zero_blocks p + 1\<rparr> \<and> zero_blocks p \<noteq> 1
      else zero_blocks p = 0 \<and> preflight_header header p r1 = (Inr p', r')"
    by (fastforce simp: preflight_block_def effect_Inr_iff split: if_splits)
  with read_bounded_reads [OF h] show ?thesis by blast
qed

lemma preflight_block_end:
  assumes "preflight_block p r = (Inr None, r')" and "zero_blocks p \<le> 1" and "consumed r \<le> maximum r"
  shows "zero_blocks p = 1 \<and> (\<exists>trailing. reads r (replicate 512 nul @ trailing) r' \<and> list_all (\<lambda>c. c = nul) trailing \<and>
    int (length trailing) \<le> TAR_TRAILING_MAX_BYTES \<and> available r' = [] \<and> failure r = None)"
proof -
  from assms obtain header r1 where h: "read_bounded 512 r = (Inr header, r1)" and z: "header = replicate 512 nul"
    "zero_blocks p = 1" and t: "read_trailing 0 r1 = (Inr (), r')"
    by (auto simp: preflight_block_def effect_Inr_iff split: if_splits)
  have "0 \<le> TAR_TRAILING_MAX_BYTES" by (simp add: TAR_TRAILING_MAX_BYTES_def)
  with read_trailing_reads [OF t] read_bounded_Inr [OF h] obtain trailing where
    "reads r1 trailing r'" "list_all (\<lambda>c. c = nul) trailing" "int (length trailing) \<le> TAR_TRAILING_MAX_BYTES"
    "available r' = []" "failure r1 = None" by auto
  with read_bounded_reads [OF h] read_bounded_Inr [OF h] z show ?thesis
    by (auto intro: reads_append)
qed

lemma preflight_block_shorter:
  assumes "preflight_block p r = (Inr (Some p'), r')"
  shows "length (available r') < length (available r)"
proof -
  from preflight_block_next [OF assms] obtain header r1 where h: "length header = 512" "reads r header r1"
    and "if header = replicate 512 nul then r' = r1 \<and> p' = p\<lparr>zero_blocks := zero_blocks p + 1\<rparr> \<and> zero_blocks p \<noteq> 1
      else zero_blocks p = 0 \<and> preflight_header header p r1 = (Inr p', r')"
    by blast
  then have rest: "if header = replicate 512 nul then r' = r1 else preflight_header header p r1 = (Inr p', r')"
    by (auto split: if_splits)
  have "length (available r') \<le> length (available r1)"
    using rest preflight_header_reads [of header p r1 p' r'] by (auto split: if_splits dest: reads_length)
  with h show ?thesis by (auto dest: reads_length)
qed

function preflight_loop :: "preflight \<Rightarrow> (reader, unit) eff" where
  "preflight_loop p r =
     (case preflight_block p r of
        (Inl e, r') \<Rightarrow> (Inl e, r')
      | (Inr None, r') \<Rightarrow> (Inr (), r')
      | (Inr (Some p'), r') \<Rightarrow> preflight_loop p' r')"
  by pat_completeness auto
termination
  by (relation "measure (\<lambda>(_, r). length (available r))") (auto dest!: sym [THEN preflight_block_shorter])

declare preflight_loop.simps [simp del]

section \<open>The layout of an accepted archive\<close>

definition is_extension :: "string \<times> string \<Rightarrow> bool" where
  "is_extension entry =
     (case tar_header (fst entry) of Inr (octets, kind) \<Rightarrow> kind \<in> set extension_kinds | _ \<Rightarrow> False)"

definition declared_size :: "string \<times> string \<Rightarrow> int" where
  "declared_size entry = (case tar_header (fst entry) of Inr (octets, kind) \<Rightarrow> octets | _ \<Rightarrow> 0)"

text \<open>
  An entry is a header block with a right checksum and whole blocks of content; the content of an extension
  is at most 64 KiB and has the size its header declares; long links and sparse members do not occur.
\<close>

definition entry_ok :: "string \<times> string \<Rightarrow> bool" where
  "entry_ok entry =
     (length (fst entry) = 512 \<and> 512 dvd length (snd entry) \<and>
      (case tar_header (fst entry) of
         Inl e \<Rightarrow> False
       | Inr (octets, kind) \<Rightarrow>
           kind \<noteq> ''K'' \<and> kind \<noteq> ''S'' \<and>
           (if kind \<in> set extension_kinds then
              octets \<le> TAR_EXTENSION_MAX_BYTES \<and> int (length (snd entry)) = padded octets
            else True)))"

definition layout :: "(string \<times> string) list \<Rightarrow> string" where
  "layout entries = concat (map (\<lambda>(header, content). header @ content) entries)"

definition extensions_size :: "(string \<times> string) list \<Rightarrow> int" where
  "extensions_size entries = sum_list (map declared_size (filter is_extension entries))"

definition counted :: "preflight \<Rightarrow> (string \<times> string) list \<Rightarrow> bool" where
  "counted p entries =
     (member_count p + int (length (filter (\<lambda>e. \<not> is_extension e) entries)) \<le> ARCHIVE_MEMBER_MAX \<and>
      extension_count p + int (length (filter is_extension entries)) \<le> TAR_EXTENSION_COUNT_MAX \<and>
      extension_total p + extensions_size entries \<le> TAR_EXTENSIONS_TOTAL_MAX_BYTES)"

text \<open>What the rest of the stream is, when the loop accepts it in the state \<open>p\<close>.\<close>

definition accepts_rest :: "preflight \<Rightarrow> reader \<Rightarrow> reader \<Rightarrow> bool" where
  "accepts_rest p r r' =
     (\<exists>entries trailing.
        reads r (layout entries @ replicate (if zero_blocks p = 1 then 512 else 1024) nul @ trailing) r' \<and>
        (zero_blocks p = 1 \<longrightarrow> entries = []) \<and> list_all entry_ok entries \<and> counted p entries \<and>
        list_all (\<lambda>c. c = nul) trailing \<and> int (length trailing) \<le> TAR_TRAILING_MAX_BYTES \<and>
        available r' = [] \<and> failure r = None)"

lemma accepts_rest_entry:
  assumes h: "length header = 512" "reads r header r1" and z: "zero_blocks p = 0"
    and p: "preflight_header header p r1 = (Inr p', r2)" and rest: "accepts_rest p' r2 r'"
  shows "accepts_rest p r r'"
proof -
  from preflight_header_reads [OF p] obtain content octets kind where
    c: "reads r1 content r2" "512 dvd length content" "tar_header header = Inr (octets, kind)"
      "kind \<noteq> ''K''" "kind \<noteq> ''S''" "zero_blocks p' = zero_blocks p"
    and k: "if kind \<in> set extension_kinds then
       octets \<le> TAR_EXTENSION_MAX_BYTES \<and> int (length content) = padded octets \<and>
       extension_count p' = extension_count p + 1 \<and> extension_count p' \<le> TAR_EXTENSION_COUNT_MAX \<and>
       extension_total p' = extension_total p + octets \<and> extension_total p' \<le> TAR_EXTENSIONS_TOTAL_MAX_BYTES \<and>
       member_count p' = member_count p
     else member_count p' = member_count p + 1 \<and> member_count p' \<le> ARCHIVE_MEMBER_MAX \<and>
       extension_count p' = extension_count p \<and> extension_total p' = extension_total p"
    by blast
  from rest z c(6) obtain entries trailing where
    e: "reads r2 (layout entries @ replicate 1024 nul @ trailing) r'" "list_all entry_ok entries" "counted p' entries"
      "list_all (\<lambda>c. c = nul) trailing" "int (length trailing) \<le> TAR_TRAILING_MAX_BYTES" "available r' = []"
      "failure r2 = None"
    by (auto simp: accepts_rest_def)
  have "entry_ok (header, content)" using h c k by (simp add: entry_ok_def)
  moreover have "counted p ((header, content) # entries)"
    using e(3) k c(3)
    by (cases "kind \<in> set extension_kinds")
       (simp_all add: counted_def is_extension_def declared_size_def extensions_size_def)
  moreover have "reads r (layout ((header, content) # entries) @ replicate 1024 nul @ trailing) r'"
    using reads_append [OF h(2) reads_append [OF c(1) e(1)]] by (simp add: layout_def)
  moreover have "failure r = None" using h(2) c(1) e(7) by (simp add: reads_def)
  ultimately show ?thesis
    unfolding accepts_rest_def using e z by (intro exI [of _ "(header, content) # entries"] exI [of _ trailing]) simp
qed

lemma preflight_loop_accepts:
  "preflight_loop p r = (Inr u, r') \<Longrightarrow> zero_blocks p \<le> 1 \<Longrightarrow> consumed r \<le> maximum r \<Longrightarrow> counted p [] \<Longrightarrow>
     accepts_rest p r r'"
proof (induction p r arbitrary: r' rule: preflight_loop.induct)
  case (1 p r)
  note step = "1.prems"(1) [unfolded preflight_loop.simps [of p r]]
  show ?case
  proof (cases "preflight_block p r")
    case (Pair x r1)
    show ?thesis
    proof (cases x)
      case (Inl e)
      with Pair step show ?thesis by simp
    next
      case (Inr more)
      show ?thesis
      proof (cases more)
        case None
        with Pair Inr step have "preflight_block p r = (Inr None, r')" by simp
        from preflight_block_end [OF this "1.prems"(2,3)] obtain trailing where
          "zero_blocks p = 1" "reads r (replicate 512 nul @ trailing) r'" "list_all (\<lambda>c. c = nul) trailing"
          "int (length trailing) \<le> TAR_TRAILING_MAX_BYTES" "available r' = []" "failure r = None" by blast
        with "1.prems"(4) show ?thesis
          unfolding accepts_rest_def by (intro exI [of _ "[]"] exI [of _ trailing]) (simp add: layout_def)
      next
        case (Some p')
        with Pair Inr have b: "preflight_block p r = (Inr (Some p'), r1)" by simp
        with step have l: "preflight_loop p' r1 = (Inr u, r')" by simp
        from preflight_block_next [OF b] obtain header r2 where h: "length header = 512" "reads r header r2"
            "consumed r2 \<le> maximum r"
          and body: "if header = replicate 512 nul then r1 = r2 \<and> p' = p\<lparr>zero_blocks := zero_blocks p + 1\<rparr> \<and> zero_blocks p \<noteq> 1
            else zero_blocks p = 0 \<and> preflight_header header p r2 = (Inr p', r1)"
          by blast
        note IH = "1.IH" [OF Pair [symmetric] Inr Some l]
        show ?thesis
        proof (cases "header = replicate 512 nul")
          case True
          with body "1.prems"(2) have z: "r1 = r2" "p' = p\<lparr>zero_blocks := 1\<rparr>" "zero_blocks p = 0" by auto
          have "accepts_rest p' r1 r'"
            by (rule IH) (use z h "1.prems"(4) in \<open>simp_all add: counted_def reads_def\<close>)
          then obtain trailing where t: "reads r2 (replicate 512 nul @ trailing) r'" "list_all (\<lambda>c. c = nul) trailing"
              "int (length trailing) \<le> TAR_TRAILING_MAX_BYTES" "available r' = []" "failure r2 = None"
            by (auto simp: accepts_rest_def z layout_def)
          have "replicate 512 nul @ replicate 512 nul @ trailing = replicate 1024 nul @ trailing"
            by (simp flip: append_assoc replicate_add)
          with reads_append [OF h(2) t(1)] True
          have "reads r (layout [] @ replicate 1024 nul @ trailing) r'" by (simp add: layout_def)
          with t z h(2) "1.prems"(4) show ?thesis
            unfolding accepts_rest_def by (intro exI [of _ "[]"] exI [of _ trailing]) (simp add: reads_def)
        next
          case False
          with body have p: "zero_blocks p = 0" "preflight_header header p r2 = (Inr p', r1)" by auto
          from preflight_header_reads [OF p(2)] have "zero_blocks p' \<le> 1" "counted p' []" "consumed r1 \<le> maximum r1"
            using p(1) h "1.prems"(4) by (auto simp: counted_def extensions_size_def reads_def split: if_splits)
          from accepts_rest_entry [OF h(1,2) p IH [OF this(1) this(3) this(2)]] show ?thesis .
        qed
      qed
    qed
  qed
qed

section \<open>One gzip stream\<close>

definition GZIP_HEADER_TEXT_MAX_BYTES :: int where "GZIP_HEADER_TEXT_MAX_BYTES = 64 * 1024"

text \<open>
  The decompressor object of \<^verbatim>\<open>zlib\<close>: what \<^verbatim>\<open>decompress(pending, limit)\<close> returns with the input it left
  (\<^verbatim>\<open>unconsumed_tail\<close>), whether the stream ended, and the input after its end (\<^verbatim>\<open>unused_data\<close>).  \<open>None\<close> is
  \<^verbatim>\<open>zlib.error\<close>.
\<close>

record 'z zlib =
  new_decompressor :: 'z
  decompress :: "'z \<Rightarrow> string \<Rightarrow> int \<Rightarrow> (string \<times> string \<times> 'z) option"
  at_eof :: "'z \<Rightarrow> bool"
  unused_data :: "'z \<Rightarrow> string"

text \<open>\<^verbatim>\<open>_gzip_exact\<close>: a read of the file returns all it was asked for, or what is left.\<close>

definition gzip_truncated :: "string \<Rightarrow> 'a res" where
  "gzip_truncated name = candidate_error (name @ '' gzip stream is truncated'')"

function gzip_exact :: "nat \<Rightarrow> string \<Rightarrow> (reader, string) eff" where
  "gzip_exact octets name r =
     (if octets = 0 then (Inr [], r)
      else
        (case source_read octets r of
           (Inl e, r') \<Rightarrow> (Inl e, r')
         | (Inr chunk, r') \<Rightarrow>
             if chunk = [] then (gzip_truncated name, r')
             else
               (case gzip_exact (octets - length chunk) name r' of
                  (Inl e, r'') \<Rightarrow> (Inl e, r'')
                | (Inr raw, r'') \<Rightarrow> (Inr (chunk @ raw), r''))))"
  by pat_completeness auto
termination
  by (relation "measure (\<lambda>(_, _, r). length (available r))") (auto dest!: sym [THEN source_read_Inr])

declare gzip_exact.simps [simp del]

lemma gzip_exact_shorter:
  "gzip_exact n name r = (Inr raw, r') \<Longrightarrow> length (available r) = length raw + length (available r') \<and> length raw = n"
proof (induction n name r arbitrary: raw r' rule: gzip_exact.induct)
  case (1 n name r)
  show ?case
  proof (cases "n = 0")
    case True
    with "1.prems" show ?thesis by (simp add: gzip_exact.simps [of 0])
  next
    case False
    with "1.prems" obtain chunk r1 rest where
      c: "source_read n r = (Inr chunk, r1)" "chunk \<noteq> []"
        "gzip_exact (n - length chunk) name r1 = (Inr rest, r')" "raw = chunk @ rest"
      by (subst (asm) gzip_exact.simps)
         (auto simp: gzip_truncated_def split: prod.splits sum.splits if_splits)
    from "1.IH" [OF False c(1) [symmetric] refl c(2) c(3)] source_read_Inr [OF c(1)] c(4) show ?thesis by auto
  qed
qed

text \<open>A text of the header, up to its zero byte; the limit counts the bytes of both texts.\<close>

function header_text :: "string \<Rightarrow> int \<Rightarrow> (reader, int) eff" where
  "header_text name header_text_size r =
     (if header_text_size + 1 > GZIP_HEADER_TEXT_MAX_BYTES then
        (candidate_error (name @ '' gzip header text exceeds its safety bound''), r)
      else
        (case gzip_exact 1 name r of
           (Inl e, r') \<Rightarrow> (Inl e, r')
         | (Inr byte, r') \<Rightarrow>
             if byte = [nul] then (Inr (header_text_size + 1), r')
             else header_text name (header_text_size + 1) r'))"
  by pat_completeness auto
termination
  by (relation "measure (\<lambda>(_, _, r). length (available r))") (auto dest!: sym [THEN gzip_exact_shorter])

declare header_text.simps [simp del]

definition flag_set :: "nat \<Rightarrow> nat \<Rightarrow> bool" where
  "flag_set flags flag = (flags div flag mod 2 = 1)"

definition gzip_header :: "string \<Rightarrow> (reader, unit) eff" where
  "gzip_header name =
     bind (gzip_exact 10 name) (\<lambda>header.
     seq (check (take 3 header \<noteq> [CHR 0x1F, CHR 0x8B, CHR 0x08] \<or> 32 \<le> code (header ! 3))
       (new_exn CandidateError (name @ '' is not valid gzip'')))
    (let flags = code (header ! 3) in
     seq (if flag_set flags 4 then
            bind (gzip_exact 2 name) (\<lambda>extra.
            bind (gzip_exact (code (extra ! 0) + 256 * code (extra ! 1)) name) (\<lambda>_. ret ()))
          else ret ())
    (bind (if flag_set flags 8 then header_text name 0 else ret 0) (\<lambda>header_text_size.
     bind (if flag_set flags 16 then header_text name header_text_size else ret 0) (\<lambda>_.
       if flag_set flags 2 then bind (gzip_exact 2 name) (\<lambda>_. ret ()) else ret ())))))"

text \<open>
  The loop over the compressed data, up to its end: it may run for ever when the decompressor neither
  takes input nor gives output.
\<close>

partial_function (option) inflate_loop ::
  "'z zlib \<Rightarrow> string \<Rightarrow> int \<Rightarrow> string \<Rightarrow> 'z \<Rightarrow> int \<Rightarrow> reader \<Rightarrow> ('z res \<times> reader) option" where
  "inflate_loop lib name limit pending z expanded r =
     (if at_eof lib z then Some (Inr z, r)
      else
        (case (if pending \<noteq> [] then (Inr pending, r) else source_read (64 * 1024) r) of
           (Inl e, r') \<Rightarrow> Some (Inl e, r')
         | (Inr pending, r') \<Rightarrow>
             if pending = [] then Some (gzip_truncated name, r')
             else
               (case decompress lib z pending (min (64 * 1024) (limit - expanded + 1)) of
                  None \<Rightarrow> Some (candidate_error (name @ '' is not valid gzip''), r')
                | Some (raw, unconsumed_tail, z') \<Rightarrow>
                    if expanded + int (length raw) > limit then
                      Some (candidate_error (name @ '' exceeds its uncompressed safety bound''), r')
                    else inflate_loop lib name limit unconsumed_tail z' (expanded + int (length raw)) r')))"

definition concatenated :: "string \<Rightarrow> 'a res" where
  "concatenated name = candidate_error (name @ '' concatenated gzip members are unsupported'')"

definition gzip_trailer :: "string \<Rightarrow> string \<Rightarrow> (reader, unit) eff" where
  "gzip_trailer name unused =
     bind (if length unused < 8 then bind (gzip_exact (8 - length unused) name) (\<lambda>rest. ret (unused @ rest))
           else ret unused) (\<lambda>trailer.
     if length trailer > 8 then lift (concatenated name)
     else bind (source_read 1) (\<lambda>more. if more \<noteq> [] then lift (concatenated name) else ret ()))"

definition validate_single_gzip ::
  "'z zlib \<Rightarrow> string \<Rightarrow> int \<Rightarrow> reader \<Rightarrow> (unit res \<times> reader) option" where
  "validate_single_gzip lib name limit r =
     (case gzip_header name r of
        (Inl e, r') \<Rightarrow> Some (Inl e, r')
      | (Inr _, r') \<Rightarrow>
          (case inflate_loop lib name limit [] (new_decompressor lib) 0 r' of
             None \<Rightarrow> None
           | Some (Inl e, r'') \<Rightarrow> Some (Inl e, r'')
           | Some (Inr z, r'') \<Rightarrow> Some (gzip_trailer name (unused_data lib z) r'')))"

text \<open>
  The loop ends when the decompressor makes progress, as \<^verbatim>\<open>zlib\<close> does: given input and room for output, it
  takes some of the input or gives some output.
\<close>

definition makes_progress :: "'z zlib \<Rightarrow> bool" where
  "makes_progress lib =
     (\<forall>z pending limit raw tail z'. decompress lib z pending limit = Some (raw, tail, z') \<longrightarrow> pending \<noteq> [] \<longrightarrow>
        0 < limit \<longrightarrow> length tail \<le> length pending \<and> (raw \<noteq> [] \<or> length tail < length pending))"

lemma inflate_loop_ends:
  assumes "makes_progress lib"
  shows "expanded \<le> limit \<Longrightarrow> \<exists>x. inflate_loop lib name limit pending z expanded r = Some x"
proof (induction "nat (limit - expanded) + length pending + length (available r)"
    arbitrary: pending z expanded r rule: less_induct)
  case less
  show ?case
  proof (cases "at_eof lib z")
    case True
    then show ?thesis by (subst inflate_loop.simps) simp
  next
    case False
    let ?source = "if pending \<noteq> [] then (Inr pending, r) else source_read (64 * 1024) r"
    show ?thesis
    proof (cases "\<exists>input r'. ?source = (Inr input, r') \<and> input \<noteq> []")
      case True
      then obtain input r' where input: "?source = (Inr input, r')" "input \<noteq> []" by blast
      have total: "length input + length (available r') = length pending + length (available r)"
        using input by (auto split: if_splits dest: source_read_Inr)
      let ?room = "min (64 * 1024) (limit - expanded + 1)"
      show ?thesis
      proof (cases "decompress lib z input ?room")
        case None
        with input False show ?thesis by (subst inflate_loop.simps) simp
      next
        case (Some out)
        obtain raw rest z' where out: "out = (raw, rest, z')" by (cases out)
        show ?thesis
        proof (cases "expanded + int (length raw) > limit")
          case True
          with input False Some out show ?thesis by (subst inflate_loop.simps) simp
        next
          case fits: False
          have "length rest \<le> length input \<and> (raw \<noteq> [] \<or> length rest < length input)"
            using assms Some less.prems input(2) unfolding makes_progress_def out by (metis add_pos_nonneg
                diff_ge_0_iff_ge add.commute min_less_iff_conj zero_less_numeral zero_less_one mult_pos_pos)
          then have "nat (limit - (expanded + int (length raw))) + length rest + length (available r') <
              nat (limit - expanded) + length pending + length (available r)"
            using fits total by (cases raw) auto
          from less.hyps [OF this] fits input False Some out show ?thesis
            by (subst inflate_loop.simps) simp
        qed
      qed
    next
      case no_input: False
      with False show ?thesis
        by (subst inflate_loop.simps) (auto split: prod.splits sum.splits if_splits)
    qed
  qed
qed

section \<open>The archive file\<close>

definition file_reader :: "string \<Rightarrow> reader" where
  "file_reader content = \<lparr>available = content, failure = None, maximum = ARCHIVE_MAX_BYTES, consumed = 0\<rparr>"

definition gzip_magic :: string where "gzip_magic = [CHR 0x1F, CHR 0x8B]"
definition xz_magic :: string where "xz_magic = [CHR 0xFD, CHR ''7'', CHR ''z'', CHR ''X'', CHR ''Z'', nul]"

text \<open>
  The stream of the archive: its bytes up to the end or up to the exception of the decompressor.
  \<open>gunzip\<close> and \<open>bunzip\<close> are what \<^verbatim>\<open>gzip.GzipFile\<close> and \<^verbatim>\<open>bz2.BZ2File\<close> give for the content of the file.
\<close>

definition decoded ::
  "(string \<Rightarrow> string \<times> exn option) \<Rightarrow> (string \<Rightarrow> string \<times> exn option) \<Rightarrow> string \<Rightarrow> string \<times> exn option" where
  "decoded gunzip bunzip content =
     (if startswith content gzip_magic then gunzip content
      else if startswith content ''BZh'' then bunzip content
      else (content, None))"

definition walk_archive :: "string \<times> exn option \<Rightarrow> unit res" where
  "walk_archive stream =
     (case fst (preflight_loop new_preflight
         \<lparr>available = fst stream, failure = snd stream, maximum = ARCHIVE_MAX_BYTES, consumed = 0\<rparr>) of
        Inl error \<Rightarrow>
          if isinstance_any error [OSError, EOFError] then
            candidate_error (''invalid compressed candidate archive: '' @ exn_text error)
          else Inl error
      | Inr _ \<Rightarrow> Inr ())"

definition preflight_archive ::
  "'z zlib \<Rightarrow> (string \<Rightarrow> string \<times> exn option) \<Rightarrow> (string \<Rightarrow> string \<times> exn option) \<Rightarrow> string \<Rightarrow> unit res option" where
  "preflight_archive lib gunzip bunzip content =
     (if startswith content gzip_magic then
        (case validate_single_gzip lib ''candidate archive'' ARCHIVE_MAX_BYTES (file_reader content) of
           None \<Rightarrow> None
         | Some (Inl e, _) \<Rightarrow> Some (Inl e)
         | Some (Inr _, _) \<Rightarrow> Some (walk_archive (decoded gunzip bunzip content)))
      else if \<not> startswith content ''BZh'' \<and> startswith content xz_magic then
        Some (candidate_error ''XZ-compressed candidate archives are unsupported'')
      else Some (walk_archive (decoded gunzip bunzip content)))"

text \<open>
  C29.  Checking an archive comes to an end, whatever it holds, when the decompressor takes input or gives
  output in each call.
\<close>

theorem preflight_archive_ends:
  assumes "makes_progress lib"
  shows "preflight_archive lib gunzip bunzip content \<noteq> None"
proof -
  have ends: "\<exists>x. inflate_loop lib name ARCHIVE_MAX_BYTES [] z 0 r = Some x" for name z r
    by (rule inflate_loop_ends [OF assms]) (simp add: ARCHIVE_MAX_BYTES_def)
  have "validate_single_gzip lib name ARCHIVE_MAX_BYTES r \<noteq> None" for name r
  proof (cases "gzip_header name r")
    case (Pair x r1)
    with ends [of name "new_decompressor lib" r1] show ?thesis
      by (auto simp: validate_single_gzip_def split: sum.splits prod.splits)
  qed
  from this [of "''candidate archive''" "file_reader content"] show ?thesis
    by (auto simp: preflight_archive_def split: option.split prod.split sum.split)
qed


section \<open>PAX metadata is read exactly\<close>

definition pax_text :: "string \<Rightarrow> string \<times> string \<Rightarrow> string" where
  "pax_text digits record = digits @ '' '' @ fst record @ ''='' @ snd record @ [newline]"

definition pax_text_ok :: "string \<Rightarrow> string \<times> string \<Rightarrow> bool" where
  "pax_text_ok digits record =
     (list_all is_digit digits \<and> int_of_digits digits = length (pax_text digits record) \<and> fst record \<noteq> [] \<and>
      CHR ''='' \<notin> set (fst record) \<and> valid_utf8 (fst record) \<and> valid_utf8 (snd record))"

lemma dropWhile_found: "x \<in> set xs \<Longrightarrow> \<exists>ys. dropWhile (\<lambda>y. y \<noteq> x) xs = x # ys"
  by (induction xs) auto

lemma pax_record_exact:
  assumes "pax_record rest = Inr (n, key, value)" and "key \<noteq> []"
  shows "\<exists>digits. pax_text_ok digits (key, value) \<and> rest = pax_text digits (key, value) @ drop (nat n) rest"
proof -
  let ?d = "takeWhile (\<lambda>c. \<not> is_blank c) rest" and ?n = "nat n"
  let ?m = "?n - length ?d - 2"
  from assms(1) have d: "?d \<noteq> rest" "list_all is_digit ?d" "?n = int_of_digits ?d"
    and n: "length ?d + 2 < ?n" "?n \<le> length rest" "rest ! (?n - 1) = newline"
    and pair: "CHR ''='' \<in> set (slice (length ?d + 1) (?n - 1) rest)"
      "key = takeWhile (\<lambda>c. c \<noteq> CHR ''='') (slice (length ?d + 1) (?n - 1) rest)"
      "value = drop (length key + 1) (slice (length ?d + 1) (?n - 1) rest)"
    and utf8: "valid_utf8 key" "valid_utf8 value"
    by (auto simp: pax_record_def malformed_pax_def Let_def split: if_splits)
  have "dropWhile (\<lambda>c. \<not> is_blank c) rest \<noteq> []"
    using d(1) by (metis append_Nil2 takeWhile_dropWhile_id)
  then obtain after where "dropWhile (\<lambda>c. \<not> is_blank c) rest = CHR '' '' # after"
    by (metis hd_dropWhile is_blank_def list.exhaust_sel)
  then have rest: "rest = ?d @ CHR '' '' # after" by (metis takeWhile_dropWhile_id)
  have nth: "after ! ?m = newline" "?m < length after"
  proof -
    have "\<not> ?n - 1 < length ?d" using n(1) by simp
    then have "rest ! (?n - 1) = (CHR '' '' # after) ! (?n - 1 - length ?d)"
      using rest by (metis nth_append)
    also have "\<dots> = after ! ?m" using n(1) by (simp add: nth_Cons')
    finally show "after ! ?m = newline" using n(3) by simp
    have "length rest = length ?d + 1 + length after" by (subst rest) simp
    then show "?m < length after" using n by simp
  qed
  have "slice (length ?d + 1) (?n - 1) rest = take ?m (drop (length ?d + 1) rest)"
    by (simp add: slice_def)
  also have "drop (length ?d + 1) rest = after" by (subst rest) simp
  finally have slice: "slice (length ?d + 1) (?n - 1) rest = take ?m after" .
  obtain tail where "dropWhile (\<lambda>c. c \<noteq> CHR ''='') (take ?m after) = CHR ''='' # tail"
    using dropWhile_found pair(1) slice by metis
  with pair(2) slice have split: "take ?m after = key @ CHR ''='' # tail"
    using takeWhile_dropWhile_id [of "\<lambda>c. c \<noteq> CHR ''=''" "take ?m after"] by simp
  then have "tail = value" using pair(3) slice by simp
  with split have key: "take ?m after = key @ CHR ''='' # value" by simp
  have "take (Suc ?m) after = take ?m after @ [newline]" using nth by (simp add: take_Suc_conv_app_nth)
  with key have "after = (key @ CHR ''='' # value @ [newline]) @ drop (Suc ?m) after"
    by (metis append.assoc append_Cons append_take_drop_id)
  then have whole: "rest = pax_text ?d (key, value) @ drop (Suc ?m) after"
    using rest by (simp add: pax_text_def)
  have "length (pax_text ?d (key, value)) = ?n"
  proof -
    have "length (take ?m after) = ?m" using nth(2) by simp
    with key have "length key + 1 + length value = ?m" by simp
    then show ?thesis using n(1) by (simp add: pax_text_def)
  qed
  moreover from this whole have "drop (Suc ?m) after = drop ?n rest" by (metis append_eq_conv_conj)
  moreover have "CHR ''='' \<notin> set key" using pair(2) by (auto dest: set_takeWhileD)
  ultimately show ?thesis
    using whole d utf8 assms(2) by (intro exI [of _ ?d]) (simp add: pax_text_ok_def)
qed

definition pax_content :: "string list \<Rightarrow> (string \<times> string) list \<Rightarrow> string" where
  "pax_content digits records = concat (map (\<lambda>(d, record). pax_text d record) (zip digits records))"

lemma pax_values_from_exact:
  "pax_values_from acc rest = Inr acc' \<Longrightarrow> distinct (map fst acc) \<Longrightarrow>
     \<exists>digits records. acc' = acc @ records \<and> length digits = length records \<and>
       rest = pax_content digits records \<and> list_all2 pax_text_ok digits records \<and> distinct (map fst acc')"
proof (induction acc rest rule: pax_values_from.induct)
  case (1 acc rest)
  show ?case
  proof (cases "rest = []")
    case True
    with "1.prems" show ?thesis
      by (subst (asm) pax_values_from.simps) (intro exI [of _ "[]"], simp add: pax_content_def)
  next
    case False
    with "1.prems"(1) obtain n key val where r: "pax_record rest = Inr (n, key, val)"
      by (subst (asm) pax_values_from.simps) (auto split: sum.splits prod.splits)
    with "1.prems"(1) False have k: "\<not> (key = [] \<or> key \<in> set (map fst acc) \<or> startswith key ''GNU.sparse'')"
      and more: "pax_values_from (acc @ [(key, val)]) (drop (nat n) rest) = Inr acc'"
      by (subst (asm) (1) pax_values_from.simps, simp split: if_splits)+
    from "1.prems"(2) k have "distinct (map fst (acc @ [(key, val)]))" by auto
    from "1.IH" [OF False r refl refl k more this] obtain digits records where
      ih: "acc' = (acc @ [(key, val)]) @ records" "length digits = length records"
        "drop (nat n) rest = pax_content digits records" "list_all2 pax_text_ok digits records"
        "distinct (map fst acc')"
      by blast
    from pax_record_exact [OF r] k obtain d where "pax_text_ok d (key, val)"
      "rest = pax_text d (key, val) @ drop (nat n) rest" by blast
    with ih show ?thesis
      by (intro exI [of _ "d # digits"] exI [of _ "(key, val) # records"]) (auto simp: pax_content_def)
  qed
qed

text \<open>
  C30.  PAX metadata that is accepted is exactly the records it is read as: nothing before, between or after
  them, every length as declared, and no key twice.
\<close>

theorem pax_values_exact:
  assumes "pax_values raw = Inr (records, n)"
  shows "\<exists>digits. raw = pax_content digits records \<and> list_all2 pax_text_ok digits records \<and>
    distinct (map fst records) \<and> n = int (length records)"
  using assms pax_values_from_exact [of "[]" raw] by (auto simp: pax_values_def res_bind_Inr_iff)

definition sample_pax :: string where
  "sample_pax = ''7 a=bc'' @ [newline] @ ''9 size=1'' @ [newline]"

theorem pax_values_exact_witness:
  "\<exists>digits. sample_pax = pax_content digits [(''a'', ''bc''), (''size'', ''1'')] \<and>
    list_all2 pax_text_ok digits [(''a'', ''bc''), (''size'', ''1'')]"
proof -
  have limit: "length (str_int TAR_EXTENSION_MAX_BYTES) = 5"
    by (simp add: TAR_EXTENSION_MAX_BYTES_def str_int_def str_nat.simps)
  have digits: "is_digit CHR ''7''" "is_digit CHR ''9''" "int_of_digits ''7'' = 7" "int_of_digits ''9'' = 9"
    by code_simp+
  have blanks: "is_blank c = (c = CHR '' '')" for c by (simp add: is_blank_def)
  have "pax_values sample_pax = Inr ([(''a'', ''bc''), (''size'', ''1'')], 2)"
    by (simp add: sample_pax_def pax_values_def pax_values_from.simps pax_record_def Let_def limit digits blanks
        newline_def slice_def code_def)
  from pax_values_exact [OF this] show ?thesis by blast
qed

section \<open>An archive that passes\<close>

text \<open>
  An empty member and the end of the archive, and a decompressor that takes all its input at once.
\<close>

definition sample_zlib :: "bool zlib" where
  "sample_zlib = \<lparr>new_decompressor = False, decompress = (\<lambda>z pending limit. Some ([], [], True)),
     at_eof = (\<lambda>z. z), unused_data = (\<lambda>z. [])\<rparr>"

definition sample_header :: string where
  "sample_header = replicate 148 nul @ ''0000400'' @ replicate 357 nul"

theorem preflight_archive_ends_witness:
  "preflight_archive sample_zlib (\<lambda>content. ([], None)) (\<lambda>content. ([], None)) gzip_magic \<noteq> None"
  by (rule preflight_archive_ends) (simp add: makes_progress_def sample_zlib_def)

lemma sample_tar_header: "tar_header sample_header = Inr (0, [nul])"
proof -
  have "tar_number (replicate 12 nul) n = Inr 0" for n by code_simp
  moreover have "tar_number (''0000400'' @ [nul]) n = Inr 256" for n by code_simp
  moreover have "byte_sum (replicate n nul) = 0" for n by (simp add: byte_sum_def sum_list_replicate nul_def code_def)
  moreover have "slice 148 156 sample_header = ''0000400'' @ [nul]" "slice 124 136 sample_header = replicate 12 nul"
    "take 148 sample_header = replicate 148 nul" "drop 156 sample_header = replicate 356 nul"
    "slice 156 157 sample_header = [nul]"
    by (simp_all add: slice_def sample_header_def numeral_eq_Suc)
  ultimately show ?thesis by (simp add: tar_header_def raise_if_def)
qed

lemma sample_header_length: "length sample_header = 512" "sample_header \<noteq> replicate 512 nul" "sample_header \<noteq> []"
proof -
  show "length sample_header = 512" by (simp add: sample_header_def)
  have "sample_header ! 148 = CHR ''0''" by (simp add: sample_header_def nth_append)
  moreover have "replicate 512 nul ! 148 = nul" by simp
  moreover have "nul \<noteq> CHR ''0''" by (simp add: nul_def)
  ultimately show "sample_header \<noteq> replicate 512 nul" by metis
  show "sample_header \<noteq> []" by (simp add: sample_header_def)
qed

lemma read_block:
  "length header = 512 \<Longrightarrow> available r = header @ rest \<Longrightarrow> consumed r + 512 \<le> maximum r \<Longrightarrow>
     read_bounded 512 r = (Inr header, r\<lparr>available := rest, consumed := consumed r + 512\<rparr>)"
  by (simp add: read_bounded_def source_read_def Let_def min_def)

lemma sample_walk: "walk_archive (sample_header @ replicate 1024 nul, None) = Inr ()"
proof -
  let ?r = "\<lambda>bs n. \<lparr>available = bs, failure = None, maximum = ARCHIVE_MAX_BYTES, consumed = n\<rparr>"
  let ?p = "new_preflight\<lparr>consecutive_extension_count := 0, member_count := 1, next_pax := Map.empty\<rparr>"
  have zeros: "replicate 1024 nul = replicate 512 nul @ replicate 512 nul" by (simp flip: replicate_add)
  have limit: "n + 512 \<le> ARCHIVE_MAX_BYTES" if "n \<le> 2048" for n using that by (simp add: ARCHIVE_MAX_BYTES_def)
  have kinds: "[nul] \<notin> set extension_kinds" "nul \<noteq> CHR ''S''" by (simp_all add: extension_kinds_def nul_def)
  have member: "preflight_block new_preflight (?r (sample_header @ replicate 1024 nul) 0) =
      (Inr (Some ?p), ?r (replicate 1024 nul) 512)"
    using read_block [of sample_header "?r (sample_header @ replicate 1024 nul) 0"] limit [of 0]
    by (simp add: preflight_block_def bind_def sample_header_length sample_tar_header preflight_header_def lift_def
        kinds read_member_def Let_def seq_def check_def ret_def new_preflight_def member_size_def
        ARCHIVE_MEMBER_MAX_def skip_exact.simps [of 0] ARCHIVE_MAX_BYTES_def)
  have zero: "preflight_block ?p (?r (replicate 512 nul @ replicate 512 nul) 512) =
      (Inr (Some (?p\<lparr>zero_blocks := 1\<rparr>)), ?r (replicate 512 nul) 1024)"
    using read_block [of "replicate 512 nul" "?r (replicate 512 nul @ replicate 512 nul) 512"] limit [of 512]
    by (simp add: preflight_block_def bind_def ret_def new_preflight_def)
  have padding: "read_trailing 0 (?r [] 1536) = (Inr (), ?r [] 1536)"
    by (subst read_trailing.simps) (simp add: read_bounded_def source_read_def ARCHIVE_MAX_BYTES_def Let_def)
  have zero': "preflight_block (?p\<lparr>zero_blocks := 1\<rparr>) (?r (replicate 512 nul) 1024) = (Inr None, ?r [] 1536)"
    using read_block [of "replicate 512 nul" "?r (replicate 512 nul) 1024" "[]"] limit [of 1024] padding
    by (simp add: preflight_block_def bind_def ret_def)
  have "preflight_loop new_preflight (?r (sample_header @ replicate 1024 nul) 0) =
      preflight_loop ?p (?r (replicate 1024 nul) 512)"
    by (subst preflight_loop.simps) (simp only: member prod.case sum.case option.case)
  also have "\<dots> = preflight_loop (?p\<lparr>zero_blocks := 1\<rparr>) (?r (replicate 512 nul) 1024)"
    by (subst preflight_loop.simps, subst zeros) (simp only: zero prod.case sum.case option.case)
  also have "\<dots> = (Inr (), ?r [] 1536)"
    by (subst preflight_loop.simps) (simp only: zero' prod.case sum.case option.case)
  finally have "preflight_loop new_preflight (?r (sample_header @ replicate 1024 nul) 0) = (Inr (), ?r [] 1536)" .
  then show ?thesis by (simp add: walk_archive_def)
qed

lemma sample_preflight:
  "preflight_archive sample_zlib (\<lambda>content. ([], None)) (\<lambda>content. ([], None)) (sample_header @ replicate 1024 nul) =
     Some (Inr ())"
proof -
  have "startswith (sample_header @ replicate 1024 nul) s = False" if "s \<noteq> []" "hd s \<noteq> nul" for s
    using that by (cases s) (simp_all add: sample_header_def numeral_eq_Suc)
  then show ?thesis
    using sample_walk by (simp add: preflight_archive_def decoded_def gzip_magic_def xz_magic_def nul_def)
qed


end
