(* ===== verification/SpdxDocument.thy ===== *)
theory SpdxDocument
  imports ArchivePreflight Json Regex
begin

text \<open>
  The strict JSON of a release candidate and its bill of materials (\<^verbatim>\<open>_json_value\<close>, \<^verbatim>\<open>_bounded_string\<close> and
  \<^verbatim>\<open>validate_spdx\<close> of \<^verbatim>\<open>scripts/release_candidate.py\<close>).  The text scanner of JSON is a parameter; a text that
  is percent-decoded is a list of code points, since the bytes may encode any character.
\<close>

section \<open>Strict JSON\<close>

definition MAX_SAFE_INTEGER :: int where "MAX_SAFE_INTEGER = 9007199254740991"
definition IDENTITY_MAX_BYTES :: nat where "IDENTITY_MAX_BYTES = 512"

text \<open>
  What the code uses of the scanner: the document of a text, before the hooks; the literal of a number in
  it; and the text of the error when bytes are not UTF-8.
\<close>

record scanner =
  scan_text :: "string \<Rightarrow> json res"
  literal :: "json \<Rightarrow> string"
  decode_error :: "string \<Rightarrow> string"

text \<open>
  The hooks in the order the scanner calls them: a number when it is read, an object when it is closed,
  with the first key that is repeated.
\<close>

definition json_integer :: "int \<Rightarrow> json res" where
  "json_integer number =
     (if \<bar>number\<bar> > MAX_SAFE_INTEGER then candidate_error ''JSON integer exceeds the safe-integer bound''
      else Inr (JInt number))"

fun repeated_key :: "string list \<Rightarrow> (string \<times> json) list \<Rightarrow> string option" where
  "repeated_key seen_keys [] = None"
| "repeated_key seen_keys ((key, val) # ps) =
     (if key \<in> set seen_keys then Some key else repeated_key (key # seen_keys) ps)"

definition reject_duplicate :: "(string \<times> json) list \<Rightarrow> json res" where
  "reject_duplicate ps =
     (case repeated_key [] ps of
        None \<Rightarrow> Inr (JObj ps)
      | Some key \<Rightarrow> candidate_error (''duplicate JSON key: '' @ key))"

definition no_constant :: "string \<Rightarrow> json res" where
  "no_constant name = candidate_error (''JSON constant is not permitted: '' @ name)"

fun strict_json :: "(json \<Rightarrow> string) \<Rightarrow> json \<Rightarrow> json res"
and strict_list :: "(json \<Rightarrow> string) \<Rightarrow> json list \<Rightarrow> json list res"
and strict_pairs :: "(json \<Rightarrow> string) \<Rightarrow> (string \<times> json) list \<Rightarrow> (string \<times> json) list res" where
  "strict_json number_text JNull = Inr JNull"
| "strict_json number_text (JBool b) = Inr (JBool b)"
| "strict_json number_text (JInt i) = json_integer i"
| "strict_json number_text (JFloat m x) =
     candidate_error (''JSON floating point is not permitted: '' @ number_text (JFloat m x))"
| "strict_json number_text (JInf s) = no_constant (if s then ''-Infinity'' else ''Infinity'')"
| "strict_json number_text JNaN = no_constant ''NaN''"
| "strict_json number_text (JStr s) = Inr (JStr s)"
| "strict_json number_text (JList xs) = res_bind (strict_list number_text xs) (\<lambda>ys. Inr (JList ys))"
| "strict_json number_text (JObj ps) = res_bind (strict_pairs number_text ps) reject_duplicate"
| "strict_list number_text [] = Inr []"
| "strict_list number_text (x # xs) =
     res_bind (strict_json number_text x) (\<lambda>y. res_bind (strict_list number_text xs) (\<lambda>ys. Inr (y # ys)))"
| "strict_pairs number_text [] = Inr []"
| "strict_pairs number_text ((k, v) # ps) =
     res_bind (strict_json number_text v) (\<lambda>w. res_bind (strict_pairs number_text ps) (\<lambda>qs. Inr ((k, w) # qs)))"

text \<open>Documents with safe integers, no other numbers and no repeated key.\<close>

fun safe_json :: "json \<Rightarrow> bool" where
  "safe_json (JInt i) = (\<bar>i\<bar> \<le> MAX_SAFE_INTEGER)"
| "safe_json (JFloat m x) = False"
| "safe_json (JInf s) = False"
| "safe_json JNaN = False"
| "safe_json (JList xs) = list_all safe_json xs"
| "safe_json (JObj ps) = (distinct (map fst ps) \<and> list_all (\<lambda>p. safe_json (snd p)) ps)"
| "safe_json _ = True"

lemma repeated_key_None:
  "repeated_key seen_keys ps = None \<longleftrightarrow> distinct (map fst ps) \<and> set (map fst ps) \<inter> set seen_keys = {}"
  by (induction seen_keys ps rule: repeated_key.induct) auto

lemma reject_duplicate_Inr: "reject_duplicate ps = Inr j \<longleftrightarrow> distinct (map fst ps) \<and> j = JObj ps"
  using repeated_key_None [of "[]" ps] by (cases "repeated_key [] ps") (auto simp: reject_duplicate_def)

lemma strict_json_iff:
  "\<And>j'. strict_json number_text j = Inr j' \<longleftrightarrow> safe_json j \<and> j' = j"
  "\<And>xs'. strict_list number_text xs = Inr xs' \<longleftrightarrow> list_all safe_json xs \<and> xs' = xs"
  "\<And>ps'. strict_pairs number_text ps = Inr ps' \<longleftrightarrow> list_all (\<lambda>p. safe_json (snd p)) ps \<and> ps' = ps"
  by (induction number_text j and number_text xs and number_text ps
      rule: strict_json_strict_list_strict_pairs.induct)
     (simp_all add: res_bind_Inr_iff reject_duplicate_Inr json_integer_def no_constant_def, auto)

definition utf8_bom :: string where "utf8_bom = [CHR 0xEF, CHR 0xBB, CHR 0xBF]"

definition parse_strict :: "scanner \<Rightarrow> string \<Rightarrow> json res" where
  "parse_strict scanner text = res_bind (scan_text scanner text) (strict_json (literal scanner))"

definition json_value :: "scanner \<Rightarrow> string \<Rightarrow> string \<Rightarrow> (json \<Rightarrow> bool) \<Rightarrow> json res" where
  "json_value scanner raw name expected_type =
     (if startswith raw utf8_bom then candidate_error (name @ '' must not contain a UTF-8 BOM'')
      else
        (case (if \<not> valid_utf8 raw then Inl (new_exn UnicodeDecodeError (decode_error scanner raw))
               else parse_strict scanner raw) of
           Inl exc \<Rightarrow>
             if isinstance_any exc [UnicodeDecodeError, JSONDecodeError, CandidateError, RecursionError] then
               candidate_error (''invalid '' @ name @ '': '' @ exn_text exc)
             else Inl exc
         | Inr value \<Rightarrow>
             if \<not> expected_type value then candidate_error (name @ '' has the wrong JSON type'') else Inr value))"

lemma json_value_Inr:
  "json_value scanner raw name expected_type = Inr value \<Longrightarrow>
     scan_text scanner raw = Inr value \<and> safe_json value \<and> expected_type value \<and> valid_utf8 raw"
  by (auto simp: json_value_def parse_strict_def res_bind_Inr_iff strict_json_iff split: if_splits sum.splits)

definition bounded_string :: "json \<Rightarrow> string \<Rightarrow> nat \<Rightarrow> string res" where
  "bounded_string value name limit =
     (case value of
        JStr s \<Rightarrow>
          if s = [] \<or> utf8_len s > limit then
            candidate_error (name @ '' must be a non-empty bounded string'')
          else if list_ex is_control s then
            candidate_error (name @ '' must not contain control characters'')
          else Inr s
      | _ \<Rightarrow> candidate_error (name @ '' must be a non-empty bounded string''))"

lemma bounded_string_Inr:
  "bounded_string value name limit = Inr s \<longleftrightarrow>
     value = JStr s \<and> s \<noteq> [] \<and> utf8_len s \<le> limit \<and> \<not> list_ex is_control s"
  by (auto simp: bounded_string_def split: json.splits)

section \<open>Percent-encoding\<close>

text \<open>
  \<^verbatim>\<open>bytes.decode("utf-8", "replace")\<close>: the longest prefix of a sequence that could still be one is replaced
  by one U+FFFD.
\<close>

definition is_continuation :: "nat \<Rightarrow> bool" where
  "is_continuation b = (0x80 \<le> b \<and> b \<le> 0xBF)"

definition is_second :: "nat \<Rightarrow> nat \<Rightarrow> bool" where
  "is_second lead b =
     ((if lead = 0xE0 then 0xA0 else if lead = 0xF0 then 0x90 else 0x80) \<le> b \<and>
      b \<le> (if lead = 0xED then 0x9F else if lead = 0xF4 then 0x8F else 0xBF))"

fun decode_replace :: "nat list \<Rightarrow> nat list" where
  "decode_replace [] = []"
| "decode_replace (a # bs) =
     (if a < 0x80 then a # decode_replace bs
      else if 0xC2 \<le> a \<and> a \<le> 0xDF then
        (case bs of
           b # rest \<Rightarrow>
             if is_continuation b then ((a - 0xC0) * 0x40 + (b - 0x80)) # decode_replace rest
             else 0xFFFD # decode_replace bs
         | [] \<Rightarrow> [0xFFFD])
      else if 0xE0 \<le> a \<and> a \<le> 0xEF then
        (case bs of
           b # rest \<Rightarrow>
             if \<not> is_second a b then 0xFFFD # decode_replace bs
             else
               (case rest of
                  c # rest' \<Rightarrow>
                    if is_continuation c then
                      ((a - 0xE0) * 0x1000 + (b - 0x80) * 0x40 + (c - 0x80)) # decode_replace rest'
                    else 0xFFFD # decode_replace rest
                | [] \<Rightarrow> [0xFFFD])
         | [] \<Rightarrow> [0xFFFD])
      else if 0xF0 \<le> a \<and> a \<le> 0xF4 then
        (case bs of
           b # rest \<Rightarrow>
             if \<not> is_second a b then 0xFFFD # decode_replace bs
             else
               (case rest of
                  c # rest' \<Rightarrow>
                    if \<not> is_continuation c then 0xFFFD # decode_replace rest
                    else
                      (case rest' of
                         d # rest'' \<Rightarrow>
                           if is_continuation d then
                             ((a - 0xF0) * 0x40000 + (b - 0x80) * 0x1000 + (c - 0x80) * 0x40 + (d - 0x80))
                               # decode_replace rest''
                           else 0xFFFD # decode_replace rest'
                       | [] \<Rightarrow> [0xFFFD])
                | [] \<Rightarrow> [0xFFFD])
         | [] \<Rightarrow> [0xFFFD])
      else 0xFFFD # decode_replace bs)"

definition hex_value :: "char \<Rightarrow> nat option" where
  "hex_value c =
     (if is_digit c then Some (code c - 48)
      else if in_range CHR ''a'' CHR ''f'' c then Some (code c - 87)
      else if in_range CHR ''A'' CHR ''F'' c then Some (code c - 55)
      else None)"

text \<open>\<^verbatim>\<open>unquote_to_bytes\<close>\<close>

fun unquote_to_bytes :: "string \<Rightarrow> nat list" where
  "unquote_to_bytes [] = []"
| "unquote_to_bytes (c # s) =
     (if c = CHR ''%'' then
        (case s of
           h # l # rest \<Rightarrow>
             (case (hex_value h, hex_value l) of
                (Some x, Some y) \<Rightarrow> (16 * x + y) # unquote_to_bytes rest
              | _ \<Rightarrow> code c # unquote_to_bytes s)
         | _ \<Rightarrow> code c # unquote_to_bytes s)
      else code c # unquote_to_bytes s)"

text \<open>\<^verbatim>\<open>unquote\<close>: the runs of ASCII characters are decoded, the other characters stay.\<close>

function unquote :: "string \<Rightarrow> nat list" where
  "unquote s =
     (case s of
        [] \<Rightarrow> []
      | c # rest \<Rightarrow>
          if is_ascii_char c then
            decode_replace (unquote_to_bytes (takeWhile is_ascii_char s)) @ unquote (dropWhile is_ascii_char s)
          else code c # unquote rest)"
  by pat_completeness auto
termination
  by (relation "measure length")
     (auto intro: le_less_trans [OF length_dropWhile_le])

declare unquote.simps [simp del]

definition codes :: "string \<Rightarrow> nat list" where
  "codes s = map code s"

definition utf8_len_codes :: "nat list \<Rightarrow> nat" where
  "utf8_len_codes cs =
     sum_list (map (\<lambda>c. if c < 0x80 then 1 else if c < 0x800 then 2 else if c < 0x10000 then 3 else 4) cs)"

text \<open>\<^verbatim>\<open>parse_qs(query, keep_blank_values=True, strict_parsing=True)\<close>: the pairs, in order.\<close>

definition plus_to_space :: "string \<Rightarrow> string" where
  "plus_to_space s = map (\<lambda>c. if c = CHR ''+'' then CHR '' '' else c) s"

definition query_field :: "string \<Rightarrow> (nat list \<times> nat list) res" where
  "query_field name_value =
     (if CHR ''='' \<notin> set name_value then value_error ''bad query field''
      else
        (let name = takeWhile (\<lambda>c. c \<noteq> CHR ''='') name_value in
         Inr (unquote (plus_to_space name), unquote (plus_to_space (drop (length name + 1) name_value)))))"

definition parse_query :: "string \<Rightarrow> (nat list \<times> nat list) list res" where
  "parse_query query = (if query = [] then Inr [] else res_map query_field (split_on CHR ''&'' query))"

definition query_values :: "(nat list \<times> nat list) list \<Rightarrow> nat list \<Rightarrow> nat list list" where
  "query_values pairs name = map snd (filter (\<lambda>p. fst p = name) pairs)"

section \<open>The bill of materials\<close>

definition digest_re :: re where
  "digest_re = Cat (lit ''sha256:'') (rep 64 (Cls is_lower_hex))"

definition hash_re :: re where
  "hash_re = rep 64 (Cls is_lower_hex)"

definition EXPECTED_SBOM_NAME :: string where "EXPECTED_SBOM_NAME = ''aruba-cert-renewer''"

abbreviation type_error :: "'a res" where
  "type_error \<equiv> Inl (new_exn TypeError [])"

fun check_required :: "(string \<times> json) list \<Rightarrow> (string \<times> string) list \<Rightarrow> unit res" where
  "check_required document [] = Inr ()"
| "check_required document ((key, expected) # rest) =
     (if \<not> py_eq (dict_get document key) (JStr expected) then
        candidate_error (''SBOM '' @ key @ '' must equal '' @ expected)
      else check_required document rest)"

definition check_creation :: "(string \<times> json) list \<Rightarrow> unit res" where
  "check_creation document =
     (case dict_get document ''creationInfo'' of
        JObj creation \<Rightarrow>
          (case dict_get creation ''creators'' of
             JList creators \<Rightarrow>
               if creators = [] \<or> int (length creators) > 32 then
                 candidate_error ''SBOM creators must be a non-empty bounded list''
               else
                 res_bind (res_map (\<lambda>creator. bounded_string creator ''SBOM creator'' IDENTITY_MAX_BYTES) creators)
                   (\<lambda>_. Inr ())
           | _ \<Rightarrow> candidate_error ''SBOM creators must be a non-empty bounded list'')
      | _ \<Rightarrow> candidate_error ''SBOM creationInfo must be an object'')"

definition bounded_list :: "json \<Rightarrow> int \<Rightarrow> string \<Rightarrow> json list res" where
  "bounded_list value limit name =
     (case value of
        JList xs \<Rightarrow>
          if xs = [] \<or> int (length xs) > limit then
            candidate_error (name @ '' must be a non-empty bounded list'')
          else Inr xs
      | _ \<Rightarrow> candidate_error (name @ '' must be a non-empty bounded list''))"

type_synonym packages = "(string \<times> (string \<times> json) list) list"

fun collect_packages :: "json list \<Rightarrow> packages \<Rightarrow> packages res" where
  "collect_packages [] package_by_id = Inr package_by_id"
| "collect_packages (package # rest) package_by_id =
     (case package of
        JObj ps \<Rightarrow>
          res_bind (bounded_string (dict_get ps ''SPDXID'') ''package SPDXID'' IDENTITY_MAX_BYTES) (\<lambda>package_id.
          res_bind (bounded_string (dict_get ps ''name'') ''package name'' IDENTITY_MAX_BYTES) (\<lambda>_.
            if package_id \<in> set (map fst package_by_id) then
              candidate_error (''duplicate package SPDXID: '' @ package_id)
            else collect_packages rest (package_by_id @ [(package_id, ps)])))
      | _ \<Rightarrow> candidate_error ''every SBOM package must be an object'')"

fun collect_described :: "json list \<Rightarrow> string list res" where
  "collect_described [] = Inr []"
| "collect_described (relationship # rest) =
     (case relationship of
        JObj ps \<Rightarrow>
          res_bind (bounded_string (dict_get ps ''spdxElementId'') ''relationship source'' IDENTITY_MAX_BYTES) (\<lambda>source.
          res_bind (bounded_string (dict_get ps ''relatedSpdxElement'') ''relationship target'' IDENTITY_MAX_BYTES)
            (\<lambda>target.
          res_bind (bounded_string (dict_get ps ''relationshipType'') ''relationship type'' IDENTITY_MAX_BYTES)
            (\<lambda>relation.
          res_bind (collect_described rest) (\<lambda>described.
            Inr (if source = ''SPDXRef-DOCUMENT'' \<and> relation = ''DESCRIBES'' then target # described
                 else described)))))
      | _ \<Rightarrow> candidate_error ''every SBOM relationship must be an object'')"

text \<open>
  The list comprehension over the checksums: a number or \<^verbatim>\<open>True\<close> cannot be iterated over, the elements of
  a text and the keys of an object are no dictionaries, and a list or an object cannot be looked up in a set.
\<close>

definition sha256_checksum :: "(string \<times> json) list \<Rightarrow> string option" where
  "sha256_checksum ps =
     (case (dict_get ps ''algorithm'', dict_get ps ''checksumValue'') of
        (JStr algorithm, JStr val) \<Rightarrow>
          if algorithm \<in> {''SHA256'', ''SHA-256''} \<and> fullmatch hash_re val then Some val else None
      | _ \<Rightarrow> None)"

fun image_checksums :: "json list \<Rightarrow> string list res" where
  "image_checksums [] = Inr []"
| "image_checksums (checksum # rest) =
     (case checksum of
        JObj ps \<Rightarrow>
          if is_list (dict_get ps ''algorithm'') \<or> is_dict (dict_get ps ''algorithm'') then type_error
          else
            res_bind (image_checksums rest) (\<lambda>checksums.
              Inr (case sha256_checksum ps of None \<Rightarrow> checksums | Some val \<Rightarrow> val # checksums))
      | _ \<Rightarrow> image_checksums rest)"

definition root_checksums :: "(string \<times> json) list \<Rightarrow> string list res" where
  "root_checksums root =
     (let checksums = dict_get root ''checksums'' in
      if \<not> truthy checksums then Inr []
      else
        (case checksums of
           JList xs \<Rightarrow> image_checksums xs
         | JStr s \<Rightarrow> Inr []
         | JObj ps \<Rightarrow> Inr []
         | _ \<Rightarrow> type_error))"

definition valid_query :: "(nat list \<times> nat list) list \<Rightarrow> bool" where
  "valid_query pairs =
     (let names = map fst pairs in
      codes ''arch'' \<in> set names \<and>
      list_all (\<lambda>name. name \<in> codes ` {''arch'', ''os'', ''repository_url'', ''tag''}) names \<and>
      list_all (\<lambda>name. length (query_values pairs name) = 1 \<and>
        utf8_len_codes (hd (query_values pairs name)) \<le> IDENTITY_MAX_BYTES) names \<and>
      (codes ''tag'' \<in> set names \<longrightarrow> query_values pairs (codes ''tag'') = [codes ''release-candidate'']))"

definition oci_identity :: "string \<Rightarrow> string" where
  "oci_identity checksum = ''pkg:oci/'' @ EXPECTED_SBOM_NAME @ ''@sha256:'' @ checksum"

definition purl_locator :: "json \<Rightarrow> string option" where
  "purl_locator reference =
     (case reference of
        JObj ps \<Rightarrow>
          (case dict_get ps ''referenceLocator'' of
             JStr locator \<Rightarrow>
               if py_eq (dict_get ps ''referenceCategory'') (JStr ''PACKAGE-MANAGER'')
                  \<and> py_eq (dict_get ps ''referenceType'') (JStr ''purl'') \<and> CHR ''?'' \<in> set locator
               then Some locator else None
           | _ \<Rightarrow> None)
      | _ \<Rightarrow> None)"

fun matching_purls :: "string \<Rightarrow> json list \<Rightarrow> string list res" where
  "matching_purls checksum [] = Inr []"
| "matching_purls checksum (reference # rest) =
     (case purl_locator reference of
        None \<Rightarrow> matching_purls checksum rest
      | Some locator \<Rightarrow>
          (let identity = takeWhile (\<lambda>c. c \<noteq> CHR ''?'') locator;
               query_text = drop (length identity + 1) locator
           in
           case parse_query query_text of
             Inl exc \<Rightarrow> candidate_error ''SBOM OCI subject purl is malformed''
           | Inr query \<Rightarrow>
               res_bind (matching_purls checksum rest) (\<lambda>purls.
                 Inr (if unquote identity = codes (oci_identity checksum) \<and> valid_query query
                      then locator # purls else purls))))"

definition contains_package :: "packages \<Rightarrow> string \<Rightarrow> json \<Rightarrow> bool" where
  "contains_package package_by_id root_id relationship =
     (case relationship of
        JObj ps \<Rightarrow>
          py_eq (dict_get ps ''spdxElementId'') (JStr root_id) \<and>
          py_eq (dict_get ps ''relationshipType'') (JStr ''CONTAINS'') \<and>
          (case dict_get ps ''relatedSpdxElement'' of
             JStr target \<Rightarrow> target \<in> set (map fst package_by_id) \<and> target \<noteq> root_id
           | _ \<Rightarrow> False)
      | _ \<Rightarrow> False)"

text \<open>The checks of the package the document describes.\<close>

definition check_root :: "(string \<times> json) list \<Rightarrow> string \<Rightarrow> string \<Rightarrow> unit res" where
  "check_root root config_digest syft_manifest_digest =
     raise_if (\<not> py_eq (dict_get root ''name'') (JStr EXPECTED_SBOM_NAME))
       (new_exn CandidateError ''SBOM describes the wrong image name'')
    (raise_if (\<not> py_eq (dict_get root ''primaryPackagePurpose'') (JStr ''CONTAINER''))
       (new_exn CandidateError ''SBOM root package must represent a container'')
    (raise_if (\<not> py_eq (dict_get root ''versionInfo'') (JStr syft_manifest_digest))
       (new_exn CandidateError ''SBOM root version does not match the archive image'')
    (raise_if (\<not> fullmatch digest_re config_digest)
       (new_exn CandidateError ''archive config digest is invalid'')
    (res_bind (root_checksums root) (\<lambda>checksums.
     case checksums of
       [checksum] \<Rightarrow>
         raise_if (''sha256:'' @ checksum \<noteq> syft_manifest_digest)
           (new_exn CandidateError ''SBOM root checksum does not match the archive image'')
        (case dict_get root ''externalRefs'' of
           JList external_refs \<Rightarrow>
             res_bind (matching_purls checksum external_refs) (\<lambda>purls.
               if length purls \<noteq> 1 then
                 candidate_error ''SBOM OCI subject does not identify the tested image''
               else Inr ())
         | _ \<Rightarrow> candidate_error ''SBOM root package has no external references'')
     | _ \<Rightarrow> candidate_error ''SBOM root must have exactly one SHA-256 image checksum'')))))"

definition validate_spdx :: "(string \<times> json) list \<Rightarrow> string \<Rightarrow> string \<Rightarrow> unit res" where
  "validate_spdx document config_digest syft_manifest_digest =
     res_bind (check_required document
       [(''spdxVersion'', ''SPDX-2.3''), (''dataLicense'', ''CC0-1.0''), (''SPDXID'', ''SPDXRef-DOCUMENT'')]) (\<lambda>_.
     res_bind (bounded_string (dict_get document ''name'') ''SBOM name'' IDENTITY_MAX_BYTES) (\<lambda>_.
     res_bind (bounded_string (dict_get document ''documentNamespace'') ''SBOM documentNamespace'' IDENTITY_MAX_BYTES)
       (\<lambda>_.
     res_bind (check_creation document) (\<lambda>_.
     res_bind (bounded_list (dict_get document ''packages'') 100000 ''SBOM packages'') (\<lambda>packages.
     res_bind (bounded_list (dict_get document ''relationships'') 500000 ''SBOM relationships'') (\<lambda>relationships.
     res_bind (collect_packages packages []) (\<lambda>package_by_id.
     res_bind (collect_described relationships) (\<lambda>described.
     case described of
       [root_id] \<Rightarrow>
         (case map_of package_by_id root_id of
            None \<Rightarrow> candidate_error ''SBOM must describe exactly one package in the document''
          | Some root \<Rightarrow>
              res_bind (check_root root config_digest syft_manifest_digest) (\<lambda>_.
                if length packages > 1 \<and> \<not> list_ex (contains_package package_by_id root_id) relationships then
                  candidate_error ''SBOM root package does not contain its package inventory''
                else Inr ()))
     | _ \<Rightarrow> candidate_error ''SBOM must describe exactly one package in the document''))))))))"

section \<open>What an accepted document says\<close>

definition package_id :: "json \<Rightarrow> json" where
  "package_id package = (case package of JObj ps \<Rightarrow> dict_get ps ''SPDXID'' | _ \<Rightarrow> JNull)"

definition described_target :: "json \<Rightarrow> string option" where
  "described_target relationship =
     (case relationship of
        JObj ps \<Rightarrow>
          (case (dict_get ps ''spdxElementId'', dict_get ps ''relationshipType'', dict_get ps ''relatedSpdxElement'') of
             (JStr source, JStr relation, JStr target) \<Rightarrow>
               if source = ''SPDXRef-DOCUMENT'' \<and> relation = ''DESCRIBES'' then Some target else None
           | _ \<Rightarrow> None)
      | _ \<Rightarrow> None)"

text \<open>A package URL that names the image with this digest.\<close>

definition identifies :: "string \<Rightarrow> json \<Rightarrow> bool" where
  "identifies checksum reference =
     (case purl_locator reference of
        None \<Rightarrow> False
      | Some locator \<Rightarrow> unquote (takeWhile (\<lambda>c. c \<noteq> CHR ''?'') locator) = codes (oci_identity checksum))"

text \<open>A package that stands for the image with the digest \<open>sha256:checksum\<close>.\<close>

definition names_image :: "(string \<times> json) list \<Rightarrow> string \<Rightarrow> bool" where
  "names_image root checksum =
     (fullmatch hash_re checksum \<and>
      dict_get root ''name'' = JStr EXPECTED_SBOM_NAME \<and>
      dict_get root ''primaryPackagePurpose'' = JStr ''CONTAINER'' \<and>
      dict_get root ''versionInfo'' = JStr (''sha256:'' @ checksum) \<and>
      root_checksums root = Inr [checksum] \<and>
      (case dict_get root ''externalRefs'' of
         JList refs \<Rightarrow> list_ex (identifies checksum) refs
       | _ \<Rightarrow> False))"

lemma collect_packages_Inr:
  "collect_packages packages acc = Inr package_by_id \<Longrightarrow> distinct (map fst acc) \<Longrightarrow>
     distinct (map fst package_by_id) \<and>
     (\<exists>new. package_by_id = acc @ new \<and> packages = map (\<lambda>p. JObj (snd p)) new \<and>
       list_all (\<lambda>p. dict_get (snd p) ''SPDXID'' = JStr (fst p)) new)"
proof (induction packages acc rule: collect_packages.induct)
  case (2 package rest acc)
  from "2.prems"(1) obtain ps i where ps: "package = JObj ps"
    and i: "bounded_string (dict_get ps ''SPDXID'') ''package SPDXID'' IDENTITY_MAX_BYTES = Inr i"
    and new: "i \<notin> set (map fst acc)" and more: "collect_packages rest (acc @ [(i, ps)]) = Inr package_by_id"
    by (auto simp: res_bind_Inr_iff split: json.splits if_splits)
  from "2.prems"(2) new have "distinct (map fst (acc @ [(i, ps)]))" by simp
  from "2.IH" [OF ps new more this] obtain new' where
    "distinct (map fst package_by_id)" "package_by_id = acc @ (i, ps) # new'" "rest = map (\<lambda>p. JObj (snd p)) new'"
    "list_all (\<lambda>p. dict_get (snd p) ''SPDXID'' = JStr (fst p)) new'" by auto
  with ps i show ?case
    by (intro conjI exI [of _ "(i, ps) # new'"]) (auto simp: bounded_string_Inr)
qed simp

lemma collect_described_Inr:
  "collect_described relationships = Inr described \<Longrightarrow> described = List.map_filter described_target relationships"
proof (induction relationships arbitrary: described)
  case (Cons r rest)
  then obtain ps where "r = JObj ps" by (auto split: json.splits)
  with Cons show ?case
    by (auto simp: res_bind_Inr_iff bounded_string_Inr described_target_def List.map_filter_simps)
qed (simp add: List.map_filter_simps)

lemma sha256_checksum_hash: "sha256_checksum ps = Some c \<Longrightarrow> fullmatch hash_re c"
  by (auto simp: sha256_checksum_def split: json.splits if_splits)

lemma image_checksums_hash: "image_checksums xs = Inr cs \<Longrightarrow> c \<in> set cs \<Longrightarrow> fullmatch hash_re c"
proof (induction xs arbitrary: cs)
  case (Cons x xs)
  show ?case
  proof (cases x)
    case (JObj ps)
    with Cons.prems(1) obtain rest where rest: "image_checksums xs = Inr rest"
      and cs: "cs = (case sha256_checksum ps of None \<Rightarrow> rest | Some val \<Rightarrow> val # rest)"
      by (auto simp: res_bind_Inr_iff split: if_splits)
    show ?thesis
    proof (cases "c \<in> set rest")
      case True
      with Cons.IH [OF rest] show ?thesis by blast
    next
      case False
      with cs Cons.prems(2) have "sha256_checksum ps = Some c" by (auto split: option.splits)
      then show ?thesis by (rule sha256_checksum_hash)
    qed
  qed (use Cons in auto)
qed simp

lemma matching_purls_Inr:
  "matching_purls checksum refs = Inr purls \<Longrightarrow> purls \<noteq> [] \<Longrightarrow> list_ex (identifies checksum) refs"
proof (induction refs arbitrary: purls)
  case (Cons r refs)
  show ?case
  proof (cases "identifies checksum r")
    case False
    with Cons.prems(1) have "matching_purls checksum refs = Inr purls"
      by (auto simp: res_bind_Inr_iff Let_def identifies_def split: option.splits sum.splits if_splits)
    from Cons.IH [OF this Cons.prems(2)] show ?thesis by simp
  qed simp
qed simp

lemma case_single_Inr:
  "(case xs of [x] \<Rightarrow> f x | _ \<Rightarrow> Inl e) = Inr y \<longleftrightarrow> (\<exists>x. xs = [x] \<and> f x = Inr y)"
  by (auto split: list.splits)

lemma case_JList_Inr:
  "(case v of JList xs \<Rightarrow> f xs | _ \<Rightarrow> Inl e) = Inr y \<longleftrightarrow> (\<exists>xs. v = JList xs \<and> f xs = Inr y)"
  by (cases v) auto

lemma case_Some_Inr:
  "(case v of None \<Rightarrow> Inl e | Some x \<Rightarrow> f x) = Inr y \<longleftrightarrow> (\<exists>x. v = Some x \<and> f x = Inr y)"
  by (cases v) auto

lemma if_Inl_Inr: "(if b then Inl e else k) = Inr y \<longleftrightarrow> \<not> b \<and> k = Inr y"
  by simp

lemmas check_Inr_simps = res_bind_Inr_iff raise_if_Inr_iff case_single_Inr case_JList_Inr case_Some_Inr if_Inl_Inr

lemma check_root_Inr:
  assumes "check_root root config_digest digest = Inr u"
  shows "\<exists>checksum. digest = ''sha256:'' @ checksum \<and> names_image root checksum"
proof -
  from assms obtain checksum refs purls where c: "root_checksums root = Inr [checksum]" "digest = ''sha256:'' @ checksum"
    and refs: "dict_get root ''externalRefs'' = JList refs" "matching_purls checksum refs = Inr purls" "length purls = 1"
    and fields: "dict_get root ''name'' = JStr EXPECTED_SBOM_NAME"
      "dict_get root ''primaryPackagePurpose'' = JStr ''CONTAINER''" "dict_get root ''versionInfo'' = JStr digest"
    unfolding check_root_def check_Inr_simps by (auto simp: check_Inr_simps)
  from c(1) have "fullmatch hash_re checksum"
    by (auto simp: root_checksums_def Let_def split: if_splits json.splits dest: image_checksums_hash)
  moreover from refs have "list_ex (identifies checksum) refs" by (intro matching_purls_Inr [OF refs(2)]) auto
  ultimately show ?thesis using c refs fields by (auto simp: names_image_def)
qed

lemma bounded_list_Inr: "bounded_list value limit name = Inr xs \<Longrightarrow> value = JList xs"
  by (auto simp: bounded_list_def split: json.splits if_splits)

text \<open>
  C27.  An accepted bill of materials describes exactly one package.  It is one of its packages, whose
  identifiers are distinct; it is the container of this project; its version, its only SHA-256 checksum and
  an OCI package URL all name the digest of the tested image; and when there are other packages, it contains
  one of them.
\<close>

theorem validate_spdx_sound:
  assumes "validate_spdx document config_digest digest = Inr ()"
  shows "\<exists>packages relationships root_id root checksum.
    dict_get document ''packages'' = JList packages \<and> dict_get document ''relationships'' = JList relationships \<and>
    distinct (map package_id packages) \<and> JObj root \<in> set packages \<and> package_id (JObj root) = JStr root_id \<and>
    List.map_filter described_target relationships = [root_id] \<and>
    digest = ''sha256:'' @ checksum \<and> names_image root checksum \<and>
    (length packages \<le> 1 \<or>
     list_ex (\<lambda>r. \<exists>other. contains_package [(other, [])] root_id r \<and> JStr other \<in> package_id ` set packages) relationships)"
proof -
  from assms obtain packages relationships package_by_id root_id root u where
    p: "bounded_list (dict_get document ''packages'') 100000 ''SBOM packages'' = Inr packages"
    and r: "bounded_list (dict_get document ''relationships'') 500000 ''SBOM relationships'' = Inr relationships"
    and by_id: "collect_packages packages [] = Inr package_by_id"
    and described: "collect_described relationships = Inr [root_id]" "map_of package_by_id root_id = Some root"
    and root: "check_root root config_digest digest = Inr u"
    and contains: "length packages > 1 \<Longrightarrow> list_ex (contains_package package_by_id root_id) relationships"
    unfolding validate_spdx_def check_Inr_simps by blast
  from collect_packages_Inr [OF by_id] have ids: "distinct (map fst package_by_id)"
    "packages = map (\<lambda>p. JObj (snd p)) package_by_id"
    "\<forall>p\<in>set package_by_id. dict_get (snd p) ''SPDXID'' = JStr (fst p)"
    by (auto simp: list_all_iff)
  have id: "package_id (JObj (snd p)) = JStr (fst p)" if "p \<in> set package_by_id" for p
    using ids(3) that by (simp add: package_id_def)
  then have names: "map package_id packages = map JStr (map fst package_by_id)" by (simp add: ids(2))
  with ids(1) have "distinct (map package_id packages)" by (simp add: distinct_map inj_on_def)
  moreover have "(root_id, root) \<in> set package_by_id" using described(2) by (rule map_of_SomeD)
  then have "JObj root \<in> set packages" "package_id (JObj root) = JStr root_id"
    using ids(2) id [of "(root_id, root)"] by force+
  moreover have "length packages \<le> 1 \<or> list_ex (\<lambda>r. \<exists>other. contains_package [(other, [])] root_id r \<and>
      JStr other \<in> package_id ` set packages) relationships"
  proof (cases "length packages > 1")
    case True
    from contains [OF this] obtain rel where rel: "rel \<in> set relationships" "contains_package package_by_id root_id rel"
      by (auto simp: list_ex_iff)
    then obtain other where "contains_package [(other, [])] root_id rel" "other \<in> set (map fst package_by_id)"
      by (auto simp: contains_package_def split: json.splits)
    moreover from this(2) have "JStr other \<in> set (map JStr (map fst package_by_id))" by force
    then have "JStr other \<in> package_id ` set packages" by (simp only: names [symmetric] set_map)
    ultimately show ?thesis using rel(1) by (auto simp: list_ex_iff)
  qed simp
  moreover from check_root_Inr [OF root] obtain checksum where "digest = ''sha256:'' @ checksum" "names_image root checksum"
    by blast
  ultimately show ?thesis
    using bounded_list_Inr [OF p] bounded_list_Inr [OF r] collect_described_Inr [OF described(1)]
    by (intro exI [of _ packages] exI [of _ relationships] exI [of _ root_id] exI [of _ root] exI [of _ checksum])
       (simp only: simp_thms)
qed

section \<open>A document that is accepted\<close>

definition sample_hash :: string where
  "sample_hash = replicate 64 CHR ''a''"

definition sample_root :: "(string \<times> json) list" where
  "sample_root =
     [(''SPDXID'', JStr ''SPDXRef-root''), (''name'', JStr ''aruba-cert-renewer''),
      (''primaryPackagePurpose'', JStr ''CONTAINER''), (''versionInfo'', JStr (''sha256:'' @ sample_hash)),
      (''checksums'', JList [JObj [(''algorithm'', JStr ''SHA256''), (''checksumValue'', JStr sample_hash)]]),
      (''externalRefs'', JList [JObj [(''referenceCategory'', JStr ''PACKAGE-MANAGER''), (''referenceType'', JStr ''purl''),
        (''referenceLocator'', JStr (''pkg:oci/aruba-cert-renewer@sha256%3A'' @ sample_hash @ ''?arch=amd64''))]])]"

definition sample_sbom :: "(string \<times> json) list" where
  "sample_sbom =
     [(''spdxVersion'', JStr ''SPDX-2.3''), (''dataLicense'', JStr ''CC0-1.0''), (''SPDXID'', JStr ''SPDXRef-DOCUMENT''),
      (''name'', JStr ''sbom''), (''documentNamespace'', JStr ''https://h/1''),
      (''creationInfo'', JObj [(''creators'', JList [JStr ''Tool: syft''])]),
      (''packages'', JList [JObj sample_root]),
      (''relationships'', JList [JObj [(''spdxElementId'', JStr ''SPDXRef-DOCUMENT''),
        (''relatedSpdxElement'', JStr ''SPDXRef-root''), (''relationshipType'', JStr ''DESCRIBES'')]])]"

lemma sample_sbom_accepted: "validate_spdx sample_sbom (''sha256:'' @ sample_hash) (''sha256:'' @ sample_hash) = Inr ()"
  by code_simp

theorem validate_spdx_sound_witness:
  "\<exists>root checksum. ''sha256:'' @ sample_hash = ''sha256:'' @ checksum \<and> names_image root checksum \<and>
    dict_get sample_sbom ''packages'' = JList [JObj root]"
proof -
  have "dict_get sample_sbom ''packages'' = JList [JObj sample_root]" by (simp add: sample_sbom_def dict_get_def)
  with validate_spdx_sound [OF sample_sbom_accepted] show ?thesis by auto
qed

end
