(* ===== verification/CandidateImage.thy ===== *)
theory CandidateImage
  imports SpdxDocument
begin

text \<open>
  The identity of a release candidate (\<^verbatim>\<open>inspect_archive\<close> of \<^verbatim>\<open>scripts/release_candidate.py\<close>): the members of
  the archive, the description of its image, and the digests of its configuration and layers.  \<^verbatim>\<open>tarfile\<close>,
  SHA-256 and the decompressors are parameters.
\<close>

section \<open>The archive\<close>

definition ARCHIVE_METADATA_MAX_BYTES :: int where "ARCHIVE_METADATA_MAX_BYTES = 4 * 1024 * 1024"
definition ARCHIVE_LAYER_MAX :: int where "ARCHIVE_LAYER_MAX = 128"
definition UNCOMPRESSED_LAYERS_MAX_BYTES :: int where "UNCOMPRESSED_LAYERS_MAX_BYTES = 4 * ARCHIVE_MAX_BYTES"
definition EXPECTED_CANDIDATE_IMAGE :: string where
  "EXPECTED_CANDIDATE_IMAGE = ''aruba-cert-renewer:release-candidate''"

definition OCI_MANIFEST_MEDIA_TYPES :: "string list" where
  "OCI_MANIFEST_MEDIA_TYPES =
     [''application/vnd.oci.image.manifest.v1+json'', ''application/vnd.docker.distribution.manifest.v2+json'']"

definition OCI_CONFIG_MEDIA_TYPES :: "string list" where
  "OCI_CONFIG_MEDIA_TYPES =
     [''application/vnd.oci.image.config.v1+json'', ''application/vnd.docker.container.image.v1+json'']"

definition GZIP_LAYER_MEDIA_TYPES :: "string list" where
  "GZIP_LAYER_MEDIA_TYPES =
     [''application/vnd.oci.image.layer.v1.tar+gzip'', ''application/vnd.docker.image.rootfs.diff.tar.gzip'']"

text \<open>
  A member as \<^verbatim>\<open>tarfile\<close> reports it, with the stream \<^verbatim>\<open>extractfile\<close> opens on it, if any; and an archive:
  whether it opens, its members in order and the exception that ends the iteration over them, if one does.
\<close>

record tar_member =
  member_name :: string
  is_file :: bool
  is_dir :: bool
  size_of :: int
  extracted :: "reader option"

record tar_archive =
  open_result :: "unit res"
  archive_members :: "tar_member list"
  iteration_end :: "exn option"

text \<open>The libraries: SHA-256 (its hexadecimal text), JSON, \<^verbatim>\<open>zlib\<close> and \<^verbatim>\<open>gzip.GzipFile\<close>.\<close>

record 'z library =
  sha256 :: "string \<Rightarrow> string"
  json_scanner :: scanner
  zlib_library :: "'z zlib"
  gzip_file :: "reader \<Rightarrow> reader"

type_synonym members = "(string \<times> tar_member) list"

definition unsafe_path :: "string \<Rightarrow> bool" where
  "unsafe_path name =
     (name = [] \<or> startswith name ''/'' \<or> CHR 0x5C \<in> set name \<or>
      list_ex (\<lambda>part. part \<in> {'''', ''.'', ''..''}) (split_on CHR ''/'' name))"

fun collect_members :: "tar_member list \<Rightarrow> exn option \<Rightarrow> members \<Rightarrow> members res" where
  "collect_members [] ending by_name = (case ending of None \<Rightarrow> Inr by_name | Some e \<Rightarrow> Inl e)"
| "collect_members (m # ms) ending by_name =
     (if int (length by_name) \<ge> ARCHIVE_MEMBER_MAX then
        candidate_error ''candidate archive member count is outside its bound''
      else if unsafe_path (member_name m) then candidate_error ''candidate archive contains an unsafe path''
      else if member_name m \<in> set (map fst by_name) then
        candidate_error (''candidate archive repeats member '' @ member_name m)
      else if \<not> (is_file m \<or> is_dir m) then
        candidate_error ''candidate archive contains a non-regular member''
      else collect_members ms ending (by_name @ [(member_name m, m)]))"

definition open_members :: "tar_archive \<Rightarrow> members res" where
  "open_members archive =
     (case open_result archive of
        Inl exc \<Rightarrow>
          if isinstance_any exc [OSError, TarError] then
            candidate_error (''invalid candidate archive: '' @ exn_text exc)
          else Inl exc
      | Inr _ \<Rightarrow>
          res_bind (collect_members (archive_members archive) (iteration_end archive) []) (\<lambda>by_name.
            if by_name = [] then candidate_error ''candidate archive is empty'' else Inr by_name))"

definition regular_member :: "members \<Rightarrow> string \<Rightarrow> tar_member option" where
  "regular_member by_name name =
     (case map_of by_name name of Some m \<Rightarrow> if is_file m then Some m else None | None \<Rightarrow> None)"

text \<open>\<^verbatim>\<open>member_bytes\<close>\<close>

definition member_bytes :: "members \<Rightarrow> string \<Rightarrow> string res" where
  "member_bytes by_name name =
     (case regular_member by_name name of
        None \<Rightarrow> candidate_error (''candidate archive is missing regular file '' @ name)
      | Some m \<Rightarrow>
          if size_of m \<le> 0 \<or> size_of m > ARCHIVE_METADATA_MAX_BYTES then
            candidate_error (''candidate archive member '' @ name @ '' has invalid size'')
          else
            (case extracted m of
               None \<Rightarrow> candidate_error (''candidate archive member '' @ name @ '' cannot be read'')
             | Some source \<Rightarrow>
                 res_bind (fst (source_read (nat (size_of m + 1)) source)) (\<lambda>raw.
                   if int (length raw) \<noteq> size_of m then
                     candidate_error (''candidate archive member '' @ name @ '' changed while read'')
                   else Inr raw)))"

section \<open>The description of the image\<close>

definition sha256_digest :: "'z library \<Rightarrow> string \<Rightarrow> string" where
  "sha256_digest lib raw = ''sha256:'' @ sha256 lib raw"

text \<open>\<^verbatim>\<open>_digest_from_path\<close>\<close>

definition blob_prefix :: string where "blob_prefix = ''blobs/sha256/''"

definition digest_from_path :: "string \<Rightarrow> bool \<Rightarrow> string res" where
  "digest_from_path name classic_config =
     (let stem = (if classic_config then take (length name - 5) name else drop (length blob_prefix) name) in
      if (if classic_config then endswith name ''.json'' else startswith name blob_prefix) \<and> fullmatch hash_re stem
      then Inr (''sha256:'' @ stem)
      else candidate_error (''unsupported archive content path: '' @ name))"

text \<open>A key looked up in a set: lists and objects cannot be.\<close>

definition in_set :: "json \<Rightarrow> string list \<Rightarrow> bool res" where
  "in_set value names =
     (if is_list value \<or> is_dict value then type_error
      else Inr (case value of JStr s \<Rightarrow> s \<in> set names | _ \<Rightarrow> False))"

definition require :: "bool res \<Rightarrow> exn \<Rightarrow> unit res" where
  "require condition error = res_bind condition (\<lambda>holds. if holds then Inr () else Inl error)"

fun strings_of :: "json list \<Rightarrow> string list option" where
  "strings_of [] = Some []"
| "strings_of (JStr s # xs) = map_option (\<lambda>ss. s # ss) (strings_of xs)"
| "strings_of (_ # xs) = None"

text \<open>The entry of \<^verbatim>\<open>manifest.json\<close>: the path of the configuration and the paths of the layers.\<close>

definition docker_entry :: "json \<Rightarrow> (string \<times> json) list res" where
  "docker_entry docker_manifest =
     (case docker_manifest of
        JList [JObj entry] \<Rightarrow> Inr entry
      | _ \<Rightarrow> candidate_error ''candidate archive must contain exactly one image'')"

definition ambiguous_descriptor :: "'a res" where
  "ambiguous_descriptor = candidate_error ''candidate archive image descriptor is ambiguous''"

definition image_paths :: "(string \<times> json) list \<Rightarrow> (string \<times> string list) res" where
  "image_paths entry =
     (case dict_get entry ''Layers'' of
        JList layers \<Rightarrow>
          if layers = [] \<or> int (length layers) > ARCHIVE_LAYER_MAX then
            candidate_error ''candidate archive layer count exceeds its bound''
          else
            (case (dict_get entry ''Config'', strings_of layers) of
               (JStr config_path, Some layer_paths) \<Rightarrow>
                 if distinct layer_paths
                    \<and> py_eq (dict_get entry ''RepoTags'') (JList [JStr EXPECTED_CANDIDATE_IMAGE])
                 then Inr (config_path, layer_paths) else ambiguous_descriptor
             | _ \<Rightarrow> ambiguous_descriptor)
      | _ \<Rightarrow> candidate_error ''candidate archive layer count exceeds its bound'')"

text \<open>\<^verbatim>\<open>rootfs\<close> of the configuration; a value that is neither \<^verbatim>\<open>None\<close> nor a dictionary has no \<^verbatim>\<open>get\<close>.\<close>

definition invalid_rootfs :: "'a res" where
  "invalid_rootfs = candidate_error ''candidate archive config has invalid rootfs identities''"

definition layer_identities :: "(string \<times> json) list \<Rightarrow> nat \<Rightarrow> string list res" where
  "layer_identities config layer_count =
     (case dict_get config ''rootfs'' of
        JObj rootfs \<Rightarrow>
          if \<not> py_eq (dict_get rootfs ''type'') (JStr ''layers'') then invalid_rootfs
          else
            (case dict_get rootfs ''diff_ids'' of
               JList diff_ids \<Rightarrow>
                 if int (length diff_ids) > ARCHIVE_LAYER_MAX \<or> length diff_ids \<noteq> layer_count then invalid_rootfs
                 else
                   (case strings_of diff_ids of
                      Some digests \<Rightarrow> if list_all (fullmatch digest_re) digests then Inr digests else invalid_rootfs
                    | None \<Rightarrow> invalid_rootfs)
             | _ \<Rightarrow> invalid_rootfs)
      | JNull \<Rightarrow> invalid_rootfs
      | _ \<Rightarrow> Inl (new_exn AttributeError []))"

text \<open>\<^verbatim>\<open>removeprefix("sha256:")\<close>\<close>

definition without_algorithm :: "string \<Rightarrow> string" where
  "without_algorithm digest = (if startswith digest ''sha256:'' then drop 7 digest else digest)"

section \<open>The OCI form\<close>

record representation =
  manifest_digest :: "string option"
  index_digest :: "string option"
  media_types :: "string list"
  layer_sizes :: "int list"

definition oci_descriptor :: "(string \<times> json) list \<Rightarrow> (string \<times> json) list res" where
  "oci_descriptor index =
     (if \<not> py_eq (dict_get index ''schemaVersion'') (JInt 2) then
        candidate_error ''candidate archive index is ambiguous''
      else
        (case dict_get index ''manifests'' of
           JList [JObj descriptor] \<Rightarrow>
             res_bind (require (in_set (dict_get descriptor ''mediaType'') OCI_MANIFEST_MEDIA_TYPES)
               (new_exn CandidateError ''candidate archive index does not select one image manifest'')) (\<lambda>_.
               Inr descriptor)
         | _ \<Rightarrow> candidate_error ''candidate archive index is ambiguous''))"

text \<open>The manifest the index selects: its digest and bytes.\<close>

definition oci_manifest_bytes :: "'z library \<Rightarrow> members \<Rightarrow> (string \<times> json) list \<Rightarrow> (string \<times> string) res" where
  "oci_manifest_bytes lib by_name descriptor =
     res_bind (bounded_string (dict_get descriptor ''digest'') ''archive manifest digest'' IDENTITY_MAX_BYTES) (\<lambda>digest.
     if \<not> fullmatch digest_re digest then candidate_error ''candidate archive manifest digest is invalid''
     else
       res_bind (member_bytes by_name (blob_prefix @ without_algorithm digest)) (\<lambda>raw.
       if sha256_digest lib raw \<noteq> digest then
         candidate_error ''candidate archive manifest digest does not match its bytes''
       else if \<not> py_eq (dict_get descriptor ''size'') (JInt (int (length raw))) then
         candidate_error ''candidate archive manifest size is inconsistent''
       else Inr (digest, raw)))"

definition inconsistent_manifest :: exn where
  "inconsistent_manifest = new_exn CandidateError ''candidate archive image manifest is inconsistent''"

text \<open>The operands of the condition in their order: a later one is not looked at when an earlier one fails.\<close>

definition oci_layers :: "(string \<times> json) list \<Rightarrow> string \<Rightarrow> int \<Rightarrow> nat \<Rightarrow> (string \<times> json) list list res" where
  "oci_layers image_manifest config_digest config_size layer_count =
     (if \<not> py_eq (dict_get image_manifest ''schemaVersion'') (JInt 2) then Inl inconsistent_manifest
      else
        res_bind (require (in_set (dict_get image_manifest ''mediaType'') OCI_MANIFEST_MEDIA_TYPES) inconsistent_manifest)
          (\<lambda>_.
        case dict_get image_manifest ''config'' of
          JObj image_config \<Rightarrow>
            res_bind (require (in_set (dict_get image_config ''mediaType'') OCI_CONFIG_MEDIA_TYPES) inconsistent_manifest)
              (\<lambda>_.
              if \<not> py_eq (dict_get image_config ''digest'') (JStr config_digest)
                 \<or> \<not> py_eq (dict_get image_config ''size'') (JInt config_size) then Inl inconsistent_manifest
              else
                (case dict_get image_manifest ''layers'' of
                   JList layers \<Rightarrow>
                     if length layers \<noteq> layer_count \<or> \<not> list_all is_dict layers then Inl inconsistent_manifest
                     else Inr (map (\<lambda>layer. case layer of JObj ps \<Rightarrow> ps | _ \<Rightarrow> []) layers)
                 | _ \<Rightarrow> Inl inconsistent_manifest))
        | _ \<Rightarrow> Inl inconsistent_manifest))"

definition inconsistent_layer :: "nat \<Rightarrow> exn" where
  "inconsistent_layer position =
     new_exn CandidateError (''candidate archive layer '' @ str_nat position @ '' is inconsistent'')"

text \<open>The size of a member, 0 for a member that does not exist (\<^verbatim>\<open>tarfile.TarInfo().size\<close>).\<close>

definition member_size_of :: "members \<Rightarrow> string \<Rightarrow> int" where
  "member_size_of by_name name = (case map_of by_name name of Some m \<Rightarrow> size_of m | None \<Rightarrow> 0)"

definition check_oci_layer :: "members \<Rightarrow> nat \<Rightarrow> (string \<times> json) list \<Rightarrow> string \<Rightarrow> (string \<times> int) res" where
  "check_oci_layer by_name position layer layer_path =
     res_bind (require (in_set (dict_get layer ''mediaType'') GZIP_LAYER_MEDIA_TYPES) (inconsistent_layer position)) (\<lambda>_.
     res_bind (digest_from_path layer_path False) (\<lambda>digest.
       case (dict_get layer ''mediaType'', dict_get layer ''size'') of
         (JStr media_type, JInt octets) \<Rightarrow>
           if \<not> py_eq (dict_get layer ''digest'') (JStr digest) \<or> octets \<noteq> member_size_of by_name layer_path
              \<or> layer_path \<noteq> blob_prefix @ without_algorithm digest
           then Inl (inconsistent_layer position) else Inr (media_type, octets)
       | _ \<Rightarrow> Inl (inconsistent_layer position)))"

fun check_oci_layers ::
  "members \<Rightarrow> nat \<Rightarrow> (string \<times> json) list list \<Rightarrow> string list \<Rightarrow> (string \<times> int) list res" where
  "check_oci_layers by_name position (layer # layers) (path # paths) =
     res_bind (check_oci_layer by_name position layer path) (\<lambda>l.
     res_bind (check_oci_layers by_name (Suc position) layers paths) (\<lambda>ls. Inr (l # ls)))"
| "check_oci_layers by_name position _ _ = Inr []"

definition oci_representation ::
  "'z library \<Rightarrow> members \<Rightarrow> string \<Rightarrow> int \<Rightarrow> string list \<Rightarrow> representation res" where
  "oci_representation lib by_name config_digest config_size layer_paths =
     raise_if (\<not> {''index.json'', ''oci-layout''} \<subseteq> set (map fst by_name))
       (new_exn CandidateError ''OCI candidate archive metadata is incomplete'')
    (res_bind (member_bytes by_name ''index.json'') (\<lambda>index_raw.
     res_bind (json_value (json_scanner lib) index_raw ''archive index.json'' is_dict) (\<lambda>index.
     res_bind (oci_descriptor (case index of JObj ps \<Rightarrow> ps | _ \<Rightarrow> [])) (\<lambda>descriptor.
     res_bind (oci_manifest_bytes lib by_name descriptor) (\<lambda>(digest, manifest_raw).
     res_bind (json_value (json_scanner lib) manifest_raw ''archive image manifest'' is_dict) (\<lambda>image_manifest.
     res_bind (oci_layers (case image_manifest of JObj ps \<Rightarrow> ps | _ \<Rightarrow> []) config_digest config_size
         (length layer_paths)) (\<lambda>layers.
     res_bind (check_oci_layers by_name 0 layers layer_paths) (\<lambda>checked.
       Inr \<lparr>manifest_digest = Some digest, index_digest = Some (sha256_digest lib index_raw),
            media_types = map fst checked, layer_sizes = map snd checked\<rparr>))))))))"

definition classic_representation :: "members \<Rightarrow> string list \<Rightarrow> representation res" where
  "classic_representation by_name layer_paths =
     raise_if ({''index.json'', ''oci-layout''} \<inter> set (map fst by_name) \<noteq> {})
       (new_exn CandidateError ''candidate archive mixes classic and OCI representations'')
       (Inr \<lparr>manifest_digest = None, index_digest = None,
            media_types = replicate (length layer_paths) ''application/vnd.docker.image.rootfs.diff.tar'',
            layer_sizes = map (member_size_of by_name) layer_paths\<rparr>)"

section \<open>The bytes of the layers\<close>

text \<open>\<^verbatim>\<open>_hash_stream\<close>: the digest and the number of bytes of a stream, which must not exceed the maximum.\<close>

function read_stream :: "int \<Rightarrow> string \<Rightarrow> int \<Rightarrow> (reader, string) eff" where
  "read_stream limit name so_far r =
     (case source_read (1024 * 1024) r of
        (Inl e, r') \<Rightarrow> (Inl e, r')
      | (Inr chunk, r') \<Rightarrow>
          if chunk = [] then (Inr [], r')
          else if so_far + int (length chunk) > limit then
            (candidate_error (name @ '' exceeds its uncompressed safety bound''), r')
          else
            (case read_stream limit name (so_far + int (length chunk)) r' of
               (Inl e, r'') \<Rightarrow> (Inl e, r'')
             | (Inr rest, r'') \<Rightarrow> (Inr (chunk @ rest), r'')))"
  by pat_completeness auto
termination
  by (relation "measure (\<lambda>(_, _, _, r). length (available r))") (auto dest!: sym [THEN source_read_Inr])

declare read_stream.simps [simp del]

definition hash_stream :: "'z library \<Rightarrow> reader \<Rightarrow> int \<Rightarrow> string \<Rightarrow> (string \<times> int) res" where
  "hash_stream lib stream limit name =
     res_bind (fst (read_stream limit name 0 stream)) (\<lambda>raw. Inr (sha256_digest lib raw, int (length raw)))"

definition layer_error :: "nat \<Rightarrow> string \<Rightarrow> 'a res" where
  "layer_error position what = candidate_error (''candidate archive layer '' @ str_nat position @ what)"

definition layer_name :: "nat \<Rightarrow> string" where
  "layer_name position = ''candidate archive layer '' @ str_nat position"

text \<open>A compressed layer; the stream is opened anew for each pass.\<close>

definition gzip_layer ::
  "'z library \<Rightarrow> nat \<Rightarrow> string \<Rightarrow> tar_member \<Rightarrow> reader \<Rightarrow> int \<Rightarrow> (string \<times> int) res option" where
  "gzip_layer lib position name m source limit =
     (case res_bind (hash_stream lib source ARCHIVE_MAX_BYTES (layer_name position)) (\<lambda>(compressed_hash, compressed_size).
           res_bind (digest_from_path name False) (\<lambda>digest.
             if compressed_hash \<noteq> digest \<or> compressed_size \<noteq> size_of m then
               layer_error position '' digest is invalid''
             else Inr ())) of
        Inl e \<Rightarrow> Some (Inl e)
      | Inr _ \<Rightarrow>
          (case validate_single_gzip (zlib_library lib) (layer_name position) limit source of
             None \<Rightarrow> None
           | Some (Inl e, _) \<Rightarrow> Some (Inl e)
           | Some (Inr _, _) \<Rightarrow>
               Some (case hash_stream lib (gzip_file lib source) limit (layer_name position) of
                       Inl e \<Rightarrow>
                         if isinstance_any e [OSError, EOFError] then layer_error position '' is not valid gzip''
                         else Inl e
                     | Inr hashed \<Rightarrow> Inr hashed)))"

definition hash_layer ::
  "'z library \<Rightarrow> members \<Rightarrow> nat \<Rightarrow> string \<Rightarrow> string \<Rightarrow> int \<Rightarrow> (string \<times> int) res option" where
  "hash_layer lib by_name position name media_type limit =
     (case regular_member by_name name of
        None \<Rightarrow> Some (layer_error position '' is missing'')
      | Some m \<Rightarrow>
          if size_of m \<le> 0 then Some (layer_error position '' is missing'')
          else
            (case extracted m of
               None \<Rightarrow> Some (layer_error position '' cannot be read'')
             | Some source \<Rightarrow>
                 if media_type \<in> set GZIP_LAYER_MEDIA_TYPES then gzip_layer lib position name m source limit
                 else Some (hash_stream lib source limit (layer_name position))))"

fun check_layers ::
  "'z library \<Rightarrow> members \<Rightarrow> nat \<Rightarrow> int \<Rightarrow> (string \<times> string \<times> string) list \<Rightarrow> unit res option" where
  "check_layers lib by_name position so_far [] = Some (Inr ())"
| "check_layers lib by_name position so_far ((name, media_type, expected_diff_id) # layers) =
     (case hash_layer lib by_name position name media_type (UNCOMPRESSED_LAYERS_MAX_BYTES - so_far) of
        None \<Rightarrow> None
      | Some (Inl e) \<Rightarrow> Some (Inl e)
      | Some (Inr (actual_diff_id, uncompressed_size)) \<Rightarrow>
          if actual_diff_id \<noteq> expected_diff_id then Some (layer_error position '' diff ID is invalid'')
          else check_layers lib by_name (Suc position) (so_far + uncompressed_size) layers)"

section \<open>The identity\<close>

record archive_identity =
  identity_format :: string
  config_digest :: string
  layer_diff_ids :: "string list"
  identity_manifest :: "string option"
  identity_index :: "string option"
  syft_manifest_digest :: string

definition syft_manifest :: "string \<Rightarrow> int \<Rightarrow> int list \<Rightarrow> string list \<Rightarrow> json" where
  "syft_manifest digest config_size sizes diff_ids =
     JObj [(''schemaVersion'', JInt 2),
       (''mediaType'', JStr ''application/vnd.docker.distribution.manifest.v2+json''),
       (''config'', JObj [(''mediaType'', JStr ''application/vnd.docker.container.image.v1+json''),
         (''size'', JInt config_size), (''digest'', JStr digest)]),
       (''layers'', JList (map (\<lambda>(octets, diff_id).
         JObj [(''mediaType'', JStr ''application/vnd.docker.image.rootfs.diff.tar.gzip''),
           (''size'', JInt octets), (''digest'', JStr diff_id)]) (zip sizes diff_ids)))]"

text \<open>What is read of the archive before its layers are hashed.\<close>

record image_description =
  image_oci :: bool
  image_config_digest :: string
  image_config_size :: int
  image_layer_paths :: "string list"
  image_diff_ids :: "string list"
  image_form :: representation

definition describe_image :: "'z library \<Rightarrow> members \<Rightarrow> image_description res" where
  "describe_image lib by_name =
     res_bind (member_bytes by_name ''manifest.json'') (\<lambda>manifest_raw.
     res_bind (json_value (json_scanner lib) manifest_raw ''archive manifest.json'' is_list) (\<lambda>docker_manifest.
     res_bind (docker_entry docker_manifest) (\<lambda>entry.
     res_bind (image_paths entry) (\<lambda>(config_path, layer_paths).
     let is_oci = startswith config_path blob_prefix in
     res_bind (digest_from_path config_path (\<not> is_oci)) (\<lambda>digest.
     res_bind (member_bytes by_name config_path) (\<lambda>config_raw.
     raise_if (sha256_digest lib config_raw \<noteq> digest)
       (new_exn CandidateError ''candidate archive config digest does not match its bytes'')
    (res_bind (json_value (json_scanner lib) config_raw ''archive image config'' is_dict) (\<lambda>config.
     res_bind (layer_identities (case config of JObj ps \<Rightarrow> ps | _ \<Rightarrow> []) (length layer_paths)) (\<lambda>diff_ids.
     res_bind (if is_oci then oci_representation lib by_name digest (int (length config_raw)) layer_paths
               else classic_representation by_name layer_paths) (\<lambda>form.
       Inr \<lparr>image_oci = is_oci, image_config_digest = digest, image_config_size = int (length config_raw),
            image_layer_paths = layer_paths, image_diff_ids = diff_ids, image_form = form\<rparr>))))))))))"

text \<open>\<^verbatim>\<open>inspect_archive\<close>, after the preflight: \<open>None\<close> where the check of a compressed layer never ends.\<close>

definition inspect_members :: "'z library \<Rightarrow> tar_archive \<Rightarrow> archive_identity res option" where
  "inspect_members lib archive =
     (case res_bind (open_members archive) (\<lambda>by_name.
           res_bind (describe_image lib by_name) (\<lambda>d. Inr (by_name, d))) of
        Inl e \<Rightarrow> Some (Inl e)
      | Inr (by_name, d) \<Rightarrow>
          (case check_layers lib by_name 0 0
              (zip (image_layer_paths d) (zip (media_types (image_form d)) (image_diff_ids d))) of
             None \<Rightarrow> None
           | Some (Inl e) \<Rightarrow> Some (Inl e)
           | Some (Inr _) \<Rightarrow>
               Some (Inr \<lparr>identity_format = (if image_oci d then ''oci-single-manifest'' else ''docker-single-image''),
                 config_digest = image_config_digest d, layer_diff_ids = image_diff_ids d,
                 identity_manifest = manifest_digest (image_form d), identity_index = index_digest (image_form d),
                 syft_manifest_digest = sha256_digest lib (dumps '','' '':''
                   (syft_manifest (image_config_digest d) (image_config_size d) (layer_sizes (image_form d))
                     (image_diff_ids d)))\<rparr>)))"

definition inspect_archive ::
  "'z library \<Rightarrow> (string \<Rightarrow> string \<times> exn option) \<Rightarrow> (string \<Rightarrow> string \<times> exn option) \<Rightarrow> string \<Rightarrow> tar_archive \<Rightarrow>
   archive_identity res option" where
  "inspect_archive lib gunzip bunzip content archive =
     (case preflight_archive (zlib_library lib) gunzip bunzip content of
        None \<Rightarrow> None
      | Some (Inl e) \<Rightarrow> Some (Inl e)
      | Some (Inr _) \<Rightarrow> inspect_members lib archive)"

section \<open>The identity is that of the bytes\<close>

lemma read_stream_Inr:
  "read_stream limit name so_far r = (Inr raw, r') \<Longrightarrow>
     raw = available r \<and> failure r = None \<and> (raw = [] \<or> so_far + int (length raw) \<le> limit)"
proof (induction limit name so_far r arbitrary: raw r' rule: read_stream.induct)
  case (1 limit name so_far r)
  from "1.prems" obtain chunk r1 where c: "source_read (1024 * 1024) r = (Inr chunk, r1)"
    by (subst (asm) read_stream.simps) (auto split: prod.splits sum.splits)
  note s = source_read_Inr [OF c]
  show ?case
  proof (cases "chunk = []")
    case True
    with "1.prems" c have "raw = []" by (subst (asm) read_stream.simps) simp
    moreover from c True have "available r = [] \<and> failure r = None" by (auto dest: source_read_end)
    ultimately show ?thesis by simp
  next
    case False
    with "1.prems" c obtain rest where k: "\<not> so_far + int (length chunk) > limit" "raw = chunk @ rest"
        "read_stream limit name (so_far + int (length chunk)) r1 = (Inr rest, r')"
      by (subst (asm) read_stream.simps) (auto split: prod.splits sum.splits if_splits)
    from "1.IH" [OF c [symmetric] refl False k(1) k(3)] s k(1,2) show ?thesis by auto
  qed
qed

text \<open>The whole of a stream, and what a layer holds once decompressed.\<close>

definition whole_stream :: "reader \<Rightarrow> string \<Rightarrow> bool" where
  "whole_stream stream bs = (available stream = bs \<and> failure stream = None)"

definition layer_holds :: "'z library \<Rightarrow> members \<Rightarrow> string \<Rightarrow> string \<Rightarrow> bool" where
  "layer_holds lib by_name name bs =
     (case regular_member by_name name of
        None \<Rightarrow> False
      | Some m \<Rightarrow>
          (case extracted m of
             None \<Rightarrow> False
           | Some source \<Rightarrow> whole_stream source bs \<or> whole_stream (gzip_file lib source) bs))"

lemma hash_stream_Inr:
  "hash_stream lib stream limit name = Inr (digest, n) \<Longrightarrow>
     \<exists>bs. whole_stream stream bs \<and> digest = sha256_digest lib bs \<and> n = int (length bs) \<and> (n = 0 \<or> n \<le> limit)"
  by (cases "read_stream limit name 0 stream")
     (auto simp: hash_stream_def res_bind_Inr_iff whole_stream_def dest!: read_stream_Inr)

lemma gzip_layer_Inr:
  "gzip_layer lib position name m source limit = Some (Inr (digest, n)) \<Longrightarrow>
     \<exists>bs. whole_stream (gzip_file lib source) bs \<and> digest = sha256_digest lib bs \<and> n = int (length bs) \<and>
       (n = 0 \<or> n \<le> limit)"
  by (auto simp: gzip_layer_def layer_error_def split: sum.splits option.splits prod.splits if_splits
      intro!: hash_stream_Inr)

lemma hash_layer_Inr:
  assumes "hash_layer lib by_name position name media_type limit = Some (Inr (digest, n))"
  shows "\<exists>bs. layer_holds lib by_name name bs \<and> digest = sha256_digest lib bs \<and> n = int (length bs) \<and>
    (n = 0 \<or> n \<le> limit)"
proof -
  from assms obtain m source where m: "regular_member by_name name = Some m" "extracted m = Some source"
    and "gzip_layer lib position name m source limit = Some (Inr (digest, n)) \<or>
      hash_stream lib source limit (layer_name position) = Inr (digest, n)"
    by (auto simp: hash_layer_def layer_error_def split: option.splits if_splits)
  then obtain bs where "whole_stream source bs \<or> whole_stream (gzip_file lib source) bs"
    "digest = sha256_digest lib bs \<and> n = int (length bs) \<and> (n = 0 \<or> n \<le> limit)"
    using gzip_layer_Inr hash_stream_Inr by metis
  with m show ?thesis by (auto simp: layer_holds_def)
qed

lemma check_layers_Inr:
  "check_layers lib by_name position so_far layers = Some (Inr u) \<Longrightarrow> so_far \<le> UNCOMPRESSED_LAYERS_MAX_BYTES \<Longrightarrow>
     \<exists>contents. list_all2 (\<lambda>(name, media_type, diff_id) bs.
         layer_holds lib by_name name bs \<and> diff_id = sha256_digest lib bs) layers contents \<and>
       so_far + sum_list (map (\<lambda>bs. int (length bs)) contents) \<le> UNCOMPRESSED_LAYERS_MAX_BYTES"
proof (induction layers arbitrary: position so_far)
  case (Cons l layers)
  obtain name media_type diff_id where l: "l = (name, media_type, diff_id)" by (cases l)
  from Cons.prems(1) l obtain n where
    h: "hash_layer lib by_name position name media_type (UNCOMPRESSED_LAYERS_MAX_BYTES - so_far) = Some (Inr (diff_id, n))"
    and more: "check_layers lib by_name (Suc position) (so_far + n) layers = Some (Inr u)"
    by (auto simp: layer_error_def split: option.splits sum.splits if_splits)
  from hash_layer_Inr [OF h] obtain bs where bs: "layer_holds lib by_name name bs" "diff_id = sha256_digest lib bs"
    "n = int (length bs)" "n = 0 \<or> n \<le> UNCOMPRESSED_LAYERS_MAX_BYTES - so_far" by blast
  from bs(4) Cons.prems(2) have "so_far + n \<le> UNCOMPRESSED_LAYERS_MAX_BYTES" by auto
  from Cons.IH [OF more this] obtain contents where
    "list_all2 (\<lambda>(name, media_type, diff_id) bs. layer_holds lib by_name name bs \<and> diff_id = sha256_digest lib bs)
      layers contents"
    "so_far + n + sum_list (map (\<lambda>bs. int (length bs)) contents) \<le> UNCOMPRESSED_LAYERS_MAX_BYTES" by blast
  with bs l show ?case by (intro exI [of _ "bs # contents"]) simp
qed (auto intro: exI [of _ "[]"])

lemma check_oci_layers_length:
  "check_oci_layers by_name position layers paths = Inr ls \<Longrightarrow> length layers = length paths \<Longrightarrow>
     length ls = length paths"
  by (induction by_name position layers paths arbitrary: ls rule: check_oci_layers.induct)
     (auto simp: res_bind_Inr_iff)

lemma oci_layers_length:
  "oci_layers image_manifest digest n layer_count = Inr layers \<Longrightarrow> length layers = layer_count"
  by (auto simp: oci_layers_def res_bind_Inr_iff split: json.splits if_splits)

lemma representation_length:
  "oci_representation lib by_name digest n layer_paths = Inr form \<Longrightarrow> length (media_types form) = length layer_paths"
  "classic_representation by_name layer_paths = Inr form \<Longrightarrow> length (media_types form) = length layer_paths"
  by (auto simp: oci_representation_def classic_representation_def res_bind_Inr_iff
      dest!: oci_layers_length check_oci_layers_length)

lemma strings_of_length: "strings_of xs = Some ss \<Longrightarrow> length ss = length xs"
  by (induction xs arbitrary: ss rule: strings_of.induct) auto

lemma layer_identities_length: "layer_identities config n = Inr digests \<Longrightarrow> length digests = n"
  by (auto simp: layer_identities_def invalid_rootfs_def split: json.splits if_splits option.splits
      dest: strings_of_length)

lemma describe_image_Inr:
  assumes "describe_image lib by_name = Inr d"
  shows "length (media_types (image_form d)) = length (image_layer_paths d) \<and>
    length (image_diff_ids d) = length (image_layer_paths d) \<and>
    (\<exists>config_path config_raw. member_bytes by_name config_path = Inr config_raw \<and>
       image_config_digest d = sha256_digest lib config_raw \<and> image_config_size d = int (length config_raw))"
proof -
  from assms obtain config_path layer_paths config_raw config diff_ids form where
    c: "member_bytes by_name config_path = Inr config_raw"
    and ids: "layer_identities config (length layer_paths) = Inr diff_ids"
    and form: "(if startswith config_path blob_prefix
        then oci_representation lib by_name (sha256_digest lib config_raw) (int (length config_raw)) layer_paths
        else classic_representation by_name layer_paths) = Inr form"
    and d: "d = \<lparr>image_oci = startswith config_path blob_prefix, image_config_digest = sha256_digest lib config_raw,
      image_config_size = int (length config_raw), image_layer_paths = layer_paths, image_diff_ids = diff_ids,
      image_form = form\<rparr>"
    unfolding describe_image_def Let_def res_bind_Inr_iff raise_if_Inr_iff prod.case_eq_if
    by (elim exE conjE) (simp only: not_not, metis sum.inject(2))
  have "length (media_types form) = length layer_paths"
    using form representation_length by (metis (full_types))
  with c layer_identities_length [OF ids] show ?thesis by (auto simp: d)
qed


text \<open>A classic archive with one layer, under a function that stands for SHA-256.\<close>

definition sample_file :: "string \<Rightarrow> string \<Rightarrow> string \<times> tar_member" where
  "sample_file name content = (name, \<lparr>member_name = name, is_file = True, is_dir = False,
     size_of = int (length content),
     extracted = Some \<lparr>available = content, failure = None, maximum = 0, consumed = 0\<rparr>\<rparr>)"

definition sample_scanner :: scanner where
  "sample_scanner = \<lparr>scan_text = (\<lambda>text. Inr
       (if text = ''s'' then JObj sample_sbom
        else if text = ''m'' then JList [JObj [(''Config'', JStr (sample_hash @ ''.json'')), (''Layers'', JList [JStr ''layer.tar'']),
          (''RepoTags'', JList [JStr EXPECTED_CANDIDATE_IMAGE])]]
        else JObj [(''rootfs'', JObj [(''type'', JStr ''layers''), (''diff_ids'', JList [JStr (''sha256:'' @ sample_hash)])])])),
     literal = (\<lambda>_. []), decode_error = (\<lambda>_. [])\<rparr>"

definition sample_library :: "bool library" where
  "sample_library = \<lparr>sha256 = (\<lambda>_. sample_hash), json_scanner = sample_scanner, zlib_library = sample_zlib,
     gzip_file = (\<lambda>r. r)\<rparr>"

definition sample_members :: members where
  "sample_members = [sample_file ''manifest.json'' ''m'', sample_file (sample_hash @ ''.json'') ''c'',
     sample_file ''layer.tar'' ''data'']"

definition sample_tar :: tar_archive where
  "sample_tar = \<lparr>open_result = Inr (), archive_members = map snd sample_members, iteration_end = None\<rparr>"

lemma sample_open: "open_members sample_tar = Inr sample_members"
  by code_simp

lemma sample_member_bytes:
  "member_bytes sample_members ''manifest.json'' = Inr ''m''"
  "member_bytes sample_members (sample_hash @ ''.json'') = Inr ''c''"
proof -
  have "sample_hash @ ''.json'' \<noteq> ''manifest.json''"
    by (rule notI, drule arg_cong [where f = length]) (simp add: sample_hash_def)
  then show "member_bytes sample_members ''manifest.json'' = Inr ''m''"
    "member_bytes sample_members (sample_hash @ ''.json'') = Inr ''c''"
    by (simp_all add: member_bytes_def regular_member_def sample_members_def sample_file_def source_read_def
        ARCHIVE_METADATA_MAX_BYTES_def)
qed

lemma sample_described:
  "describe_image sample_library sample_members = Inr \<lparr>image_oci = False, image_config_digest = ''sha256:'' @ sample_hash,
     image_config_size = 1, image_layer_paths = [''layer.tar''], image_diff_ids = [''sha256:'' @ sample_hash],
     image_form = \<lparr>manifest_digest = None, index_digest = None,
       media_types = [''application/vnd.docker.image.rootfs.diff.tar''], layer_sizes = [4]\<rparr>\<rparr>"
proof -
  have texts: "json_value sample_scanner ''m'' n is_list = Inr (JList [JObj [(''Config'', JStr (sample_hash @ ''.json'')),
      (''Layers'', JList [JStr ''layer.tar'']), (''RepoTags'', JList [JStr EXPECTED_CANDIDATE_IMAGE])]])"
    "json_value sample_scanner ''c'' n is_dict = Inr (JObj [(''rootfs'', JObj [(''type'', JStr ''layers''),
      (''diff_ids'', JList [JStr (''sha256:'' @ sample_hash)])])])" for n
    by (simp_all add: json_value_def utf8_bom_def parse_strict_def sample_scanner_def code_def reject_duplicate_def
        res_bind_def)
  have paths: "digest_from_path (sample_hash @ ''.json'') True = Inr (''sha256:'' @ sample_hash)"
    "fullmatch digest_re (''sha256:'' @ sample_hash)" "\<not> startswith (sample_hash @ ''.json'') blob_prefix"
    "classic_representation sample_members [''layer.tar''] = Inr \<lparr>manifest_digest = None, index_digest = None,
       media_types = [''application/vnd.docker.image.rootfs.diff.tar''], layer_sizes = [4]\<rparr>"
    by code_simp+
  show ?thesis
    by (simp add: describe_image_def sample_library_def sample_member_bytes texts docker_entry_def
        image_paths_def dict_get_def ARCHIVE_LAYER_MAX_def Let_def paths paths(2) [simplified] sha256_digest_def
        layer_identities_def raise_if_def)
qed

definition sample_identity :: archive_identity where
  "sample_identity = \<lparr>identity_format = ''docker-single-image'', config_digest = ''sha256:'' @ sample_hash,
     layer_diff_ids = [''sha256:'' @ sample_hash], identity_manifest = None, identity_index = None,
     syft_manifest_digest = ''sha256:'' @ sample_hash\<rparr>"

lemma sample_inspected:
  "inspect_archive sample_library (\<lambda>content. ([], None)) (\<lambda>content. ([], None))
     (sample_header @ replicate 1024 nul) sample_tar = Some (Inr sample_identity)"
proof -
  have preflight: "preflight_archive (zlib_library sample_library) (\<lambda>content. ([], None)) (\<lambda>content. ([], None))
      (sample_header @ replicate 1024 nul) = Some (Inr ())"
    by (simp add: sample_library_def sample_preflight)
  have "read_stream UNCOMPRESSED_LAYERS_MAX_BYTES n 0 \<lparr>available = ''data'', failure = None, maximum = 0, consumed = 0\<rparr> =
      (Inr ''data'', \<lparr>available = [], failure = None, maximum = 0, consumed = 0\<rparr>)" for n
    by (simp add: read_stream.simps source_read_def UNCOMPRESSED_LAYERS_MAX_BYTES_def ARCHIVE_MAX_BYTES_def)
  then have "check_layers sample_library sample_members 0 0
      [(''layer.tar'', ''application/vnd.docker.image.rootfs.diff.tar'', ''sha256:'' @ sample_hash)] = Some (Inr ())"
    by (simp add: hash_layer_def regular_member_def sample_members_def sample_file_def sample_hash_def
        GZIP_LAYER_MEDIA_TYPES_def hash_stream_def sha256_digest_def sample_library_def numeral_eq_Suc)
  then show ?thesis
    by (simp add: inspect_archive_def preflight inspect_members_def sample_open sample_described sample_identity_def)
       (simp add: sha256_digest_def sample_library_def)
qed


end
