(* ===== verification/CandidateManifest.thy ===== *)
theory CandidateManifest
  imports CandidateImage ReleaseTag World "HOL-Library.Multiset" "HOL-Library.List_Lexorder" "HOL-Library.Char_ord"
begin

text \<open>
  The manifest of a release candidate (\<^verbatim>\<open>create_candidate\<close> and \<^verbatim>\<open>main\<close> of
  \<^verbatim>\<open>scripts/release_candidate.py\<close>): the checks of the release, the files that are read, hashed, copied and
  written, in their order.  The file system answers every action as it likes: its answer may depend on all
  actions before.
\<close>

section \<open>Files\<close>

datatype file_action =
    IsDir string | IsSymlink string | ListNames string
  | Lstat string | ReadBytes string | ReadArchive string
  | OpenRead string | ReadChunk string | CloseRead string
  | OpenNew string | WriteNew string string | CloseNew string

datatype file_reply =
    Flag bool
  | Names "string list"
  | Status file_status
  | Content string
  | Archive string tar_archive
  | Done
  | Raised exn

type_synonym history = "(file_action \<times> file_reply) list"
type_synonym disk = "history \<Rightarrow> file_action \<Rightarrow> file_reply"
type_synonym 'a files = "(history, 'a) eff"

definition perform :: "disk \<Rightarrow> file_action \<Rightarrow> file_reply files" where
  "perform disk a = (\<lambda>h.
     let reply = disk h a; h' = h @ [(a, reply)] in
     case reply of Raised e \<Rightarrow> (Inl e, h') | _ \<Rightarrow> (Inr reply, h'))"

definition perform_only :: "disk \<Rightarrow> file_action \<Rightarrow> unit files" where
  "perform_only disk a = bind (perform disk a) (\<lambda>_. ret ())"

definition flag_of :: "file_reply \<Rightarrow> bool" where
  "flag_of reply = (case reply of Flag b \<Rightarrow> b | _ \<Rightarrow> False)"

definition names_of :: "file_reply \<Rightarrow> string list" where
  "names_of reply = (case reply of Names ns \<Rightarrow> ns | _ \<Rightarrow> [])"

definition archive_of :: "file_reply \<Rightarrow> string \<times> tar_archive" where
  "archive_of reply =
     (case reply of
        Archive content archive \<Rightarrow> (content, archive)
      | _ \<Rightarrow> ([], \<lparr>open_result = Inr (), archive_members = [], iteration_end = None\<rparr>))"

definition content_of :: "file_reply \<Rightarrow> string" where
  "content_of reply = (case reply of Content bs \<Rightarrow> bs | _ \<Rightarrow> [])"

definition status_of :: "file_reply \<Rightarrow> file_status option" where
  "status_of reply = (case reply of Status info \<Rightarrow> Some info | _ \<Rightarrow> None)"

definition MANIFEST_NAME :: string where "MANIFEST_NAME = ''candidate-manifest.json''"
definition ARCHIVE_NAME :: string where "ARCHIVE_NAME = ''release-candidate.tar''"
definition SBOM_NAME :: string where "SBOM_NAME = ''release-sbom.spdx.json''"
definition MANIFEST_MAX_BYTES :: int where "MANIFEST_MAX_BYTES = 32 * 1024"
definition SBOM_MAX_BYTES :: int where "SBOM_MAX_BYTES = 64 * 1024 * 1024"
definition RELEASE_TAG_MAX_BYTES :: nat where "RELEASE_TAG_MAX_BYTES = 128"
definition EXPECTED_REPOSITORY :: string where "EXPECTED_REPOSITORY = ''lloydsmart/aruba-cert-renewer''"
definition EXPECTED_IMAGE_NAME :: string where "EXPECTED_IMAGE_NAME = ''ghcr.io/lloydsmart/aruba-cert-renewer''"

text \<open>\<^verbatim>\<open>Path.name\<close>: empty components and single dots are not part of a path.\<close>

definition path_name :: "string \<Rightarrow> string" where
  "path_name path =
     (case filter (\<lambda>part. part \<noteq> [] \<and> part \<noteq> ''.'') (split_on CHR ''/'' path) of
        [] \<Rightarrow> []
      | parts \<Rightarrow> last parts)"

definition in_directory :: "string \<Rightarrow> string \<Rightarrow> string" where
  "in_directory directory name = directory @ ''/'' @ name"

definition candidate_failure :: "string \<Rightarrow> exn" where
  "candidate_failure t = new_exn CandidateError t"

text \<open>\<^verbatim>\<open>_regular_file\<close>\<close>

definition regular_file :: "disk \<Rightarrow> string \<Rightarrow> int \<Rightarrow> int files" where
  "regular_file disk path limit =
     bind (try_except (perform disk (Lstat path)) (\<lambda>exc.
         raise (if isinstance exc OSError
           then candidate_failure (''cannot inspect '' @ path_name path @ '': '' @ exn_text exc) else exc))) (\<lambda>reply.
     case status_of reply of
       None \<Rightarrow> raise (candidate_failure (path_name path @ '' must be one regular, unlinked file''))
     | Some info \<Rightarrow>
         seq (check (st_kind info \<noteq> RegularFile \<or> st_nlink info \<noteq> 1)
           (candidate_failure (path_name path @ '' must be one regular, unlinked file'')))
        (seq (check (st_size info \<le> 0 \<or> st_size info > limit)
           (candidate_failure (path_name path @ '' size is outside its allowed bound'')))
           (ret (st_size info))))"

text \<open>\<^verbatim>\<open>_read_json\<close>: the document, which the callers use, and its bytes.\<close>

definition document_of :: "scanner \<Rightarrow> string \<Rightarrow> string \<Rightarrow> (string \<times> json) list res" where
  "document_of scanner name raw =
     (if startswith raw utf8_bom then candidate_error (name @ '' must not contain a UTF-8 BOM'')
      else if \<not> valid_utf8 raw then candidate_error (name @ '' is not UTF-8'')
      else
        (case parse_strict scanner raw of
           Inl exc \<Rightarrow>
             if isinstance_any exc [JSONDecodeError, CandidateError, RecursionError] then
               candidate_error (''invalid '' @ name @ '': '' @ exn_text exc)
             else Inl exc
         | Inr (JObj ps) \<Rightarrow> Inr ps
         | Inr _ \<Rightarrow> candidate_error (name @ '' must contain one JSON object'')))"

definition read_json :: "scanner \<Rightarrow> disk \<Rightarrow> string \<Rightarrow> int \<Rightarrow> ((string \<times> json) list \<times> string) files" where
  "read_json scanner disk path limit =
     bind (regular_file disk path limit) (\<lambda>octets.
     bind (perform disk (ReadBytes path)) (\<lambda>reply.
     let raw = content_of reply in
     seq (check (int (length raw) \<noteq> octets) (candidate_failure (path_name path @ '' changed while it was read'')))
       (bind (lift (document_of scanner (path_name path) raw)) (\<lambda>document. ret (document, raw)))))"

text \<open>\<^verbatim>\<open>_sha256\<close>: the chunks of a file, no more of them than expected.\<close>

function read_chunks :: "disk \<Rightarrow> string \<Rightarrow> int \<Rightarrow> int \<Rightarrow> string files" where
  "read_chunks disk path expected_size consumed_bytes h =
     (case perform disk (ReadChunk path) h of
        (Inl e, h') \<Rightarrow> (Inl e, h')
      | (Inr reply, h') \<Rightarrow>
          (let chunk = content_of reply; now = consumed_bytes + int (length chunk) in
           if chunk = [] then (Inr [], h')
           else if now > expected_size then (candidate_error (path_name path @ '' grew while it was hashed''), h')
           else
             (case read_chunks disk path expected_size now h' of
                (Inl e, h'') \<Rightarrow> (Inl e, h'')
              | (Inr rest, h'') \<Rightarrow> (Inr (chunk @ rest), h''))))"
  by pat_completeness auto
termination
  by (relation "measure (\<lambda>(_, _, expected, n, _). nat (expected - n))") (auto simp: Let_def zless_nat_eq_int_zless)

declare read_chunks.simps [simp del]

definition sha256_file :: "'z library \<Rightarrow> disk \<Rightarrow> string \<Rightarrow> int \<Rightarrow> string files" where
  "sha256_file lib disk path expected_size =
     seq (perform_only disk (OpenRead path))
    (bind (try_finally (read_chunks disk path expected_size 0) (\<lambda>_. perform_only disk (CloseRead path))) (\<lambda>bytes.
     seq (check (int (length bytes) \<noteq> expected_size)
       (candidate_failure (path_name path @ '' changed while it was hashed'')))
       (ret (sha256 lib bytes))))"

text \<open>\<^verbatim>\<open>_copy_exclusive\<close>: the number of bytes copied.\<close>

function copy_chunks :: "disk \<Rightarrow> string \<Rightarrow> string \<Rightarrow> int \<Rightarrow> int \<Rightarrow> int files" where
  "copy_chunks disk source destination expected_size copied h =
     (case perform disk (ReadChunk source) h of
        (Inl e, h') \<Rightarrow> (Inl e, h')
      | (Inr reply, h') \<Rightarrow>
          (let chunk = content_of reply; now = copied + int (length chunk) in
           if chunk = [] then (Inr copied, h')
           else if now > expected_size then (candidate_error (path_name source @ '' grew while it was copied''), h')
           else
             (case perform disk (WriteNew destination chunk) h' of
                (Inl e, h'') \<Rightarrow> (Inl e, h'')
              | (Inr _, h'') \<Rightarrow> copy_chunks disk source destination expected_size now h'')))"
  by pat_completeness auto
termination
  by (relation "measure (\<lambda>(_, _, _, expected, n, _). nat (expected - n))")
     (auto simp: Let_def zless_nat_eq_int_zless)

declare copy_chunks.simps [simp del]

definition copy_exclusive :: "disk \<Rightarrow> string \<Rightarrow> string \<Rightarrow> int \<Rightarrow> unit files" where
  "copy_exclusive disk source destination expected_size =
     seq (perform_only disk (OpenNew destination))
    (seq (try_except (perform_only disk (OpenRead source)) (\<lambda>e.
       seq (perform_only disk (CloseNew destination)) (raise e)))
    (bind (try_finally
       (try_finally (copy_chunks disk source destination expected_size 0)
         (\<lambda>_. perform_only disk (CloseNew destination)))
       (\<lambda>_. perform_only disk (CloseRead source))) (\<lambda>copied.
     check (copied \<noteq> expected_size) (candidate_failure (path_name source @ '' changed while it was copied'')))))"

section \<open>The release\<close>

text \<open>\<^verbatim>\<open>_positive_integer\<close> and \<^verbatim>\<open>_boolean\<close>\<close>

definition positive_re :: re where
  "positive_re = Cat (Cls (in_range CHR ''1'' CHR ''9'')) (Star (Cls is_digit))"

definition positive_integer :: "string \<Rightarrow> string \<Rightarrow> int res" where
  "positive_integer value name =
     (if length value > 16 \<or> \<not> fullmatch positive_re value then
        candidate_error (name @ '' must be a positive decimal integer'')
      else
        (let number = int (foldl (\<lambda>n c. 10 * n + (code c - 48)) 0 value) in
         if number > MAX_SAFE_INTEGER then candidate_error (name @ '' exceeds the JSON safe-integer bound'')
         else Inr number))"

definition flag_value :: "string \<Rightarrow> string \<Rightarrow> bool res" where
  "flag_value value name =
     (if value = ''true'' then Inr True
      else if value = ''false'' then Inr False
      else candidate_error (name @ '' must be true or false''))"

definition sha_re :: re where
  "sha_re = rep 40 (Cls is_lower_hex)"

definition candidate_tag_re :: re where
  "candidate_tag_re =
     cats [lit ''v'', number_re, lit ''.'', number_re, lit ''.'', number_re,
       Opt (cats [lit ''-'', Plus (Cls is_alnum), Star (Cat (Cls (any_of ''.-'')) (Plus (Cls is_alnum)))])]"

type_synonym environment = "string \<Rightarrow> string option"

definition environ_text :: "environment \<Rightarrow> string \<Rightarrow> string \<Rightarrow> nat \<Rightarrow> string res" where
  "environ_text getenv key name limit =
     bounded_string (case getenv key of None \<Rightarrow> JNull | Some t \<Rightarrow> JStr t) name limit"

definition environ_or_empty :: "environment \<Rightarrow> string \<Rightarrow> string" where
  "environ_or_empty getenv key = (case getenv key of None \<Rightarrow> [] | Some t \<Rightarrow> t)"

record release =
  repository_id :: int
  workflow_ref :: string
  workflow_sha :: string
  run_id :: int
  run_attempt :: int
  release_id :: int
  artifact_name :: string
  release_tag :: string
  tag_object_sha :: string
  source_sha :: string
  github_prerelease :: bool
  publish_latest :: bool

text \<open>The checks of the environment, in their order.\<close>

definition read_release :: "environment \<Rightarrow> release res" where
  "read_release getenv =
     res_bind (environ_text getenv ''GITHUB_REPOSITORY'' ''repository'' IDENTITY_MAX_BYTES) (\<lambda>repository.
     raise_if (repository \<noteq> EXPECTED_REPOSITORY) (candidate_failure ''unexpected repository'')
    (res_bind (positive_integer (environ_or_empty getenv ''GITHUB_REPOSITORY_ID'') ''repository_id'') (\<lambda>repository_number.
     res_bind (positive_integer (environ_or_empty getenv ''GITHUB_RUN_ID'') ''run_id'') (\<lambda>run_number.
     res_bind (positive_integer (environ_or_empty getenv ''GITHUB_RUN_ATTEMPT'') ''run_attempt'') (\<lambda>attempt.
     res_bind (positive_integer (environ_or_empty getenv ''RELEASE_ID'') ''release_id'') (\<lambda>release_number.
     res_bind (environ_text getenv ''RELEASE_TAG'' ''release_tag'' RELEASE_TAG_MAX_BYTES) (\<lambda>tag.
     raise_if (\<not> fullmatch candidate_tag_re tag) (candidate_failure ''invalid release tag'')
    (res_bind (environ_text getenv ''SOURCE_SHA'' ''source_sha'' IDENTITY_MAX_BYTES) (\<lambda>source.
     res_bind (environ_text getenv ''TAG_OBJECT_SHA'' ''tag_object_sha'' IDENTITY_MAX_BYTES) (\<lambda>tag_object.
     res_bind (environ_text getenv ''GITHUB_WORKFLOW_SHA'' ''workflow_sha'' IDENTITY_MAX_BYTES) (\<lambda>workflow.
     raise_if (\<not> fullmatch sha_re source \<or> \<not> fullmatch sha_re tag_object)
       (candidate_failure ''source and tag-object identities must be full SHAs'')
    (raise_if (workflow \<noteq> source) (candidate_failure ''workflow SHA must equal the qualified source SHA'')
    (res_bind (environ_text getenv ''GITHUB_WORKFLOW_REF'' ''workflow_ref'' IDENTITY_MAX_BYTES) (\<lambda>ref.
     raise_if (ref \<noteq> repository @ ''/.github/workflows/publish-container.yml@refs/tags/'' @ tag)
       (candidate_failure ''workflow ref does not identify the release tag workflow'')
    (res_bind (environ_text getenv ''ARTIFACT_NAME'' ''artifact_name'' IDENTITY_MAX_BYTES) (\<lambda>artifact.
     raise_if (artifact \<noteq> ''aruba-cert-renewer-'' @ tag @ ''-candidate'') (candidate_failure ''unexpected artifact name'')
    (res_bind (environ_text getenv ''IMAGE_NAME'' ''image_name'' IDENTITY_MAX_BYTES) (\<lambda>image_name.
     raise_if (image_name \<noteq> EXPECTED_IMAGE_NAME) (candidate_failure ''unexpected image name'')
    (res_bind (flag_value (environ_or_empty getenv ''IS_GITHUB_PRERELEASE'') ''github_prerelease'') (\<lambda>prerelease.
     res_bind (flag_value (environ_or_empty getenv ''PUBLISH_LATEST'') ''publish_latest'') (\<lambda>latest.
     raise_if (latest \<noteq> (\<not> prerelease \<and> CHR ''-'' \<notin> set tag))
       (candidate_failure ''publish_latest is inconsistent with the release'')
       (Inr \<lparr>repository_id = repository_number, workflow_ref = ref, workflow_sha = workflow, run_id = run_number,
          run_attempt = attempt, release_id = release_number, artifact_name = artifact, release_tag = tag,
          tag_object_sha = tag_object, source_sha = source, github_prerelease = prerelease,
          publish_latest = latest\<rparr>))))))))))))))))))))))"

section \<open>The canonical text of a document\<close>

text \<open>
  \<^verbatim>\<open>json.dumps\<close> with sorted keys and \<^verbatim>\<open>ensure_ascii=False\<close>, and the UTF-8 bytes of the text.  The manifest
  holds no float; one is written as an empty string here.
\<close>

definition escape_text_char :: "char \<Rightarrow> string" where
  "escape_text_char c = (if code c < 127 then escape_char c else [c])"

definition text_literal :: "string \<Rightarrow> string" where
  "text_literal s = CHR 0x22 # concat (map escape_text_char s) @ [CHR 0x22]"

fun sorted_keys :: "json \<Rightarrow> json"
and sorted_list :: "json list \<Rightarrow> json list"
and sorted_pairs :: "(string \<times> json) list \<Rightarrow> (string \<times> json) list" where
  "sorted_keys (JList xs) = JList (sorted_list xs)"
| "sorted_keys (JObj ps) = JObj (sort_key fst (sorted_pairs ps))"
| "sorted_keys j = j"
| "sorted_list [] = []"
| "sorted_list (x # xs) = sorted_keys x # sorted_list xs"
| "sorted_pairs [] = []"
| "sorted_pairs ((k, v) # ps) = (k, sorted_keys v) # sorted_pairs ps"

fun text_of :: "json \<Rightarrow> string"
and texts_of :: "json list \<Rightarrow> string list"
and fields_of :: "(string \<times> json) list \<Rightarrow> string list" where
  "text_of JNull = ''null''"
| "text_of (JBool b) = (if b then ''true'' else ''false'')"
| "text_of (JInt i) = str_int i"
| "text_of (JStr s) = text_literal s"
| "text_of (JList xs) = ''['' @ join '','' (texts_of xs) @ '']''"
| "text_of (JObj ps) = ''{'' @ join '','' (fields_of ps) @ ''}''"
| "text_of _ = []"
| "texts_of [] = []"
| "texts_of (x # xs) = text_of x # texts_of xs"
| "fields_of [] = []"
| "fields_of ((k, v) # ps) = (text_literal k @ '':'' @ text_of v) # fields_of ps"

definition encode_utf8 :: "string \<Rightarrow> string" where
  "encode_utf8 s = concat (map (\<lambda>c. if code c < 128 then [c]
     else [char_of (192 + code c div 64), char_of (128 + code c mod 64)]) s)"

definition canonical_json :: "json \<Rightarrow> string" where
  "canonical_json value = encode_utf8 (text_of (sorted_keys value) @ [newline])"

section \<open>The candidate\<close>

definition manifest_json :: "release \<Rightarrow> int \<Rightarrow> string \<Rightarrow> archive_identity \<Rightarrow> int \<Rightarrow> string \<Rightarrow> json" where
  "manifest_json release archive_size archive_hash identity sbom_size sbom_hash =
     (let optional = case_option JNull JStr in
      JObj [(''schema_version'', JInt 2),
        (''repository'', JStr EXPECTED_REPOSITORY),
        (''repository_id'', JInt (repository_id release)),
        (''workflow_ref'', JStr (workflow_ref release)),
        (''workflow_sha'', JStr (workflow_sha release)),
        (''run_id'', JInt (run_id release)),
        (''run_attempt'', JInt (run_attempt release)),
        (''release_id'', JInt (release_id release)),
        (''artifact_name'', JStr (artifact_name release)),
        (''release_tag'', JStr (release_tag release)),
        (''tag_object_sha'', JStr (tag_object_sha release)),
        (''source_sha'', JStr (source_sha release)),
        (''github_prerelease'', JBool (github_prerelease release)),
        (''publish_latest'', JBool (publish_latest release)),
        (''image_name'', JStr EXPECTED_IMAGE_NAME),
        (''archive'', JObj [(''name'', JStr ARCHIVE_NAME), (''size'', JInt archive_size), (''sha256'', JStr archive_hash),
          (''format'', JStr (identity_format identity)), (''reference'', JStr EXPECTED_CANDIDATE_IMAGE),
          (''config_digest'', JStr (config_digest identity)),
          (''layer_diff_ids'', JList (map JStr (layer_diff_ids identity))),
          (''manifest_digest'', optional (identity_manifest identity)),
          (''index_digest'', optional (identity_index identity)),
          (''syft_manifest_digest'', JStr (syft_manifest_digest identity))]),
        (''sbom'', JObj [(''name'', JStr SBOM_NAME), (''size'', JInt sbom_size), (''sha256'', JStr sbom_hash)])])"

text \<open>Everything before the archive is inspected: the directory, the release, the archive's size.\<close>

definition open_candidate ::
  "disk \<Rightarrow> environment \<Rightarrow> string \<Rightarrow> (release \<times> int \<times> string \<times> tar_archive) files" where
  "open_candidate disk getenv handoff =
     bind (perform disk (IsDir handoff)) (\<lambda>is_directory.
     bind (if flag_of is_directory then perform disk (IsSymlink handoff) else ret (Flag True)) (\<lambda>is_link.
     seq (check (flag_of is_link) (candidate_failure ''handoff path must be an existing real directory''))
    (bind (perform disk (ListNames handoff)) (\<lambda>names.
     seq (check (set (names_of names) \<noteq> {ARCHIVE_NAME})
       (candidate_failure ''handoff directory must initially contain only the archive''))
    (bind (lift (read_release getenv)) (\<lambda>release.
     bind (regular_file disk (in_directory handoff ARCHIVE_NAME) ARCHIVE_MAX_BYTES) (\<lambda>archive_size.
     bind (perform disk (ReadArchive (in_directory handoff ARCHIVE_NAME))) (\<lambda>reply.
       ret (release, archive_size, archive_of reply)))))))))"

definition accept_sbom :: "scanner \<Rightarrow> disk \<Rightarrow> archive_identity \<Rightarrow> string \<Rightarrow> unit files" where
  "accept_sbom scanner disk identity path =
     bind (read_json scanner disk path SBOM_MAX_BYTES) (\<lambda>(document, raw).
       lift (validate_spdx document (config_digest identity) (syft_manifest_digest identity)))"

text \<open>From the inspected archive to the manifest, which is not yet a file.\<close>

definition prepare_manifest ::
  "'z library \<Rightarrow> disk \<Rightarrow> string \<Rightarrow> string \<Rightarrow> release \<Rightarrow> int \<Rightarrow> archive_identity \<Rightarrow> json files" where
  "prepare_manifest lib disk handoff sbom_source release archive_size identity =
     (let archive = in_directory handoff ARCHIVE_NAME; sbom_destination = in_directory handoff SBOM_NAME in
     seq (accept_sbom (json_scanner lib) disk identity sbom_source)
    (bind (regular_file disk sbom_source SBOM_MAX_BYTES) (\<lambda>source_size.
     seq (copy_exclusive disk sbom_source sbom_destination source_size)
    (seq (accept_sbom (json_scanner lib) disk identity sbom_destination)
    (bind (regular_file disk sbom_destination SBOM_MAX_BYTES) (\<lambda>sbom_size.
     bind (sha256_file lib disk archive archive_size) (\<lambda>archive_hash.
     bind (sha256_file lib disk sbom_destination sbom_size) (\<lambda>sbom_hash.
       ret (manifest_json release archive_size archive_hash identity sbom_size sbom_hash)))))))))"

definition write_manifest :: "disk \<Rightarrow> string \<Rightarrow> json \<Rightarrow> json files" where
  "write_manifest disk handoff manifest =
     (let manifest_bytes = canonical_json manifest; manifest_path = in_directory handoff MANIFEST_NAME in
     seq (check (int (length manifest_bytes) > MANIFEST_MAX_BYTES)
       (candidate_failure ''candidate manifest exceeds its size bound''))
    (seq (perform_only disk (OpenNew manifest_path))
    (seq (try_finally (perform_only disk (WriteNew manifest_path manifest_bytes))
       (\<lambda>_. perform_only disk (CloseNew manifest_path)))
    (bind (perform disk (ListNames handoff)) (\<lambda>names.
     seq (check (set (names_of names) \<noteq> {MANIFEST_NAME, ARCHIVE_NAME, SBOM_NAME})
       (candidate_failure ''candidate inventory changed during manifest creation''))
       (ret manifest))))))"

text \<open>\<^verbatim>\<open>create_candidate\<close>: \<open>None\<close> where the inspection of the archive never ends.\<close>

definition create_candidate ::
  "'z library \<Rightarrow> (string \<Rightarrow> string \<times> exn option) \<Rightarrow> (string \<Rightarrow> string \<times> exn option) \<Rightarrow> disk \<Rightarrow> environment \<Rightarrow>
   string \<Rightarrow> string \<Rightarrow> history \<Rightarrow> (json res \<times> history) option" where
  "create_candidate lib gunzip bunzip disk getenv handoff sbom_source h =
     (case open_candidate disk getenv handoff h of
        (Inl e, h1) \<Rightarrow> Some (Inl e, h1)
      | (Inr (release, archive_size, content, archive), h1) \<Rightarrow>
          (case inspect_archive lib gunzip bunzip content archive of
             None \<Rightarrow> None
           | Some (Inl e) \<Rightarrow> Some (Inl e, h1)
           | Some (Inr identity) \<Rightarrow>
               Some (bind (prepare_manifest lib disk handoff sbom_source release archive_size identity)
                 (write_manifest disk handoff) h1)))"

text \<open>\<^verbatim>\<open>main\<close>: the exit status and what is printed on standard error.\<close>

definition candidate_main ::
  "'z library \<Rightarrow> (string \<Rightarrow> string \<times> exn option) \<Rightarrow> (string \<Rightarrow> string \<times> exn option) \<Rightarrow> disk \<Rightarrow> environment \<Rightarrow>
   string list \<Rightarrow> history \<Rightarrow> ((int \<times> string) res \<times> history) option" where
  "candidate_main lib gunzip bunzip disk getenv arguments h =
     (case arguments of
        [handoff, sbom_source] \<Rightarrow>
          (case create_candidate lib gunzip bunzip disk getenv handoff sbom_source h of
             None \<Rightarrow> None
           | Some (Inr _, h') \<Rightarrow> Some (Inr (0, []), h')
           | Some (Inl exc, h') \<Rightarrow>
               Some (if isinstance_any exc [CandidateError, OSError]
                 then Inr (1, ''release candidate error: '' @ exn_text exc @ [newline]) else Inl exc, h'))
      | _ \<Rightarrow> Some (Inr (2, ''usage: release_candidate.py HANDOFF_DIRECTORY SPDX_JSON'' @ [newline]), h))"

section \<open>What the files go through\<close>

text \<open>\<open>grown P h h'\<close>: the history \<open>h'\<close> is \<open>h\<close> and further actions, all in \<open>P\<close>.\<close>

definition grown :: "(file_action \<Rightarrow> bool) \<Rightarrow> history \<Rightarrow> history \<Rightarrow> bool" where
  "grown P h h' = (\<exists>more. h' = h @ more \<and> list_all (\<lambda>event. P (fst event)) more)"

lemma grown_refl [simp]: "grown P h h"
  by (simp add: grown_def)

lemma grown_step: "grown P h h' \<Longrightarrow> P a \<Longrightarrow> grown P h (h' @ [(a, reply)])"
  by (auto simp: grown_def)

lemma grown_not_in:
  assumes "grown P h h'" and "\<not> P a"
  shows "(a, reply) \<in> set h' \<longleftrightarrow> (a, reply) \<in> set h"
  using assms by (force simp: grown_def list_all_iff)

lemma perform_run: "perform disk a h = (r, h') \<Longrightarrow> h' = h @ [(a, disk h a)]"
  by (auto simp: perform_def Let_def split: file_reply.splits)

lemma perform_Inr: "perform disk a h = (Inr reply, h') \<Longrightarrow> reply = disk h a \<and> h' = h @ [(a, reply)]"
  by (auto simp: perform_def Let_def split: file_reply.splits)

lemma keeps_case_prod [keeps_intros]:
  "(\<And>a b. keeps J (f a b)) \<Longrightarrow> keeps J (case p of (a, b) \<Rightarrow> f a b)"
  by (cases p) simp

lemma keeps_perform:
  assumes "P a"
  shows "keeps (grown P h) (perform disk a)" "keeps (grown P h) (perform_only disk a)"
proof -
  show "keeps (grown P h) (perform disk a)"
    by (rule keepsI, rule postI) (use assms in \<open>auto dest!: perform_run intro: grown_step\<close>)
  then show "keeps (grown P h) (perform_only disk a)"
    unfolding perform_only_def by (intro keeps_intros)
qed

lemma keeps_read_chunks:
  assumes "P (ReadChunk path)"
  shows "keeps (grown P h) (read_chunks disk path limit n)"
proof (rule keepsI, rule postI)
  show "grown P h s \<Longrightarrow> read_chunks disk path limit n s = (r, s') \<Longrightarrow> grown P h s'" for s r s'
    using assms
  proof (induction disk path limit n s arbitrary: r s' rule: read_chunks.induct)
    case (1 disk path limit n s)
    have step: "grown P h (s @ [(ReadChunk path, disk s (ReadChunk path))])"
      using "1.prems"(1,3) by (rule grown_step)
    show ?case
    proof (cases "perform disk (ReadChunk path) s")
      case (Pair r1 h1)
      from perform_run [OF Pair] step have h1: "grown P h h1" by simp
      show ?thesis
      proof (cases r1)
        case (Inl e)
        with Pair "1.prems"(2) h1 show ?thesis by (subst (asm) read_chunks.simps) simp
      next
        case (Inr reply)
        note run = Pair [unfolded Inr]
        show ?thesis
        proof (cases "content_of reply = [] \<or> n + int (length (content_of reply)) > limit")
          case True
          with run "1.prems"(2) h1 show ?thesis
            by (subst (asm) read_chunks.simps) (auto simp: Let_def split: if_splits)
        next
          case False
          obtain r2 h2 where rest: "read_chunks disk path limit (n + int (length (content_of reply))) h1 = (r2, h2)"
            by fastforce
          have "grown P h h2"
            by (rule "1.IH" [OF run [symmetric] refl refl refl _ _ h1 rest]) (use False "1.prems"(3) in auto)
          moreover from rest run False "1.prems"(2) have "s' = h2"
            by (subst (asm) (2) read_chunks.simps) (auto simp: Let_def split: sum.splits)
          ultimately show ?thesis by simp
        qed
      qed
    qed
  qed
qed

lemma keeps_copy_chunks:
  assumes "P (ReadChunk source)" and "\<And>chunk. P (WriteNew destination chunk)"
  shows "keeps (grown P h) (copy_chunks disk source destination limit n)"
proof (rule keepsI, rule postI)
  show "grown P h s \<Longrightarrow> copy_chunks disk source destination limit n s = (r, s') \<Longrightarrow> grown P h s'" for s r s'
    using assms
  proof (induction disk source destination limit n s arbitrary: r s' rule: copy_chunks.induct)
    case (1 disk source destination limit n s)
    have step: "grown P h (s @ [(ReadChunk source, disk s (ReadChunk source))])"
      using "1.prems"(1,3) by (rule grown_step)
    show ?case
    proof (cases "perform disk (ReadChunk source) s")
      case (Pair r1 h1)
      from perform_run [OF Pair] step have h1: "grown P h h1" by simp
      show ?thesis
      proof (cases r1)
        case (Inl e)
        with Pair "1.prems"(2) h1 show ?thesis by (subst (asm) copy_chunks.simps) simp
      next
        case (Inr reply)
        note run = Pair [unfolded Inr]
        show ?thesis
        proof (cases "content_of reply = [] \<or> n + int (length (content_of reply)) > limit")
          case True
          with run "1.prems"(2) h1 show ?thesis
            by (subst (asm) copy_chunks.simps) (auto simp: Let_def split: if_splits)
        next
          case False
          obtain r2 h2 where wrote: "perform disk (WriteNew destination (content_of reply)) h1 = (r2, h2)"
            by fastforce
          from perform_run [OF wrote] grown_step [OF h1 "1.prems"(4)] have h2: "grown P h h2" by simp
          show ?thesis
          proof (cases r2)
            case (Inl e)
            with run wrote False "1.prems"(2) h2 show ?thesis
              by (subst (asm) copy_chunks.simps) (auto simp: Let_def)
          next
            case (Inr x)
            from run wrote [unfolded Inr] False "1.prems"(2) have rest:
              "copy_chunks disk source destination limit (n + int (length (content_of reply))) h2 = (r, s')"
              by (subst (asm) copy_chunks.simps) (auto simp: Let_def)
            show ?thesis
              by (rule "1.IH" [OF run [symmetric] refl refl refl _ _ wrote [unfolded Inr, symmetric] refl h2 rest])
                 (use False "1.prems"(3,4) in auto)
          qed
        qed
      qed
    qed
  qed
qed

text \<open>What a file has given when it was read to its end.\<close>

definition read_in_full :: "string \<Rightarrow> string \<Rightarrow> history \<Rightarrow> bool" where
  "read_in_full path bytes h =
     (\<exists>earlier chunks ending later. content_of ending = [] \<and> concat chunks = bytes \<and>
        h = earlier @ map (\<lambda>chunk. (ReadChunk path, Content chunk)) chunks @ (ReadChunk path, ending) # later)"

lemma read_in_full_grown: "read_in_full path bytes h \<Longrightarrow> grown P h h' \<Longrightarrow> read_in_full path bytes h'"
  unfolding read_in_full_def grown_def by fastforce

lemma read_chunks_Inr:
  "read_chunks disk path limit n h = (Inr bytes, h') \<Longrightarrow>
     \<exists>chunks ending. content_of ending = [] \<and> concat chunks = bytes \<and>
       h' = h @ map (\<lambda>chunk. (ReadChunk path, Content chunk)) chunks @ [(ReadChunk path, ending)]"
proof (induction disk path limit n h arbitrary: bytes h' rule: read_chunks.induct)
  case (1 disk path limit n h)
  from "1.prems" obtain reply h1 where run: "perform disk (ReadChunk path) h = (Inr reply, h1)"
    by (subst (asm) read_chunks.simps) (auto split: prod.splits sum.splits)
  note p = perform_Inr [OF run]
  show ?case
  proof (cases "content_of reply = []")
    case True
    with run "1.prems" have "bytes = [] \<and> h' = h1" by (subst (asm) read_chunks.simps) simp
    with p True show ?thesis by (intro exI [of _ "[]"] exI [of _ reply]) simp
  next
    case False
    then have content: "reply = Content (content_of reply)"
      by (cases reply) (simp_all add: content_of_def)
    from run False "1.prems" obtain rest where ok: "\<not> n + int (length (content_of reply)) > limit"
        "bytes = content_of reply @ rest"
        "read_chunks disk path limit (n + int (length (content_of reply))) h1 = (Inr rest, h')"
      by (subst (asm) read_chunks.simps) (auto simp: Let_def split: if_splits sum.splits prod.splits)
    from "1.IH" [OF run [symmetric] refl refl refl False ok(1,3)] obtain chunks ending where
      "content_of ending = []" "concat chunks = rest"
      "h' = h1 @ map (\<lambda>chunk. (ReadChunk path, Content chunk)) chunks @ [(ReadChunk path, ending)]"
      by blast
    with p content ok(2) show ?thesis
      by (intro exI [of _ "content_of reply # chunks"] exI [of _ ending]) simp
  qed
qed

lemma sha256_file_Inr:
  assumes "sha256_file lib disk path expected h = (Inr hash, h')"
  shows "\<exists>bytes. hash = sha256 lib bytes \<and> int (length bytes) = expected \<and> read_in_full path bytes h'"
proof -
  from assms obtain h1 h2 bytes where run: "read_chunks disk path expected 0 h1 = (Inr bytes, h2)"
      "perform_only disk (CloseRead path) h2 = (Inr (), h')" "int (length bytes) = expected" "hash = sha256 lib bytes"
    unfolding sha256_file_def by (auto simp: run_success)
  from run(2) obtain reply where "h' = h2 @ [(CloseRead path, reply)]"
    unfolding perform_only_def by (auto simp: run_success dest: perform_Inr)
  with read_chunks_Inr [OF run(1)] have "read_in_full path bytes h'"
    unfolding read_in_full_def by fastforce
  with run show ?thesis by blast
qed

section \<open>The manifest is the last file to be written\<close>

definition writes_to :: "string \<Rightarrow> file_action \<Rightarrow> bool" where
  "writes_to path a =
     (case a of OpenNew p \<Rightarrow> p = path | WriteNew p bs \<Rightarrow> p = path | CloseNew p \<Rightarrow> p = path | _ \<Rightarrow> False)"

lemma writes_to_simps [simp]:
  "writes_to path (OpenNew p) \<longleftrightarrow> p = path" "writes_to path (WriteNew p bs) \<longleftrightarrow> p = path"
  "writes_to path (CloseNew p) \<longleftrightarrow> p = path"
  "\<not> writes_to path (IsDir p)" "\<not> writes_to path (IsSymlink p)" "\<not> writes_to path (ListNames p)"
  "\<not> writes_to path (Lstat p)" "\<not> writes_to path (ReadBytes p)" "\<not> writes_to path (ReadArchive p)"
  "\<not> writes_to path (OpenRead p)" "\<not> writes_to path (ReadChunk p)" "\<not> writes_to path (CloseRead p)"
  by (simp_all add: writes_to_def)

text \<open>\<open>spares path m\<close>: whatever \<open>m\<close> does, it does not write to \<open>path\<close>.\<close>

definition spares :: "string \<Rightarrow> 'a files \<Rightarrow> bool" where
  "spares path m = (\<forall>h. keeps (grown (\<lambda>a. \<not> writes_to path a) h) m)"

lemma sparesI: "(\<And>h. keeps (grown (\<lambda>a. \<not> writes_to path a) h) m) \<Longrightarrow> spares path m"
  by (simp add: spares_def)

lemma sparesD: "spares path m \<Longrightarrow> m h = (r, h') \<Longrightarrow> grown (\<lambda>a. \<not> writes_to path a) h h'"
  unfolding spares_def by (metis grown_refl keepsD)

lemma keeps_regular_file: "keeps (grown (\<lambda>a. \<not> writes_to path a) h) (regular_file disk p limit)"
  unfolding regular_file_def by (intro keeps_intros keeps_perform) simp

lemma keeps_accept_sbom: "keeps (grown (\<lambda>a. \<not> writes_to path a) h) (accept_sbom scanner disk identity p)"
  unfolding accept_sbom_def read_json_def Let_def
  by (intro keeps_intros keeps_perform keeps_regular_file) simp_all

lemma keeps_sha256_file: "keeps (grown (\<lambda>a. \<not> writes_to path a) h) (sha256_file lib disk p limit)"
  unfolding sha256_file_def by (intro keeps_intros keeps_perform keeps_read_chunks) simp_all

lemma keeps_copy_exclusive:
  "destination \<noteq> path \<Longrightarrow> keeps (grown (\<lambda>a. \<not> writes_to path a) h) (copy_exclusive disk p destination limit)"
  unfolding copy_exclusive_def by (intro keeps_intros keeps_perform keeps_copy_chunks) simp_all

lemma manifest_path_distinct [simp]:
  "in_directory handoff SBOM_NAME \<noteq> in_directory handoff MANIFEST_NAME"
  by (simp add: in_directory_def SBOM_NAME_def MANIFEST_NAME_def)

lemma spares_prepare_manifest:
  "spares (in_directory handoff MANIFEST_NAME)
     (prepare_manifest lib disk handoff sbom_source release archive_size identity)"
  unfolding prepare_manifest_def Let_def
  by (intro sparesI keeps_intros keeps_accept_sbom keeps_regular_file keeps_copy_exclusive keeps_sha256_file) simp

lemma spares_open_candidate: "spares path (open_candidate disk getenv handoff)"
  unfolding open_candidate_def
  by (intro sparesI keeps_intros keeps_perform keeps_regular_file) simp_all

lemma read_json_Inr:
  assumes "read_json scanner disk path limit h = (Inr (document, raw), h')"
  shows "document_of scanner (path_name path) raw = Inr document \<and>
    (\<exists>reply. content_of reply = raw \<and> (ReadBytes path, reply) \<in> set h')"
  using assms unfolding read_json_def
  by (auto simp: run_success Let_def dest!: perform_Inr) 

lemma accept_sbom_Inr:
  assumes "accept_sbom scanner disk identity path h = (Inr u, h')"
  shows "\<exists>document raw reply. document_of scanner (path_name path) raw = Inr document \<and> content_of reply = raw \<and>
    (ReadBytes path, reply) \<in> set h' \<and>
    validate_spdx document (config_digest identity) (syft_manifest_digest identity) = Inr ()"
  using assms unfolding accept_sbom_def
  by (fastforce simp: run_success dest!: read_json_Inr)

lemma read_release_Inr:
  "read_release getenv = Inr release \<Longrightarrow>
     publish_latest release = (\<not> github_prerelease release \<and> CHR ''-'' \<notin> set (release_tag release)) \<and>
     workflow_sha release = source_sha release \<and> fullmatch candidate_tag_re (release_tag release)"
  unfolding read_release_def by (auto simp: res_bind_Inr_iff)

lemma open_candidate_Inr:
  assumes "open_candidate disk getenv handoff h = (Inr (release, archive_size, content, archive), h')"
  shows "read_release getenv = Inr release \<and>
    (\<exists>reply. archive_of reply = (content, archive) \<and> (ReadArchive (in_directory handoff ARCHIVE_NAME), reply) \<in> set h')"
  using assms unfolding open_candidate_def
  by (auto simp: run_success dest!: perform_Inr)

text \<open>
  What stands behind a manifest: the release in the environment, the archive as it was inspected, the copy of
  the bill of materials as it was accepted for the archive's identity, and the sizes and hashes of both files
  as they were read.
\<close>

definition justified ::
  "'z library \<Rightarrow> (string \<Rightarrow> string \<times> exn option) \<Rightarrow> (string \<Rightarrow> string \<times> exn option) \<Rightarrow> environment \<Rightarrow>
   string \<Rightarrow> history \<Rightarrow> json \<Rightarrow> bool" where
  "justified lib gunzip bunzip getenv handoff h manifest =
     (let archive_path = in_directory handoff ARCHIVE_NAME; sbom_path = in_directory handoff SBOM_NAME in
      \<exists>release identity archive_bytes sbom_bytes content archive document inspected accepted.
        read_release getenv = Inr release \<and>
        archive_of inspected = (content, archive) \<and> (ReadArchive archive_path, inspected) \<in> set h \<and>
        inspect_archive lib gunzip bunzip content archive = Some (Inr identity) \<and>
        (ReadBytes sbom_path, accepted) \<in> set h \<and>
        document_of (json_scanner lib) SBOM_NAME (content_of accepted) = Inr document \<and>
        validate_spdx document (config_digest identity) (syft_manifest_digest identity) = Inr () \<and>
        read_in_full archive_path archive_bytes h \<and> read_in_full sbom_path sbom_bytes h \<and>
        manifest = manifest_json release (int (length archive_bytes)) (sha256 lib archive_bytes) identity
          (int (length sbom_bytes)) (sha256 lib sbom_bytes))"

lemma path_name_sbom: "path_name (in_directory handoff SBOM_NAME) = SBOM_NAME"
proof -
  have split: "\<exists>p ps. split_on CHR ''/'' (handoff @ ''/'' @ name) = p # ps @ [name]" if "CHR ''/'' \<notin> set name" for name
  proof (induction handoff)
    case Nil
    have "split_on CHR ''/'' name = [name]" using that by (induction name) auto
    then show ?case by simp
  next
    case (Cons c s)
    then obtain p ps where "split_on CHR ''/'' (s @ ''/'' @ name) = p # ps @ [name]" by blast
    then show ?case by (cases "c = CHR ''/''") auto
  qed
  obtain p ps where "split_on CHR ''/'' (handoff @ ''/'' @ SBOM_NAME) = p # ps @ [SBOM_NAME]"
    using split [of SBOM_NAME] by (auto simp: SBOM_NAME_def)
  moreover have "filter (\<lambda>part. part \<noteq> [] \<and> part \<noteq> ''.'') [SBOM_NAME] = [SBOM_NAME]"
    by (simp add: SBOM_NAME_def)
  moreover have "(case qs @ [x] of [] \<Rightarrow> [] | parts \<Rightarrow> last parts) = x" for qs and x :: string
    by (cases qs) simp_all
  ultimately show ?thesis
    by (simp only: path_name_def in_directory_def filter.simps(2) [of _ p] filter_append append_Cons [symmetric] split: if_split)
qed

lemma prepare_manifest_Inr:
  assumes run: "prepare_manifest lib disk handoff sbom_source release archive_size identity h = (Inr manifest, h')"
  shows "\<exists>archive_bytes sbom_bytes document accepted.
    (ReadBytes (in_directory handoff SBOM_NAME), accepted) \<in> set h' \<and>
    document_of (json_scanner lib) SBOM_NAME (content_of accepted) = Inr document \<and>
    validate_spdx document (config_digest identity) (syft_manifest_digest identity) = Inr () \<and>
    read_in_full (in_directory handoff ARCHIVE_NAME) archive_bytes h' \<and>
    read_in_full (in_directory handoff SBOM_NAME) sbom_bytes h' \<and>
    manifest = manifest_json release (int (length archive_bytes)) (sha256 lib archive_bytes) identity
      (int (length sbom_bytes)) (sha256 lib sbom_bytes)"
proof -
  let ?sbom = "in_directory handoff SBOM_NAME" and ?archive = "in_directory handoff ARCHIVE_NAME"
  from run obtain h1 h2 h3 sbom_size archive_hash sbom_hash where
      accept: "accept_sbom (json_scanner lib) disk identity ?sbom h1 = (Inr (), h2)"
    and tail: "regular_file disk ?sbom SBOM_MAX_BYTES h2 = (Inr sbom_size, h3)"
    and hash: "\<exists>h4. sha256_file lib disk ?archive archive_size h3 = (Inr archive_hash, h4) \<and>
      sha256_file lib disk ?sbom sbom_size h4 = (Inr sbom_hash, h')"
    and manifest: "manifest = manifest_json release archive_size archive_hash identity sbom_size sbom_hash"
    unfolding prepare_manifest_def Let_def by (auto simp: run_success)
  from hash obtain h4 where ha: "sha256_file lib disk ?archive archive_size h3 = (Inr archive_hash, h4)"
    and hs: "sha256_file lib disk ?sbom sbom_size h4 = (Inr sbom_hash, h')" by blast
  have "spares p (regular_file disk ?sbom SBOM_MAX_BYTES)" "spares p (sha256_file lib disk q n)" for p q n
    by (intro sparesI keeps_regular_file keeps_sha256_file)+
  with tail ha hs have more: "grown (\<lambda>a. \<not> writes_to [] a) h2 h3" "grown (\<lambda>a. \<not> writes_to [] a) h3 h4"
      "grown (\<lambda>a. \<not> writes_to [] a) h4 h'" by (blast dest: sparesD)+
  then have "set h2 \<subseteq> set h'" by (auto simp: grown_def)
  with accept_sbom_Inr [OF accept] show ?thesis
    using sha256_file_Inr [OF ha] sha256_file_Inr [OF hs] read_in_full_grown [OF _ more(3)] manifest
    unfolding path_name_sbom by blast
qed

lemma write_manifest_writes:
  assumes "write_manifest disk handoff manifest h = (r, h')"
  shows "grown (\<lambda>a. writes_to (in_directory handoff MANIFEST_NAME) a \<longrightarrow>
    a \<in> {OpenNew (in_directory handoff MANIFEST_NAME), CloseNew (in_directory handoff MANIFEST_NAME),
      WriteNew (in_directory handoff MANIFEST_NAME) (canonical_json manifest)}) h h'"
proof -
  have "keeps (grown (\<lambda>a. writes_to (in_directory handoff MANIFEST_NAME) a \<longrightarrow>
      a \<in> {OpenNew (in_directory handoff MANIFEST_NAME), CloseNew (in_directory handoff MANIFEST_NAME),
        WriteNew (in_directory handoff MANIFEST_NAME) (canonical_json manifest)}) h) (write_manifest disk handoff manifest)"
    unfolding write_manifest_def Let_def by (intro keeps_intros keeps_perform) simp_all
  from keepsD [OF this grown_refl assms] show ?thesis .
qed

text \<open>
  C8. Nothing is written to the manifest of a release candidate, and it is not even created, unless everything
  it states has been established: the release of the environment is consistent, the archive was inspected and
  has the identity stated, the copy of the bill of materials was read back and accepted for that identity, and
  both files were read in full and have the sizes and hashes stated.  What is written is the canonical text of
  exactly that manifest.
\<close>

theorem manifest_is_justified:
  assumes run: "create_candidate lib gunzip bunzip disk getenv handoff sbom_source [] = Some (r, h)"
    and a: "(a, reply) \<in> set h" "writes_to (in_directory handoff MANIFEST_NAME) a"
  shows "\<exists>manifest. justified lib gunzip bunzip getenv handoff h manifest \<and>
    a \<in> {OpenNew (in_directory handoff MANIFEST_NAME), CloseNew (in_directory handoff MANIFEST_NAME),
      WriteNew (in_directory handoff MANIFEST_NAME) (canonical_json manifest)}"
proof -
  let ?m = "in_directory handoff MANIFEST_NAME"
  obtain r1 h1 where opened: "open_candidate disk getenv handoff [] = (r1, h1)" by fastforce
  from sparesD [OF spares_open_candidate opened] have "grown (\<lambda>a. \<not> writes_to ?m a) [] h1" .
  with a(2) have h1: "(a, reply) \<notin> set h1" by (simp add: grown_not_in [where P = "\<lambda>a. \<not> writes_to ?m a"])
  with run opened a(1) obtain release archive_size content archive identity where
      r1: "r1 = Inr (release, archive_size, content, archive)"
    and inspected: "inspect_archive lib gunzip bunzip content archive = Some (Inr identity)"
    and finish: "bind (prepare_manifest lib disk handoff sbom_source release archive_size identity)
      (write_manifest disk handoff) h1 = (r, h)"
    unfolding create_candidate_def by (auto split: sum.splits option.splits)
  note start = open_candidate_Inr [OF opened [unfolded r1]]
  obtain r2 h2 where prepared: "prepare_manifest lib disk handoff sbom_source release archive_size identity h1 = (r2, h2)"
    by fastforce
  note spared = sparesD [OF spares_prepare_manifest prepared]
  with a(2) h1 have h2: "(a, reply) \<notin> set h2" by (simp add: grown_not_in [OF spared])
  with finish prepared a(1) obtain manifest where r2: "r2 = Inr manifest"
      and wrote: "write_manifest disk handoff manifest h2 = (r, h)"
    by (cases r2) (auto simp: bind_def)
  note written = write_manifest_writes [OF wrote]
  with a h2 have allowed: "a \<in> {OpenNew ?m, CloseNew ?m, WriteNew ?m (canonical_json manifest)}"
    by (force simp: grown_def list_all_iff)
  from spared written have "set h1 \<subseteq> set h2" "set h2 \<subseteq> set h" by (auto simp: grown_def)
  with start prepare_manifest_Inr [OF prepared [unfolded r2]] inspected read_in_full_grown [OF _ written]
  have "justified lib gunzip bunzip getenv handoff h manifest"
    unfolding justified_def Let_def by blast
  with allowed show ?thesis by blast
qed

section \<open>A candidate that is made\<close>

definition sample_environment :: environment where
  "sample_environment = map_of
     [(''GITHUB_REPOSITORY'', ''lloydsmart/aruba-cert-renewer''), (''GITHUB_REPOSITORY_ID'', ''1''), (''GITHUB_RUN_ID'', ''2''),
      (''GITHUB_RUN_ATTEMPT'', ''1''), (''RELEASE_ID'', ''3''), (''RELEASE_TAG'', ''v1.0.0''),
      (''SOURCE_SHA'', replicate 40 CHR ''b''), (''TAG_OBJECT_SHA'', replicate 40 CHR ''c''),
      (''GITHUB_WORKFLOW_SHA'', replicate 40 CHR ''b''),
      (''GITHUB_WORKFLOW_REF'',
        ''lloydsmart/aruba-cert-renewer/.github/workflows/publish-container.yml@refs/tags/v1.0.0''),
      (''ARTIFACT_NAME'', ''aruba-cert-renewer-v1.0.0-candidate''), (''IMAGE_NAME'', ''ghcr.io/lloydsmart/aruba-cert-renewer''),
      (''IS_GITHUB_PRERELEASE'', ''false''), (''PUBLISH_LATEST'', ''true'')]"

definition sample_release :: release where
  "sample_release = \<lparr>repository_id = 1,
     workflow_ref = ''lloydsmart/aruba-cert-renewer/.github/workflows/publish-container.yml@refs/tags/v1.0.0'',
     workflow_sha = replicate 40 CHR ''b'', run_id = 2, run_attempt = 1, release_id = 3,
     artifact_name = ''aruba-cert-renewer-v1.0.0-candidate'', release_tag = ''v1.0.0'',
     tag_object_sha = replicate 40 CHR ''c'', source_sha = replicate 40 CHR ''b'',
     github_prerelease = False, publish_latest = True\<rparr>"

text \<open>Every file holds one byte, which is there when the file has just been opened.\<close>

definition sample_disk :: disk where
  "sample_disk h a =
     (case a of
        IsDir p \<Rightarrow> Flag True
      | IsSymlink p \<Rightarrow> Flag False
      | ListNames p \<Rightarrow> Names (if length h < 5 then [ARCHIVE_NAME] else [MANIFEST_NAME, ARCHIVE_NAME, SBOM_NAME])
      | Lstat p \<Rightarrow> Status \<lparr>st_kind = RegularFile, st_perm = 384, st_uid = 0, st_gid = 0, st_dev = 1, st_ino = 1,
          st_nlink = 1, st_size = 1\<rparr>
      | ReadBytes p \<Rightarrow> Content ''s''
      | ReadArchive p \<Rightarrow> Archive (sample_header @ replicate 1024 nul) sample_tar
      | ReadChunk p \<Rightarrow> Content (if h \<noteq> [] \<and> fst (last h) = OpenRead p then ''s'' else [])
      | _ \<Rightarrow> Done)"

lemma sample_release_read: "read_release sample_environment = Inr sample_release"
  by code_simp

lemma sample_perform:
  "perform sample_disk a h = (Inr (sample_disk h a), h @ [(a, sample_disk h a)])"
  by (simp add: perform_def sample_disk_def Let_def split: file_action.splits)

lemma sample_perform_only: "perform_only sample_disk a h = (Inr (), h @ [(a, sample_disk h a)])"
  by (simp add: perform_only_def bind_def ret_def sample_perform)

lemmas sample_runs = bind_def seq_def ret_def lift_def check_def raise_def try_except_def try_finally_def
  sample_perform sample_perform_only

lemma sample_regular_file:
  "1 \<le> limit \<Longrightarrow> \<exists>h'. regular_file sample_disk p limit h = (Inr 1, h')"
  by (simp add: regular_file_def sample_runs status_of_def sample_disk_def)

lemma sample_accept: "\<exists>h'. accept_sbom sample_scanner sample_disk sample_identity p h = (Inr (), h')"
proof -
  obtain h' where "regular_file sample_disk p SBOM_MAX_BYTES h = (Inr 1, h')"
    using sample_regular_file [of SBOM_MAX_BYTES p h] by (auto simp: SBOM_MAX_BYTES_def)
  moreover have "safe_json (JObj sample_sbom)" by code_simp
  then have "strict_json t (JObj sample_sbom) = Inr (JObj sample_sbom)" for t
    by (simp only: strict_json_iff simp_thms)
  then have "document_of sample_scanner n ''s'' = Inr sample_sbom" for n
    by (simp add: document_of_def parse_strict_def sample_scanner_def utf8_bom_def code_def del: strict_json.simps)
  moreover have "content_of (sample_disk h' (ReadBytes p)) = ''s''"
    by (simp add: sample_disk_def content_of_def)
  moreover have "validate_spdx sample_sbom (config_digest sample_identity) (syft_manifest_digest sample_identity) = Inr ()"
    unfolding sample_identity_def archive_identity.simps by (rule sample_sbom_accepted)
  ultimately show ?thesis
    by (simp add: accept_sbom_def read_json_def sample_runs Let_def)
qed

lemma sample_sha256_file: "\<exists>h'. sha256_file sample_library sample_disk p 1 h = (Inr sample_hash, h')"
  by (simp add: sha256_file_def sample_runs read_chunks.simps [of _ _ 1] content_of_def sample_disk_def
      sample_library_def Let_def)

lemma sample_copy: "\<exists>h'. copy_exclusive sample_disk p q 1 h = (Inr (), h')"
  by (simp add: copy_exclusive_def sample_runs copy_chunks.simps [of _ _ _ 1] content_of_def sample_disk_def
      Let_def)

abbreviation sample_manifest :: json where
  "sample_manifest \<equiv> manifest_json sample_release 1 sample_hash sample_identity 1 sample_hash"

lemma sample_prepare:
  "\<exists>h'. prepare_manifest sample_library sample_disk handoff sbom_source sample_release 1 sample_identity h =
     (Inr sample_manifest, h')"
proof -
  have scanner: "json_scanner sample_library = sample_scanner" by (simp add: sample_library_def)
  let ?sbom = "in_directory handoff SBOM_NAME" and ?archive = "in_directory handoff ARCHIVE_NAME"
  have bound: "1 \<le> SBOM_MAX_BYTES" by (simp add: SBOM_MAX_BYTES_def)
  obtain h1 where 1: "accept_sbom sample_scanner sample_disk sample_identity sbom_source h = (Inr (), h1)"
    using sample_accept by blast
  obtain h2 where 2: "regular_file sample_disk sbom_source SBOM_MAX_BYTES h1 = (Inr 1, h2)"
    using sample_regular_file [OF bound] by blast
  obtain h3 where 3: "copy_exclusive sample_disk sbom_source ?sbom 1 h2 = (Inr (), h3)"
    using sample_copy by blast
  obtain h4 where 4: "accept_sbom sample_scanner sample_disk sample_identity ?sbom h3 = (Inr (), h4)"
    using sample_accept by blast
  obtain h5 where 5: "regular_file sample_disk ?sbom SBOM_MAX_BYTES h4 = (Inr 1, h5)"
    using sample_regular_file [OF bound] by blast
  obtain h6 where 6: "sha256_file sample_library sample_disk ?archive 1 h5 = (Inr sample_hash, h6)"
    using sample_sha256_file by blast
  obtain h7 where 7: "sha256_file sample_library sample_disk ?sbom 1 h6 = (Inr sample_hash, h7)"
    using sample_sha256_file by blast
  from 1 2 3 4 5 6 7 show ?thesis
    by (simp add: prepare_manifest_def Let_def bind_def seq_def ret_def scanner)
qed


text \<open>A bound on the length of the canonical text that does not depend on the order of the keys.\<close>

fun extent :: "json \<Rightarrow> nat"
and extents :: "json list \<Rightarrow> nat"
and field_extents :: "(string \<times> json) list \<Rightarrow> nat" where
  "extent (JStr s) = 2 + 6 * length s"
| "extent (JInt i) = length (str_int i)"
| "extent (JList xs) = 2 + extents xs"
| "extent (JObj ps) = 2 + field_extents ps"
| "extent _ = 5"
| "extents [] = 0"
| "extents (x # xs) = 1 + extent x + extents xs"
| "field_extents [] = 0"
| "field_extents ((k, v) # ps) = 4 + 6 * length k + extent v + field_extents ps"

lemma length_join: "length (join [c] ps) \<le> sum_list (map (\<lambda>p. 1 + length p) ps)"
  by (induction "[c]" ps rule: join.induct) auto

lemma length_text_literal: "length (text_literal s) \<le> 2 + 6 * length s"
proof -
  have "length (escape_text_char c) \<le> 6" for c by (simp add: escape_text_char_def escape_char_def)
  then have "length (concat (map escape_text_char s)) \<le> 6 * length s"
    by (induction s) (auto intro: order_trans add_mono)
  then show ?thesis by (simp add: text_literal_def)
qed

lemma length_text_of:
  "length (text_of j) \<le> extent j"
  "sum_list (map (\<lambda>p. 1 + length p) (texts_of xs)) \<le> extents xs"
  "sum_list (map (\<lambda>p. 1 + length p) (fields_of ps)) \<le> field_extents ps"
proof (induction j and xs and ps rule: text_of_texts_of_fields_of.induct)
  case (5 xs)
  then show ?case using length_join [of "CHR '',''" "texts_of xs"] by simp
next
  case (6 ps)
  then show ?case using length_join [of "CHR '',''" "fields_of ps"] by simp
next
  case (11 k v ps)
  then show ?case using length_text_literal [of k] by simp
qed (use length_text_literal in auto)

lemma field_extents_sum: "field_extents ps = sum_list (map (\<lambda>(k, v). 4 + 6 * length k + extent v) ps)"
  by (induction ps) auto

lemma extent_sorted:
  "extent (sorted_keys j) = extent j"
  "extents (sorted_list xs) = extents xs"
  "field_extents (sorted_pairs ps) = field_extents ps"
proof (induction j and xs and ps rule: sorted_keys_sorted_list_sorted_pairs.induct)
  case (2 ps)
  have "field_extents (sort_key fst qs) = field_extents qs" for qs
    unfolding field_extents_sum by (simp flip: sum_mset_sum_list)
  with 2 show ?case by simp
qed simp_all

lemma length_canonical_json: "length (canonical_json j) \<le> 2 * extent j + 2"
proof -
  have "length (encode_utf8 s) \<le> 2 * length s" for s
    by (induction s) (auto simp: encode_utf8_def)
  from this [of "text_of (sorted_keys j) @ [newline]"] length_text_of(1) [of "sorted_keys j"]
  show ?thesis by (simp add: canonical_json_def extent_sorted)
qed

lemma sample_manifest_size: "int (length (canonical_json sample_manifest)) \<le> MANIFEST_MAX_BYTES"
proof -
  have "extent sample_manifest \<le> 10000"
    by (simp add: manifest_json_def sample_release_def sample_identity_def sample_hash_def str_int_def
        str_nat.simps EXPECTED_REPOSITORY_def EXPECTED_IMAGE_NAME_def ARCHIVE_NAME_def SBOM_NAME_def
        EXPECTED_CANDIDATE_IMAGE_def)
  with length_canonical_json [of sample_manifest] show ?thesis
    by (simp add: MANIFEST_MAX_BYTES_def)
qed

lemma sample_opened:
  "\<exists>h'. open_candidate sample_disk sample_environment handoff [] =
     (Inr (sample_release, 1, sample_header @ replicate 1024 nul, sample_tar), h')"
proof -
  let ?archive = "in_directory handoff ARCHIVE_NAME"
  obtain h' where "regular_file sample_disk ?archive ARCHIVE_MAX_BYTES
      [(IsDir handoff, Flag True), (IsSymlink handoff, Flag False), (ListNames handoff, Names [ARCHIVE_NAME])] = (Inr 1, h')"
    using sample_regular_file [of ARCHIVE_MAX_BYTES ?archive] by (auto simp: ARCHIVE_MAX_BYTES_def)
  then show ?thesis
    by (simp add: open_candidate_def sample_runs sample_release_read sample_disk_def flag_of_def names_of_def
        archive_of_def)
qed

lemma sample_created:
  "\<exists>r h reply. create_candidate sample_library (\<lambda>content. ([], None)) (\<lambda>content. ([], None)) sample_disk
     sample_environment handoff sbom_source [] = Some (r, h) \<and>
     (WriteNew (in_directory handoff MANIFEST_NAME) (canonical_json sample_manifest), reply) \<in> set h"
proof -
  obtain h1 where 1: "open_candidate sample_disk sample_environment handoff [] =
      (Inr (sample_release, 1, sample_header @ replicate 1024 nul, sample_tar), h1)"
    using sample_opened by blast
  obtain h2 where 2: "prepare_manifest sample_library sample_disk handoff sbom_source sample_release 1 sample_identity h1 =
      (Inr sample_manifest, h2)"
    using sample_prepare by blast
  have "\<exists>r h reply. write_manifest sample_disk handoff sample_manifest h2 = (r, h) \<and>
      (WriteNew (in_directory handoff MANIFEST_NAME) (canonical_json sample_manifest), reply) \<in> set h"
    using sample_manifest_size by (auto simp: write_manifest_def sample_runs Let_def)
  with 1 2 show ?thesis
    by (auto simp: create_candidate_def sample_inspected bind_def)
qed

theorem manifest_is_justified_witness:
  "\<exists>h manifest. justified sample_library (\<lambda>content. ([], None)) (\<lambda>content. ([], None)) sample_environment ''out'' h manifest"
proof -
  obtain r h reply where "create_candidate sample_library (\<lambda>content. ([], None)) (\<lambda>content. ([], None)) sample_disk
      sample_environment ''out'' ''in'' [] = Some (r, h)"
    "(WriteNew (in_directory ''out'' MANIFEST_NAME) (canonical_json sample_manifest), reply) \<in> set h"
    using sample_created by blast
  from manifest_is_justified [OF this] show ?thesis by auto
qed

end
