(* ===== verification/Spec2Isabelle.thy ===== *)
theory Spec2Isabelle
  imports ConnectionPolicy JsonReport IpAddress CertificatePolicy OutputPolicy SampleRun HumanEffects IdentificationLines BoundedChannel ReleaseTag VulnerabilityGate CandidateManifest
begin

text \<open>
  A model of the Aruba certificate renewer: the program that renews the HTTPS certificates of ArubaOS-Switch
  devices (\<^verbatim>\<open>src/aruba_cert_renewer.py\<close> and the modules beside it) and the scripts that qualify its
  releases (\<^verbatim>\<open>scripts/\<close>).

  \<^bold>\<open>The program.\<close>  A run reads a configuration, selects switches and an operation, and for every switch lets
  the switch generate a key and a CSR, checks the CSR, sends it to an OPNsense certificate authority, checks
  the certificate that comes back, installs it through the interactive dialogue of the switch and verifies that
  the switch presents it.  A switch that has got a command must not be reported as untouched, a certificate must
  not be installed unchecked, two runs must not work on one switch at a time, and a peer must not be able to
  exhaust the memory or the time of a run.  The release scripts decide which changes need which checks, whether
  a tag and its signature name a release, whether a container image adds vulnerabilities, and which archive and
  bill of materials make up a release candidate.

  \<^bold>\<open>Foundations.\<close>
  \<^item> \<open>Prelude\<close>: exception classes with their inheritance, \<open>'a res\<close> for code that may raise, the monad
    \<open>('s, 'a) eff\<close> of state and exceptions with \<open>try_except\<close> and \<open>try_finally\<close>, Python's strings.
    \<open>Regex\<close>: the \<^verbatim>\<open>re\<close> module as a backtracking matcher, with its regular language; \<open>Calendar\<close>: dates;
    \<open>Json\<close>: documents, equality, duplicate keys, \<^verbatim>\<open>json.dumps\<close>; \<open>IpAddress\<close>: \<^verbatim>\<open>ipaddress.ip_address\<close>.
  \<^item> \<open>World\<close>: the environment of a run.  Every interaction is an \<open>action\<close> the environment \<open>'w env\<close> answers as it
    likes; the state \<open>'w st\<close> keeps the environment's own state, the trace of all actions and answers, the report
    under way and the local variables that handlers and \<^verbatim>\<open>finally\<close> clauses read.  \<open>keeps\<close>, \<open>does\<close> and the
    triples of \<open>Triples\<close> are the logic of such programs.

  \<^bold>\<open>The run\<close> (\<^verbatim>\<open>src/\<close>).
  \<^item> \<open>Configuration\<close>, \<open>Startup\<close>: the TOML file, switches, credentials, the order in which a run loads them.
    \<open>Identity\<close>: \<^verbatim>\<open>parse_identity\<close>.  \<open>CsrRequest\<close>: the command that creates a CSR.  \<open>CertificatePolicy\<close>:
    \<^verbatim>\<open>validate_csr_pem\<close> and \<^verbatim>\<open>validate_issued_certificate\<close>, the latter equal to a declarative policy.
  \<^item> \<open>SwitchCli\<close>, \<open>SshSession\<close>, \<open>SwitchOperations\<close>, \<open>InstallDialogue\<close>: what is read from and written to a
    switch.  The installation refines a state machine of the dialogue.
  \<^item> \<open>BaseUrl\<close>, \<open>OpnsenseClient\<close>: the client of the authority.  \<open>LiveHttps\<close>: the check of the live certificate.
    \<open>ConnectionPolicy\<close>: the settings of TLS and SSH connections.
  \<^item> \<open>SecureFile\<close>, \<open>LifecycleLock\<close>: trusted files and the lock of a switch.  \<open>OutputPolicy\<close>, \<open>RunResult\<close>,
    \<open>JsonReport\<close>: text for the terminal, the structured result, and how events and errors change it.
  \<^item> \<open>Renewal\<close>: \<^verbatim>\<open>renew_certificate\<close> and what its report means.  \<open>JsonRun\<close>, \<open>JsonResults\<close>, \<open>JsonEffects\<close>: the
    structured run, that it reports every target, and that its reports are true.  \<open>HumanRun\<close>, \<open>HumanEffects\<close>:
    the run for an operator.  \<open>SampleRun\<close>: a complete renewal in a concrete environment.
  \<^item> \<open>BoundedPacketizer\<close>, \<open>IdentificationLines\<close> (\<^verbatim>\<open>bounded_paramiko.py\<close>), \<open>AnsiGuard\<close>, \<open>BoundedChannel\<close>
    (\<^verbatim>\<open>bounded_netmiko.py\<close>): the limits on what a switch can make a run read.  Paramiko and Netmiko are any
    programs that call the packetizer and the channel.

  \<^bold>\<open>The release\<close> (\<^verbatim>\<open>scripts/\<close>).  \<open>CiPolicy\<close> (\<^verbatim>\<open>ci_policy.py\<close>, \<^verbatim>\<open>release_qualification.py\<close>), \<open>ReleaseTag\<close>
  (\<^verbatim>\<open>validate_release_tag.py\<close>, \<^verbatim>\<open>verify_release_signature.py\<close>), \<open>VulnerabilityGate\<close>
  (\<^verbatim>\<open>compare_container_vulnerabilities.py\<close>), and for \<^verbatim>\<open>release_candidate.py\<close> in the order of its work:
  \<open>ArchivePreflight\<close> (blocks of the tar file), \<open>CandidateImage\<close> (members, descriptions, layers, the identity of
  the image), \<open>SpdxDocument\<close> (the bill of materials) and \<open>CandidateManifest\<close> (files and the manifest).

  \<^bold>\<open>Interfaces.\<close>  \<open>text_form\<close> states what reading and writing a canonical text promise; both address formats
  provide it.  \<open>read_law\<close> is what an invariant must survive for the reading operations; \<open>signing_law\<close> and
  \<open>install_law\<close> extend it by the authority and the installation, \<open>run_law\<close> joins them, \<open>target_law\<close> and
  \<open>change_law\<close> add the connectives of the structured run, \<open>human_law\<close> and \<open>human_change_law\<close> those of the run
  for an operator.  Each is interpreted on invariants of the model: the evidence in the report, the trace of
  actions (nothing harmful sent, nobody asked, only reading), the lock that is held.  \<open>connection_law\<close> is what
  any Netmiko preserves through the bounded channel.

  \<^bold>\<open>What is shown.\<close>  Truth of reports and verdicts (a target reported as untouched is untouched, a renewal
  reported as done was checked, installed and presented); order of the dialogue; effects only under the lock and
  only with validated material; at most one signing request; bounds on bytes received and on time; equality with
  declarative policies; that results come for every switch; and for releases that a gate passes only what its
  policy allows, that accepted data are laid out as stated, and that a manifest states only what was established.

  \<^bold>\<open>Fuel and termination.\<close>  Loops whose end depends on the environment's clock take fuel: \<open>https_rounds\<close> bounds the
  attempts of the live check and is enough when the clock runs; \<open>text_rounds\<close> the reads
  of an identification line, enough when a read that times out takes time.  Inflating a
  compressed stream is a partial function, \<open>None\<close> where it never ends; it ends when the decompressor makes
  progress.  All other definitions are total.

  \<^bold>\<open>Conventions and limits.\<close>  Characters are code points below 256 and bytes are characters; \<open>AnsiGuard\<close>,
  \<open>BoundedChannel\<close> and the percent-decoding of \<open>SpdxDocument\<close> use lists of code points.  Times are integers:
  milliseconds of the monotonic clock, microseconds of UTC.  Passwords are not part of the action that connects,
  and the authorization header not of the request; TOML's dates have no counterpart; the text of an
  \<^verbatim>\<open>AttributeError\<close> or \<^verbatim>\<open>TypeError\<close> raised by the interpreter is empty, and the class name an unexpected exception
  is reported with is a parameter, as are the identifier and the time of a run.  In a structured run the text that
  is printed on the way is discarded, as the program does.  The cryptography package, the TOML and JSON scanners,
  SHA-1 and SHA-256, GnuPG, \<^verbatim>\<open>dpkg\<close>, \<^verbatim>\<open>zlib\<close>, \<^verbatim>\<open>gzip\<close>, \<^verbatim>\<open>bz2\<close>, \<^verbatim>\<open>tarfile\<close>, sockets, Paramiko, Netmiko and the file system
  are parameters; what a theorem relies on of them is one of its hypotheses.

  \<^bold>\<open>Not modelled.\<close>  The definitions of the command lines (\<^verbatim>\<open>argparse\<close>) and of logging, which have no logic of
  their own; the tests; packaging and deployment.
\<close>

end
